(* ===== verification/Prelude.thy ===== *)
theory Prelude
  imports Complex_Main
begin

text \<open>
  What every component shares: the exceptions of the program, computations that read and write a
  state and may raise (the state survives an exception, as Python's objects do), the
  \<^verbatim>\<open>try/except\<close> and \<^verbatim>\<open>try/finally\<close> forms, loops that stop at the first exception, insertion
  ordered dictionaries, and the decimal texts that the code builds with f-strings and reads back
  with \<^verbatim>\<open>int\<close> and \<^verbatim>\<open>float\<close>.
\<close>

named_theorems keeps_intros \<open>rules that a computation keeps an invariant of its state\<close>
named_theorems act_simps \<open>unfolding rules for the state and exception combinators\<close>

section \<open>Exceptions\<close>

text \<open>
  One constructor per exception class the modelled code raises or lets through. A message is kept
  where the program itself builds it; \<open>External\<close> is an exception raised by code outside the
  repository (the command line runner, a socket, a library).
\<close>

datatype exn =
    InvalidRequestError string
  | UnableToPatchDeviceError patch_msg bool
  | NoSuchDevice string
  | ValueError string
  | KeyError string
  | TypeError
  | AttributeError
  | StopIteration
  | IndexError
  | ZeroDivisionError
  | ProcessExecutionError string
  | RuntimeError string
  | NotImplementedError
  | TimeoutError
  | External string
and patch_msg =
    PatchText string
  | MemberErrors string string "(string \<times> exn) list"

section \<open>Computations over a state that may raise\<close>

type_synonym ('s, 'a) act = "'s \<Rightarrow> (exn + 'a) \<times> 's"

definition ok :: "'a \<Rightarrow> ('s, 'a) act" where
  "ok x s = (Inr x, s)"

definition raise :: "exn \<Rightarrow> ('s, 'a) act" where
  "raise e s = (Inl e, s)"

definition and_then :: "('s, 'a) act \<Rightarrow> ('a \<Rightarrow> ('s, 'b) act) \<Rightarrow> ('s, 'b) act" where
  "and_then m f s = (case m s of (Inl e, s') \<Rightarrow> (Inl e, s') | (Inr x, s') \<Rightarrow> f x s')"

definition try_except :: "('s, 'a) act \<Rightarrow> (exn \<Rightarrow> ('s, 'a) act) \<Rightarrow> ('s, 'a) act" where
  "try_except m h s = (case m s of (Inl e, s') \<Rightarrow> h e s' | (Inr x, s') \<Rightarrow> (Inr x, s'))"

text \<open>An exception of the \<^verbatim>\<open>finally\<close> block replaces the result of the \<^verbatim>\<open>try\<close> block.\<close>

definition try_finally :: "('s, 'a) act \<Rightarrow> ('s, unit) act \<Rightarrow> ('s, 'a) act" where
  "try_finally m f s =
     (case m s of (r, s') \<Rightarrow> (case f s' of (Inl e, s'') \<Rightarrow> (Inl e, s'') | (Inr _, s'') \<Rightarrow> (r, s'')))"

definition modify :: "('s \<Rightarrow> 's) \<Rightarrow> ('s, unit) act" where
  "modify f s = (Inr (), f s)"

text \<open>A result computed without touching the state.\<close>

definition lift_result :: "exn + 'a \<Rightarrow> ('s, 'a) act" where
  "lift_result r s = (r, s)"

text \<open>A computation on one field of a record, given by its selector and its update function.\<close>

definition zoom :: "('r \<Rightarrow> 'f) \<Rightarrow> (('f \<Rightarrow> 'f) \<Rightarrow> 'r \<Rightarrow> 'r) \<Rightarrow> ('f, 'a) act \<Rightarrow> ('r, 'a) act" where
  "zoom sel upd m s = (case m (sel s) of (r, x) \<Rightarrow> (r, upd (\<lambda>_. x) s))"

text \<open>\<^verbatim>\<open>for x in xs\<close> with a body that may raise.\<close>

fun for_each :: "('x \<Rightarrow> ('s, unit) act) \<Rightarrow> 'x list \<Rightarrow> ('s, unit) act" where
  "for_each f [] s = (Inr (), s)"
| "for_each f (x # xs) s =
     (case f x s of (Inl e, s') \<Rightarrow> (Inl e, s') | (Inr _, s') \<Rightarrow> for_each f xs s')"

lemmas act_defs [act_simps] =
  ok_def raise_def and_then_def try_except_def try_finally_def modify_def lift_result_def

lemma and_then_ok [simp]: "and_then (ok x) f = f x"
  by (rule ext) (simp add: act_simps)

lemma and_then_raise [simp]: "and_then (raise e) f = raise e"
  by (rule ext) (simp add: act_simps)

lemma and_then_assoc: "and_then (and_then m f) g = and_then m (\<lambda>x. and_then (f x) g)"
  by (rule ext) (auto simp: act_simps split: prod.split sum.split)

lemma for_each_append:
  "for_each f (xs @ ys) s =
     (case for_each f xs s of (Inl e, s') \<Rightarrow> (Inl e, s') | (Inr _, s') \<Rightarrow> for_each f ys s')"
  by (induction xs arbitrary: s) (auto split: prod.split sum.split)

text \<open>An invariant that every body keeps, whether it returns or raises, survives the loop.\<close>

lemma for_each_invariant:
  assumes step: "\<And>x s. x \<in> set xs \<Longrightarrow> P s \<Longrightarrow> P (snd (f x s))" and "P s"
  shows "P (snd (for_each f xs s))"
  using assms
proof (induction xs arbitrary: s)
  case Nil
  then show ?case by simp
next
  case (Cons x xs)
  have "P (snd (f x s))" using Cons.prems by simp
  then have "P (snd (for_each f xs (snd (f x s))))"
    using Cons.IH Cons.prems(1) by simp
  with \<open>P (snd (f x s))\<close> show ?case by (auto split: prod.split sum.split)
qed

lemma for_each_all_ok:
  assumes "\<And>x s. x \<in> set xs \<Longrightarrow> f x s = (Inr (), g x s)"
  shows "for_each f xs s = (Inr (), fold g xs s)"
  using assms by (induction xs arbitrary: s) auto

section \<open>Computations that keep an invariant\<close>

text \<open>\<open>maintains P m\<close>: \<open>m\<close> keeps \<open>P\<close>, whether it returns or raises.\<close>

definition maintains :: "('s \<Rightarrow> bool) \<Rightarrow> ('s, 'a) act \<Rightarrow> bool" where
  "maintains P m \<longleftrightarrow> (\<forall>s. P s \<longrightarrow> P (snd (m s)))"

lemma maintainsD: "maintains P m \<Longrightarrow> P s \<Longrightarrow> P (snd (m s))"
  by (simp add: maintains_def)

lemma maintains_pure [keeps_intros]:
  "maintains P (ok x)" "maintains P (raise e)" "maintains P (lift_result r)"
  by (simp_all add: maintains_def act_simps)

lemma maintains_and_then [keeps_intros]:
  assumes "maintains P m" and "\<And>x. maintains P (f x)"
  shows "maintains P (and_then m f)"
  unfolding maintains_def
proof (intro allI impI)
  fix s assume "P s"
  then have "P (snd (m s))" using assms(1) by (simp add: maintains_def)
  then show "P (snd (and_then m f s))"
    using assms(2) by (auto simp: and_then_def maintains_def split: prod.split sum.split)
qed

lemma maintains_try_except [keeps_intros]:
  assumes "maintains P m" and "\<And>e. maintains P (h e)"
  shows "maintains P (try_except m h)"
  unfolding maintains_def
proof (intro allI impI)
  fix s assume "P s"
  then have "P (snd (m s))" using assms(1) by (simp add: maintains_def)
  then show "P (snd (try_except m h s))"
    using assms(2) by (auto simp: try_except_def maintains_def split: prod.split sum.split)
qed

lemma maintains_for_each [keeps_intros]: "(\<And>x. maintains P (f x)) \<Longrightarrow> maintains P (for_each f xs)"
  unfolding maintains_def by (blast intro: for_each_invariant)

lemma maintains_if [keeps_intros]:
  "(b \<Longrightarrow> maintains P m) \<Longrightarrow> (\<not> b \<Longrightarrow> maintains P n) \<Longrightarrow> maintains P (if b then m else n)"
  by simp

section \<open>The pure loops over fallible functions\<close>

fun map_result :: "('x \<Rightarrow> exn + 'y) \<Rightarrow> 'x list \<Rightarrow> exn + 'y list" where
  "map_result f [] = Inr []"
| "map_result f (x # xs) =
     (case f x of Inl e \<Rightarrow> Inl e
      | Inr y \<Rightarrow> (case map_result f xs of Inl e \<Rightarrow> Inl e | Inr ys \<Rightarrow> Inr (y # ys)))"

lemma map_result_InrD: "map_result f xs = Inr ys \<Longrightarrow> list_all2 (\<lambda>x y. f x = Inr y) xs ys"
  by (induction xs arbitrary: ys) (auto split: sum.splits)

lemma map_result_InrI: "list_all2 (\<lambda>x y. f x = Inr y) xs ys \<Longrightarrow> map_result f xs = Inr ys"
  by (induction rule: list_all2_induct) auto

lemma map_result_Inr_iff:
  "map_result f xs = Inr ys \<longleftrightarrow> list_all2 (\<lambda>x y. f x = Inr y) xs ys"
  by (blast intro: map_result_InrI dest: map_result_InrD)

lemma map_result_length: "map_result f xs = Inr ys \<Longrightarrow> length ys = length xs"
  by (auto simp: map_result_Inr_iff dest: list_all2_lengthD)

lemma map_result_Inl: "map_result f xs = Inl e \<Longrightarrow> \<exists>x\<in>set xs. f x = Inl e"
  by (induction xs) (auto split: sum.splits)

lemma map_result_total: "\<forall>x \<in> set xs. \<exists>y. f x = Inr y \<Longrightarrow> \<exists>ys. map_result f xs = Inr ys"
  by (induction xs) auto

section \<open>Insertion ordered dictionaries\<close>

text \<open>
  A Python \<^verbatim>\<open>dict\<close> iterates in insertion order and assignment to a present key keeps its place.
  Keys of the lists are distinct in every dictionary the program builds.
\<close>

type_synonym ('k, 'v) pydict = "('k \<times> 'v) list"

abbreviation keys :: "('k, 'v) pydict \<Rightarrow> 'k list" where
  "keys d \<equiv> map fst d"

fun dict_set :: "('k, 'v) pydict \<Rightarrow> 'k \<Rightarrow> 'v \<Rightarrow> ('k, 'v) pydict" where
  "dict_set [] k v = [(k, v)]"
| "dict_set ((k', v') # d) k v = (if k' = k then (k, v) # d else (k', v') # dict_set d k v)"

definition dict_get :: "('k, 'v) pydict \<Rightarrow> 'k \<Rightarrow> 'v \<Rightarrow> 'v" where
  "dict_get d k v = (case map_of d k of None \<Rightarrow> v | Some x \<Rightarrow> x)"

definition dict_pop :: "('k, 'v) pydict \<Rightarrow> 'k \<Rightarrow> ('k, 'v) pydict" where
  "dict_pop d k = filter (\<lambda>p. fst p \<noteq> k) d"

definition dict_update :: "('k, 'v) pydict \<Rightarrow> ('k, 'v) pydict \<Rightarrow> ('k, 'v) pydict" where
  "dict_update d e = foldl (\<lambda>acc p. dict_set acc (fst p) (snd p)) d e"

lemma map_of_dict_set [simp]: "map_of (dict_set d k v) = (map_of d)(k \<mapsto> v)"
  by (induction d) (auto simp: fun_eq_iff)

lemma keys_dict_set: "keys (dict_set d k v) = (if k \<in> set (keys d) then keys d else keys d @ [k])"
  by (induction d) (force split: if_splits)+

lemma set_keys_dict_set [simp]: "fst ` set (dict_set d k v) = insert k (fst ` set d)"
  using arg_cong [OF keys_dict_set [of d k v], of set] by (auto split: if_splits)

lemma distinct_keys_dict_set [simp]: "distinct (keys (dict_set d k v)) = distinct (keys d)"
  by (simp add: keys_dict_set)

lemma dict_update_Nil [simp]: "dict_update d [] = d"
  by (simp add: dict_update_def)

lemma dict_update_Cons: "dict_update d (p # e) = dict_update (dict_set d (fst p) (snd p)) e"
  by (simp add: dict_update_def)

lemma map_of_dict_update:
  "distinct (keys e) \<Longrightarrow> map_of (dict_update d e) = map_of d ++ map_of e"
proof (induction e arbitrary: d)
  case Nil
  then show ?case by simp
next
  case (Cons p e)
  then have "map_of e (fst p) = None" by (auto simp: map_of_eq_None_iff)
  with Cons show ?case
    by (cases p) (auto simp: dict_update_Cons fun_eq_iff map_add_def split: option.split)
qed

lemma set_keys_dict_update [simp]: "fst ` set (dict_update d e) = fst ` set d \<union> fst ` set e"
  by (induction e arbitrary: d) (auto simp: dict_update_Cons)

lemma distinct_keys_dict_update [simp]: "distinct (keys (dict_update d e)) = distinct (keys d)"
  by (induction e arbitrary: d) (auto simp: dict_update_Cons)

lemma map_of_dict_pop [simp]: "map_of (dict_pop d k) = (map_of d)(k := None)"
  by (induction d) (auto simp: dict_pop_def fun_eq_iff)

lemma dict_set_fresh: "n \<notin> fst ` set d \<Longrightarrow> dict_set d n v = d @ [(n, v)]"
  by (induction d) auto

lemma dict_update_distinct: "distinct (keys e) \<Longrightarrow> set (keys d) \<inter> set (keys e) = {} \<Longrightarrow> dict_update d e = d @ e"
  by (induction e arbitrary: d) (auto simp: dict_update_Cons dict_set_fresh)

lemma set_dict_set: "set (dict_set d k v) \<subseteq> insert (k, v) (set d)"
  by (induction d) (auto split: if_splits)

lemma set_dict_get: "dict_get d k [] = v \<Longrightarrow> v \<noteq> [] \<Longrightarrow> v \<in> snd ` set d"
  by (force simp: dict_get_def split: option.splits dest: map_of_SomeD)

lemma snd_dict_set: "snd ` set (dict_set d k v) \<subseteq> insert v (snd ` set d)"
  using set_dict_set [of d k v] by force

section \<open>Lists of distinct pieces\<close>

lemma distinct_remove1_filter: "distinct xs \<Longrightarrow> remove1 c xs = filter (\<lambda>x. x \<noteq> c) xs"
  by (induction xs) (auto intro!: filter_True [symmetric])

lemma concat_map_concat_map: "concat (map h (concat (map k xs))) = concat (map (\<lambda>x. concat (map h (k x))) xs)"
  by (induction xs) simp_all

lemma distinct_concat_map:
  assumes "distinct xs" and "\<And>x. x \<in> set xs \<Longrightarrow> distinct (f x)"
    and "\<And>x y. x \<in> set xs \<Longrightarrow> y \<in> set xs \<Longrightarrow> x \<noteq> y \<Longrightarrow> set (f x) \<inter> set (f y) = {}"
  shows "distinct (concat (map f xs))"
  using assms
proof (induction xs)
  case (Cons x xs)
  have "set (f x) \<inter> set (f y) = {}" if "y \<in> set xs" for y
    using Cons.prems(1,3) that by (metis distinct.simps(2) list.set_intros(1,2))
  then have "set (f x) \<inter> (\<Union>y\<in>set xs. set (f y)) = {}" by blast
  with Cons show ?case by simp
qed simp

end
