(* ===== verification/Text.thy ===== *)
theory Text
  imports Prelude
begin

text \<open>
  The decimal texts of the program: \<^verbatim>\<open>str\<close> of an integer, \<^verbatim>\<open>int\<close> of a text, the \<^verbatim>\<open>:.2f\<close> format of a
  float and \<^verbatim>\<open>float\<close> of such a text, with the round trips between them. A Python float is
  modelled by the rational it denotes (no infinities, no NaN, no negative zero); \<^verbatim>\<open>:.2f\<close> rounds that
  exact value half to even, as Python does.
\<close>

section \<open>Digits\<close>

definition digit_char :: "nat \<Rightarrow> char" where
  "digit_char n = ''0123456789'' ! n"

definition digit_val :: "char \<Rightarrow> nat option" where
  "digit_val c = map_of (zip ''0123456789'' [0, 1, 2, 3, 4, 5, 6, 7, 8, 9]) c"

definition is_digit :: "char \<Rightarrow> bool" where
  "is_digit c \<longleftrightarrow> digit_val c \<noteq> None"

lemma less_10_cases: "n < 10 \<Longrightarrow> n \<in> {0, 1, 2, 3, 4, 5, 6, 7, 8, 9 :: nat}"
  by auto

lemma digit_val_char [simp]: "n < 10 \<Longrightarrow> digit_val (digit_char n) = Some n"
  by (drule less_10_cases) (auto simp: digit_val_def digit_char_def)

lemma is_digit_char [simp]: "n < 10 \<Longrightarrow> is_digit (digit_char n)"
  by (simp add: is_digit_def)

text \<open>The value of a run of digits; \<open>None\<close> when a character is not one.\<close>

fun digits_from :: "nat \<Rightarrow> string \<Rightarrow> nat option" where
  "digits_from a [] = Some a"
| "digits_from a (c # cs) =
     (case digit_val c of None \<Rightarrow> None | Some d \<Rightarrow> digits_from (10 * a + d) cs)"

lemma digits_from_append:
  "digits_from a (xs @ ys) = (case digits_from a xs of None \<Rightarrow> None | Some b \<Rightarrow> digits_from b ys)"
  by (induction xs arbitrary: a) (auto split: option.split)

section \<open>Integers\<close>

fun show_nat :: "nat \<Rightarrow> string" where
  "show_nat n = (if n < 10 then [digit_char n] else show_nat (n div 10) @ [digit_char (n mod 10)])"

declare show_nat.simps [simp del]

definition show_int :: "int \<Rightarrow> string" where
  "show_int i = (if i < 0 then CHR ''-'' # show_nat (nat (- i)) else show_nat (nat i))"

lemma show_nat_ne [simp]: "show_nat n \<noteq> []"
  by (subst show_nat.simps) simp

lemma show_nat_digits: "c \<in> set (show_nat n) \<Longrightarrow> is_digit c"
proof (induction n rule: show_nat.induct)
  case (1 n)
  then show ?case
    by (cases "n < 10") (auto simp: show_nat.simps [of n])
qed

lemma digits_from_show_nat: "digits_from 0 (show_nat n) = Some n"
proof (induction n rule: show_nat.induct)
  case (1 n)
  then show ?case
    by (cases "n < 10") (simp_all add: show_nat.simps [of n] digits_from_append)
qed

lemma show_nat_inject [simp]: "show_nat m = show_nat n \<longleftrightarrow> m = n"
  using digits_from_show_nat by (metis option.inject)

lemma hd_show_nat_digit: "is_digit (hd (show_nat n))"
  using show_nat_digits [of "hd (show_nat n)" n] by simp

lemma is_digit_simps [simp]:
  "\<not> is_digit (CHR ''-'')" "\<not> is_digit (CHR ''+'')" "\<not> is_digit (CHR ''.'')"
  "\<not> is_digit (CHR '' '')" "\<not> is_digit (CHR ''_'')"
  by (simp_all add: is_digit_def digit_val_def)

lemma show_int_inject [simp]: "show_int i = show_int j \<longleftrightarrow> i = j"
proof
  have neg: "CHR ''-'' # xs \<noteq> show_nat n" for xs n
    using hd_show_nat_digit [of n] by (cases "show_nat n") auto
  assume "show_int i = show_int j"
  then show "i = j"
    by (auto simp: show_int_def neg neg [symmetric] split: if_splits)
qed simp

text \<open>
  \<^verbatim>\<open>int(s)\<close> on an ASCII text: surrounding blanks are ignored, one sign is allowed, and single
  underscores may separate digits. \<open>None\<close> is the \<^verbatim>\<open>ValueError\<close>.
\<close>

definition is_blank :: "char \<Rightarrow> bool" where
  "is_blank c \<longleftrightarrow> c \<in> {CHR '' '', CHR 0x09, CHR 0x0A, CHR 0x0B, CHR 0x0C, CHR 0x0D}"

definition strip :: "string \<Rightarrow> string" where
  "strip s = rev (dropWhile is_blank (rev (dropWhile is_blank s)))"

fun uscore_ok :: "string \<Rightarrow> bool" where
  "uscore_ok [] = False"
| "uscore_ok [c] = is_digit c"
| "uscore_ok (c # d # cs) =
     (is_digit c \<and> (if d = CHR ''_'' then uscore_ok cs else uscore_ok (d # cs)))"

definition parse_nat :: "string \<Rightarrow> nat option" where
  "parse_nat s = (if uscore_ok s then digits_from 0 (filter is_digit s) else None)"

definition py_int :: "string \<Rightarrow> int option" where
  "py_int s =
     (case strip s of
        [] \<Rightarrow> None
      | c # cs \<Rightarrow>
          if c = CHR ''-'' then map_option (\<lambda>n. - int n) (parse_nat cs)
          else if c = CHR ''+'' then map_option int (parse_nat cs)
          else map_option int (parse_nat (c # cs)))"

lemma uscore_ok_digits: "s \<noteq> [] \<Longrightarrow> (\<And>c. c \<in> set s \<Longrightarrow> is_digit c) \<Longrightarrow> uscore_ok s"
proof (induction s rule: uscore_ok.induct)
  case (3 c d cs)
  have "is_digit c" and "is_digit d" using "3.prems"(2) by simp_all
  then have "d \<noteq> CHR ''_''" by auto
  then have "uscore_ok (d # cs)" using "3.prems"(2) by (intro "3.IH"(2)) simp_all
  with \<open>is_digit c\<close> \<open>d \<noteq> CHR ''_''\<close> show ?case by simp
qed simp_all

lemma parse_nat_show_nat [simp]: "parse_nat (show_nat n) = Some n"
proof -
  have "filter is_digit (show_nat n) = show_nat n"
    by (simp add: filter_id_conv show_nat_digits)
  then show ?thesis
    by (simp add: parse_nat_def uscore_ok_digits show_nat_digits digits_from_show_nat)
qed

lemma is_blank_digit: "is_digit c \<Longrightarrow> \<not> is_blank c"
  by (auto simp: is_blank_def is_digit_def digit_val_def split: if_splits)

lemma is_blank_minus [simp]: "\<not> is_blank (CHR ''-'')"
  by (simp add: is_blank_def)

lemma show_nat_no_blank: "c \<in> set (show_nat n) \<Longrightarrow> \<not> is_blank c"
  by (simp add: is_blank_digit show_nat_digits)

lemma dropWhile_none: "(\<And>c. c \<in> set s \<Longrightarrow> \<not> P c) \<Longrightarrow> dropWhile P s = s"
  by (cases s) simp_all

lemma strip_no_blank: "(\<And>c. c \<in> set s \<Longrightarrow> \<not> is_blank c) \<Longrightarrow> strip s = s"
proof -
  assume no: "\<And>c. c \<in> set s \<Longrightarrow> \<not> is_blank c"
  then have "dropWhile is_blank s = s" by (rule dropWhile_none)
  moreover have "dropWhile is_blank (rev s) = rev s" using no by (intro dropWhile_none) simp
  ultimately show ?thesis by (simp add: strip_def)
qed

lemma strip_show_int: "strip (show_int i) = show_int i"
  by (intro strip_no_blank) (auto simp: show_int_def show_nat_no_blank split: if_splits)

lemma py_int_show_int [simp]: "py_int (show_int i) = Some i"
proof (cases "i < 0")
  case True
  then show ?thesis
    using strip_show_int [of i] by (simp add: py_int_def show_int_def)
next
  case False
  obtain c cs where cs: "show_nat (nat i) = c # cs" by (cases "show_nat (nat i)") simp_all
  have "c \<noteq> CHR ''-''" and "c \<noteq> CHR ''+''"
    using hd_show_nat_digit [of "nat i"] cs by auto
  moreover have "parse_nat (c # cs) = Some (nat i)"
    using parse_nat_show_nat [of "nat i"] cs by simp
  moreover have "strip (c # cs) = c # cs"
    using strip_show_int [of i] False cs by (simp add: show_int_def)
  ultimately show ?thesis
    using False cs by (simp add: py_int_def show_int_def)
qed

section \<open>Floats\<close>

type_synonym float_val = rat

definition round_half_even :: "'a::floor_ceiling \<Rightarrow> int" where
  "round_half_even x =
     (let f = \<lfloor>x\<rfloor>; d = x - of_int f
      in if d < 1 / 2 then f else if 1 / 2 < d then f + 1 else if even f then f else f + 1)"

text \<open>The hundredths that \<^verbatim>\<open>:.2f\<close> prints, and the value it denotes.\<close>

definition hundredths :: "rat \<Rightarrow> nat" where
  "hundredths x = nat (round_half_even (\<bar>x\<bar> * 100))"

definition two_digits :: "nat \<Rightarrow> string" where
  "two_digits n = [digit_char (n div 10 mod 10), digit_char (n mod 10)]"

definition fmt2 :: "rat \<Rightarrow> string" where
  "fmt2 x =
     (if x < 0 then ''-'' else '''') @ show_nat (hundredths x div 100) @ ''.''
       @ two_digits (hundredths x mod 100)"

definition round2 :: "rat \<Rightarrow> rat" where
  "round2 x = (if x < 0 then - 1 else 1) * of_nat (hundredths x) / 100"

lemma round_half_even_of_int [simp]: "round_half_even (of_int i) = i"
  by (simp add: round_half_even_def)

lemma round_half_even_bounds: "\<bar>of_int (round_half_even x) - x\<bar> \<le> 1 / 2"
proof -
  have "of_int \<lfloor>x\<rfloor> \<le> x" and "x < of_int \<lfloor>x\<rfloor> + 1" by linarith+
  then show ?thesis
    by (auto simp: round_half_even_def Let_def abs_le_iff)
qed

lemma round_half_even_nonneg: "0 \<le> x \<Longrightarrow> 0 \<le> round_half_even x"
  by (auto simp: round_half_even_def Let_def)

lemma hundredths_error: "\<bar>of_nat (hundredths x) - \<bar>x\<bar> * 100\<bar> \<le> 1 / 2"
proof -
  have "0 \<le> round_half_even (\<bar>x\<bar> * 100)" by (rule round_half_even_nonneg) simp
  then have "(of_nat (hundredths x) :: rat) = of_int (round_half_even (\<bar>x\<bar> * 100))"
    by (simp add: hundredths_def)
  then show ?thesis using round_half_even_bounds [of "\<bar>x\<bar> * 100"] by simp
qed

lemma round2_error: "\<bar>round2 x - x\<bar> \<le> 1 / 200"
proof (cases "x < 0")
  case True
  then have "\<bar>of_nat (hundredths x) - - x * 100\<bar> \<le> 1 / 2" using hundredths_error [of x] by simp
  with True show ?thesis unfolding abs_le_iff by (simp add: round2_def field_simps)
next
  case False
  then have "\<bar>of_nat (hundredths x) - x * 100\<bar> \<le> 1 / 2" using hundredths_error [of x] by simp
  with False show ?thesis unfolding abs_le_iff by (simp add: round2_def field_simps)
qed

lemma round2_exact:
  assumes "x = of_int k / 100"
  shows "round2 x = x"
proof -
  have "\<bar>x\<bar> * 100 = of_int \<bar>k\<bar>" using assms by simp
  then have h: "hundredths x = nat \<bar>k\<bar>"
    by (simp only: hundredths_def round_half_even_of_int)
  show ?thesis
  proof (cases "k < 0")
    case True
    with assms h show ?thesis by (simp add: round2_def)
  next
    case False
    with assms h show ?thesis by (simp add: round2_def)
  qed
qed

text \<open>
  \<^verbatim>\<open>float(s)\<close> on the texts the pattern \<^verbatim>\<open>[-+]?\d*\.\d+|\d+\<close> lets through.
\<close>

definition py_float :: "string \<Rightarrow> rat option" where
  "py_float s =
     (let neg = (s \<noteq> [] \<and> hd s = CHR ''-'');
          body = (if s \<noteq> [] \<and> hd s \<in> {CHR ''-'', CHR ''+''} then tl s else s);
          ip = takeWhile is_digit body; rest = dropWhile is_digit body
      in case rest of
           [] \<Rightarrow> (if ip = [] then None
                 else map_option (\<lambda>n. (if neg then - 1 else 1) * of_nat n) (digits_from 0 ip))
         | c # fp \<Rightarrow>
             if c \<noteq> CHR ''.'' \<or> (ip = [] \<and> fp = []) then None
             else (case digits_from 0 (ip @ fp) of
                     None \<Rightarrow> None
                   | Some n \<Rightarrow>
                       Some ((if neg then - 1 else 1) * of_nat n / 10 ^ length fp)))"

lemma digits_from_two_digits: "n < 100 \<Longrightarrow> digits_from a (two_digits n) = Some (100 * a + n)"
  by (simp add: two_digits_def)

lemma takeWhile_show_nat [simp]: "takeWhile is_digit (show_nat n @ CHR ''.'' # s) = show_nat n"
  and dropWhile_show_nat [simp]:
    "dropWhile is_digit (show_nat n @ CHR ''.'' # s) = CHR ''.'' # s"
  by (simp_all add: takeWhile_append2 dropWhile_append2 show_nat_digits)

lemma fmt2_py_float: "py_float (fmt2 x) = Some (round2 x)"
proof -
  define h where "h = hundredths x"
  have val: "digits_from 0 (show_nat (h div 100) @ two_digits (h mod 100)) = Some h"
    by (simp add: digits_from_append digits_from_show_nat digits_from_two_digits)
  have len: "length (two_digits (h mod 100)) = 2" by (simp add: two_digits_def)
  have hd: "hd (show_nat (h div 100) @ s) \<notin> {CHR ''-'', CHR ''+''}" for s
    using hd_show_nat_digit [of "h div 100"] by auto
  show ?thesis
    using hd val len
    by (cases "x < 0") (simp_all add: py_float_def fmt2_def round2_def h_def [symmetric] Let_def)
qed

section \<open>Joining, splitting and prefixes\<close>

fun join :: "string \<Rightarrow> string list \<Rightarrow> string" where
  "join sep [] = []"
| "join sep [x] = x"
| "join sep (x # y # xs) = x @ sep @ join sep (y # xs)"

text \<open>\<^verbatim>\<open>s.split(c)\<close> for a separator of one character.\<close>

fun split_on :: "char \<Rightarrow> string \<Rightarrow> string list" where
  "split_on c [] = [[]]"
| "split_on c (x # xs) =
     (if x = c then [] # split_on c xs
      else (case split_on c xs of [] \<Rightarrow> [[x]] | p # ps \<Rightarrow> (x # p) # ps))"

definition starts_with :: "string \<Rightarrow> string \<Rightarrow> bool" where
  "starts_with p s \<longleftrightarrow> take (length p) s = p"

lemma split_on_ne [simp]: "split_on c s \<noteq> []"
  by (induction s) (auto split: list.split)

lemma split_on_no_sep: "c \<notin> set s \<Longrightarrow> split_on c s = [s]"
  by (induction s) auto

lemma split_on_append: "c \<notin> set s \<Longrightarrow> split_on c (s @ c # t) = s # split_on c t"
  by (induction s) (auto split: list.split)

lemma split_on_join:
  "xs \<noteq> [] \<Longrightarrow> (\<And>x. x \<in> set xs \<Longrightarrow> c \<notin> set x) \<Longrightarrow> split_on c (join [c] xs) = xs"
  by (induction "[c]" xs rule: join.induct) (auto simp: split_on_no_sep split_on_append)

lemma join_Cons: "join sep (x # xs) = x @ (if xs = [] then [] else sep @ join sep xs)"
  by (cases xs) simp_all

lemma set_join: "set (join sep ls) \<subseteq> set sep \<union> \<Union> (set ` set ls)"
  by (induction ls) (auto simp: join_Cons split: if_splits)

lemma starts_with_append [simp]: "starts_with p (p @ s)"
  by (simp add: starts_with_def)

section \<open>Case\<close>

text \<open>\<^verbatim>\<open>s.lower()\<close>, which changes the letters A to Z; other characters are below 128 too.\<close>

definition lower_char :: "char \<Rightarrow> char" where
  "lower_char c = (let n = of_char c :: nat in if 65 \<le> n \<and> n \<le> 90 then char_of (n + 32) else c)"

definition lower :: "string \<Rightarrow> string" where
  "lower s = map lower_char s"

end
