(* ===== verification/Json.thy ===== *)
theory Json
  imports Text
begin

text \<open>
  JSON values as the program handles them: request payloads, cache files, device status reports and
  the serialised states. The accessors raise what Python raises on a value of the wrong shape.
  \<^verbatim>\<open>json.loads (json.dumps v)\<close> is taken to be \<open>v\<close> (the order of an object's keys, which
  \<^verbatim>\<open>sort_keys\<close> changes, is not observed by any reader).
\<close>

datatype json =
    JNull
  | JBool bool
  | JNum rat
  | JStr string
  | JList "json list"
  | JObj "(string \<times> json) list"

type_synonym obj = "(string \<times> json) list"

text \<open>\<^verbatim>\<open>bool(v)\<close>\<close>

fun truthy :: "json \<Rightarrow> bool" where
  "truthy JNull = False"
| "truthy (JBool b) = b"
| "truthy (JNum r) = (r \<noteq> 0)"
| "truthy (JStr s) = (s \<noteq> [])"
| "truthy (JList xs) = (xs \<noteq> [])"
| "truthy (JObj d) = (d \<noteq> [])"

fun is_obj :: "json \<Rightarrow> bool" where
  "is_obj (JObj _) = True"
| "is_obj _ = False"

text \<open>\<^verbatim>\<open>v[k]\<close> for a text \<open>k\<close>\<close>

fun jget :: "json \<Rightarrow> string \<Rightarrow> exn + json" where
  "jget (JObj d) k = (case map_of d k of None \<Rightarrow> Inl (KeyError k) | Some v \<Rightarrow> Inr v)"
| "jget _ k = Inl TypeError"

text \<open>\<^verbatim>\<open>v.get(k, default)\<close>\<close>

fun jget_or :: "json \<Rightarrow> string \<Rightarrow> json \<Rightarrow> exn + json" where
  "jget_or (JObj d) k v = Inr (dict_get d k v)"
| "jget_or _ k v = Inl AttributeError"

text \<open>Iteration: a list's items, an object's keys, a text's characters.\<close>

fun jiter :: "json \<Rightarrow> exn + json list" where
  "jiter (JList xs) = Inr xs"
| "jiter (JObj d) = Inr (map (\<lambda>p. JStr (fst p)) d)"
| "jiter (JStr s) = Inr (map (\<lambda>c. JStr [c]) s)"
| "jiter _ = Inl TypeError"

text \<open>\<^verbatim>\<open>k in v\<close> for a text \<open>k\<close>: a key, an item, or a substring.\<close>

fun is_substring :: "string \<Rightarrow> string \<Rightarrow> bool" where
  "is_substring p [] = (p = [])"
| "is_substring p (c # cs) = (starts_with p (c # cs) \<or> is_substring p cs)"

fun jcontains :: "string \<Rightarrow> json \<Rightarrow> exn + bool" where
  "jcontains k (JObj d) = Inr (map_of d k \<noteq> None)"
| "jcontains k (JList xs) = Inr (JStr k \<in> set xs)"
| "jcontains k (JStr s) = Inr (is_substring k s)"
| "jcontains k _ = Inl TypeError"

text \<open>\<^verbatim>\<open>len(v)\<close>\<close>

fun jlen :: "json \<Rightarrow> exn + nat" where
  "jlen (JList xs) = Inr (length xs)"
| "jlen (JObj d) = Inr (length d)"
| "jlen (JStr s) = Inr (length s)"
| "jlen _ = Inl TypeError"

text \<open>\<^verbatim>\<open>float(v)\<close>; a text goes through the decimal notation of \<^theory_text>\<open>Text\<close>.\<close>

fun jfloat :: "json \<Rightarrow> exn + rat" where
  "jfloat (JNum r) = Inr r"
| "jfloat (JBool b) = Inr (if b then 1 else 0)"
| "jfloat (JStr s) =
     (case py_float (strip s) of None \<Rightarrow> Inl (ValueError ''could not convert'') | Some r \<Rightarrow> Inr r)"
| "jfloat _ = Inl TypeError"

text \<open>\<^verbatim>\<open>int(v)\<close>; a number is truncated towards zero.\<close>

fun jint :: "json \<Rightarrow> exn + int" where
  "jint (JNum r) = Inr (if r < 0 then - \<lfloor>- r\<rfloor> else \<lfloor>r\<rfloor>)"
| "jint (JBool b) = Inr (if b then 1 else 0)"
| "jint (JStr s) =
     (case py_int s of None \<Rightarrow> Inl (ValueError ''invalid literal for int()'') | Some i \<Rightarrow> Inr i)"
| "jint _ = Inl TypeError"

text \<open>A value used in arithmetic or compared with a number: booleans are integers.\<close>

fun jnum :: "json \<Rightarrow> exn + rat" where
  "jnum (JNum r) = Inr r"
| "jnum (JBool b) = Inr (if b then 1 else 0)"
| "jnum _ = Inl TypeError"

text \<open>\<^verbatim>\<open>v == w\<close>: \<^verbatim>\<open>True\<close> equals 1 and \<^verbatim>\<open>False\<close> equals 0; other values compare as written.\<close>

definition json_eq :: "json \<Rightarrow> json \<Rightarrow> bool" where
  "json_eq v w = (case (jnum v, jnum w) of (Inr a, Inr b) \<Rightarrow> a = b | _ \<Rightarrow> v = w)"

text \<open>\<^verbatim>\<open>math.isclose\<close> with its default tolerances.\<close>

definition isclose :: "rat \<Rightarrow> rat \<Rightarrow> bool" where
  "isclose a b \<longleftrightarrow> \<bar>a - b\<bar> \<le> max \<bar>a\<bar> \<bar>b\<bar> / 10 ^ 9"

lemma isclose_refl [simp]: "isclose a a"
  by (simp add: isclose_def)

lemma json_eq_refl [simp]: "json_eq v v"
  by (simp add: json_eq_def split: sum.split)

lemma jget_Inr_obj: "jget v k = Inr x \<Longrightarrow> \<exists>d. v = JObj d \<and> map_of d k = Some x"
  by (cases v) (auto split: option.splits)

end
