(* ===== verification/Json_Update.thy ===== *)
theory Json_Update
  imports Json
begin

text \<open>
  Updating nested JSON values in place, as the code does with \<^verbatim>\<open>d[k] = v\<close>, \<^verbatim>\<open>xs.append(v)\<close> and chained
  subscripts, and the sequencing of pure computations that may raise.
\<close>

definition rbind :: "exn + 'a \<Rightarrow> ('a \<Rightarrow> exn + 'b) \<Rightarrow> exn + 'b" where
  "rbind r f = (case r of Inl e \<Rightarrow> Inl e | Inr x \<Rightarrow> f x)"

lemma rbind_simps [simp]: "rbind (Inl e) f = Inl e" "rbind (Inr x) f = f x"
  by (simp_all add: rbind_def)

lemma rbind_Inr_iff: "rbind r f = Inr y \<longleftrightarrow> (\<exists>x. r = Inr x \<and> f x = Inr y)"
  by (cases r) auto

text \<open>\<^verbatim>\<open>v[k] = x\<close> for a text \<open>k\<close>\<close>

fun jset :: "json \<Rightarrow> string \<Rightarrow> json \<Rightarrow> exn + json" where
  "jset (JObj d) k x = Inr (JObj (dict_set d k x))"
| "jset _ k x = Inl TypeError"

text \<open>\<^verbatim>\<open>v[k]\<close> changed in place by \<open>f\<close>\<close>

definition jupd :: "string \<Rightarrow> (json \<Rightarrow> exn + json) \<Rightarrow> json \<Rightarrow> exn + json" where
  "jupd k f v = rbind (jget v k) (\<lambda>x. rbind (f x) (jset v k))"

fun jappend :: "json \<Rightarrow> json \<Rightarrow> exn + json" where
  "jappend (JList xs) v = Inr (JList (xs @ [v]))"
| "jappend _ v = Inl AttributeError"

text \<open>\<^verbatim>\<open>n in v\<close> for a number \<open>n\<close>\<close>

fun jhas_num :: "int \<Rightarrow> json \<Rightarrow> exn + bool" where
  "jhas_num n (JList xs) = Inr (\<exists>x \<in> set xs. json_eq x (JNum (of_int n)))"
| "jhas_num n (JObj d) = Inr False"
| "jhas_num n v = Inl TypeError"

fun fold_result :: "('x \<Rightarrow> 'a \<Rightarrow> exn + 'a) \<Rightarrow> 'x list \<Rightarrow> 'a \<Rightarrow> exn + 'a" where
  "fold_result f [] a = Inr a"
| "fold_result f (x # xs) a = rbind (f x a) (fold_result f xs)"

lemma fold_result_append: "fold_result f (xs @ ys) a = rbind (fold_result f xs a) (fold_result f ys)"
  by (induction xs arbitrary: a) (auto simp: rbind_def split: sum.split)

text \<open>A fold whose steps all succeed from states satisfying \<open>P\<close> succeeds in such a state.\<close>

lemma fold_result_ok:
  assumes "\<And>x a. x \<in> set xs \<Longrightarrow> P a \<Longrightarrow> \<exists>b. f x a = Inr b \<and> P b" and "P a"
  shows "\<exists>b. fold_result f xs a = Inr b \<and> P b"
  using assms
proof (induction xs arbitrary: a)
  case (Cons x xs)
  then obtain b where "f x a = Inr b" "P b" by (meson list.set_intros(1))
  with Cons show ?case by (metis fold_result.simps(2) list.set_intros(2) rbind_simps(2))
qed simp

lemma fold_result_invariant:
  assumes "fold_result f xs a = Inr b" and "P a"
    and "\<And>x a b. x \<in> set xs \<Longrightarrow> P a \<Longrightarrow> f x a = Inr b \<Longrightarrow> P b"
  shows "P b"
  using assms by (induction xs arbitrary: a) (auto simp: rbind_Inr_iff)

end
