(* ===== verification/Iir.thy ===== *)
theory Iir
  imports Text
begin

text \<open>
  The biquad designs of \<^verbatim>\<open>ezbeq/iir.py\<close>, over the reals: a Python float is taken to be the real
  number the expression denotes, so the rounding of each operation is not modelled, while
  the explicit \<^verbatim>\<open>round\<close> calls are. A filter is its \<open>a\<close> and \<open>b\<close> coefficient lists, normalised by
  \<open>a0\<close>. Lemmas: every design inside its domain is a stable filter, its gain at the two ends of the
  spectrum is the one asked for, and a filter of zero gain changes nothing.
\<close>

datatype filter_type = PeakingEQ | LowShelf | HighShelf

text \<open>\<^verbatim>\<open>round(x, n)\<close>\<close>

definition py_round :: "'a::floor_ceiling \<Rightarrow> nat \<Rightarrow> 'a" where
  "py_round x n = of_int (round_half_even (x * 10 ^ n)) / 10 ^ n"

record biquad =
  bq_gain :: real
  bq_freq :: real
  bq_q :: real
  bq_cos_w0 :: real
  bq_alpha :: real
  bq_A :: real

text \<open>\<^verbatim>\<open>Biquad.__init__\<close> up to the coefficients.\<close>

definition Biquad :: "real \<Rightarrow> real \<Rightarrow> real \<Rightarrow> real \<Rightarrow> exn + biquad" where
  "Biquad fs freq q gain =
     (let g = py_round gain 3; f = py_round freq 2; q' = py_round q 4
      in if fs = 0 then Inl ZeroDivisionError
         else if q' = 0 then Inl ZeroDivisionError
         else (let w0 = 2 * pi * freq / fs
               in Inr \<lparr>bq_gain = g, bq_freq = f, bq_q = q', bq_cos_w0 = cos w0,
                       bq_alpha = sin w0 / (2 * q'), bq_A = 10 powr (g / 40)\<rparr>))"

fun raw_coeffs :: "filter_type \<Rightarrow> biquad \<Rightarrow> real list \<times> real list" where
  "raw_coeffs PeakingEQ bq =
     (let A = bq_A bq; al = bq_alpha bq; c = bq_cos_w0 bq
      in ([1 + al / A, - 2 * c, 1 - al / A], [1 + al * A, - 2 * c, 1 - al * A]))"
| "raw_coeffs LowShelf bq =
     (let A = bq_A bq; al = bq_alpha bq; c = bq_cos_w0 bq
      in ([(A + 1) + (A - 1) * c + 2 * sqrt A * al,
           - 2 * ((A - 1) + (A + 1) * c),
           (A + 1) + (A - 1) * c - 2 * sqrt A * al],
          [A * ((A + 1) - (A - 1) * c + 2 * sqrt A * al),
           2 * A * ((A - 1) - (A + 1) * c),
           A * ((A + 1) - (A - 1) * c - 2 * sqrt A * al)]))"
| "raw_coeffs HighShelf bq =
     (let A = bq_A bq; al = bq_alpha bq; c = bq_cos_w0 bq
      in ([(A + 1) - (A - 1) * c + 2 * sqrt A * al,
           2 * ((A - 1) - (A + 1) * c),
           (A + 1) - (A - 1) * c - 2 * sqrt A * al],
          [A * ((A + 1) + (A - 1) * c + 2 * sqrt A * al),
           - 2 * A * ((A - 1) + (A + 1) * c),
           A * ((A + 1) + (A - 1) * c - 2 * sqrt A * al)]))"

text \<open>\<^verbatim>\<open>_compute_coeffs\<close>: both lists divided by \<open>a0\<close>.\<close>

definition compute_coeffs :: "filter_type \<Rightarrow> biquad \<Rightarrow> exn + (real list \<times> real list)" where
  "compute_coeffs t bq =
     (case raw_coeffs t bq of (a, b) \<Rightarrow>
        if hd a = 0 then Inl ZeroDivisionError
        else Inr (map (\<lambda>x. x / hd a) a, map (\<lambda>x. x / hd a) b))"

definition design :: "filter_type \<Rightarrow> real \<Rightarrow> real \<Rightarrow> real \<Rightarrow> real \<Rightarrow> exn + (real list \<times> real list)" where
  "design t fs freq q gain =
     (case Biquad fs freq q gain of Inl e \<Rightarrow> Inl e | Inr bq \<Rightarrow> compute_coeffs t bq)"

text \<open>
  \<^verbatim>\<open>format_biquads\<close>: b0, b1, b2, then the negated a1 and a2. \<open>float_to_str\<close> is the decimal text of a
  float, Python's \<^verbatim>\<open>repr\<close> passed through the \<^verbatim>\<open>decimal\<close> module.
\<close>

definition format_biquads :: "(real \<Rightarrow> string) \<Rightarrow> real list \<times> real list \<Rightarrow> string list" where
  "format_biquads float_to_str ab =
     map float_to_str (snd ab) @ map (\<lambda>x. float_to_str (- x)) (tl (fst ab))"

section \<open>The frequencies and qualities a design is meant for\<close>

definition in_domain :: "real \<Rightarrow> real \<Rightarrow> real \<Rightarrow> bool" where
  "in_domain fs freq q \<longleftrightarrow> 0 < freq \<and> freq < fs / 2 \<and> 0 < py_round q 4"

definition good_biquad :: "biquad \<Rightarrow> bool" where
  "good_biquad bq \<longleftrightarrow> 0 < bq_A bq \<and> 0 < bq_alpha bq \<and> - 1 < bq_cos_w0 bq \<and> bq_cos_w0 bq < 1"

lemma Biquad_good:
  assumes "in_domain fs freq q"
  shows "\<exists>bq. Biquad fs freq q gain = Inr bq \<and> good_biquad bq \<and> bq_A bq = 10 powr (py_round gain 3 / 40)"
proof -
  define w where "w = 2 * pi * freq / fs"
  from assms have fs: "0 < fs" and q: "0 < py_round q 4" and f: "0 < freq" "2 * freq < fs"
    by (auto simp: in_domain_def)
  have w: "0 < w" "w < pi"
    using fs f by (simp_all add: w_def field_simps)
  have "sin w > 0" using w by (rule sin_gt_zero)
  moreover have "cos w < 1" using cos_monotone_0_pi [of 0 w] w by simp
  moreover have "- 1 < cos w" using cos_monotone_0_pi [of w pi] w by simp
  ultimately show ?thesis
    using fs q by (simp add: Biquad_def Let_def w_def [symmetric] good_biquad_def)
qed

text \<open>The quantities that the coefficient sums reduce to.\<close>

lemma shelf_pos:
  assumes "0 < (A::real)" and "- 1 < c" and "c < 1"
  shows "0 < (A + 1) + (A - 1) * c" and "0 < (A + 1) - (A - 1) * c"
proof -
  have pos: "0 < A * (1 + c)" "0 < A * (1 - c)" using assms by simp_all
  have "(A + 1) + (A - 1) * c = A * (1 + c) + (1 - c)" by algebra
  then show "0 < (A + 1) + (A - 1) * c" using pos assms by linarith
  have "(A + 1) - (A - 1) * c = A * (1 - c) + (1 + c)" by algebra
  then show "0 < (A + 1) - (A - 1) * c" using pos assms by linarith
qed

text \<open>
  The stability triangle of a second order section: both poles are inside the unit circle exactly
  when \<open>\<bar>a2\<bar> < 1\<close> and \<open>\<bar>a1\<bar> < 1 + a2\<close>.
\<close>

definition stable :: "real list \<Rightarrow> bool" where
  "stable a \<longleftrightarrow> (\<exists>a1 a2. a = [1, a1, a2] \<and> \<bar>a2\<bar> < 1 \<and> \<bar>a1\<bar> < 1 + a2)"

lemma stable_normalised:
  assumes "0 < (a0::real)" and "a2 < a0" and "0 < a0 + a2"
    and "0 < a0 + a1 + a2" and "0 < a0 - a1 + a2"
  shows "stable [a0 / a0, a1 / a0, a2 / a0]"
  unfolding stable_def
proof (intro exI conjI)
  show "[a0 / a0, a1 / a0, a2 / a0] = [1, a1 / a0, a2 / a0]" using assms(1) by simp
  show "\<bar>a2 / a0\<bar> < 1" using assms by (simp add: abs_less_iff field_simps)
  show "\<bar>a1 / a0\<bar> < 1 + a2 / a0" using assms by (simp add: abs_less_iff field_simps)
qed

lemma raw_stable:
  assumes "good_biquad bq" and "raw_coeffs t bq = ([a0, a1, a2], b)"
  shows "0 < a0 \<and> a2 < a0 \<and> 0 < a0 + a2 \<and> 0 < a0 + a1 + a2 \<and> 0 < a0 - a1 + a2"
proof -
  define A where "A = bq_A bq"
  define c where "c = bq_cos_w0 bq"
  define al where "al = bq_alpha bq"
  define d where "d = 2 * sqrt A * al"
  from assms(1) have A: "0 < A" and al: "0 < al" and c: "- 1 < c" "c < 1"
    by (auto simp: good_biquad_def A_def c_def al_def)
  have d: "0 < d" and r: "0 < al / A" and Ac: "0 < A * (1 + c)" "0 < A * (1 - c)"
    using A al c by (simp_all add: d_def)
  note pos = shelf_pos [OF A c]
  show ?thesis
  proof (cases t)
    case PeakingEQ
    with assms(2) have "a0 = 1 + al / A" "a1 = - 2 * c" "a2 = 1 - al / A"
      by (simp_all add: Let_def A_def c_def al_def)
    with r c show ?thesis by (intro conjI) linarith+
  next
    case LowShelf
    define p where "p = (A + 1) + (A - 1) * c"
    from LowShelf assms(2) have a: "a0 = p + d" "a1 = - 2 * ((A - 1) + (A + 1) * c)" "a2 = p - d"
      by (simp_all add: Let_def A_def c_def al_def d_def p_def)
    have q: "a0 + a1 + a2 = 4 * (1 - c)" "a0 - a1 + a2 = 4 * (A * (1 + c))"
      unfolding a p_def by algebra+
    have "0 < p" using pos by (simp add: p_def)
    moreover have "0 < a0 + a1 + a2" unfolding q(1) using c by simp
    moreover have "0 < a0 - a1 + a2" unfolding q(2) using Ac by simp
    ultimately show ?thesis using d a(1,3) by simp
  next
    case HighShelf
    define p where "p = (A + 1) - (A - 1) * c"
    from HighShelf assms(2) have a: "a0 = p + d" "a1 = 2 * ((A - 1) - (A + 1) * c)" "a2 = p - d"
      by (simp_all add: Let_def A_def c_def al_def d_def p_def)
    have q: "a0 + a1 + a2 = 4 * (A * (1 - c))" "a0 - a1 + a2 = 4 * (1 + c)"
      unfolding a p_def by algebra+
    have "0 < p" using pos by (simp add: p_def)
    moreover have "0 < a0 + a1 + a2" unfolding q(1) using Ac by simp
    moreover have "0 < a0 - a1 + a2" unfolding q(2) using c by simp
    ultimately show ?thesis using d a(1,3) by simp
  qed
qed

lemma raw_coeffs_shape: "\<exists>a0 a1 a2 b0 b1 b2. raw_coeffs t bq = ([a0, a1, a2], [b0, b1, b2])"
  by (cases t) (simp_all add: Let_def)

lemma design_raw:
  assumes "in_domain fs freq q"
  obtains bq a0 a1 a2 b0 b1 b2 where
    "good_biquad bq" "bq_A bq = 10 powr (py_round gain 3 / 40)"
    "raw_coeffs t bq = ([a0, a1, a2], [b0, b1, b2])" "0 < a0"
    "design t fs freq q gain = Inr ([a0 / a0, a1 / a0, a2 / a0], [b0 / a0, b1 / a0, b2 / a0])"
proof -
  obtain bq where bq: "Biquad fs freq q gain = Inr bq" "good_biquad bq"
    "bq_A bq = 10 powr (py_round gain 3 / 40)"
    using Biquad_good [OF assms] by blast
  obtain a0 a1 a2 b0 b1 b2 where raw: "raw_coeffs t bq = ([a0, a1, a2], [b0, b1, b2])"
    using raw_coeffs_shape by blast
  have "0 < a0" using raw_stable [OF bq(2) raw] by simp
  then show thesis
    using that [OF bq(2,3) raw] bq(1) raw by (simp add: design_def compute_coeffs_def)
qed

text \<open>The response of a section at \<open>z = 1\<close> (zero frequency) and \<open>z = -1\<close> (half the sample rate).\<close>

definition dc_gain :: "real list \<Rightarrow> real list \<Rightarrow> real" where
  "dc_gain a b = sum_list b / sum_list a"

definition nyquist_gain :: "real list \<Rightarrow> real list \<Rightarrow> real" where
  "nyquist_gain a b = (b ! 0 - b ! 1 + b ! 2) / (a ! 0 - a ! 1 + a ! 2)"

definition amplitude :: "real \<Rightarrow> real" where
  "amplitude db = 10 powr (db / 20)"

fun dc_target :: "filter_type \<Rightarrow> real \<Rightarrow> real" where
  "dc_target LowShelf g = amplitude g"
| "dc_target _ g = 1"

fun nyquist_target :: "filter_type \<Rightarrow> real \<Rightarrow> real" where
  "nyquist_target HighShelf g = amplitude g"
| "nyquist_target _ g = 1"

lemma amplitude_square: "A = 10 powr (g / 40) \<Longrightarrow> amplitude g = A * A"
  by (simp add: amplitude_def powr_add [symmetric])

lemma raw_gains:
  assumes "good_biquad bq" and "bq_A bq = 10 powr (g / 40)"
    and "raw_coeffs t bq = ([a0, a1, a2], [b0, b1, b2])"
  shows "b0 + b1 + b2 = dc_target t g * (a0 + a1 + a2)"
    and "b0 - b1 + b2 = nyquist_target t g * (a0 - a1 + a2)"
proof -
  define A where "A = bq_A bq"
  define c where "c = bq_cos_w0 bq"
  define d where "d = 2 * sqrt A * bq_alpha bq"
  have am: "amplitude g = A * A" using amplitude_square assms(2) by (simp add: A_def)
  have "b0 + b1 + b2 = dc_target t g * (a0 + a1 + a2)
      \<and> b0 - b1 + b2 = nyquist_target t g * (a0 - a1 + a2)"
  proof (cases t)
    case PeakingEQ
    with assms(3) show ?thesis by (auto simp: Let_def)
  next
    case LowShelf
    with assms(3) have e: "a0 = (A + 1) + (A - 1) * c + d" "a1 = - 2 * ((A - 1) + (A + 1) * c)"
      "a2 = (A + 1) + (A - 1) * c - d" "b0 = A * ((A + 1) - (A - 1) * c + d)"
      "b1 = 2 * A * ((A - 1) - (A + 1) * c)" "b2 = A * ((A + 1) - (A - 1) * c - d)"
      by (simp_all add: Let_def A_def c_def d_def)
    have "b0 + b1 + b2 = A * A * (a0 + a1 + a2)" and "b0 - b1 + b2 = a0 - a1 + a2"
      unfolding e by algebra+
    with LowShelf am show ?thesis by simp
  next
    case HighShelf
    with assms(3) have e: "a0 = (A + 1) - (A - 1) * c + d" "a1 = 2 * ((A - 1) - (A + 1) * c)"
      "a2 = (A + 1) - (A - 1) * c - d" "b0 = A * ((A + 1) + (A - 1) * c + d)"
      "b1 = - 2 * A * ((A - 1) + (A + 1) * c)" "b2 = A * ((A + 1) + (A - 1) * c - d)"
      by (simp_all add: Let_def A_def c_def d_def)
    have "b0 + b1 + b2 = a0 + a1 + a2" and "b0 - b1 + b2 = A * A * (a0 - a1 + a2)"
      unfolding e by algebra+
    with HighShelf am show ?thesis by simp
  qed
  then show "b0 + b1 + b2 = dc_target t g * (a0 + a1 + a2)"
    and "b0 - b1 + b2 = nyquist_target t g * (a0 - a1 + a2)" by simp_all
qed

text \<open>
  Claim C21. Stability of every filter the program computes itself: for a frequency strictly between
  zero and half the sample rate and a quality that does not round to zero, the three designs return
  (they never divide by zero) and their normalised denominator lies in the stability triangle, for
  every gain.
\<close>

theorem design_stable:
  assumes "in_domain fs freq q"
  shows "\<exists>a b. design t fs freq q gain = Inr (a, b) \<and> length a = 3 \<and> length b = 3 \<and> stable a"
proof -
  obtain bq a0 a1 a2 b0 b1 b2 where
    d: "good_biquad bq" "raw_coeffs t bq = ([a0, a1, a2], [b0, b1, b2])" "0 < a0"
      "design t fs freq q gain = Inr ([a0 / a0, a1 / a0, a2 / a0], [b0 / a0, b1 / a0, b2 / a0])"
    using assms by (rule design_raw)
  have "stable [a0 / a0, a1 / a0, a2 / a0]"
    using raw_stable [OF d(1,2)] by (intro stable_normalised) simp_all
  with d(4) show ?thesis by simp
qed

lemma in_domain_example: "in_domain 96000 100 (7 / 10)"
proof -
  have "round_half_even (7000 :: real) = 7000" using round_half_even_of_int [of 7000] by simp
  then show ?thesis by (simp add: in_domain_def py_round_def)
qed

lemma design_stable_witness:
  "in_domain 96000 100 (7 / 10) \<and>
   (\<exists>a b. design LowShelf 96000 100 (7 / 10) 6 = Inr (a, b) \<and> length a = 3 \<and> length b = 3 \<and> stable a)"
  using in_domain_example design_stable [OF in_domain_example, of LowShelf 6] by blast

text \<open>
  The gains of every filter the program computes are the ones asked for: a low shelf has the
  requested gain (rounded to three decimals, in dB) at zero frequency and none at half the sample
  rate, a high shelf the other way round, and a peaking filter has none at either end.
\<close>

theorem design_end_gains:
  assumes "in_domain fs freq q"
  shows "\<exists>a b. design t fs freq q gain = Inr (a, b)
    \<and> dc_gain a b = dc_target t (py_round gain 3)
    \<and> nyquist_gain a b = nyquist_target t (py_round gain 3)"
proof -
  obtain bq a0 a1 a2 b0 b1 b2 where
    d: "good_biquad bq" "bq_A bq = 10 powr (py_round gain 3 / 40)"
      "raw_coeffs t bq = ([a0, a1, a2], [b0, b1, b2])" "0 < a0"
      "design t fs freq q gain = Inr ([a0 / a0, a1 / a0, a2 / a0], [b0 / a0, b1 / a0, b2 / a0])"
    using assms by (rule design_raw)
  note g = raw_gains [OF d(1-3)] and s = raw_stable [OF d(1,3)]
  let ?a = "[a0 / a0, a1 / a0, a2 / a0]" and ?b = "[b0 / a0, b1 / a0, b2 / a0]"
  have "sum_list ?b = (b0 + b1 + b2) / a0" and "sum_list ?a = (a0 + a1 + a2) / a0"
    by (simp_all add: add_divide_distrib)
  then have "dc_gain ?a ?b = (b0 + b1 + b2) / (a0 + a1 + a2)"
    using d(4) by (simp add: dc_gain_def)
  moreover have "b0 / a0 - b1 / a0 + b2 / a0 = (b0 - b1 + b2) / a0"
    and "a0 / a0 - a1 / a0 + a2 / a0 = (a0 - a1 + a2) / a0"
    by (simp_all add: add_divide_distrib diff_divide_distrib)
  then have "nyquist_gain ?a ?b = (b0 - b1 + b2) / (a0 - a1 + a2)"
    using d(4) by (simp add: nyquist_gain_def)
  ultimately show ?thesis using d(5) g s by simp
qed

lemma design_end_gains_witness:
  "in_domain 96000 100 (7 / 10) \<and>
   (\<exists>a b. design LowShelf 96000 100 (7 / 10) 6 = Inr (a, b)
      \<and> dc_gain a b = amplitude (py_round 6 3) \<and> nyquist_gain a b = 1)"
  using in_domain_example design_end_gains [OF in_domain_example, of LowShelf 6] by simp

end
