(* ===== verification/Filter_Text.thy ===== *)
theory Filter_Text
  imports Json_Update Iir
begin

text \<open>
  The command texts of \<^verbatim>\<open>ezbeq/apis/devices.py\<close>: \<^verbatim>\<open>text_to_commands\<close> reads Equalizer APO filter lines,
  MiniDSP biquad blocks or raw command lines. Lemmas: both formats are read back as they are
  printed, each filter line sets its own of the ten biquads, and what cannot be read is refused.
\<close>

section \<open>Lines\<close>

text \<open>
  \<^verbatim>\<open>str.splitlines\<close> on characters below 128: a carriage return and a newline are one ending, and the
  text after the last ending is a line only if there is any.
\<close>

definition is_line_end :: "char \<Rightarrow> bool" where
  "is_line_end c \<longleftrightarrow>
     c \<in> {CHR 0x0A, CHR 0x0B, CHR 0x0C, CHR 0x0D, CHR 0x1C, CHR 0x1D, CHR 0x1E}"

fun one_line_end :: "string \<Rightarrow> string" where
  "one_line_end [] = []"
| "one_line_end (c # cs) =
     (if c = CHR 0x0D \<and> cs \<noteq> [] \<and> hd cs = CHR 0x0A then one_line_end cs
      else (if is_line_end c then CHR 0x0A else c) # one_line_end cs)"

definition splitlines :: "string \<Rightarrow> string list" where
  "splitlines s =
     (let ls = split_on (CHR 0x0A) (one_line_end s) in if last ls = [] then butlast ls else ls)"

section \<open>One filter line\<close>

text \<open>
  \<^verbatim>\<open>FILTER_PATTERN\<close>, group by group. No group can give back characters that the next one needs, so
  matching never backtracks.
\<close>

type_synonym 'a reader = "string \<Rightarrow> ('a \<times> string) option"

definition lit :: "string \<Rightarrow> unit reader" where
  "lit p s = (if starts_with p s then Some ((), drop (length p) s) else None)"

definition spaces :: "unit reader" where
  "spaces s = (if s \<noteq> [] \<and> is_blank (hd s) then Some ((), dropWhile is_blank s) else None)"

definition digits :: "string reader" where
  "digits s = (let d = takeWhile is_digit s in if d = [] then None else Some (d, dropWhile is_digit s))"

definition one_of :: "string list \<Rightarrow> string reader" where
  "one_of ps s = (case find (\<lambda>p. starts_with p s) ps of None \<Rightarrow> None | Some p \<Rightarrow> Some (p, drop (length p) s))"

definition seq :: "'a reader \<Rightarrow> ('a \<Rightarrow> 'b reader) \<Rightarrow> 'b reader" where
  "seq r f s = (case r s of None \<Rightarrow> None | Some (x, s') \<Rightarrow> f x s')"

definition give :: "'a \<Rightarrow> 'a reader" where
  "give x s = Some (x, s)"

text \<open>\<^verbatim>\<open>(\d+\.\d+)\<close>, with an optional minus sign\<close>

definition decimal :: "string reader" where
  "decimal = seq digits (\<lambda>i. seq (lit ''.'') (\<lambda>_. seq digits (\<lambda>f. give (i @ ''.'' @ f))))"

definition signed_decimal :: "string reader" where
  "signed_decimal s =
     (if starts_with ''-'' s then seq decimal (\<lambda>d. give (CHR ''-'' # d)) (tl s) else decimal s)"

record filter_line =
  fl_number :: string
  fl_state :: string
  fl_type :: string
  fl_freq :: string
  fl_gain :: string
  fl_q :: string

definition filter_pattern :: "filter_line reader" where
  "filter_pattern =
     seq (lit ''Filter'') (\<lambda>_. seq spaces (\<lambda>_. seq digits (\<lambda>n. seq (lit '':'') (\<lambda>_. seq spaces (\<lambda>_.
     seq (one_of [''ON'', ''OFF'']) (\<lambda>st. seq spaces (\<lambda>_.
     seq (one_of [''PEQ'', ''PK'', ''LS'', ''HS'']) (\<lambda>ft. seq spaces (\<lambda>_.
     seq (lit ''Fc'') (\<lambda>_. seq spaces (\<lambda>_. seq decimal (\<lambda>fc. seq spaces (\<lambda>_. seq (lit ''Hz'') (\<lambda>_. seq spaces (\<lambda>_.
     seq (lit ''Gain'') (\<lambda>_. seq spaces (\<lambda>_. seq signed_decimal (\<lambda>g. seq spaces (\<lambda>_. seq (lit ''dB'') (\<lambda>_. seq spaces (\<lambda>_.
     seq (lit ''Q'') (\<lambda>_. seq spaces (\<lambda>_. seq decimal (\<lambda>q.
       give \<lparr>fl_number = n, fl_state = st, fl_type = ft, fl_freq = fc, fl_gain = g, fl_q = q\<rparr>))))))))))))))))))))))))"

definition match_filter :: "string \<Rightarrow> filter_line option" where
  "match_filter line = map_option fst (filter_pattern line)"

section \<open>Filters\<close>

definition type_of_filter :: "string \<Rightarrow> exn + filter_type" where
  "type_of_filter t =
     (if t = ''PK'' \<or> t = ''PEQ'' then Inr PeakingEQ
      else if t = ''LS'' then Inr LowShelf
      else if t = ''HS'' then Inr HighShelf
      else Inl (InvalidRequestError (''Unknown filt_type '' @ t)))"

definition COEFFS :: "string list" where
  "COEFFS = [''b0'', ''b1'', ''b2'', ''a1'', ''a2'']"

definition convert_to_bq :: "(real \<Rightarrow> string) \<Rightarrow> string \<Rightarrow> rat \<Rightarrow> rat \<Rightarrow> rat \<Rightarrow> exn + obj" where
  "convert_to_bq float_to_str t freq gain q =
     rbind (type_of_filter t) (\<lambda>ft. rbind (design ft 96000 (of_rat freq) (of_rat q) (of_rat gain)) (\<lambda>ab.
       Inr (zip COEFFS (map JStr (format_biquads float_to_str ab)))))"

definition float_of_text :: "string \<Rightarrow> exn + rat" where
  "float_of_text s = (case py_float s of None \<Rightarrow> Inl (ValueError ''could not convert'') | Some r \<Rightarrow> Inr r)"

definition int_of_text :: "string \<Rightarrow> exn + int" where
  "int_of_text s = (case py_int s of None \<Rightarrow> Inl (ValueError ''invalid literal for int()'') | Some i \<Rightarrow> Inr i)"

text \<open>The loop body of the \<^verbatim>\<open>filt\<close> branch: the ten commands so far, and those after one line.\<close>

definition filt_line :: "(real \<Rightarrow> string) \<Rightarrow> nat \<times> string \<Rightarrow> obj list \<Rightarrow> exn + obj list" where
  "filt_line float_to_str il cs =
     (case il of (idx, line) \<Rightarrow>
       if line = [] then Inr cs
       else (case match_filter line of
         None \<Rightarrow> Inl (InvalidRequestError (''Filter line '' @ show_nat idx @ '' does not match - '' @ line))
       | Some m \<Rightarrow>
           rbind (int_of_text (fl_number m)) (\<lambda>k.
             if 0 < k \<and> k < 11 then
               rbind (float_of_text (fl_freq m)) (\<lambda>fc. rbind (float_of_text (fl_gain m)) (\<lambda>g.
               rbind (float_of_text (fl_q m)) (\<lambda>q.
               rbind (convert_to_bq float_to_str (fl_type m) fc g q) (\<lambda>d.
                 Inr (cs[nat (k - 1) := (if fl_state m = ''OFF'' then dict_set d ''BYPASS'' (JBool True) else d)])))))
             else Inl (InvalidRequestError (''Filter line '' @ show_nat idx @ '' specifies filter '' @ show_int k
               @ '' which is out of range'')))))"

definition filt_lines :: "(real \<Rightarrow> string) \<Rightarrow> string list \<Rightarrow> exn + obj list" where
  "filt_lines float_to_str lines = fold_result (filt_line float_to_str) (enumerate 0 lines) (replicate 10 [])"

section \<open>Biquad blocks\<close>

text \<open>\<^verbatim>\<open>append_bq\<close>: the commands so far and the coefficients of the current block.\<close>

definition append_bq :: "obj list \<Rightarrow> obj \<Rightarrow> exn + obj list" where
  "append_bq cs tmp =
     (if tmp = [] then Inr cs
      else if set COEFFS \<subseteq> set (keys tmp) then Inr (cs @ [tmp])
      else Inl (InvalidRequestError ''''))"

definition bq_line :: "string \<Rightarrow> obj list \<times> obj \<Rightarrow> exn + obj list \<times> obj" where
  "bq_line line acc =
     (if line = [] then Inr acc
      else if starts_with ''biquad'' line then rbind (append_bq (fst acc) (snd acc)) (\<lambda>cs. Inr (cs, []))
      else (case split_on (CHR ''='') line of
          k # v # _ \<Rightarrow>
            if v = [] then Inl IndexError
            else Inr (fst acc, dict_set (snd acc) k (JStr (if last v = CHR '','' then butlast v else v)))
        | _ \<Rightarrow> Inl IndexError))"

definition bq_lines :: "string list \<Rightarrow> exn + obj list" where
  "bq_lines lines =
     rbind (fold_result bq_line lines ([], [])) (\<lambda>acc.
       if snd acc = [] then Inr (fst acc) else append_bq (fst acc) (snd acc))"

section \<open>All three formats\<close>

datatype parsed_commands = Bq "obj list" | Rs "string list"

definition text_to_commands :: "(real \<Rightarrow> string) \<Rightarrow> string \<Rightarrow> string list \<Rightarrow> exn + parsed_commands" where
  "text_to_commands float_to_str command_type lines =
     (if lines \<noteq> [] \<and> command_type = ''filt'' then rbind (filt_lines float_to_str lines) (\<lambda>cs. Inr (Bq cs))
      else if lines \<noteq> [] \<and> command_type = ''rs'' then Inr (Rs (filter (\<lambda>l. strip l \<noteq> []) lines))
      else rbind (bq_lines lines) (\<lambda>cs. Inr (Bq cs)))"

section \<open>Reading lines back\<close>

definition unlines :: "string list \<Rightarrow> string" where
  "unlines ls = concat (map (\<lambda>l. l @ [CHR 0x0A]) ls)"

definition plain_line :: "string \<Rightarrow> bool" where
  "plain_line l \<longleftrightarrow> (\<forall>c \<in> set l. \<not> is_line_end c)"

lemma is_line_end_newline [simp]: "is_line_end (CHR 0x0A)"
  by (simp add: is_line_end_def)

lemma one_line_end_plain: "plain_line l \<Longrightarrow> one_line_end (l @ CHR 0x0A # s) = l @ CHR 0x0A # one_line_end s"
  by (induction l) (auto simp: plain_line_def is_line_end_def)

lemma one_line_end_unlines: "list_all plain_line ls \<Longrightarrow> one_line_end (unlines ls) = unlines ls"
  by (induction ls) (simp_all add: unlines_def one_line_end_plain)

lemma split_unlines: "list_all plain_line ls \<Longrightarrow> split_on (CHR 0x0A) (unlines ls) = ls @ [[]]"
proof (induction ls)
  case (Cons l ls)
  have "CHR 0x0A \<notin> set l" using Cons.prems by (auto simp: plain_line_def is_line_end_def)
  then show ?case using Cons by (simp add: unlines_def split_on_append)
qed (simp add: unlines_def)

lemma splitlines_unlines: "list_all plain_line ls \<Longrightarrow> splitlines (unlines ls) = ls"
  by (simp add: splitlines_def one_line_end_unlines split_unlines)

section \<open>Reading biquad blocks back\<close>

definition coeff_text :: "string \<Rightarrow> bool" where
  "coeff_text v \<longleftrightarrow> v \<noteq> [] \<and> CHR ''='' \<notin> set v \<and> last v \<noteq> CHR '','' \<and> plain_line v"

definition coeff_line :: "bool \<Rightarrow> string \<times> string \<Rightarrow> string" where
  "coeff_line comma kv = fst kv @ ''='' @ snd kv @ (if comma then '','' else [])"

text \<open>A block as the MiniDSP tools print it: every line but the last ends with a comma.\<close>

definition block_lines :: "nat \<times> string list \<Rightarrow> string list" where
  "block_lines ib =
     (''biquad'' @ show_nat (fst ib) @ '','')
       # map (coeff_line True) (zip (butlast COEFFS) (butlast (snd ib))) @ [coeff_line False (last COEFFS, last (snd ib))]"

lemma bq_line_coeff:
  assumes "coeff_text v" and "k \<in> set COEFFS"
  shows "bq_line (coeff_line b (k, v)) (cs, tmp) = Inr (cs, dict_set tmp k (JStr v))"
proof -
  have k: "CHR ''='' \<notin> set k" "\<not> starts_with ''biquad'' (k @ s)" for s
    using assms(2) by (auto simp: COEFFS_def starts_with_def)
  have "split_on (CHR ''='') (k @ CHR ''='' # v @ (if b then '','' else [])) = [k, v @ (if b then '','' else [])]"
    using k(1) assms(1) by (simp add: split_on_append split_on_no_sep coeff_text_def)
  then show ?thesis
    using k assms(1) by (simp add: bq_line_def coeff_line_def coeff_text_def)
qed

definition block_obj :: "string list \<Rightarrow> obj" where
  "block_obj vs = zip COEFFS (map JStr vs)"

lemma bq_block:
  assumes "length vs = 5" and "list_all coeff_text vs"
    and "tmp = [] \<or> set COEFFS \<subseteq> set (keys tmp)"
  shows "fold_result bq_line (block_lines (i, vs)) (cs, tmp)
     = Inr (if tmp = [] then cs else cs @ [tmp], block_obj vs)"
proof -
  obtain b0 b1 b2 a1 a2 where vs: "vs = [b0, b1, b2, a1, a2]"
    using assms(1) by (auto simp: numeral_eq_Suc length_Suc_conv)
  have head: "bq_line (''biquad'' @ show_nat i @ '','') (cs, tmp) = Inr (if tmp = [] then cs else cs @ [tmp], [])"
    using assms(3) by (auto simp: bq_line_def append_bq_def starts_with_def)
  have "fold_result bq_line (block_lines (i, vs)) (cs, tmp) =
      fold_result bq_line (map (coeff_line True) (zip (butlast COEFFS) (butlast vs)) @ [coeff_line False (last COEFFS, last vs)])
        (if tmp = [] then cs else cs @ [tmp], [])"
    unfolding block_lines_def fst_conv snd_conv fold_result.simps head by simp
  moreover have "fold_result bq_line (map (coeff_line True) (zip (butlast COEFFS) (butlast vs)) @ [coeff_line False (last COEFFS, last vs)])
      (cs', []) = Inr (cs', block_obj vs)" for cs'
    using assms(2) by (simp add: vs COEFFS_def block_obj_def bq_line_coeff)
  ultimately show ?thesis by simp
qed

lemma block_obj_ok: "length vs = 5 \<Longrightarrow> block_obj vs \<noteq> [] \<and> set COEFFS \<subseteq> set (keys (block_obj vs))"
  by (auto simp: block_obj_def COEFFS_def numeral_eq_Suc length_Suc_conv)

text \<open>The end of \<^verbatim>\<open>text_to_commands\<close>: the last block is kept too.\<close>

definition close_block :: "obj list \<times> obj \<Rightarrow> exn + obj list" where
  "close_block acc = (if snd acc = [] then Inr (fst acc) else append_bq (fst acc) (snd acc))"

lemma bq_blocks:
  assumes "list_all (\<lambda>vs. length vs = 5 \<and> list_all coeff_text vs) css"
    and "tmp = [] \<or> set COEFFS \<subseteq> set (keys tmp)"
  shows "rbind (fold_result bq_line (concat (map block_lines (enumerate i css))) (cs, tmp)) close_block
     = Inr ((if tmp = [] then cs else cs @ [tmp]) @ map block_obj css)"
  using assms
proof (induction css arbitrary: i cs tmp)
  case Nil
  then show ?case by (auto simp: close_block_def append_bq_def)
next
  case (Cons vs css)
  note ok = block_obj_ok [of vs]
  show ?case
    using Cons.prems Cons.IH [of "block_obj vs" "Suc i" "if tmp = [] then cs else cs @ [tmp]"] ok
    by (simp add: fold_result_append bq_block)
qed

definition bq_text :: "string list list \<Rightarrow> string" where
  "bq_text css = unlines (concat (map block_lines (enumerate 1 css)))"

lemma plain_append [simp]: "plain_line (s @ t) \<longleftrightarrow> plain_line s \<and> plain_line t"
  by (auto simp: plain_line_def)

lemma plain_Cons [simp]: "plain_line (c # s) \<longleftrightarrow> \<not> is_line_end c \<and> plain_line s" "plain_line []"
  by (simp_all add: plain_line_def)

lemma plain_show_nat [simp]: "plain_line (show_nat n)"
proof -
  have "\<not> is_digit c" if "is_line_end c" for c
    using that by (auto simp: is_line_end_def is_digit_def digit_val_def)
  then show ?thesis using show_nat_digits by (auto simp: plain_line_def)
qed

lemma plain_block: "length vs = 5 \<Longrightarrow> list_all coeff_text vs \<Longrightarrow> list_all plain_line (block_lines (i, vs))"
  by (auto simp: block_lines_def coeff_line_def coeff_text_def COEFFS_def is_line_end_def numeral_eq_Suc length_Suc_conv)


text \<open>
  Biquads printed in the MiniDSP format, block by block, are read back coefficient for
  coefficient and in order, whatever the texts of the numbers.
\<close>

theorem biquad_text_roundtrip:
  assumes "\<forall>vs \<in> set css. length vs = 5 \<and> (\<forall>v \<in> set vs. coeff_text v)"
  shows "text_to_commands float_to_str ''bq'' (splitlines (bq_text css)) = Inr (Bq (map block_obj css))"
proof -
  have all: "list_all (\<lambda>vs. length vs = 5 \<and> list_all coeff_text vs) css"
    using assms by (simp add: list_all_iff)
  have "vs \<in> set css" if "(j, vs) \<in> set (enumerate 1 css)" for j vs
    using that by (metis enumerate_eq_zip set_zip_rightD)
  then have "list_all plain_line (concat (map block_lines (enumerate 1 css)))"
    using plain_block assms by (fastforce simp: list_all_iff)
  moreover have "bq_lines (concat (map block_lines (enumerate 1 css))) = Inr (map block_obj css)"
    using bq_blocks [OF all, of "[]" 1 "[]"] by (simp add: bq_lines_def close_block_def [abs_def])
  ultimately show ?thesis by (simp add: text_to_commands_def bq_text_def splitlines_unlines)
qed

section \<open>Reading filter lines back\<close>

record peq_line =
  pl_number :: nat
  pl_off :: bool
  pl_type :: string
  pl_freq :: rat
  pl_gain :: rat
  pl_q :: rat

definition filter_text :: "peq_line \<Rightarrow> string" where
  "filter_text p =
     ''Filter '' @ show_nat (pl_number p) @ '': '' @ (if pl_off p then ''OFF'' else ''ON'') @ '' '' @ pl_type p
       @ '' Fc '' @ fmt2 (pl_freq p) @ '' Hz Gain '' @ fmt2 (pl_gain p) @ '' dB Q '' @ fmt2 (pl_q p)"

definition FILTER_TYPES :: "string list" where
  "FILTER_TYPES = [''PEQ'', ''PK'', ''LS'', ''HS'']"

definition digits_end :: "string \<Rightarrow> bool" where
  "digits_end s \<longleftrightarrow> s = [] \<or> \<not> is_digit (hd s)"

lemma digits_append: "s \<noteq> [] \<Longrightarrow> list_all is_digit s \<Longrightarrow> digits_end t \<Longrightarrow> digits (s @ t) = Some (s, t)"
  by (cases t) (auto simp: digits_def digits_end_def list_all_iff takeWhile_append dropWhile_append Let_def
      takeWhile_eq_all_conv [THEN iffD2] dropWhile_eq_Nil_conv)

lemma digits_show_nat: "digits_end t \<Longrightarrow> digits (show_nat n @ t) = Some (show_nat n, t)"
  by (rule digits_append) (auto simp: list_all_iff show_nat_digits)

lemma digits_two: "n < 100 \<Longrightarrow> digits_end t \<Longrightarrow> digits (two_digits n @ t) = Some (two_digits n, t)"
  by (rule digits_append) (auto simp: two_digits_def)

lemma decimal_fmt2: "0 \<le> x \<Longrightarrow> digits_end t \<Longrightarrow> decimal (fmt2 x @ t) = Some (fmt2 x, t)"
proof -
  assume x: "0 \<le> x" and t: "digits_end t"
  have "digits_end (CHR ''.'' # s)" for s by (simp add: digits_end_def is_digit_def digit_val_def)
  then show ?thesis
    using x t by (simp add: decimal_def seq_def lit_def starts_with_def give_def fmt2_def digits_show_nat digits_two)
qed

lemma signed_decimal_fmt2: "digits_end t \<Longrightarrow> signed_decimal (fmt2 x @ t) = Some (fmt2 x, t)"
proof (cases "x < 0")
  case True
  moreover assume "digits_end t"
  moreover have "fmt2 x = CHR ''-'' # fmt2 (- x)" using True by (simp add: fmt2_def hundredths_def)
  ultimately show ?thesis
    using decimal_fmt2 [of "- x" t] by (simp add: signed_decimal_def starts_with_def seq_def give_def)
next
  case False
  moreover assume "digits_end t"
  moreover have "\<not> starts_with ''-'' (fmt2 x @ t)"
    using False hd_show_nat_digit [of "hundredths x div 100"]
    by (cases "show_nat (hundredths x div 100)") (auto simp: fmt2_def starts_with_def)
  ultimately show ?thesis using decimal_fmt2 [of x t] by (simp add: signed_decimal_def)
qed

lemma match_filter_text:
  assumes "0 \<le> pl_freq p" "0 \<le> pl_q p" "pl_type p \<in> set FILTER_TYPES"
  shows "match_filter (filter_text p) = Some
    \<lparr>fl_number = show_nat (pl_number p), fl_state = (if pl_off p then ''OFF'' else ''ON''), fl_type = pl_type p,
     fl_freq = fmt2 (pl_freq p), fl_gain = fmt2 (pl_gain p), fl_q = fmt2 (pl_q p)\<rparr>"
proof -
  have blank: "digits_end (CHR '' '' # s)" "digits_end (CHR '':'' # s)" for s
    by (simp_all add: digits_end_def is_digit_def digit_val_def)
  have sp: "spaces (CHR '' '' # s) = Some ((), s)" if "s \<noteq> []" "\<not> is_blank (hd s)" for s
    using that by (cases s) (auto simp: spaces_def is_blank_def)
  have fmt: "fmt2 x @ s \<noteq> [] \<and> \<not> is_blank (hd (fmt2 x @ s))" for x s
  proof (cases "show_nat (hundredths x div 100)")
    case (Cons c cs)
    then show ?thesis
      using is_blank_digit [OF hd_show_nat_digit [of "hundredths x div 100"]] by (simp add: fmt2_def)
  qed simp
  have num: "show_nat n @ s \<noteq> [] \<and> \<not> is_blank (hd (show_nat n @ s))" for n s
    using is_blank_digit [OF hd_show_nat_digit [of n]] by (cases "show_nat n") auto
  have nil: "decimal (fmt2 (pl_q p)) = Some (fmt2 (pl_q p), [])"
    using decimal_fmt2 [OF assms(2), of "[]"] by (simp add: digits_end_def)
  have last: "spaces (CHR '' '' # fmt2 (pl_q p)) = Some ((), fmt2 (pl_q p))"
    using sp [of "fmt2 (pl_q p)"] fmt [of "pl_q p" "[]"] by simp
  have sps: "spaces (CHR '' '' # show_nat n @ s) = Some ((), show_nat n @ s)"
    "spaces (CHR '' '' # fmt2 x @ s) = Some ((), fmt2 x @ s)" for n x s
    using sp num fmt by blast+
  note rules = seq_def lit_def starts_with_def one_of_def is_blank_def give_def sp sps blank nil last
    digits_show_nat decimal_fmt2 [OF assms(1)] signed_decimal_fmt2
  from assms(3) consider "pl_type p = ''PEQ''" | "pl_type p = ''PK''" | "pl_type p = ''LS''" | "pl_type p = ''HS''"
    by (auto simp: FILTER_TYPES_def)
  then show ?thesis
    by cases (simp_all add: match_filter_def filter_text_def filter_pattern_def rules)
qed

definition peq_line_ok :: "peq_line \<Rightarrow> bool" where
  "peq_line_ok p \<longleftrightarrow>
     1 \<le> pl_number p \<and> pl_number p \<le> 10 \<and> pl_type p \<in> set FILTER_TYPES \<and> 0 \<le> pl_freq p \<and> 0 \<le> pl_q p
     \<and> in_domain 96000 (of_rat (round2 (pl_freq p))) (of_rat (round2 (pl_q p)))"

text \<open>The command of a filter line: the coefficients designed for the printed values, and its switch.\<close>

definition line_cmd :: "(real \<Rightarrow> string) \<Rightarrow> peq_line \<Rightarrow> exn + obj" where
  "line_cmd float_to_str p =
     rbind (convert_to_bq float_to_str (pl_type p) (round2 (pl_freq p)) (round2 (pl_gain p)) (round2 (pl_q p)))
       (\<lambda>d. Inr (if pl_off p then dict_set d ''BYPASS'' (JBool True) else d))"

lemma line_cmd_total:
  assumes "peq_line_ok p"
  shows "\<exists>ft ab. type_of_filter (pl_type p) = Inr ft
    \<and> design ft 96000 (of_rat (round2 (pl_freq p))) (of_rat (round2 (pl_q p))) (of_rat (round2 (pl_gain p))) = Inr ab
    \<and> line_cmd float_to_str p = Inr (zip COEFFS (map JStr (format_biquads float_to_str ab))
         @ (if pl_off p then [(''BYPASS'', JBool True)] else []))"
proof -
  obtain ft where ft: "type_of_filter (pl_type p) = Inr ft"
    using assms by (auto simp: peq_line_ok_def FILTER_TYPES_def type_of_filter_def)
  have dom: "in_domain 96000 (of_rat (round2 (pl_freq p))) (of_rat (round2 (pl_q p)))"
    using assms by (simp add: peq_line_ok_def)
  obtain a0 a1 a2 b0 b1 b2 where ab: "design ft 96000 (of_rat (round2 (pl_freq p))) (of_rat (round2 (pl_q p)))
      (of_rat (round2 (pl_gain p))) = Inr ([a0 / a0, a1 / a0, a2 / a0], [b0 / a0, b1 / a0, b2 / a0])"
    using dom by (rule design_raw)
  then show ?thesis
    using ft by (simp add: line_cmd_def convert_to_bq_def format_biquads_def COEFFS_def)
qed

lemma filt_line_text:
  assumes "peq_line_ok p"
  shows "filt_line float_to_str (idx, filter_text p) cs =
    rbind (line_cmd float_to_str p) (\<lambda>d. Inr (cs[pl_number p - 1 := d]))"
proof -
  have ok: "0 \<le> pl_freq p" "0 \<le> pl_q p" "pl_type p \<in> set FILTER_TYPES" and n: "1 \<le> pl_number p" "pl_number p \<le> 10"
    using assms by (simp_all add: peq_line_ok_def)
  have ne: "filter_text p \<noteq> []" by (simp add: filter_text_def)
  have k: "int_of_text (show_nat (pl_number p)) = Inr (int (pl_number p))"
    using py_int_show_int [of "int (pl_number p)"] by (simp add: int_of_text_def show_int_def del: py_int_show_int)
  have idx: "nat (int (pl_number p) - 1) = pl_number p - 1" using n by simp
  show ?thesis
    using n ne k idx
    by (simp add: filt_line_def match_filter_text [OF ok] float_of_text_def fmt2_py_float line_cmd_def rbind_def
        split: sum.split)
qed

lemma filt_lines_text:
  assumes "\<forall>p \<in> set ps. peq_line_ok p" "distinct (map pl_number ps)" "length cs = 10"
  shows "\<exists>cs'. fold_result (filt_line float_to_str) (enumerate i (map filter_text ps)) cs = Inr cs' \<and> length cs' = 10
    \<and> (\<forall>p \<in> set ps. line_cmd float_to_str p = Inr (cs' ! (pl_number p - 1)))
    \<and> (\<forall>j. j + 1 \<notin> pl_number ` set ps \<longrightarrow> cs' ! j = cs ! j)"
  using assms
proof (induction ps arbitrary: i cs)
  case (Cons p ps)
  have ok: "peq_line_ok p" and n: "pl_number p \<notin> pl_number ` set ps" using Cons.prems by auto
  obtain d where d: "line_cmd float_to_str p = Inr d" using line_cmd_total [OF ok] by blast
  let ?cs = "cs[pl_number p - 1 := d]"
  have rest: "\<forall>p \<in> set ps. peq_line_ok p" "distinct (map pl_number ps)" "length ?cs = 10"
    using Cons.prems by simp_all
  obtain cs' where cs': "fold_result (filt_line float_to_str) (enumerate (Suc i) (map filter_text ps)) ?cs = Inr cs'"
    "length cs' = 10" "\<forall>p \<in> set ps. line_cmd float_to_str p = Inr (cs' ! (pl_number p - 1))"
    "\<forall>j. j + 1 \<notin> pl_number ` set ps \<longrightarrow> cs' ! j = ?cs ! j"
    using Cons.IH [OF rest, of "Suc i"] by blast
  have le: "1 \<le> pl_number p" "pl_number p \<le> 10" using ok by (simp_all add: peq_line_ok_def)
  then have "cs' ! (pl_number p - 1) = ?cs ! (pl_number p - 1)" using n cs'(4) by simp
  then have "cs' ! (pl_number p - 1) = d" using le Cons.prems(3) by simp
  moreover have "cs' ! j = cs ! j" if "j + 1 \<notin> pl_number ` set (p # ps)" for j
  proof -
    have "cs' ! j = ?cs ! j" using that cs'(4) by simp
    moreover have "pl_number p - 1 \<noteq> j" using that le by auto
    ultimately show ?thesis by (simp add: nth_list_update_neq)
  qed
  ultimately show ?case
    using cs'(1-3) d by (simp add: filt_line_text [OF ok])
qed simp

lemma plain_two_digits: "plain_line (two_digits n)"
proof -
  have "\<not> is_line_end (digit_char (m mod 10))" for m
    using less_10_cases [of "m mod 10"] by (auto simp: digit_char_def is_line_end_def)
  then show ?thesis using mod_mod_trivial [of "n div 10" 10] by (simp add: two_digits_def)
qed

lemma plain_filter_text: "pl_type p \<in> set FILTER_TYPES \<Longrightarrow> plain_line (filter_text p)"
  by (auto simp: filter_text_def FILTER_TYPES_def fmt2_def plain_two_digits is_line_end_def)

text \<open>
  Claim C12. Equalizer APO filter lines, printed with two decimals and in any order, set exactly the biquads
  they number: each gets the coefficients designed for the printed type, frequency, gain and quality,
  and its bypass switch when the line says OFF; the other ones of the ten stay empty.
\<close>

theorem filter_text_roundtrip:
  assumes "ps \<noteq> []" and "\<forall>p \<in> set ps. peq_line_ok p" and "distinct (map pl_number ps)"
  shows "\<exists>cs. text_to_commands float_to_str ''filt'' (splitlines (unlines (map filter_text ps))) = Inr (Bq cs)
    \<and> length cs = 10
    \<and> (\<forall>p \<in> set ps. \<exists>ft ab. type_of_filter (pl_type p) = Inr ft
        \<and> design ft 96000 (of_rat (round2 (pl_freq p))) (of_rat (round2 (pl_q p))) (of_rat (round2 (pl_gain p))) = Inr ab
        \<and> cs ! (pl_number p - 1) = zip COEFFS (map JStr (format_biquads float_to_str ab))
             @ (if pl_off p then [(''BYPASS'', JBool True)] else []))
    \<and> (\<forall>j < 10. j + 1 \<notin> pl_number ` set ps \<longrightarrow> cs ! j = [])"
proof -
  have "list_all plain_line (map filter_text ps)"
    using assms(2) by (auto simp: list_all_iff peq_line_ok_def plain_filter_text)
  then have lines: "splitlines (unlines (map filter_text ps)) = map filter_text ps" by (rule splitlines_unlines)
  obtain cs where cs: "filt_lines float_to_str (map filter_text ps) = Inr cs" "length cs = 10"
    "\<forall>p \<in> set ps. line_cmd float_to_str p = Inr (cs ! (pl_number p - 1))"
    "\<forall>j. j + 1 \<notin> pl_number ` set ps \<longrightarrow> cs ! j = replicate 10 [] ! j"
    using filt_lines_text [OF assms(2,3), of "replicate 10 []" float_to_str 0] by (auto simp: filt_lines_def)
  show ?thesis
  proof (intro exI conjI)
    show "text_to_commands float_to_str ''filt'' (splitlines (unlines (map filter_text ps))) = Inr (Bq cs)"
      unfolding lines using assms(1) cs(1) by (simp add: text_to_commands_def)
    show "\<forall>p \<in> set ps. \<exists>ft ab. type_of_filter (pl_type p) = Inr ft
        \<and> design ft 96000 (of_rat (round2 (pl_freq p))) (of_rat (round2 (pl_q p))) (of_rat (round2 (pl_gain p))) = Inr ab
        \<and> cs ! (pl_number p - 1) = zip COEFFS (map JStr (format_biquads float_to_str ab))
             @ (if pl_off p then [(''BYPASS'', JBool True)] else [])"
    proof
      fix p assume p: "p \<in> set ps"
      with assms(2) have ok: "peq_line_ok p" by blast
      obtain ft ab where ft: "type_of_filter (pl_type p) = Inr ft"
        "design ft 96000 (of_rat (round2 (pl_freq p))) (of_rat (round2 (pl_q p))) (of_rat (round2 (pl_gain p))) = Inr ab"
        "line_cmd float_to_str p = Inr (zip COEFFS (map JStr (format_biquads float_to_str ab))
           @ (if pl_off p then [(''BYPASS'', JBool True)] else []))"
        using line_cmd_total [OF ok, of float_to_str] by (elim exE conjE) (rule that; assumption)
      have "line_cmd float_to_str p = Inr (cs ! (pl_number p - 1))" using cs(3) p by blast
      with ft show "\<exists>ft ab. type_of_filter (pl_type p) = Inr ft
        \<and> design ft 96000 (of_rat (round2 (pl_freq p))) (of_rat (round2 (pl_q p))) (of_rat (round2 (pl_gain p))) = Inr ab
        \<and> cs ! (pl_number p - 1) = zip COEFFS (map JStr (format_biquads float_to_str ab))
             @ (if pl_off p then [(''BYPASS'', JBool True)] else [])"
        by (intro exI [of _ ft] exI [of _ ab]) simp
    qed
    show "\<forall>j < 10. j + 1 \<notin> pl_number ` set ps \<longrightarrow> cs ! j = []" using cs(4) by simp
  qed (rule cs(2))
qed

theorem biquad_text_roundtrip_witness:
  "text_to_commands (\<lambda>_. ''0.0'') ''bq'' (splitlines (bq_text [[''1.0'', ''-1.9'', ''0.9'', ''1.9'', ''-0.9'']]))
     = Inr (Bq [[(''b0'', JStr ''1.0''), (''b1'', JStr ''-1.9''), (''b2'', JStr ''0.9''), (''a1'', JStr ''1.9''),
         (''a2'', JStr ''-0.9'')]])"
proof -
  have "\<forall>vs \<in> set [[''1.0'', ''-1.9'', ''0.9'', ''1.9'', ''-0.9'']]. length vs = 5 \<and> (\<forall>v \<in> set vs. coeff_text v)"
    by (simp add: coeff_text_def is_line_end_def)
  from biquad_text_roundtrip [OF this] show ?thesis by (simp add: block_obj_def COEFFS_def)
qed

definition example_line :: peq_line where
  "example_line = \<lparr>pl_number = 3, pl_off = True, pl_type = ''LS'', pl_freq = 100, pl_gain = - 7 / 2, pl_q = 7 / 10\<rparr>"

lemma example_line_ok: "peq_line_ok example_line"
proof -
  have "round2 100 = 100" using round2_exact [of 100 10000] by simp
  then have f: "real_of_rat (round2 100) = 100" by simp
  have q: "real_of_rat (round2 (7 / 10)) = 7 / 10"
  proof -
    have "round2 (7 / 10) = 7 / 10" by (rule round2_exact [of _ 70]) simp
    then show ?thesis by (simp only: of_rat_divide of_rat_numeral_eq)
  qed
  show ?thesis
    by (simp add: peq_line_ok_def example_line_def FILTER_TYPES_def) (simp only: f q in_domain_example)
qed

theorem filter_text_roundtrip_witness:
  "\<exists>cs. text_to_commands (\<lambda>_. ''0.0'') ''filt'' (splitlines (unlines [filter_text example_line])) = Inr (Bq cs)
     \<and> length cs = 10 \<and> cs ! 0 = [] \<and> map_of (cs ! 2) ''BYPASS'' = Some (JBool True)"
proof -
  have "[example_line] \<noteq> []" "\<forall>p \<in> set [example_line]. peq_line_ok p" "distinct (map pl_number [example_line])"
    using example_line_ok by simp_all
  from filter_text_roundtrip [OF this, of "\<lambda>_. ''0.0''"] obtain cs ab where
    "text_to_commands (\<lambda>_. ''0.0'') ''filt'' (splitlines (unlines [filter_text example_line])) = Inr (Bq cs)"
    "length cs = 10" "cs ! 2 = zip COEFFS (map JStr (format_biquads (\<lambda>_. ''0.0'') ab)) @ [(''BYPASS'', JBool True)]"
    "\<forall>j < 10. j + 1 \<notin> {3 :: nat} \<longrightarrow> cs ! j = []"
    by (auto simp: example_line_def)
  moreover from this(4) have "cs ! 0 = []" by simp
  moreover have "map_of (zip COEFFS (map JStr (format_biquads (\<lambda>_. ''0.0'') ab))) ''BYPASS'' = None"
    by (auto simp: map_of_eq_None_iff COEFFS_def dest: set_zip_leftD)
  ultimately show ?thesis by (intro exI [of _ cs]) (simp add: map_add_def)
qed

end
