(* ===== verification/Slot_State.thy ===== *)
theory Slot_State
  imports Json
begin

text \<open>
  The part of a slot that every device type shares, \<^verbatim>\<open>SlotState\<close> in \<^verbatim>\<open>ezbeq/device.py\<close>. The
  fields are JSON values where a cached state may put any value in them. Device types extend the
  record as their slot classes extend \<^verbatim>\<open>SlotState\<close>.
\<close>

record slot_state =
  slot_id :: string
  last_title :: json
  last_author :: json
  active :: bool

definition empty_title :: json where
  "empty_title = JStr ''Empty''"

definition error_title :: json where
  "error_title = JStr ''ERROR''"

definition new_slot :: "string \<Rightarrow> slot_state" where
  "new_slot sid =
     \<lparr>slot_id = sid, last_title = empty_title, last_author = JNull, active = False\<rparr>"

text \<open>\<^verbatim>\<open>SlotState.merge_with\<close>: a cached slot without \<^verbatim>\<open>active\<close> deactivates the slot.\<close>

definition slot_merge_with :: "obj \<Rightarrow> 'a slot_state_scheme \<Rightarrow> 'a slot_state_scheme" where
  "slot_merge_with st s =
     (let s1 = (case map_of st ''last'' of None \<Rightarrow> s | Some v \<Rightarrow> s\<lparr>last_title := v\<rparr>);
          s2 = (case map_of st ''active'' of
                  None \<Rightarrow> s1\<lparr>active := False\<rparr> | Some v \<Rightarrow> s1\<lparr>active := truthy v\<rparr>)
      in case map_of st ''author'' of None \<Rightarrow> s2 | Some v \<Rightarrow> s2\<lparr>last_author := v\<rparr>)"

definition slot_as_dict :: "'a slot_state_scheme \<Rightarrow> obj" where
  "slot_as_dict s =
     [(''id'', JStr (slot_id s)), (''last'', last_title s), (''active'', JBool (active s)),
      (''author'', last_author s)]"

definition slot_clear :: "'a slot_state_scheme \<Rightarrow> 'a slot_state_scheme" where
  "slot_clear s = s\<lparr>last_title := empty_title, last_author := JNull\<rparr>"

text \<open>The two assignments every device makes after a load and after a failure.\<close>

definition set_loaded :: "json \<Rightarrow> json \<Rightarrow> 'a slot_state_scheme \<Rightarrow> 'a slot_state_scheme" where
  "set_loaded t a s = s\<lparr>last_title := t, last_author := a\<rparr>"

lemmas slot_ops = slot_merge_with_def slot_as_dict_def slot_clear_def set_loaded_def

lemma slot_merge_with_slot_id [simp]: "slot_id (slot_merge_with st s) = slot_id s"
  by (simp add: slot_merge_with_def Let_def split: option.split)

lemma slot_merge_with_more [simp]: "slot_state.more (slot_merge_with st s) = slot_state.more s"
  by (simp add: slot_merge_with_def Let_def split: option.split)

lemma set_loaded_simps [simp]:
  "slot_id (set_loaded t a s) = slot_id s"
  "active (set_loaded t a s) = active s"
  "last_title (set_loaded t a s) = t"
  "last_author (set_loaded t a s) = a"
  "slot_state.more (set_loaded t a s) = slot_state.more s"
  by (simp_all add: set_loaded_def)

text \<open>
  What a slot wrote is what a fresh slot of the same id reads back: the serialised form of a slot
  restores all four fields.
\<close>

lemma slot_merge_as_dict:
  assumes "slot_id s = slot_id t" and "slot_state.more s = slot_state.more t"
  shows "slot_merge_with (slot_as_dict t) s = t"
  using assms
  by (cases s; cases t) (simp add: slot_merge_with_def slot_as_dict_def)

end
