(* ===== verification/Persistence.thy ===== *)
theory Persistence
  imports Slot_State
begin

text \<open>
  \<^verbatim>\<open>PersistentDevice\<close> of \<^verbatim>\<open>ezbeq/device.py\<close>: a device object with a lazily loaded current state, a
  cache file on disk and the web socket server it broadcasts to. The class is generic in the state
  type; a device type supplies the three methods of \<open>device_class\<close>, whose contract is the locale
  \<open>persistent_device\<close>.
\<close>

datatype cache_file = NoFile | Unreadable | Stored json

datatype ws_msg = StateMsg json | ErrorMsg string bool | PlainError string

text \<open>
  \<open>world\<close> is what a device type keeps beside its current state (its runner, its members, its
  connection). \<open>broadcasts\<close> lists the messages given to the web socket server, oldest first.
\<close>

record ('st, 'w) device =
  hydrated :: bool
  current :: "'st option"
  cache :: cache_file
  state_provider :: bool
  broadcasts :: "ws_msg list"
  world :: 'w

record ('st, 'w) device_class =
  load_initial_state :: "(('st, 'w) device, 'st) act"
  merge_state :: "json \<Rightarrow> ('st, unit) act"
  serialise :: "'st \<Rightarrow> exn + json"

definition new_device :: "cache_file \<Rightarrow> 'w \<Rightarrow> ('st, 'w) device" where
  "new_device c w =
     \<lparr>hydrated = False, current = None, cache = c, state_provider = False, broadcasts = [], world = w\<rparr>"

text \<open>
  \<^verbatim>\<open>_hydrate\<close>: load, then merge the cache file into the loaded state in place. An exception of the
  merge is logged and swallowed, so the merge may have been applied in part. A hydration with
  \<^verbatim>\<open>refresh=True\<close> does not mark the device hydrated.
\<close>

definition merge_cache :: "('st, 'w) device_class \<Rightarrow> cache_file \<Rightarrow> 'st \<Rightarrow> 'st" where
  "merge_cache c f st = (case f of Stored j \<Rightarrow> snd (merge_state c j st) | _ \<Rightarrow> st)"

definition hydrate :: "('st, 'w) device_class \<Rightarrow> bool \<Rightarrow> (('st, 'w) device, bool) act" where
  "hydrate c refresh d =
     (if \<not> hydrated d \<or> refresh then
        (case load_initial_state c d of
           (Inl e, d') \<Rightarrow> (Inl e, d')
         | (Inr st, d') \<Rightarrow>
             (let d'' = d'\<lparr>current := Some (merge_cache c (cache d') st)\<rparr>
              in (Inr True,
                  if refresh then d'' else d''\<lparr>state_provider := True, hydrated := True\<rparr>)))
      else (Inr False, d))"

text \<open>\<^verbatim>\<open>_persist\<close> and \<^verbatim>\<open>_broadcast\<close>; both assert that there is a current state.\<close>

definition persist :: "('st, 'w) device_class \<Rightarrow> (('st, 'w) device, unit) act" where
  "persist c d =
     (case current d of
        None \<Rightarrow> (Inl (RuntimeError ''hydrate cannot return None''), d)
      | Some st \<Rightarrow>
          (case serialise c st of Inl e \<Rightarrow> (Inl e, d) | Inr j \<Rightarrow> (Inr (), d\<lparr>cache := Stored j\<rparr>)))"

definition broadcast_state :: "('st, 'w) device_class \<Rightarrow> (('st, 'w) device, unit) act" where
  "broadcast_state c d =
     (case current d of
        None \<Rightarrow> (Inl (RuntimeError ''hydrate cannot return None''), d)
      | Some st \<Rightarrow>
          (case serialise c st of
             Inl e \<Rightarrow> (Inl e, d)
           | Inr j \<Rightarrow> (Inr (), d\<lparr>broadcasts := broadcasts d @ [StateMsg j]\<rparr>)))"

text \<open>
  \<^verbatim>\<open>_hydrate_cache_broadcast\<close>: the body runs under a \<^verbatim>\<open>finally\<close> that persists and broadcasts.
\<close>

definition hydrate_cache_broadcast ::
  "('st, 'w) device_class \<Rightarrow> (('st, 'w) device, 'a) act \<Rightarrow> (('st, 'w) device, 'a) act" where
  "hydrate_cache_broadcast c f =
     and_then (hydrate c False)
       (\<lambda>_. try_finally f (and_then (persist c) (\<lambda>_. broadcast_state c)))"

text \<open>\<^verbatim>\<open>state(refresh)\<close> of the base class.\<close>

definition base_state :: "('st, 'w) device_class \<Rightarrow> bool \<Rightarrow> (('st, 'w) device, 'st option) act" where
  "base_state c refresh = and_then (hydrate c refresh) (\<lambda>_ d. (Inr (current d), d))"

text \<open>\<^verbatim>\<open>self._current_state.f(...)\<close> for a method that may raise.\<close>

definition on_current :: "('st, 'a) act \<Rightarrow> (('st, 'w) device, 'a) act" where
  "on_current m d =
     (case current d of
        None \<Rightarrow> (Inl AttributeError, d)
      | Some st \<Rightarrow> (case m st of (r, st') \<Rightarrow> (r, d\<lparr>current := Some st'\<rparr>)))"

definition broadcast_error :: "string \<Rightarrow> bool \<Rightarrow> (('st, 'w) device, unit) act" where
  "broadcast_error msg persistent =
     modify (\<lambda>d. d\<lparr>broadcasts := broadcasts d @ [ErrorMsg msg persistent]\<rparr>)"

section \<open>The contract of a device type\<close>

definition ready :: "('st \<Rightarrow> bool) \<Rightarrow> ('st, 'w) device \<Rightarrow> bool" where
  "ready good d \<longleftrightarrow> (\<exists>st. current d = Some st \<and> good st)"

definition device_ok :: "('st \<Rightarrow> bool) \<Rightarrow> ('st, 'w) device \<Rightarrow> bool" where
  "device_ok good d \<longleftrightarrow> (hydrated d \<longrightarrow> ready good d) \<and> (\<forall>st. current d = Some st \<longrightarrow> good st)"

text \<open>
  \<open>coherent\<close>: the cache file and the last message broadcast both hold the current state.
\<close>

definition coherent :: "('st, 'w) device_class \<Rightarrow> ('st, 'w) device \<Rightarrow> bool" where
  "coherent c d \<longleftrightarrow>
     (\<exists>st j. current d = Some st \<and> serialise c st = Inr j \<and> cache d = Stored j
        \<and> broadcasts d \<noteq> [] \<and> last (broadcasts d) = StateMsg j)"

lemma device_ok_new [simp]: "device_ok good (new_device c w)"
  by (simp add: device_ok_def new_device_def)

lemma ready_device_ok: "ready good d \<Longrightarrow> device_ok good d"
  by (auto simp: device_ok_def ready_def)

lemma ready_on_current:
  assumes "ready good d" and "\<And>st. good st \<Longrightarrow> good (snd (m st))"
  shows "ready good (snd (on_current m d))"
  using assms by (auto simp: ready_def on_current_def split: prod.split) (metis snd_conv)

lemma on_current_frame [simp]:
  "hydrated (snd (on_current m d)) = hydrated d"
  "cache (snd (on_current m d)) = cache d"
  "broadcasts (snd (on_current m d)) = broadcasts d"
  "world (snd (on_current m d)) = world d"
  by (auto simp: on_current_def split: option.split prod.split)

lemma maintains_on_current [keeps_intros]:
  "maintains good m \<Longrightarrow> maintains (ready good) (on_current m)"
  unfolding maintains_def using ready_on_current by blast

text \<open>A computation that leaves the current state and the hydration alone.\<close>

definition frame_current :: "(('st, 'w) device, 'a) act \<Rightarrow> bool" where
  "frame_current m \<longleftrightarrow> (\<forall>d. current (snd (m d)) = current d \<and> hydrated (snd (m d)) = hydrated d)"

lemma maintains_frame: "frame_current m \<Longrightarrow> maintains (ready good) m"
  by (simp add: frame_current_def maintains_def ready_def)

locale persistent_device =
  fixes c :: "('st, 'w) device_class" and good :: "'st \<Rightarrow> bool"
  assumes load_good: "device_ok good d \<Longrightarrow> load_initial_state c d = (Inr st, d') \<Longrightarrow> good st"
    and load_frame: "load_initial_state c d = (r, d') \<Longrightarrow>
      hydrated d' = hydrated d \<and> current d' = current d"
    and merge_good: "good st \<Longrightarrow> good (snd (merge_state c j st))"
    and serialise_total: "good st \<Longrightarrow> \<exists>j. serialise c st = Inr j"
begin

lemma merge_cache_inv: "good st \<Longrightarrow> good (merge_cache c f st)"
  by (simp add: merge_cache_def merge_good split: cache_file.split)

lemma hydrate_ok:
  assumes "device_ok good d" and "hydrate c r d = (Inr b, d')"
  shows "ready good d'" and "device_ok good d'" and "\<not> r \<Longrightarrow> hydrated d'"
proof -
  have "ready good d' \<and> (\<not> r \<longrightarrow> hydrated d')"
  proof (cases "\<not> hydrated d \<or> r")
    case True
    with assms(2) obtain st d1 where ld: "load_initial_state c d = (Inr st, d1)"
      by (auto simp: hydrate_def split: prod.splits sum.splits)
    have "good (merge_cache c (cache d1) st)"
      using load_good [OF assms(1) ld] by (rule merge_cache_inv)
    with True assms(2) ld show ?thesis
      by (auto simp: hydrate_def ready_def Let_def split: if_splits)
  next
    case False
    with assms show ?thesis by (auto simp: hydrate_def device_ok_def)
  qed
  then show "ready good d'" and "\<not> r \<Longrightarrow> hydrated d'" by auto
  then show "device_ok good d'" by (simp add: ready_device_ok)
qed

lemma hydrate_failed_ok:
  assumes "device_ok good d" and "hydrate c r d = (Inl e, d')"
  shows "device_ok good d'"
proof -
  from assms(2) have "load_initial_state c d = (Inl e, d')"
    by (auto simp: hydrate_def Let_def split: if_splits prod.splits sum.splits)
  with assms(1) show ?thesis
    by (auto simp: device_ok_def ready_def dest: load_frame)
qed

lemma hydrate_idle: "hydrated d \<Longrightarrow> hydrate c False d = (Inr False, d)"
  by (simp add: hydrate_def)

lemma finish_coherent:
  assumes "ready good d"
  shows "\<exists>d'. and_then (persist c) (\<lambda>_. broadcast_state c) d = (Inr (), d') \<and> coherent c d'
    \<and> current d' = current d \<and> hydrated d' = hydrated d \<and> world d' = world d
    \<and> (\<exists>j. broadcasts d' = broadcasts d @ [StateMsg j])"
proof -
  from assms obtain st j where "current d = Some st" and "serialise c st = Inr j"
    by (auto simp: ready_def dest: serialise_total)
  then show ?thesis
    by (simp add: act_simps persist_def broadcast_state_def coherent_def)
qed

text \<open>
  Whatever the body does, returning or raising, the result is the body's and the device is coherent
  afterwards, provided the body keeps the invariant.
\<close>

lemma hcb_coherent:
  assumes ok: "device_ok good d" and hyd: "hydrate c False d = (Inr b, d1)"
    and body: "ready good d1 \<Longrightarrow> ready good (snd (f d1))"
  shows "fst (hydrate_cache_broadcast c f d) = fst (f d1)"
    and "coherent c (snd (hydrate_cache_broadcast c f d))"
    and "current (snd (hydrate_cache_broadcast c f d)) = current (snd (f d1))"
    and "world (snd (hydrate_cache_broadcast c f d)) = world (snd (f d1))"
    and "ready good (snd (hydrate_cache_broadcast c f d))"
    and "hydrated (snd (hydrate_cache_broadcast c f d)) = hydrated (snd (f d1))"
proof -
  obtain r d2 where f: "f d1 = (r, d2)" by (cases "f d1")
  have "ready good d2" using body [OF hydrate_ok(1) [OF ok hyd]] f by simp
  from finish_coherent [OF this] obtain d3 where
    d3: "and_then (persist c) (\<lambda>_. broadcast_state c) d2 = (Inr (), d3)" "coherent c d3"
      "current d3 = current d2" "hydrated d3 = hydrated d2" "world d3 = world d2" by blast
  have "hydrate_cache_broadcast c f d = (r, d3)"
    using hyd f d3(1) by (simp add: hydrate_cache_broadcast_def and_then_def try_finally_def)
  then show "fst (hydrate_cache_broadcast c f d) = fst (f d1)"
    and "coherent c (snd (hydrate_cache_broadcast c f d))"
    and "current (snd (hydrate_cache_broadcast c f d)) = current (snd (f d1))"
    and "world (snd (hydrate_cache_broadcast c f d)) = world (snd (f d1))"
    and "ready good (snd (hydrate_cache_broadcast c f d))"
    and "hydrated (snd (hydrate_cache_broadcast c f d)) = hydrated (snd (f d1))"
    using f d3 \<open>ready good d2\<close> by (auto simp: ready_def)
qed

lemma hcb_device_ok:
  assumes ok: "device_ok good d"
    and body: "\<And>d. ready good d \<Longrightarrow> ready good (snd (f d))"
  shows "device_ok good (snd (hydrate_cache_broadcast c f d))"
proof -
  obtain r d1 where hyd: "hydrate c False d = (r, d1)" by (cases "hydrate c False d")
  show ?thesis
  proof (cases r)
    case (Inl e)
    with hyd have "hydrate_cache_broadcast c f d = (Inl e, d1)"
      by (simp add: hydrate_cache_broadcast_def and_then_def)
    with hydrate_failed_ok [OF ok] hyd Inl show ?thesis by simp
  next
    case (Inr b)
    with hyd show ?thesis using hcb_coherent(5) [OF ok _ body] by (simp add: ready_device_ok)
  qed
qed

text \<open>The same on a device that is already hydrated: the body starts from the device itself.\<close>

lemma hcb_hydrated:
  assumes "device_ok good d" and "hydrated d" and "ready good d \<Longrightarrow> ready good (snd (f d))"
  shows "fst (hydrate_cache_broadcast c f d) = fst (f d)"
    and "coherent c (snd (hydrate_cache_broadcast c f d))"
    and "current (snd (hydrate_cache_broadcast c f d)) = current (snd (f d))"
    and "world (snd (hydrate_cache_broadcast c f d)) = world (snd (f d))"
    and "ready good (snd (hydrate_cache_broadcast c f d))"
  using hcb_coherent [OF assms(1) hydrate_idle [OF assms(2)], of f] assms(3) by auto

text \<open>A body that keeps the state well formed does so under the wrapper too, hydrated or not.\<close>

lemma hcb_maintains:
  assumes body: "maintains (ready good) f"
  shows "maintains (ready good) (hydrate_cache_broadcast c f)"
  unfolding maintains_def
proof (intro allI impI)
  fix d :: "('st, 'w) device" assume r: "ready good d"
  then have ok: "device_ok good d" by (rule ready_device_ok)
  obtain x d1 where hyd: "hydrate c False d = (x, d1)" by (cases "hydrate c False d")
  show "ready good (snd (hydrate_cache_broadcast c f d))"
  proof (cases x)
    case (Inl e)
    with hyd have "load_initial_state c d = (Inl e, d1)"
      by (auto simp: hydrate_def Let_def split: if_splits prod.splits sum.splits)
    then have "current d1 = current d" by (simp add: load_frame)
    with r Inl hyd show ?thesis by (simp add: hydrate_cache_broadcast_def and_then_def ready_def)
  next
    case (Inr b)
    with hyd show ?thesis using hcb_coherent(5) [OF ok _ maintainsD [OF body]] by simp
  qed
qed

lemma hcb_maintains_ok:
  "maintains (ready good) f \<Longrightarrow> maintains (device_ok good) (hydrate_cache_broadcast c f)"
  unfolding maintains_def using hcb_device_ok by blast

lemma hydrate_maintains: "maintains (device_ok good) (hydrate c r)"
  unfolding maintains_def
proof (intro allI impI)
  fix d :: "('st, 'w) device" assume ok: "device_ok good d"
  obtain x d' where h: "hydrate c r d = (x, d')" by (cases "hydrate c r d")
  then show "device_ok good (snd (hydrate c r d))"
    using hydrate_ok(2) [OF ok] hydrate_failed_ok [OF ok] by (cases x) auto
qed

text \<open>A wrapped body leaves a coherent device whenever the device could be hydrated at all.\<close>

lemma hcb_result:
  assumes ok: "device_ok good d" and body: "maintains (ready good) f"
  shows "device_ok good (snd (hydrate_cache_broadcast c f d))
    \<and> (hydrated (snd (hydrate_cache_broadcast c f d)) \<longrightarrow> coherent c (snd (hydrate_cache_broadcast c f d)))"
proof -
  obtain x d1 where hyd: "hydrate c False d = (x, d1)" by (cases "hydrate c False d")
  have "coherent c (snd (hydrate_cache_broadcast c f d))"
    if h: "hydrated (snd (hydrate_cache_broadcast c f d))"
  proof (cases x)
    case (Inl e)
    with hyd have "load_initial_state c d = (Inl e, d1)" and "\<not> hydrated d"
      by (auto simp: hydrate_def Let_def split: if_splits prod.splits sum.splits)
    then have "\<not> hydrated d1" by (simp add: load_frame)
    with Inl hyd h show ?thesis by (simp add: hydrate_cache_broadcast_def and_then_def)
  next
    case (Inr b)
    with hyd show ?thesis using hcb_coherent(2) [OF ok _ maintainsD [OF body]] by simp
  qed
  then show ?thesis using hcb_device_ok [OF ok maintainsD [OF body]] by simp
qed

end

lemma maintains_device_ok_on_current:
  "maintains good m \<Longrightarrow> maintains (device_ok good) (on_current m)"
  by (auto simp: maintains_def device_ok_def ready_def on_current_def split: option.split prod.split)

lemma maintains_device_ok_broadcast: "maintains (device_ok good) (broadcast_state c)"
  by (auto simp: maintains_def device_ok_def ready_def broadcast_state_def split: option.split sum.split)

end
