(* ===== verification/Requests.thy ===== *)
theory Requests
  imports Persistence
begin

text \<open>
  What the \<^verbatim>\<open>update\<close> methods of the devices share: reading keys of a request, running an operation for
  each item of a list, and reading the current state, with the rules that these forms keep an
  invariant when the operations they run do.
\<close>

text \<open>\<^verbatim>\<open>self._current_state.x\<close>\<close>

definition with_current :: "('st \<Rightarrow> (('st, 'w) device, 'a) act) \<Rightarrow> (('st, 'w) device, 'a) act" where
  "with_current f d = (case current d of None \<Rightarrow> (Inl AttributeError, d) | Some st \<Rightarrow> f st d)"

text \<open>The text of a slot id or entry id in a message; other values are abbreviated.\<close>

fun id_text :: "json \<Rightarrow> string" where
  "id_text (JStr s) = s"
| "id_text _ = ''(value)''"

text \<open>\<^verbatim>\<open>if key in slot: for x in slot[key]: body(x); any_update = True\<close>\<close>

definition each_item ::
  "string \<Rightarrow> json \<Rightarrow> (json \<Rightarrow> ('s, unit) act) \<Rightarrow> ('s, bool) act" where
  "each_item key slot body =
     and_then (lift_result (jcontains key slot)) (\<lambda>present.
       if present then
         and_then (lift_result (jget slot key)) (\<lambda>v.
         and_then (lift_result (jiter v)) (\<lambda>xs.
         and_then (for_each body xs) (\<lambda>_. ok (xs \<noteq> []))))
       else ok False)"

definition channel_of :: "json \<Rightarrow> exn + int" where
  "channel_of v = (case jget v ''id'' of Inl e \<Rightarrow> Inl e | Inr i \<Rightarrow> jint i)"

definition gain_item ::
  "(int option \<Rightarrow> json \<Rightarrow> ('s, unit) act) \<Rightarrow> json \<Rightarrow> ('s, unit) act" where
  "gain_item op v =
     and_then (lift_result (channel_of v)) (\<lambda>ch.
     and_then (lift_result (jget v ''value'')) (\<lambda>g. op (Some ch) g))"

definition mute_item ::
  "(int option \<Rightarrow> ('s, unit) act) \<Rightarrow> (int option \<Rightarrow> ('s, unit) act)
   \<Rightarrow> json \<Rightarrow> ('s, unit) act" where
  "mute_item on off v =
     and_then (lift_result (jget v ''value'')) (\<lambda>m.
     and_then (lift_result (channel_of v)) (\<lambda>ch.
       if m = JBool True then on (Some ch) else off (Some ch)))"

text \<open>\<^verbatim>\<open>if key in params: f(params[key])\<close>, whether it was present.\<close>

definition on_key :: "string \<Rightarrow> json \<Rightarrow> (json \<Rightarrow> ('s, unit) act) \<Rightarrow> ('s, bool) act" where
  "on_key key params f =
     and_then (lift_result (jcontains key params)) (\<lambda>present.
       if present then
         and_then (lift_result (jget params key)) (\<lambda>v. and_then (f v) (\<lambda>_. ok True))
       else ok False)"

lemma maintains_case_prod [keeps_intros]:
  "(\<And>a b. maintains P (f a b)) \<Longrightarrow> maintains P (case p of (a, b) \<Rightarrow> f a b)"
  by (cases p) simp

lemma maintains_case_option [keeps_intros]:
  "maintains P m \<Longrightarrow> (\<And>a. maintains P (f a)) \<Longrightarrow> maintains P (case x of None \<Rightarrow> m | Some a \<Rightarrow> f a)"
  by (cases x) simp_all

lemma with_current_maintains [keeps_intros]:
  "(\<And>st. maintains P (f st)) \<Longrightarrow> maintains P (with_current f)"
  by (auto simp: maintains_def with_current_def split: option.split)

lemma each_item_maintains [keeps_intros]:
  "(\<And>x. maintains P (body x)) \<Longrightarrow> maintains P (each_item key slot body)"
  unfolding each_item_def by (intro keeps_intros)

lemma items_maintains [keeps_intros]:
  "(\<And>c g. maintains P (op c g)) \<Longrightarrow> maintains P (gain_item op v)"
  "(\<And>c. maintains P (on c)) \<Longrightarrow> (\<And>c. maintains P (off c)) \<Longrightarrow> maintains P (mute_item on off v)"
  unfolding gain_item_def mute_item_def by (intro keeps_intros; assumption)+

lemma on_key_maintains [keeps_intros]:
  "(\<And>v. maintains P (f v)) \<Longrightarrow> maintains P (on_key key params f)"
  unfolding on_key_def by (intro keeps_intros)

end
