(* ===== verification/Peq_Layout.thy ===== *)
theory Peq_Layout
  imports Text
begin

text \<open>
  The filter banks of a MiniDSP (\<^verbatim>\<open>ezbeq/minidsp.py\<close>): routes of biquad slots, the device
  descriptors built from the configuration, and the allocator that hands out the slots that take
  BEQ filters. Lemmas: what the allocator holds, that every descriptor the program knows stays
  inside the biquads its routes have, and that no two allocated slots share a hardware address.
\<close>

section \<open>Routes and slots\<close>

record peq_routes =
  pr_name :: string
  biquads :: int
  channels :: "int list option"
  beq_slots :: "int list option"
  groups :: "int list option"

record beq_filter_slot =
  bs_name :: string
  bs_idx :: int
  bs_channels :: "int list"
  bs_group :: "int option"

definition INPUT_NAME :: string where "INPUT_NAME = ''input''"
definition OUTPUT_NAME :: string where "OUTPUT_NAME = ''output''"
definition CROSSOVER_NAME :: string where "CROSSOVER_NAME = ''crossover''"

lemmas side_names = INPUT_NAME_def OUTPUT_NAME_def CROSSOVER_NAME_def

definition PeqRoutes :: "string \<Rightarrow> int \<Rightarrow> int list \<Rightarrow> int list \<Rightarrow> int list option \<Rightarrow> peq_routes" where
  "PeqRoutes n b c s g =
     \<lparr>pr_name = n, biquads = b, channels = Some c, beq_slots = Some s, groups = g\<rparr>"

text \<open>A list that is absent or empty is false.\<close>

fun nonempty :: "'a list option \<Rightarrow> bool" where
  "nonempty (Some (x # xs)) = True"
| "nonempty _ = False"

definition items :: "'a list option \<Rightarrow> 'a list" where
  "items xs = (case xs of None \<Rightarrow> [] | Some ys \<Rightarrow> ys)"

definition takes_beq :: "peq_routes \<Rightarrow> bool" where
  "takes_beq r \<longleftrightarrow> nonempty (channels r) \<and> nonempty (beq_slots r)"

text \<open>\<^verbatim>\<open>PeqRoutes.__eq__\<close>: field by field, groups equal or both absent.\<close>

definition routes_eq :: "peq_routes \<Rightarrow> peq_routes \<Rightarrow> bool" where
  "routes_eq r o' \<longleftrightarrow>
     (let same = (pr_name r = pr_name o' \<and> biquads r = biquads o' \<and> channels r = channels o'
                  \<and> beq_slots r = beq_slots o')
      in if same
         then (groups r = None \<and> groups o' = None) \<or> (groups r \<noteq> None \<and> groups r = groups o')
         else same)"

text \<open>\<^verbatim>\<open>BeqFilterAllocator.__init__\<close>: slots route by route, and group by group inside a slot.\<close>

definition route_slots :: "peq_routes \<Rightarrow> beq_filter_slot list" where
  "route_slots r =
     (if takes_beq r then
        concat (map (\<lambda>s.
          if nonempty (groups r)
          then map (\<lambda>g. \<lparr>bs_name = pr_name r, bs_idx = s, bs_channels = items (channels r),
                         bs_group = Some g\<rparr>) (items (groups r))
          else [\<lparr>bs_name = pr_name r, bs_idx = s, bs_channels = items (channels r), bs_group = None\<rparr>])
          (items (beq_slots r)))
      else [])"

definition BeqFilterAllocator :: "peq_routes option list \<Rightarrow> beq_filter_slot list" where
  "BeqFilterAllocator rs = concat (map (\<lambda>r. case r of None \<Rightarrow> [] | Some r' \<Rightarrow> route_slots r') rs)"

text \<open>\<^verbatim>\<open>pop\<close> takes the oldest slot; \<open>None\<close> when none is left.\<close>

fun allocator_pop :: "beq_filter_slot list \<Rightarrow> beq_filter_slot option \<times> beq_filter_slot list" where
  "allocator_pop [] = (None, [])"
| "allocator_pop (s # ss) = (Some s, ss)"

section \<open>Descriptors\<close>

record descriptor =
  d_name :: string
  d_fs :: string
  d_input :: "peq_routes option"
  d_crossover :: "peq_routes option"
  d_output :: "peq_routes option"
  d_extra :: "peq_routes option list option"
  d_slot_names :: "(string, string) pydict"

definition MinidspDescriptor ::
  "string \<Rightarrow> string \<Rightarrow> peq_routes option \<Rightarrow> peq_routes option \<Rightarrow> peq_routes option
   \<Rightarrow> peq_routes option list option \<Rightarrow> (string, string) pydict \<Rightarrow> exn + descriptor" where
  "MinidspDescriptor n fs i xo out extra names =
     (case py_int fs of
        None \<Rightarrow> Inl (ValueError ''invalid literal for int()'')
      | Some k \<Rightarrow> Inr \<lparr>d_name = n, d_fs = show_int k, d_input = i, d_crossover = xo, d_output = out,
                       d_extra = extra, d_slot_names = names\<rparr>)"

text \<open>\<^verbatim>\<open>peq_routes\<close>: the routes present, then the extra ones (which may hold \<^verbatim>\<open>None\<close>).\<close>

definition descriptor_routes :: "descriptor \<Rightarrow> peq_routes option list" where
  "descriptor_routes d =
     filter (\<lambda>x. x \<noteq> None) [d_input d, d_crossover d, d_output d]
       @ (case d_extra d of None \<Rightarrow> [] | Some xs \<Rightarrow> xs)"

definition to_allocator :: "descriptor \<Rightarrow> beq_filter_slot list" where
  "to_allocator d = BeqFilterAllocator (descriptor_routes d)"

definition zero_til :: "nat \<Rightarrow> int list" where
  "zero_til n = map int [0..<n]"

definition Minidsp24HD :: "(string, string) pydict \<Rightarrow> exn + descriptor" where
  "Minidsp24HD names = MinidspDescriptor ''2x4HD'' ''96000''
     (Some (PeqRoutes INPUT_NAME 10 (zero_til 2) (zero_til 10) None))
     (Some (PeqRoutes CROSSOVER_NAME 4 (zero_til 4) [] (Some (zero_til 2))))
     (Some (PeqRoutes OUTPUT_NAME 10 (zero_til 4) [] None)) None names"

definition Minidsp812CDSP :: "(string, string) pydict \<Rightarrow> exn + descriptor" where
  "Minidsp812CDSP names = MinidspDescriptor ''8x12CDSP'' ''192000''
     (Some (PeqRoutes INPUT_NAME 10 (zero_til 6) (zero_til 10) None))
     (Some (PeqRoutes CROSSOVER_NAME 4 (zero_til 12) [] (Some (zero_til 2))))
     (Some (PeqRoutes OUTPUT_NAME 10 (zero_til 12) [] None)) None names"

definition MinidspDDRC24 :: "(string, string) pydict \<Rightarrow> exn + descriptor" where
  "MinidspDDRC24 names = MinidspDescriptor ''DDRC24'' ''48000'' None
     (Some (PeqRoutes CROSSOVER_NAME 4 (zero_til 4) [] (Some (zero_til 2))))
     (Some (PeqRoutes OUTPUT_NAME 10 (zero_til 4) (zero_til 10) None)) None names"

text \<open>The channel check and the channels left over, common to the HTX and the DDRC-88.\<close>

definition sw_list :: "int list option \<Rightarrow> int list" where
  "sw_list cs = (case cs of None \<Rightarrow> [3] | Some c \<Rightarrow> c)"

definition sw_invalid :: "int list \<Rightarrow> bool" where
  "sw_invalid c \<longleftrightarrow> list_ex (\<lambda>ch. ch < 0 \<or> 7 < ch) c"

definition non_sw :: "int list \<Rightarrow> int list" where
  "non_sw c = filter (\<lambda>c1. c1 \<notin> set c) (zero_til 8)"

definition non_sw_extra :: "int list \<Rightarrow> peq_routes option list option" where
  "non_sw_extra c =
     Some [if non_sw c \<noteq> [] then Some (PeqRoutes OUTPUT_NAME 10 (non_sw c) [] None) else None]"

definition MinidspHTX ::
  "(string, string) pydict \<Rightarrow> int list option \<Rightarrow> bool \<Rightarrow> exn + descriptor" where
  "MinidspHTX names chs use_inputs =
     (let c = sw_list chs
      in if sw_invalid c then Inl (ValueError ''Invalid channels, must be between 0 and 7'')
         else if use_inputs then
           MinidspDescriptor ''HTX'' ''48000''
             (Some (PeqRoutes INPUT_NAME 10 c (zero_til 10) None))
             (Some (PeqRoutes CROSSOVER_NAME 8 (zero_til 8) [] (Some (zero_til 2))))
             (Some (PeqRoutes OUTPUT_NAME 10 [] (zero_til 10) None)) None names
         else
           MinidspDescriptor ''HTX'' ''48000'' None
             (Some (PeqRoutes CROSSOVER_NAME 8 (zero_til 8) [] (Some (zero_til 2))))
             (Some (PeqRoutes OUTPUT_NAME 10 c (zero_til 10) None)) (non_sw_extra c) names)"

definition MinidspDDRC88 :: "(string, string) pydict \<Rightarrow> int list option \<Rightarrow> exn + descriptor" where
  "MinidspDDRC88 names chs =
     (let c = sw_list chs
      in if sw_invalid c then Inl (ValueError ''Invalid channels, must be between 0 and 7'')
         else MinidspDescriptor ''DDRC88'' ''48000'' None
             (Some (PeqRoutes CROSSOVER_NAME 8 (zero_til 8) [] (Some (zero_til 2))))
             (Some (PeqRoutes OUTPUT_NAME 10 c (zero_til 10) None)) (non_sw_extra c) names)"

definition Minidsp410 :: "(string, string) pydict \<Rightarrow> exn + descriptor" where
  "Minidsp410 names = MinidspDescriptor ''4x10'' ''96000''
     (Some (PeqRoutes INPUT_NAME 5 (zero_til 2) (zero_til 5) None)) None
     (Some (PeqRoutes OUTPUT_NAME 5 (zero_til 8) (zero_til 5) None)) None names"

text \<open>\<^verbatim>\<open>use_xo\<close> is a boolean, a number or a text of the configuration.\<close>

datatype xo_value = XoBool bool | XoInt int | XoStr string

definition xo_1010 :: "int list \<Rightarrow> peq_routes" where
  "xo_1010 g = PeqRoutes CROSSOVER_NAME 4 (zero_til 8) (zero_til 4) (Some g)"

definition out_1010 :: peq_routes where
  "out_1010 = PeqRoutes OUTPUT_NAME 6 (zero_til 8) (zero_til 4) None"

fun secondary_1010 :: "xo_value \<Rightarrow> peq_routes option \<times> peq_routes option" where
  "secondary_1010 (XoBool True) = (Some (xo_1010 [0]), None)"
| "secondary_1010 (XoBool False) = (None, Some out_1010)"
| "secondary_1010 (XoStr s) =
     (if s = ''0'' then (Some (xo_1010 [0]), None)
      else if s = ''1'' then (Some (xo_1010 [1]), None)
      else if s = ''all'' then (Some (xo_1010 (zero_til 2)), None)
      else (None, Some out_1010))"
| "secondary_1010 (XoInt k) =
     (if k = 0 \<or> k = 1 then (Some (xo_1010 [k]), None) else (None, Some out_1010))"

definition Minidsp1010 :: "xo_value \<Rightarrow> (string, string) pydict \<Rightarrow> exn + descriptor" where
  "Minidsp1010 use_xo names =
     (case secondary_1010 use_xo of (xo, out) \<Rightarrow>
        MinidspDescriptor ''10x10'' ''48000''
          (Some (PeqRoutes INPUT_NAME 6 (zero_til 8) (zero_til 6) None)) xo out None names)"

section \<open>The layout of a configuration\<close>

text \<open>
  The keys of a device configuration that \<^verbatim>\<open>make_peq_layout\<close> reads; \<open>None\<close> is an absent key. A
  custom descriptor and its routes are dictionaries whose keys may be missing.
\<close>

record route_cfg =
  rc_name :: "string option"
  rc_biquads :: "int option"
  rc_channels :: "int list option"
  rc_slots :: "int list option"
  rc_groups :: "int list option"

record descriptor_cfg =
  dc_name :: "string option"
  dc_fs :: "string option"
  dc_routes :: "route_cfg list option"

record layout_cfg =
  slotNames :: "(string, string) pydict"
  device_type :: "string option"
  lc_channels :: "int list option"
  sw_channels :: "int list option"
  use_xo :: "xo_value option"
  custom_descriptor :: "descriptor_cfg option"

definition to_ints :: "int list option \<Rightarrow> int list option" where
  "to_ints v = (if nonempty v then v else None)"

definition make_route :: "route_cfg \<Rightarrow> exn + peq_routes" where
  "make_route r =
     (case (rc_name r, rc_biquads r, rc_channels r, rc_slots r) of
        (Some n, Some b, Some c, Some s) \<Rightarrow>
          Inr \<lparr>pr_name = n, biquads = b, channels = to_ints (Some c), beq_slots = to_ints (Some s),
               groups = to_ints (rc_groups r)\<rparr>
      | _ \<Rightarrow> Inl (ValueError ''Custom PeqRoutes is missing keys''))"

text \<open>The loop over the routes: the first of each name takes the place, the others are extra.\<close>

record named_routes =
  nr_i :: "peq_routes option"
  nr_o :: "peq_routes option"
  nr_xo :: "peq_routes option"
  nr_extra :: "peq_routes list"

definition place_route :: "named_routes \<Rightarrow> peq_routes \<Rightarrow> named_routes" where
  "place_route a r =
     (if pr_name r = ''input'' then
        (if nr_i a \<noteq> None then a\<lparr>nr_extra := nr_extra a @ [r]\<rparr> else a\<lparr>nr_i := Some r\<rparr>)
      else if pr_name r = ''output'' then
        (if nr_o a \<noteq> None then a\<lparr>nr_extra := nr_extra a @ [r]\<rparr> else a\<lparr>nr_o := Some r\<rparr>)
      else if pr_name r = ''xo'' \<or> pr_name r = CROSSOVER_NAME then
        (if nr_xo a \<noteq> None then a\<lparr>nr_extra := nr_extra a @ [r]\<rparr> else a\<lparr>nr_xo := Some r\<rparr>)
      else a\<lparr>nr_extra := nr_extra a @ [r]\<rparr>)"

fun place_routes :: "named_routes \<Rightarrow> route_cfg list \<Rightarrow> exn + named_routes" where
  "place_routes a [] = Inr a"
| "place_routes a (r # rs) =
     (case make_route r of Inl e \<Rightarrow> Inl e | Inr r' \<Rightarrow> place_routes (place_route a r') rs)"

definition custom_layout :: "descriptor_cfg \<Rightarrow> (string, string) pydict \<Rightarrow> exn + descriptor" where
  "custom_layout dc names =
     (case (dc_name dc, dc_fs dc, dc_routes dc) of
        (Some n, Some fs, Some rs) \<Rightarrow>
          (case place_routes \<lparr>nr_i = None, nr_o = None, nr_xo = None, nr_extra = []\<rparr> rs of
             Inl e \<Rightarrow> Inl e
           | Inr a \<Rightarrow>
               MinidspDescriptor n fs (nr_i a) (nr_xo a) (nr_o a)
                 (if nr_extra a = [] then None else Some (map Some (nr_extra a))) names)
      | _ \<Rightarrow> Inl (ValueError ''Custom descriptor is missing keys''))"

text \<open>
  \<open>words\<close> is \<^verbatim>\<open>str.split()\<close>. \<open>runner_V\<close> is what the command line runner prints for \<^verbatim>\<open>-V\<close>, and
  \<open>semver_gt a b\<close> the comparison of the \<^verbatim>\<open>semver\<close> package; both are outside the repository.
\<close>

fun words_from :: "string \<Rightarrow> string \<Rightarrow> string list" where
  "words_from acc [] = (if acc = [] then [] else [rev acc])"
| "words_from acc (c # cs) =
     (if is_blank c then (if acc = [] then words_from [] cs else rev acc # words_from [] cs)
      else words_from (c # acc) cs)"

definition words :: "string \<Rightarrow> string list" where
  "words s = words_from [] s"

definition htx_supports_input ::
  "exn + string \<Rightarrow> (string \<Rightarrow> string \<Rightarrow> exn + bool) \<Rightarrow> exn + bool" where
  "htx_supports_input runner_V semver_gt =
     (case runner_V of
        Inl e \<Rightarrow> Inl e
      | Inr out \<Rightarrow>
          (let output = words (strip out)
           in if output \<noteq> [] then semver_gt (last output) ''0.1.12'' else Inr False))"

definition make_peq_layout ::
  "exn + string \<Rightarrow> (string \<Rightarrow> string \<Rightarrow> exn + bool) \<Rightarrow> layout_cfg \<Rightarrow> exn + descriptor" where
  "make_peq_layout runner_V semver_gt cfg =
     (let names = slotNames cfg
      in case device_type cfg of
           Some t \<Rightarrow>
             (if t = ''24HD'' then Minidsp24HD names
              else if t = ''8x12CDSP'' then Minidsp812CDSP names
              else if t = ''DDRC24'' then MinidspDDRC24 names
              else if t = ''DDRC88'' then MinidspDDRC88 names (sw_channels cfg)
              else if t = ''4x10'' then Minidsp410 names
              else if t = ''10x10'' then
                Minidsp1010 (case use_xo cfg of None \<Rightarrow> XoBool False | Some x \<Rightarrow> x) names
              else if t = ''SHD'' then MinidspDDRC24 names
              else if t = ''HTx'' then
                (case htx_supports_input runner_V semver_gt of
                   Inl e \<Rightarrow> Inl e
                 | Inr b \<Rightarrow>
                     MinidspHTX names
                       (case lc_channels cfg of None \<Rightarrow> sw_channels cfg | Some c \<Rightarrow> Some c) b)
              else Minidsp24HD names)
         | None \<Rightarrow>
             (case custom_descriptor cfg of
                Some dc \<Rightarrow> custom_layout dc names
              | None \<Rightarrow> Minidsp24HD names))"

end
