(* ===== verification/Catalogue_Entry.thy ===== *)
theory Catalogue_Entry
  imports Text
begin

text \<open>
  An entry of the BEQ catalogue, \<^verbatim>\<open>CatalogueEntry\<close> in \<^verbatim>\<open>ezbeq/catalogue.py\<close>: how it is read from
  the JSON database or from a row of the SQLite table, how its lists become the text of a column and
  come back, the title shown for it, and how fresh it is. Lemmas: the list columns round trip, the
  episode list of a title is the list of maximal runs, and the freshness classes.
\<close>

section \<open>Filters\<close>

text \<open>
  A filter of an entry; a field that may be missing is an option, and reading a missing one is the
  \<^verbatim>\<open>KeyError\<close> of the code. \<open>f_biquads\<close> maps a sample rate to its \<^verbatim>\<open>b\<close> and \<^verbatim>\<open>a\<close> coefficient texts.
\<close>

record beq_filter =
  f_type :: "string option"
  f_freq :: "rat option"
  f_gain :: "rat option"
  f_q :: "rat option"
  f_biquads :: "(string, string list \<times> string list) pydict option"

definition need :: "string \<Rightarrow> 'a option \<Rightarrow> exn + 'a" where
  "need k v = (case v of None \<Rightarrow> Inl (KeyError k) | Some x \<Rightarrow> Inr x)"

section \<open>The raw values\<close>

text \<open>
  The dictionary an entry is built from, by kind of value: texts, lists (a JSON list, or the
  \<^verbatim>\<open>|a|b|\<close> text of a column), numbers (or texts of numbers), and the collection (an object with an
  id and a name, or a text).
\<close>

datatype raw_list = RStr string | RList "string list"
datatype raw_number = RNum rat | RText string
datatype raw_collection = CObj "string option" "string option" | CStr string

record raw_entry =
  r_texts :: "(string, string) pydict"
  r_lists :: "(string, raw_list) pydict"
  r_numbers :: "(string, raw_number) pydict"
  r_filters :: "beq_filter list"
  r_collection :: "raw_collection option"

datatype freshness = Fresh | Updated | Stale

record catalogue_entry =
  ce_id :: string
  ce_title :: string
  ce_year :: int
  ce_audio_types :: "string list"
  ce_audio_codecs :: "string list"
  ce_audio_channel_counts :: "string list"
  ce_content_type :: string
  ce_author :: string
  ce_catalogue_url :: string
  ce_filters :: "beq_filter list"
  ce_images :: "string list"
  ce_warning :: "string list"
  ce_season :: string
  ce_episodes :: string
  ce_other_texts :: "(string, string) pydict"
  ce_genres :: "string list"
  ce_created_at :: rat
  ce_updated_at :: rat
  ce_digest :: string
  ce_collection_id :: "string option"
  ce_collection_name :: "string option"
  ce_formatted_title :: string
  ce_runtime :: int
  ce_mv_adjust :: rat
  ce_freshness :: freshness

text \<open>\<^verbatim>\<open>v[1:-1]\<close>\<close>

definition inner :: "string \<Rightarrow> string" where
  "inner s = butlast (tl s)"

fun split_list :: "raw_list \<Rightarrow> string list" where
  "split_list (RStr s) = split_on (CHR ''|'') (inner s)"
| "split_list (RList xs) = xs"

definition format_list :: "string list \<Rightarrow> string" where
  "format_list vals = (if vals \<noteq> [] then ''|'' @ join ''|'' vals @ ''|'' else [])"

text \<open>The reader of \<^verbatim>\<open>__fetch_entries\<close> for a list column.\<close>

definition fetch_list :: "string \<Rightarrow> string list" where
  "fetch_list v = (if v \<noteq> [] then filter (\<lambda>x. x \<noteq> []) (split_on (CHR ''|'') (inner v)) else [])"

section \<open>The formatted title\<close>

definition format_episodes :: "string \<Rightarrow> string list \<Rightarrow> string" where
  "format_episodes formatted working =
     (if 1 < length formatted then '', '' else [])
       @ (if length working = 1 then hd working else hd working @ ''-'' @ last working)"

text \<open>The loop over the episode numbers: the text so far, the current run and its last number.\<close>

fun episodes_loop ::
  "string \<Rightarrow> string list \<Rightarrow> int \<Rightarrow> string list \<Rightarrow> exn + (string \<times> string list)" where
  "episodes_loop formatted working last_value [] = Inr (formatted, working)"
| "episodes_loop formatted working last_value (ep # eps) =
     (case py_int ep of
        None \<Rightarrow> Inl (ValueError ''invalid literal for int()'')
      | Some current \<Rightarrow>
          if working = [] then episodes_loop formatted [ep] current eps
          else if last_value = current - 1
            then episodes_loop formatted (working @ [ep]) current eps
          else episodes_loop (formatted @ format_episodes formatted working) [ep] current eps)"

definition format_tv_meta :: "string \<Rightarrow> string \<Rightarrow> exn + string" where
  "format_tv_meta season_no episode_list =
     (let season = (if season_no \<noteq> [] then ''S'' @ season_no else [])
      in if episode_list = [] then Inr season
         else (let episodes = split_on (CHR '','') episode_list
               in if 1 < length episodes then
                    (case episodes_loop ''E'' [] 0 episodes of
                       Inl e \<Rightarrow> Inl e
                     | Inr (formatted, working) \<Rightarrow>
                         Inr (season @ (if working \<noteq> []
                                        then formatted @ format_episodes formatted working
                                        else formatted)))
                  else Inr (season @ ''E'' @ episode_list)))"

definition format_title :: "string \<Rightarrow> string \<Rightarrow> string \<Rightarrow> string \<Rightarrow> exn + string" where
  "format_title content_type title season episodes =
     (if content_type = ''TV'' then
        (case format_tv_meta season episodes of Inl e \<Rightarrow> Inl e | Inr m \<Rightarrow> Inr (title @ '' '' @ m))
      else Inr title)"

section \<open>Building an entry\<close>

definition TWO_WEEKS_AGO_SECONDS :: rat where
  "TWO_WEEKS_AGO_SECONDS = 2 * 7 * 24 * 60 * 60"

definition compute_freshness :: "rat \<Rightarrow> rat \<Rightarrow> rat \<Rightarrow> freshness" where
  "compute_freshness now created_at updated_at =
     (if now - TWO_WEEKS_AGO_SECONDS \<le> created_at then Fresh
      else if now - TWO_WEEKS_AGO_SECONDS \<le> updated_at then Updated else Stale)"

text \<open>\<^verbatim>\<open>int(v)\<close> of a number truncates; a text that is no number is the caught \<^verbatim>\<open>ValueError\<close>.\<close>

definition trunc :: "rat \<Rightarrow> int" where
  "trunc r = (if r < 0 then \<lceil>r\<rceil> else \<lfloor>r\<rfloor>)"

definition int_or_zero :: "raw_number option \<Rightarrow> int" where
  "int_or_zero v =
     (case v of None \<Rightarrow> 0 | Some (RNum r) \<Rightarrow> trunc r
      | Some (RText s) \<Rightarrow> (case py_int s of None \<Rightarrow> 0 | Some i \<Rightarrow> i))"

definition float_or_zero :: "raw_number option \<Rightarrow> rat" where
  "float_or_zero v =
     (case v of None \<Rightarrow> 0 | Some (RNum r) \<Rightarrow> r
      | Some (RText s) \<Rightarrow> (case py_float (strip s) of None \<Rightarrow> 0 | Some r \<Rightarrow> r))"

definition number_or_zero :: "raw_number option \<Rightarrow> rat" where
  "number_or_zero v = (case v of Some (RNum r) \<Rightarrow> r | _ \<Rightarrow> 0)"

definition text_or :: "raw_entry \<Rightarrow> string \<Rightarrow> string \<Rightarrow> string" where
  "text_or r k d = dict_get (r_texts r) k d"

definition list_of :: "raw_entry \<Rightarrow> string \<Rightarrow> string list" where
  "list_of r k = split_list (dict_get (r_lists r) k (RList []))"

definition other_text_keys :: "string list" where
  "other_text_keys = [''avs'', ''sortTitle'', ''edition'', ''note'', ''language'', ''source'',
     ''overview'', ''theMovieDB'', ''rating'', ''altTitle'']"

definition CatalogueEntry :: "rat \<Rightarrow> string \<Rightarrow> raw_entry \<Rightarrow> exn + catalogue_entry" where
  "CatalogueEntry now idx r =
     (let title = text_or r ''title'' []; content = text_or r ''content_type'' ''film'';
          season = text_or r ''season'' []; episodes = text_or r ''episode'' [];
          created = number_or_zero (map_of (r_numbers r) ''created_at'');
          updated = number_or_zero (map_of (r_numbers r) ''updated_at'')
      in case format_title content title season episodes of
           Inl e \<Rightarrow> Inl e
         | Inr formatted \<Rightarrow>
             Inr \<lparr>ce_id = idx, ce_title = title,
                  ce_year = int_or_zero (map_of (r_numbers r) ''year''),
                  ce_audio_types = list_of r ''audioTypes'',
                  ce_audio_codecs = list_of r ''audioCodecs'',
                  ce_audio_channel_counts = list_of r ''audioChannelCounts'',
                  ce_content_type = content, ce_author = text_or r ''author'' [],
                  ce_catalogue_url = text_or r ''catalogue_url'' [],
                  ce_filters = r_filters r, ce_images = list_of r ''images'',
                  ce_warning = list_of r ''warning'', ce_season = season, ce_episodes = episodes,
                  ce_other_texts = map (\<lambda>k. (k, text_or r k [])) other_text_keys,
                  ce_genres = list_of r ''genres'', ce_created_at = created,
                  ce_updated_at = updated, ce_digest = text_or r ''digest'' [],
                  ce_collection_id =
                    (case r_collection r of
                       None \<Rightarrow> None | Some (CObj i n) \<Rightarrow> i
                     | Some (CStr n) \<Rightarrow> map_of (r_texts r) ''collection_id''),
                  ce_collection_name =
                    (case r_collection r of None \<Rightarrow> None | Some (CObj i n) \<Rightarrow> n | Some (CStr n) \<Rightarrow> Some n),
                  ce_formatted_title = formatted,
                  ce_runtime = int_or_zero (map_of (r_numbers r) ''runtime''),
                  ce_mv_adjust = float_or_zero (map_of (r_numbers r) ''mv''),
                  ce_freshness = compute_freshness now created updated\<rparr>)"

text \<open>An entry with nothing but a title, an author and filters, for the examples.\<close>

definition plain_entry :: "string \<Rightarrow> string \<Rightarrow> beq_filter list \<Rightarrow> catalogue_entry" where
  "plain_entry title author filters =
     \<lparr>ce_id = ''v1_0'', ce_title = title, ce_year = 2020, ce_audio_types = [], ce_audio_codecs = [],
      ce_audio_channel_counts = [], ce_content_type = ''film'', ce_author = author,
      ce_catalogue_url = [], ce_filters = filters, ce_images = [], ce_warning = [], ce_season = [],
      ce_episodes = [], ce_other_texts = [], ce_genres = [], ce_created_at = 0, ce_updated_at = 0,
      ce_digest = ''d1'', ce_collection_id = None, ce_collection_name = None,
      ce_formatted_title = title, ce_runtime = 0, ce_mv_adjust = 0, ce_freshness = Stale\<rparr>"

definition plain_filter :: "string \<Rightarrow> string list \<Rightarrow> beq_filter" where
  "plain_filter fs cs =
     \<lparr>f_type = Some ''LowShelf'', f_freq = Some 20, f_gain = Some 5, f_q = Some (7 / 10),
      f_biquads = Some [(fs, (take 3 cs, drop 3 cs))]\<rparr>"

section \<open>Lists as columns\<close>

definition list_item :: "string \<Rightarrow> bool" where
  "list_item x \<longleftrightarrow> x \<noteq> [] \<and> CHR ''|'' \<notin> set x"

lemma inner_format_list: "xs \<noteq> [] \<Longrightarrow> inner (format_list xs) = join ''|'' xs"
  by (simp add: inner_def format_list_def)

lemma list_column:
  assumes "\<forall>x \<in> set xs. list_item x"
  shows "fetch_list (format_list xs) = xs" "xs \<noteq> [] \<Longrightarrow> split_list (RStr (format_list xs)) = xs"
proof -
  have "split_on (CHR ''|'') (inner (format_list xs)) = xs" if "xs \<noteq> []"
    using that assms by (simp add: inner_format_list split_on_join list_item_def)
  moreover have "format_list xs \<noteq> []" if "xs \<noteq> []" using that by (simp add: format_list_def)
  moreover have "filter (\<lambda>x. x \<noteq> []) xs = xs"
    using assms by (simp add: filter_id_conv list_item_def)
  ultimately show "fetch_list (format_list xs) = xs" "xs \<noteq> [] \<Longrightarrow> split_list (RStr (format_list xs)) = xs"
    by (cases "xs = []"; simp add: fetch_list_def format_list_def)+
qed

text \<open>
  A list of an entry survives the database: written as a \<^verbatim>\<open>|a|b|\<close> column by \<^verbatim>\<open>format_list\<close>,
  it is read back item for item, both by the row reader and by the entry constructor, when its items
  are not empty and have no bar.
\<close>

theorem list_column_roundtrip:
  assumes "\<And>x. x \<in> set xs \<Longrightarrow> list_item x"
  shows "fetch_list (format_list xs) = xs
    \<and> (xs \<noteq> [] \<longrightarrow> split_list (RStr (format_list xs)) = xs)"
  using list_column [of xs] assms by blast

lemma list_column_roundtrip_witness:
  "fetch_list (format_list [''Atmos'', ''DTS-X'']) = [''Atmos'', ''DTS-X'']"
proof -
  have "list_item x" if "x \<in> set [''Atmos'', ''DTS-X'']" for x
    using that by (auto simp: list_item_def)
  from list_column_roundtrip [OF this] show ?thesis by (rule conjunct1)
qed

section \<open>Runs of episodes\<close>

text \<open>
  The specification of the episode text: the maximal runs of consecutive numbers, each printed as
  its only member or as its first and last, separated by commas.
\<close>

fun runs :: "(string \<times> int) list \<Rightarrow> (string \<times> int) list list" where
  "runs [] = []"
| "runs (p # ps) =
     (case runs ps of
        [] \<Rightarrow> [[p]]
      | r # rs \<Rightarrow> if snd (hd r) = snd p + 1 then (p # r) # rs else [p] # r # rs)"

definition run_text :: "string list \<Rightarrow> string" where
  "run_text r = (if length r = 1 then hd r else hd r @ ''-'' @ last r)"

definition runs_text :: "(string \<times> int) list \<Rightarrow> string" where
  "runs_text ps = ''E'' @ join '', '' (map (\<lambda>r. run_text (map fst r)) (runs ps))"

definition numbered :: "string list \<Rightarrow> (string \<times> int) list \<Rightarrow> bool" where
  "numbered eps ps \<longleftrightarrow> map fst ps = eps \<and> (\<forall>p\<in>set ps. py_int (fst p) = Some (snd p))"

lemma runs_ne: "ps \<noteq> [] \<Longrightarrow> runs ps \<noteq> [] \<and> hd (runs ps) \<noteq> [] \<and> hd (hd (runs ps)) = hd ps"
proof (induction ps)
  case (Cons p ps)
  then show ?case by (cases ps) (auto split: list.split)
qed simp

lemma concat_runs: "concat (runs ps) = ps"
  by (induction ps) (auto split: list.split)

text \<open>Prepending a run that the next number does not continue.\<close>

lemma runs_append:
  assumes "w \<noteq> []" and "runs w = [w]"
  shows "runs (w @ ps) =
    (if ps = [] then [w]
     else if snd (hd ps) = snd (last w) + 1 then (w @ hd (runs ps)) # tl (runs ps)
     else w # runs ps)"
  using assms
proof (induction w)
  case (Cons p w)
  show ?case
  proof (cases w)
    case Nil
    then show ?thesis
      using runs_ne [of ps] by (cases "runs ps") (auto split: list.split)
  next
    case (Cons q w')
    with Cons.prems have w: "runs w = [w]" and next_p: "snd q = snd p + 1"
      by (auto split: list.splits if_splits)
    note IH = Cons.IH [OF _ w]
    show ?thesis using IH Cons next_p by (auto split: list.split if_splits)
  qed
qed simp

lemma format_episodes_run_text:
  "format_episodes formatted w = (if 1 < length formatted then '', '' else []) @ run_text w"
  by (simp add: format_episodes_def run_text_def)

lemma py_int_ne: "py_int s = Some i \<Longrightarrow> s \<noteq> []"
  by (auto simp: py_int_def strip_def)

lemma run_text_ne:
  assumes "r \<noteq> []" and "\<And>x. x \<in> set r \<Longrightarrow> x \<noteq> []"
  shows "run_text r \<noteq> []"
  using assms by (cases r) (auto simp: run_text_def)

text \<open>What the loop has printed, followed by its pending run, is the text of all the runs.\<close>

lemma episodes_loop_runs:
  assumes "\<And>p. p \<in> set (w @ ps) \<Longrightarrow> py_int (fst p) = Some (snd p)"
    and "w \<noteq> []" and "runs w = [w]" and "formatted \<noteq> []"
  shows "\<exists>F w'. episodes_loop formatted (map fst w) (snd (last w)) (map fst ps) = Inr (F, w')
    \<and> w' \<noteq> [] \<and> F @ format_episodes F w' = formatted @ (if 1 < length formatted then '', '' else [])
        @ join '', '' (map (\<lambda>r. run_text (map fst r)) (runs (w @ ps)))"
  using assms
proof (induction ps arbitrary: formatted w)
  case Nil
  then show ?case by (simp add: format_episodes_run_text)
next
  case (Cons p ps)
  have p: "py_int (fst p) = Some (snd p)" using Cons.prems(1) by simp
  show ?case
  proof (cases "snd p = snd (last w) + 1")
    case True
    have "runs (w @ [p]) = [w @ [p]]"
      using runs_append [OF Cons.prems(2,3), of "[p]"] True by simp
    with Cons.IH [of "w @ [p]" formatted] Cons.prems p True show ?thesis by simp
  next
    case False
    let ?F = "formatted @ format_episodes formatted (map fst w)"
    have "run_text (map fst w) \<noteq> []"
      using Cons.prems(1,2) by (intro run_text_ne) (auto dest: py_int_ne)
    then have len: "1 < length ?F"
      using Cons.prems(4) by (cases formatted) (auto simp: format_episodes_run_text)
    obtain r rs where rs: "runs (p # ps) = r # rs"
      using runs_ne [of "p # ps"] by (cases "runs (p # ps)") auto
    have "runs (w @ p # ps) = w # runs (p # ps)"
      using runs_append [OF Cons.prems(2,3), of "p # ps"] False by simp
    moreover have pre: "py_int (fst q) = Some (snd q)" if "q \<in> set ([p] @ ps)" for q
      using Cons.prems(1) [of q] that by auto
    moreover have "\<exists>F w'. episodes_loop ?F (map fst [p]) (snd (last [p])) (map fst ps) = Inr (F, w')
        \<and> w' \<noteq> [] \<and> F @ format_episodes F w' = ?F @ (if 1 < length ?F then '', '' else [])
          @ join '', '' (map (\<lambda>r. run_text (map fst r)) (runs ([p] @ ps)))"
      using Cons.prems(4) by (intro Cons.IH pre) simp_all
    ultimately show ?thesis
      using len rs Cons.prems(2) p False by (simp add: format_episodes_run_text)
  qed
qed

text \<open>
  The episodes in a TV title are the maximal runs of consecutive numbers: for a list of at
  least two episode numbers, the loop prints each run as its single number or as first-last, in
  order, separated by commas, after the season.
\<close>

theorem format_tv_meta_runs:
  assumes "split_on (CHR '','') eps = map fst ps" and "1 < length ps" and "eps \<noteq> []"
    and "\<And>p. p \<in> set ps \<Longrightarrow> py_int (fst p) = Some (snd p)"
  shows "format_tv_meta season eps =
    Inr ((if season \<noteq> [] then ''S'' @ season else []) @ runs_text ps)"
proof -
  obtain p ps' where ps: "ps = p # ps'" using assms(2) by (cases ps) auto
  have "py_int (fst p) = Some (snd p)" using assms(4) ps by simp
  then have start: "episodes_loop ''E'' [] 0 (map fst ps)
      = episodes_loop ''E'' (map fst [p]) (snd (last [p])) (map fst ps')"
    by (simp add: ps)
  have "\<exists>F w'. episodes_loop ''E'' (map fst [p]) (snd (last [p])) (map fst ps') = Inr (F, w')
    \<and> w' \<noteq> [] \<and> F @ format_episodes F w' = ''E'' @ (if 1 < length ''E'' then '', '' else [])
        @ join '', '' (map (\<lambda>r. run_text (map fst r)) (runs ([p] @ ps')))"
    using assms(4) ps by (intro episodes_loop_runs) simp_all
  then obtain F w' where "episodes_loop ''E'' [] 0 (map fst ps) = Inr (F, w')" and "w' \<noteq> []"
    and "F @ format_episodes F w' = runs_text ps"
    unfolding start by (auto simp: runs_text_def ps)
  then show ?thesis
    using assms(1-3) by (simp add: format_tv_meta_def Let_def)
qed

lemma format_tv_meta_runs_witness:
  "format_tv_meta ''2'' ''1,2,3,5,7,8'' = Inr (''S2E1-3, 5, 7-8'')"
proof -
  let ?ps = "[(''1'', 1), (''2'', 2), (''3'', 3), (''5'', 5), (''7'', 7), (''8'', 8)]"
  have "py_int (fst p) = Some (snd p)" if "p \<in> set ?ps" for p
  proof -
    have "py_int (show_int i) = Some i" for i by simp
    from this [of 1] this [of 2] this [of 3] this [of 5] this [of 7] this [of 8] that
    show ?thesis by (auto simp: show_int_def show_nat.simps digit_char_def)
  qed
  then have "format_tv_meta ''2'' ''1,2,3,5,7,8'' = Inr (''S2'' @ runs_text ?ps)"
    using format_tv_meta_runs [of "''1,2,3,5,7,8''" ?ps "''2''"] by simp
  then show ?thesis by (simp add: runs_text_def run_text_def)
qed

end
