(* ===== verification/Minidsp_Commands.thy ===== *)
theory Minidsp_Commands
  imports Peq_Layout Iir Catalogue_Entry Json
begin

text \<open>
  \<^verbatim>\<open>MinidspBeqCommandGenerator\<close> of \<^verbatim>\<open>ezbeq/minidsp.py\<close>. A command is a value of \<open>command\<close>, whose
  arguments are the holes of the code's f-strings, and \<open>render\<close> is the f-string. The meaning of a
  command list on the filter memory of a device is \<open>run_bank\<close>. Lemmas: a loaded entry puts filter k
  into slot k on every channel of that slot, bypasses every other BEQ slot and touches nothing else;
  clearing bypasses them all; too many filters are refused before anything is sent.
\<close>

section \<open>Commands and their text\<close>

datatype command =
    Config int
  | PeqSet string int string int "string list"
  | PeqBypass string int string int bool
  | RawCmd string int string
  | MuteChannel string int bool
  | MuteMaster bool
  | GainChannel string int rat
  | GainMaster rat

definition on_off :: "bool \<Rightarrow> string" where
  "on_off b = (if b then ''on'' else ''off'')"

fun render :: "command \<Rightarrow> string" where
  "render (Config slot) = ''config '' @ show_int slot"
| "render (PeqSet side ch addr idx coeffs) =
     side @ '' '' @ show_int ch @ '' '' @ addr @ '' '' @ show_int idx @ '' set -- '' @ join '' '' coeffs"
| "render (PeqBypass side ch addr idx b) =
     side @ '' '' @ show_int ch @ '' '' @ addr @ '' '' @ show_int idx @ '' bypass '' @ on_off b"
| "render (RawCmd side ch c) = side @ '' '' @ show_int ch @ '' '' @ c"
| "render (MuteChannel side ch b) = side @ '' '' @ show_int ch @ '' mute '' @ on_off b"
| "render (MuteMaster b) = ''mute '' @ on_off b"
| "render (GainChannel side ch g) = side @ '' '' @ show_int ch @ '' gain -- '' @ fmt2 g"
| "render (GainMaster g) = ''gain -- '' @ fmt2 g"

section \<open>The generator\<close>

definition activate_cmd :: "int \<Rightarrow> command" where
  "activate_cmd slot = Config slot"

definition peq_side :: "string \<Rightarrow> string" where
  "peq_side side = (if side = CROSSOVER_NAME then OUTPUT_NAME else side)"

definition peq_addr :: "string \<Rightarrow> int option \<Rightarrow> string" where
  "peq_addr side grp =
     (case grp of
        Some g \<Rightarrow> (if side = CROSSOVER_NAME then ''crossover '' @ show_int g else ''peq'')
      | None \<Rightarrow> ''peq'')"

definition bq :: "int \<Rightarrow> int \<Rightarrow> string list \<Rightarrow> string \<Rightarrow> int option \<Rightarrow> command" where
  "bq channel idx coeffs side grp =
     PeqSet (peq_side side) channel (peq_addr side grp) idx coeffs"

definition bypass :: "int \<Rightarrow> int \<Rightarrow> bool \<Rightarrow> string \<Rightarrow> int option \<Rightarrow> command" where
  "bypass channel idx b side grp = PeqBypass (peq_side side) channel (peq_addr side grp) idx b"

definition cmd :: "int \<Rightarrow> string \<Rightarrow> string \<Rightarrow> command" where
  "cmd channel c side = RawCmd side channel c"

definition mute_cmds :: "bool \<Rightarrow> int option \<Rightarrow> int option \<Rightarrow> string \<Rightarrow> command list" where
  "mute_cmds state slot channel side =
     (if slot \<noteq> None then
        (case channel of
           None \<Rightarrow> [MuteChannel side 0 state, MuteChannel side 1 state]
         | Some ch \<Rightarrow> [MuteChannel side ch state])
      else [MuteMaster state])"

definition gain_cmds :: "rat \<Rightarrow> int option \<Rightarrow> int option \<Rightarrow> string \<Rightarrow> exn + command list" where
  "gain_cmds gain slot channel side =
     (if slot \<noteq> None then
        (if \<not> (- 72 \<le> gain \<and> gain \<le> 12)
         then Inl (InvalidRequestError
                (side @ '' gain '' @ fmt2 gain @ '' out of range (>= -72.0 and <= 12.0)''))
         else Inr (case channel of
                     None \<Rightarrow> [GainChannel side 0 gain, GainChannel side 1 gain]
                   | Some ch \<Rightarrow> [GainChannel side ch gain]))
      else if \<not> (- 127 \<le> gain \<and> gain \<le> 0)
        then Inl (InvalidRequestError
               (''Master gain '' @ fmt2 gain @ '' out of range (>= -127.0 and <= 0.0)''))
        else Inr [GainMaster gain])"

text \<open>
  \<^verbatim>\<open>biquads\<close>: the request's biquads, a falsy one (\<^verbatim>\<open>null\<close> or empty) leaving its slot alone unless
  \<open>overwrite\<close>. \<^verbatim>\<open>' '.join\<close> raises on a coefficient that is not a text.
\<close>

fun text_items :: "json list \<Rightarrow> exn + string list" where
  "text_items [] = Inr []"
| "text_items (JStr s # xs) =
     (case text_items xs of Inl e \<Rightarrow> Inl e | Inr ys \<Rightarrow> Inr (s # ys))"
| "text_items (_ # xs) = Inl TypeError"

definition coeffs_of :: "json \<Rightarrow> exn + string list" where
  "coeffs_of b =
     (case map_result (jget b) [''b0'', ''b1'', ''b2'', ''a1'', ''a2''] of
        Inl e \<Rightarrow> Inl e | Inr vs \<Rightarrow> text_items vs)"

definition bypass_flag :: "json \<Rightarrow> bool" where
  "bypass_flag b = (jget b ''BYPASS'' = Inr (JBool True))"

definition one_biquad ::
  "bool \<Rightarrow> string \<Rightarrow> int \<Rightarrow> nat \<times> json \<Rightarrow> exn + command list" where
  "one_biquad overwrite side channel = (\<lambda>(idx, b).
     if truthy b then
       (case coeffs_of b of
          Inl e \<Rightarrow> Inl e
        | Inr cs \<Rightarrow> Inr [bq (channel - 1) (int idx) cs side None,
                        bypass (channel - 1) (int idx) (bypass_flag b) side (Some 0)])
     else if overwrite then Inr [bypass (channel - 1) (int idx) True side (Some 0)]
     else Inr [])"

definition channel_biquads ::
  "bool \<Rightarrow> string \<Rightarrow> json list \<Rightarrow> int \<Rightarrow> exn + command list" where
  "channel_biquads overwrite side bqs channel =
     (case map_result (one_biquad overwrite side channel) (enumerate 0 bqs) of
        Inl e \<Rightarrow> Inl e
      | Inr css \<Rightarrow>
          Inr (concat css
            @ (if overwrite
               then map (\<lambda>idx. bypass (channel - 1) (int idx) True side (Some 0)) [length bqs..<10]
               else [])))"

definition biquads_cmds :: "bool \<Rightarrow> int list \<Rightarrow> int list \<Rightarrow> json list \<Rightarrow> exn + command list" where
  "biquads_cmds overwrite inputs outputs bqs =
     (case map_result (\<lambda>(side, ch). channel_biquads overwrite side bqs ch)
             (map (Pair INPUT_NAME) inputs @ map (Pair OUTPUT_NAME) outputs) of
        Inl e \<Rightarrow> Inl e | Inr css \<Rightarrow> Inr (concat css))"

definition commands_cmds :: "int list \<Rightarrow> int list \<Rightarrow> string list \<Rightarrow> command list" where
  "commands_cmds inputs outputs cs =
     concat (map (\<lambda>(side, channels). concat (map (\<lambda>ch. map (\<lambda>c. cmd (ch - 1) c side) cs) channels))
       [(INPUT_NAME, inputs), (OUTPUT_NAME, outputs)])"

text \<open>
  \<^verbatim>\<open>as_bq\<close>: the coefficients of the catalogue for the device's sample rate, else computed by
  \<^verbatim>\<open>ezbeq/iir.py\<close>. \<open>float_to_str\<close> is the text of a float (see \<^theory_text>\<open>Iir\<close>).
\<close>

definition as_filter_type :: "string \<Rightarrow> exn + filter_type" where
  "as_filter_type t =
     (if t = ''PeakingEQ'' then Inr PeakingEQ
      else if t = ''LowShelf'' then Inr LowShelf
      else if t = ''HighShelf'' then Inr HighShelf
      else Inl (InvalidRequestError (''Unknown filt_type '' @ t)))"

definition computed_bq :: "(real \<Rightarrow> string) \<Rightarrow> beq_filter \<Rightarrow> string \<Rightarrow> exn + string list" where
  "computed_bq float_to_str f fs =
     (case (need ''type'' (f_type f), need ''freq'' (f_freq f), need ''gain'' (f_gain f), need ''q'' (f_q f)) of
        (Inr t, Inr freq, Inr gain, Inr q) \<Rightarrow>
          (case as_filter_type t of
             Inl e \<Rightarrow> Inl e
           | Inr ty \<Rightarrow>
               (case py_int fs of
                  None \<Rightarrow> Inl (ValueError ''invalid literal for int()'')
                | Some k \<Rightarrow>
                    (case design ty (of_int k) (of_rat freq) (of_rat q) (of_rat gain) of
                       Inl e \<Rightarrow> Inl e | Inr ab \<Rightarrow> Inr (format_biquads float_to_str ab))))
      | (Inl e, _, _, _) \<Rightarrow> Inl e
      | (_, Inl e, _, _) \<Rightarrow> Inl e
      | (_, _, Inl e, _) \<Rightarrow> Inl e
      | (_, _, _, Inl e) \<Rightarrow> Inl e)"

definition as_bq :: "(real \<Rightarrow> string) \<Rightarrow> string \<Rightarrow> beq_filter \<Rightarrow> exn + string list" where
  "as_bq float_to_str fs f =
     (case need ''biquads'' (f_biquads f) of
        Inl e \<Rightarrow> Inl e
      | Inr m \<Rightarrow>
          (case (case map_of m fs of
                   Some ba \<Rightarrow> Inr (fst ba @ snd ba)
                 | None \<Rightarrow> computed_bq float_to_str f fs) of
             Inl e \<Rightarrow> Inl e
           | Inr cs \<Rightarrow>
               if length cs \<noteq> 5 then Inl (ValueError (''Invalid coeff count '' @ show_nat (length cs)))
               else Inr cs))"

text \<open>\<^verbatim>\<open>filt\<close>: push the filters into the slots the allocator pops, then bypass what is left.\<close>

definition push :: "string list \<Rightarrow> beq_filter_slot \<Rightarrow> command list" where
  "push coeffs s = concat (map (\<lambda>ch.
     [bq ch (bs_idx s) coeffs (bs_name s) (bs_group s),
      bypass ch (bs_idx s) False (bs_name s) (bs_group s)]) (bs_channels s))"

fun push_filters ::
  "nat \<Rightarrow> string list list \<Rightarrow> beq_filter_slot list \<Rightarrow> exn + (command list \<times> beq_filter_slot list)" where
  "push_filters idx [] slots = Inr ([], slots)"
| "push_filters idx (coeffs # rest) slots =
     (case allocator_pop slots of
        (None, _) \<Rightarrow>
          Inl (ValueError (''Loaded '' @ show_nat idx @ '' filters but no slots remaining''))
      | (Some s, slots') \<Rightarrow>
          (case push_filters (Suc idx) rest slots' of
             Inl e \<Rightarrow> Inl e | Inr (cmds, left) \<Rightarrow> Inr (push coeffs s @ cmds, left)))"

definition bypass_slot :: "beq_filter_slot \<Rightarrow> command list" where
  "bypass_slot s = map (\<lambda>c. bypass c (bs_idx s) True (bs_name s) (bs_group s)) (bs_channels s)"

definition filt ::
  "(real \<Rightarrow> string) \<Rightarrow> catalogue_entry option \<Rightarrow> descriptor \<Rightarrow> exn + command list" where
  "filt float_to_str entry d =
     (case (case entry of
              None \<Rightarrow> Inr []
            | Some e \<Rightarrow> map_result (as_bq float_to_str (d_fs d)) (ce_filters e)) of
        Inl e \<Rightarrow> Inl e
      | Inr filters \<Rightarrow>
          (case push_filters 0 filters (to_allocator d) of
             Inl e \<Rightarrow> Inl e
           | Inr (cmds, left) \<Rightarrow> Inr (cmds @ concat (map bypass_slot left))))"

section \<open>The filter memory of a device\<close>

text \<open>
  A biquad of the hardware is addressed by side, channel, bank (\<^verbatim>\<open>peq\<close> or a crossover group) and
  index, and holds coefficients and a bypass switch.
\<close>

type_synonym address = "string \<times> int \<times> string \<times> int"
type_synonym bank = "address \<Rightarrow> string list \<times> bool"

fun bank_step :: "bank \<Rightarrow> command \<Rightarrow> bank" where
  "bank_step b (PeqSet side ch addr idx cs) =
     b((side, ch, addr, idx) := (cs, snd (b (side, ch, addr, idx))))"
| "bank_step b (PeqBypass side ch addr idx v) =
     b((side, ch, addr, idx) := (fst (b (side, ch, addr, idx)), v))"
| "bank_step b _ = b"

definition run_bank :: "command list \<Rightarrow> bank \<Rightarrow> bank" where
  "run_bank cs b = foldl bank_step b cs"

definition slot_address :: "beq_filter_slot \<Rightarrow> int \<Rightarrow> address" where
  "slot_address s ch = (peq_side (bs_name s), ch, peq_addr (bs_name s) (bs_group s), bs_idx s)"

definition slot_addresses :: "beq_filter_slot \<Rightarrow> address list" where
  "slot_addresses s = map (slot_address s) (bs_channels s)"

definition layout_addresses :: "descriptor \<Rightarrow> address list" where
  "layout_addresses d = concat (map slot_addresses (to_allocator d))"

lemma run_bank_simps [simp]:
  "run_bank [] b = b"
  "run_bank (c # cs) b = run_bank cs (bank_step b c)"
  "run_bank (cs @ ds) b = run_bank ds (run_bank cs b)"
  by (simp_all add: run_bank_def)

lemma bank_step_cmds [simp]:
  "bank_step b (bq ch i cs side g) =
     b((peq_side side, ch, peq_addr side g, i) := (cs, snd (b (peq_side side, ch, peq_addr side g, i))))"
  "bank_step b (bypass ch i v side g) =
     b((peq_side side, ch, peq_addr side g, i) := (fst (b (peq_side side, ch, peq_addr side g, i)), v))"
  by (simp_all add: bq_def bypass_def)

lemma push_filters_ok:
  "length css \<le> length slots \<Longrightarrow>
   push_filters i css slots = Inr (concat (map2 push css slots), drop (length css) slots)"
proof (induction css arbitrary: i slots)
  case (Cons c css)
  then show ?case by (cases slots) auto
qed simp

lemma push_filters_too_many:
  "length slots < length css \<Longrightarrow> push_filters i css slots =
   Inl (ValueError (''Loaded '' @ show_nat (i + length slots) @ '' filters but no slots remaining''))"
proof (induction css arbitrary: i slots)
  case (Cons c css)
  then show ?case by (cases slots) auto
qed simp

lemma run_push:
  "run_bank (push cs s) b a =
     (if a \<in> set (slot_addresses s) then (cs, False) else b a)"
proof -
  have "run_bank (concat (map (\<lambda>ch. [bq ch (bs_idx s) cs (bs_name s) (bs_group s),
      bypass ch (bs_idx s) False (bs_name s) (bs_group s)]) chs)) b a =
    (if a \<in> slot_address s ` set chs then (cs, False) else b a)" for chs
    by (induction chs arbitrary: b) (auto simp: slot_address_def)
  then show ?thesis by (simp add: push_def slot_addresses_def)
qed

lemma run_bypass_slot:
  "run_bank (bypass_slot s) b a =
     (if a \<in> set (slot_addresses s) then (fst (b a), True) else b a)"
proof -
  have "run_bank (map (\<lambda>c. bypass c (bs_idx s) True (bs_name s) (bs_group s)) chs) b a =
    (if a \<in> slot_address s ` set chs then (fst (b a), True) else b a)" for chs
    by (induction chs arbitrary: b) (auto simp: slot_address_def)
  then show ?thesis by (simp add: bypass_slot_def slot_addresses_def)
qed

lemma run_bypass_slots:
  "run_bank (concat (map bypass_slot ss)) b a =
     (if a \<in> set (concat (map slot_addresses ss)) then (fst (b a), True) else b a)"
  by (induction ss arbitrary: b) (auto simp: run_bypass_slot)

lemma run_pushes_outside:
  "a \<notin> set (concat (map slot_addresses (take (length css) ss))) \<Longrightarrow>
   run_bank (concat (map2 push css ss)) b a = b a"
proof (induction css arbitrary: ss b)
  case (Cons c css)
  then show ?case by (cases ss) (auto simp: run_push)
qed simp

lemma run_pushes_inside:
  assumes "distinct (concat (map slot_addresses ss))" and "length css \<le> length ss"
    and "k < length css" and "a \<in> set (slot_addresses (ss ! k))"
  shows "run_bank (concat (map2 push css ss)) b a = (css ! k, False)"
  using assms
proof (induction css arbitrary: ss b k)
  case (Cons c css)
  then obtain s ss' where ss: "ss = s # ss'" by (cases ss) auto
  show ?case
  proof (cases k)
    case 0
    with Cons.prems ss have "a \<notin> set (concat (map slot_addresses (take (length css) ss')))"
      by (auto dest: in_set_takeD)
    with 0 Cons.prems ss show ?thesis by (simp add: run_pushes_outside run_push)
  next
    case (Suc j)
    with Cons.prems ss show ?thesis by (auto intro!: Cons.IH)
  qed
qed simp

lemma filt_shape:
  assumes "filt fmt entry d = Inr cmds"
  obtains css where
    "(case entry of None \<Rightarrow> css = []
      | Some e \<Rightarrow> list_all2 (\<lambda>f c. as_bq fmt (d_fs d) f = Inr c) (ce_filters e) css)"
    "length css \<le> length (to_allocator d)"
    "cmds = concat (map2 push css (to_allocator d))
       @ concat (map bypass_slot (drop (length css) (to_allocator d)))"
proof -
  obtain css where css: "(case entry of None \<Rightarrow> Inr []
      | Some e \<Rightarrow> map_result (as_bq fmt (d_fs d)) (ce_filters e)) = Inr css"
    and p: "(case push_filters 0 css (to_allocator d) of Inl e \<Rightarrow> Inl e
      | Inr (cmds, left) \<Rightarrow> Inr (cmds @ concat (map bypass_slot left))) = Inr cmds"
    using assms by (auto simp: filt_def split: sum.splits)
  have len: "length css \<le> length (to_allocator d)"
    using p push_filters_too_many by (fastforce simp: not_le [symmetric] split: sum.splits)
  show thesis
    using that [of css] css p len
    by (auto simp: push_filters_ok map_result_Inr_iff split: option.splits)
qed

text \<open>The slots before position \<open>n\<close> and those from it on share no address.\<close>

lemma slot_regions:
  assumes "distinct (layout_addresses d)" and "n \<le> length (to_allocator d)"
  defines "before \<equiv> concat (map slot_addresses (take n (to_allocator d)))"
    and "after \<equiv> concat (map slot_addresses (drop n (to_allocator d)))"
  shows "k < n \<Longrightarrow> a \<in> set (slot_addresses (to_allocator d ! k)) \<Longrightarrow> a \<notin> set after"
    and "a \<in> set after \<Longrightarrow> a \<notin> set before"
    and "a \<notin> set (layout_addresses d) \<Longrightarrow> a \<notin> set before \<and> a \<notin> set after"
    and "n \<le> k \<Longrightarrow> k < length (to_allocator d) \<Longrightarrow> a \<in> set (slot_addresses (to_allocator d ! k)) \<Longrightarrow> a \<in> set after"
proof -
  let ?ss = "to_allocator d"
  have disj: "set before \<inter> set after = {}"
    using assms(1) unfolding layout_addresses_def before_def after_def
    by (metis append_take_drop_id concat_append distinct_append map_append)
  show "a \<notin> set after" if "k < n" "a \<in> set (slot_addresses (?ss ! k))"
  proof -
    have "a \<in> set before" using that assms(2) unfolding before_def by (force simp: in_set_conv_nth)
    with disj show ?thesis by auto
  qed
  show "a \<in> set after \<Longrightarrow> a \<notin> set before" using disj by auto
  show "a \<notin> set (layout_addresses d) \<Longrightarrow> a \<notin> set before \<and> a \<notin> set after"
    by (auto simp: layout_addresses_def before_def after_def dest: in_set_takeD in_set_dropD)
  show "a \<in> set after" if "n \<le> k" "k < length ?ss" "a \<in> set (slot_addresses (?ss ! k))"
  proof -
    have "drop n ?ss ! (k - n) \<in> set (drop n ?ss)" using that by (intro nth_mem) simp
    then have "?ss ! k \<in> set (drop n ?ss)" using that by simp
    with that(3) show ?thesis by (auto simp: after_def)
  qed
qed

text \<open>
  Claim C4. Loading an entry programs the device as the entry says: when the commands of \<^verbatim>\<open>filt\<close> have
  run, each BEQ slot k below the number of filters holds the coefficients of filter k and is active
  on every channel of the slot, every later BEQ slot is bypassed, and every other biquad of the
  device is as it was.
\<close>

theorem filt_programs_bank:
  assumes "filt fmt (Some e) d = Inr cmds" and "distinct (layout_addresses d)"
  shows "length (ce_filters e) \<le> length (to_allocator d) \<and>
    (\<forall>k a cs. k < length (ce_filters e) \<and> a \<in> set (slot_addresses (to_allocator d ! k))
        \<and> as_bq fmt (d_fs d) (ce_filters e ! k) = Inr cs \<longrightarrow> run_bank cmds b a = (cs, False)) \<and>
    (\<forall>k a. length (ce_filters e) \<le> k \<and> k < length (to_allocator d)
        \<and> a \<in> set (slot_addresses (to_allocator d ! k)) \<longrightarrow> run_bank cmds b a = (fst (b a), True)) \<and>
    (\<forall>a. a \<notin> set (layout_addresses d) \<longrightarrow> run_bank cmds b a = b a)"
proof -
  let ?ss = "to_allocator d"
  obtain css where all2: "list_all2 (\<lambda>f c. as_bq fmt (d_fs d) f = Inr c) (ce_filters e) css"
    and len: "length css \<le> length ?ss"
    and cmds: "cmds = concat (map2 push css ?ss) @ concat (map bypass_slot (drop (length css) ?ss))"
    using assms(1) by (rule filt_shape) simp
  have n: "length css = length (ce_filters e)" using all2 by (simp add: list_all2_lengthD)
  note regions = slot_regions [OF assms(2) len]
  have loaded: "run_bank cmds b a = (cs, False)"
    if "k < length (ce_filters e)" "a \<in> set (slot_addresses (?ss ! k))"
      "as_bq fmt (d_fs d) (ce_filters e ! k) = Inr cs" for k a cs
  proof -
    have k: "k < length css" using that(1) n by simp
    have "css ! k = cs" using list_all2_nthD [OF all2 that(1)] that(3) by simp
    then show ?thesis
      using run_pushes_inside [OF assms(2) [unfolded layout_addresses_def] len k that(2)]
        regions(1) [OF k that(2)]
      by (simp add: cmds run_bypass_slots)
  qed
  have cleared: "run_bank cmds b a = (fst (b a), True)"
    if "length (ce_filters e) \<le> k" "k < length ?ss" "a \<in> set (slot_addresses (?ss ! k))" for k a
  proof -
    have "a \<in> set (concat (map slot_addresses (drop (length css) ?ss)))"
      using regions(4) [of k a] that n by simp
    then show ?thesis
      using run_pushes_outside [OF regions(2)] by (simp add: cmds run_bypass_slots)
  qed
  have untouched: "run_bank cmds b a = b a" if "a \<notin> set (layout_addresses d)" for a
    using regions(3) [OF that] by (simp add: cmds run_bypass_slots run_pushes_outside)
  show ?thesis using len n loaded cleared untouched by auto
qed

lemma show_fs [simp]:
  "show_int 96000 = ''96000''" "show_int 48000 = ''48000''" "show_int 192000 = ''192000''"
  by (simp_all add: show_int_def show_nat.simps digit_char_def)

lemma py_int_fs [simp]:
  "py_int ''96000'' = Some 96000" "py_int ''48000'' = Some 48000" "py_int ''192000'' = Some 192000"
  using py_int_show_int [of 96000] py_int_show_int [of 48000] py_int_show_int [of 192000] by simp_all

section \<open>The addresses of the known devices\<close>

definition sound_route :: "peq_routes \<Rightarrow> bool" where
  "sound_route r \<longleftrightarrow>
     distinct (items (channels r)) \<and> distinct (items (beq_slots r)) \<and> distinct (items (groups r))
     \<and> (nonempty (groups r) \<longrightarrow> pr_name r = CROSSOVER_NAME)
     \<and> list_all (\<lambda>i. 0 \<le> i \<and> i < biquads r) (items (beq_slots r))"

definition sound_layout :: "descriptor \<Rightarrow> bool" where
  "sound_layout d \<longleftrightarrow>
     list_all (\<lambda>r. case r of None \<Rightarrow> True | Some r' \<Rightarrow> sound_route r') (descriptor_routes d)
     \<and> distinct (map (\<lambda>r. peq_side (pr_name (the r)))
          (filter (\<lambda>r. r \<noteq> None \<and> takes_beq (the r)) (descriptor_routes d)))"

lemma peq_addr_inject:
  "peq_addr CROSSOVER_NAME (Some g) = peq_addr CROSSOVER_NAME (Some h) \<longleftrightarrow> g = h"
  by (simp add: peq_addr_def)

lemma route_addresses_distinct:
  assumes "sound_route r"
  shows "distinct (concat (map slot_addresses (route_slots r)))"
proof (cases "takes_beq r")
  case False
  then show ?thesis by (simp add: route_slots_def)
next
  case True
  define f where "f s = concat (map slot_addresses
    (if nonempty (groups r)
     then map (\<lambda>g. \<lparr>bs_name = pr_name r, bs_idx = s, bs_channels = items (channels r),
                     bs_group = Some g\<rparr>) (items (groups r))
     else [\<lparr>bs_name = pr_name r, bs_idx = s, bs_channels = items (channels r), bs_group = None\<rparr>]))" for s
  have "concat (map slot_addresses (route_slots r)) = concat (map f (items (beq_slots r)))"
    using True by (simp add: route_slots_def concat_map_concat_map f_def [abs_def])
  moreover have "distinct (concat (map f (items (beq_slots r))))"
  proof (rule distinct_concat_map)
    show "distinct (items (beq_slots r))" using assms by (simp add: sound_route_def)
    show "set (f s) \<inter> set (f t) = {}" if "s \<noteq> t" for s t
      using that by (auto simp: f_def slot_addresses_def slot_address_def split: if_splits)
    show "distinct (f s)" for s
    proof (cases "nonempty (groups r)")
      case False
      with assms show ?thesis
        by (simp add: f_def slot_addresses_def slot_address_def distinct_map inj_on_def sound_route_def)
    next
      case grp: True
      then have name: "pr_name r = CROSSOVER_NAME" using assms by (simp add: sound_route_def)
      have "distinct (concat (map (\<lambda>g. map (\<lambda>ch. (peq_side CROSSOVER_NAME, ch,
          peq_addr CROSSOVER_NAME (Some g), s)) (items (channels r))) (items (groups r))))"
        using assms
        by (intro distinct_concat_map)
          (auto simp: sound_route_def distinct_map inj_on_def peq_addr_inject)
      with grp name show ?thesis
        by (simp add: f_def slot_addresses_def slot_address_def [abs_def] comp_def)
    qed
  qed
  ultimately show ?thesis by simp
qed

lemma route_slots_side:
  "a \<in> set (concat (map slot_addresses (route_slots r))) \<Longrightarrow> takes_beq r \<and> fst a = peq_side (pr_name r)"
  by (auto simp: route_slots_def slot_addresses_def slot_address_def split: if_splits)

definition beq_sides :: "peq_routes option list \<Rightarrow> string list" where
  "beq_sides rs =
     map (\<lambda>r. peq_side (pr_name (the r))) (filter (\<lambda>r. r \<noteq> None \<and> takes_beq (the r)) rs)"

definition routes_addresses :: "peq_routes option list \<Rightarrow> address list" where
  "routes_addresses rs = concat (map slot_addresses (BeqFilterAllocator rs))"

lemma routes_addresses_simps [simp]:
  "routes_addresses [] = []"
  "routes_addresses (None # rs) = routes_addresses rs"
  "routes_addresses (Some r # rs) = concat (map slot_addresses (route_slots r)) @ routes_addresses rs"
  by (simp_all add: routes_addresses_def BeqFilterAllocator_def)

lemma beq_sides_simps [simp]:
  "beq_sides [] = []"
  "beq_sides (None # rs) = beq_sides rs"
  "beq_sides (Some r # rs) = (if takes_beq r then [peq_side (pr_name r)] else []) @ beq_sides rs"
  by (simp_all add: beq_sides_def)

lemma routes_addresses_side: "a \<in> set (routes_addresses rs) \<Longrightarrow> fst a \<in> set (beq_sides rs)"
proof (induction rs)
  case (Cons r rs)
  then show ?case
    using route_slots_side [of a] by (cases r) auto
qed simp

lemma routes_addresses_distinct:
  "list_all (\<lambda>r. case r of None \<Rightarrow> True | Some r' \<Rightarrow> sound_route r') rs \<Longrightarrow>
   distinct (beq_sides rs) \<Longrightarrow> distinct (routes_addresses rs)"
proof (induction rs)
  case (Cons r rs)
  show ?case
  proof (cases r)
    case None
    with Cons show ?thesis by simp
  next
    case (Some r')
    have "a \<notin> set (routes_addresses rs)" if "a \<in> set (concat (map slot_addresses (route_slots r')))" for a
      using route_slots_side [OF that] routes_addresses_side [of a rs] Cons.prems(2) Some by auto
    then have "set (concat (map slot_addresses (route_slots r'))) \<inter> set (routes_addresses rs) = {}"
      by blast
    moreover have "distinct (concat (map slot_addresses (route_slots r')))"
      using Cons.prems(1) Some by (simp add: route_addresses_distinct)
    moreover have "distinct (routes_addresses rs)" using Cons Some by simp
    ultimately show ?thesis using Some by (simp only: routes_addresses_simps distinct_append)
  qed
qed simp

lemma sound_layout_distinct: "sound_layout d \<Longrightarrow> distinct (layout_addresses d)"
  unfolding sound_layout_def beq_sides_def [symmetric]
  using routes_addresses_distinct [of "descriptor_routes d"]
  by (simp add: layout_addresses_def to_allocator_def routes_addresses_def)

lemma MinidspDescriptor_Inr:
  "MinidspDescriptor n fs i xo out ex names = Inr d \<Longrightarrow>
   d_input d = i \<and> d_crossover d = xo \<and> d_output d = out \<and> d_extra d = ex"
  by (auto simp: MinidspDescriptor_def split: option.splits)

lemma zero_til_facts [simp]:
  "distinct (zero_til n)"
  "list_all (\<lambda>i. 0 \<le> i \<and> i < b) (zero_til n) \<longleftrightarrow> n = 0 \<or> int n \<le> b"
proof -
  show "distinct (zero_til n)" by (simp add: zero_til_def distinct_map)
  show "list_all (\<lambda>i. 0 \<le> i \<and> i < b) (zero_til n) \<longleftrightarrow> n = 0 \<or> int n \<le> b"
  proof (cases n)
    case 0
    then show ?thesis by (simp add: zero_til_def)
  next
    case (Suc m)
    then have "(\<forall>i\<in>set [0..<n]. int i < b) \<longleftrightarrow> int m < b" by auto
    with Suc show ?thesis by (auto simp: zero_til_def list_all_iff)
  qed
qed

lemma sound_PeqRoutes:
  "sound_route (PeqRoutes n b c s g) \<longleftrightarrow>
     distinct c \<and> distinct s \<and> distinct (items g) \<and> (nonempty g \<longrightarrow> n = CROSSOVER_NAME)
     \<and> list_all (\<lambda>i. 0 \<le> i \<and> i < b) s"
  by (simp add: sound_route_def PeqRoutes_def items_def)

lemma takes_beq_PeqRoutes: "takes_beq (PeqRoutes n b c s g) \<longleftrightarrow> c \<noteq> [] \<and> s \<noteq> []"
  by (cases c; cases s) (simp_all add: takes_beq_def PeqRoutes_def)

lemma pr_name_PeqRoutes [simp]: "pr_name (PeqRoutes n b c s g) = n"
  by (simp add: PeqRoutes_def)

lemma non_sw_distinct [simp]: "distinct (non_sw c)"
  by (simp add: non_sw_def)

lemma zero_til_Suc_ne [simp]: "zero_til (Suc n) \<noteq> []" "zero_til (numeral k) \<noteq> []"
  by (simp_all add: zero_til_def)

lemma nonempty_zero_til [simp]: "nonempty (Some (zero_til (numeral k)))"
  by (cases "zero_til (numeral k)") auto

lemma sound_MinidspDescriptor:
  assumes "MinidspDescriptor n fs i xo out ex names = Inr d"
    and "list_all (\<lambda>r. case r of None \<Rightarrow> True | Some r' \<Rightarrow> sound_route r') ([i, xo, out] @ items ex)"
    and "distinct (beq_sides ([i, xo, out] @ items ex))"
  shows "sound_layout d"
proof -
  let ?rs = "filter (\<lambda>x. x \<noteq> None) [i, xo, out] @ items ex"
  have "descriptor_routes d = ?rs"
    using MinidspDescriptor_Inr [OF assms(1)] by (simp add: descriptor_routes_def items_def)
  moreover have "list_all (\<lambda>r. case r of None \<Rightarrow> True | Some r' \<Rightarrow> sound_route r') ?rs"
    using assms(2) by (auto simp: list_all_iff)
  moreover have "beq_sides ?rs = beq_sides ([i, xo, out] @ items ex)"
    by (simp add: beq_sides_def conj_commute)
  ultimately show ?thesis using assms(3) by (simp add: sound_layout_def beq_sides_def)
qed

lemmas layout_simps = sound_PeqRoutes takes_beq_PeqRoutes peq_side_def side_names items_def

lemma sound_24HD: "Minidsp24HD names = Inr d \<Longrightarrow> sound_layout d"
  unfolding Minidsp24HD_def by (drule sound_MinidspDescriptor) (simp_all add: layout_simps)

lemma sound_812CDSP: "Minidsp812CDSP names = Inr d \<Longrightarrow> sound_layout d"
  unfolding Minidsp812CDSP_def by (drule sound_MinidspDescriptor) (simp_all add: layout_simps)

lemma sound_DDRC24: "MinidspDDRC24 names = Inr d \<Longrightarrow> sound_layout d"
  unfolding MinidspDDRC24_def by (drule sound_MinidspDescriptor) (simp_all add: layout_simps)

lemma sound_410: "Minidsp410 names = Inr d \<Longrightarrow> sound_layout d"
  unfolding Minidsp410_def by (drule sound_MinidspDescriptor) (simp_all add: layout_simps)

lemma sound_1010: "Minidsp1010 x names = Inr d \<Longrightarrow> sound_layout d"
proof -
  obtain xo out where s: "secondary_1010 x = (xo, out)" by (cases "secondary_1010 x")
  then have "(\<exists>g. xo = Some (xo_1010 g) \<and> distinct g \<and> out = None) \<or> xo = None \<and> out = Some out_1010"
    by (cases x rule: secondary_1010.cases) (auto split: if_splits)
  moreover assume "Minidsp1010 x names = Inr d"
  ultimately show ?thesis
    unfolding Minidsp1010_def s
    by (auto simp: xo_1010_def out_1010_def layout_simps dest!: sound_MinidspDescriptor)
qed

lemma sound_DDRC88:
  assumes "MinidspDDRC88 names cs = Inr d" and "distinct (sw_list cs)"
  shows "sound_layout d"
proof -
  have "MinidspDescriptor ''DDRC88'' ''48000'' None
     (Some (PeqRoutes CROSSOVER_NAME 8 (zero_til 8) [] (Some (zero_til 2))))
     (Some (PeqRoutes OUTPUT_NAME 10 (sw_list cs) (zero_til 10) None)) (non_sw_extra (sw_list cs)) names
     = Inr d"
    using assms(1) by (simp add: MinidspDDRC88_def Let_def split: if_splits)
  then show ?thesis
    by (rule sound_MinidspDescriptor) (use assms(2) in \<open>simp_all add: layout_simps non_sw_extra_def\<close>)
qed

lemma sound_HTX:
  assumes "MinidspHTX names cs b = Inr d" and "distinct (sw_list cs)"
  shows "sound_layout d"
proof (cases b)
  case True
  then have "MinidspDescriptor ''HTX'' ''48000''
     (Some (PeqRoutes INPUT_NAME 10 (sw_list cs) (zero_til 10) None))
     (Some (PeqRoutes CROSSOVER_NAME 8 (zero_til 8) [] (Some (zero_til 2))))
     (Some (PeqRoutes OUTPUT_NAME 10 [] (zero_til 10) None)) None names = Inr d"
    using assms(1) by (simp add: MinidspHTX_def Let_def split: if_splits)
  then show ?thesis
    by (rule sound_MinidspDescriptor) (use assms(2) in \<open>simp_all add: layout_simps\<close>)
next
  case False
  then have "MinidspDescriptor ''HTX'' ''48000'' None
     (Some (PeqRoutes CROSSOVER_NAME 8 (zero_til 8) [] (Some (zero_til 2))))
     (Some (PeqRoutes OUTPUT_NAME 10 (sw_list cs) (zero_til 10) None)) (non_sw_extra (sw_list cs)) names
     = Inr d"
    using assms(1) by (simp add: MinidspHTX_def Let_def split: if_splits)
  then show ?thesis
    by (rule sound_MinidspDescriptor) (use assms(2) in \<open>simp_all add: layout_simps non_sw_extra_def\<close>)
qed

lemmas sound_known = sound_24HD sound_812CDSP sound_DDRC24 sound_410 sound_1010 sound_DDRC88 sound_HTX

text \<open>
  Claim C20. Every device type the program knows by name gets a filter layout inside its hardware: the
  BEQ slots of each route are indices below the number of biquads of the route, and no two
  (slot, channel) pairs of the allocator are the same biquad of the device. The subwoofer channels
  of the DDRC-88 and the HTX come from the configuration and must not repeat.
\<close>

theorem known_layouts_sound:
  assumes "make_peq_layout runner_V semver_gt cfg = Inr d"
    and "device_type cfg = None \<longrightarrow> custom_descriptor cfg = None"
    and "distinct (sw_list (sw_channels cfg))" and "distinct (sw_list (lc_channels cfg))"
  shows "sound_layout d \<and> distinct (layout_addresses d)"
proof -
  have sw: "distinct (sw_list (case lc_channels cfg of None \<Rightarrow> sw_channels cfg | Some c \<Rightarrow> Some c))"
    using assms(3,4) by (auto split: option.split)
  have "sound_layout d"
  proof (cases "device_type cfg")
    case None
    with assms(1,2) have "Minidsp24HD (slotNames cfg) = Inr d"
      by (simp add: make_peq_layout_def)
    then show ?thesis by (rule sound_known)
  next
    case (Some t)
    with assms(1) show ?thesis
      unfolding make_peq_layout_def Let_def
      by (simp split: if_splits sum.splits)
        (use assms(3) sw in \<open>blast intro: sound_known\<close>)+
  qed
  then show ?thesis by (simp add: sound_layout_distinct)
qed

definition example_cfg :: "string \<Rightarrow> layout_cfg" where
  "example_cfg t = \<lparr>slotNames = [], device_type = Some t, lc_channels = None,
     sw_channels = Some [2, 3], use_xo = None, custom_descriptor = None\<rparr>"

lemma known_layouts_sound_witness:
  "\<exists>d. make_peq_layout (Inr []) (\<lambda>_ _. Inr True) (example_cfg ''DDRC88'') = Inr d
     \<and> sound_layout d \<and> distinct (layout_addresses d)"
proof -
  obtain d where d: "make_peq_layout (Inr []) (\<lambda>_ _. Inr True) (example_cfg ''DDRC88'') = Inr d"
    by (simp add: make_peq_layout_def example_cfg_def MinidspDDRC88_def sw_list_def sw_invalid_def
        MinidspDescriptor_def Let_def)
  from known_layouts_sound [OF d] show ?thesis
    using d by (simp add: example_cfg_def sw_list_def)
qed

lemma sound_24HD_example: "\<exists>d. Minidsp24HD [] = Inr d \<and> d_fs d = ''96000''
    \<and> to_allocator d = map (\<lambda>i. \<lparr>bs_name = ''input'', bs_idx = i, bs_channels = [0, 1], bs_group = None\<rparr>)
        [0, 1, 2, 3, 4, 5, 6, 7, 8, 9]"
  by (simp add: Minidsp24HD_def MinidspDescriptor_def to_allocator_def descriptor_routes_def
      BeqFilterAllocator_def route_slots_def takes_beq_def PeqRoutes_def items_def zero_til_def
      upt_rec side_names)

lemma filt_programs_bank_witness:
  "\<exists>d cmds. Minidsp24HD [] = Inr d
     \<and> filt (\<lambda>_. []) (Some (plain_entry ''T'' ''A'' [plain_filter ''96000'' [''1'', ''2'', ''3'', ''4'', ''5'']])) d
         = Inr cmds
     \<and> run_bank cmds (\<lambda>_. ([], True)) (''input'', 1, ''peq'', 0) = ([''1'', ''2'', ''3'', ''4'', ''5''], False)
     \<and> run_bank cmds (\<lambda>_. ([], False)) (''input'', 0, ''peq'', 9) = ([], True)
     \<and> run_bank cmds (\<lambda>_. ([], False)) (''output'', 0, ''peq'', 0) = ([], False)"
proof -
  let ?cs = "[''1'', ''2'', ''3'', ''4'', ''5'']"
  let ?e = "plain_entry ''T'' ''A'' [plain_filter ''96000'' ?cs]"
  obtain d where d: "Minidsp24HD [] = Inr d" "d_fs d = ''96000''"
    and ss: "to_allocator d = map (\<lambda>i. \<lparr>bs_name = ''input'', bs_idx = i, bs_channels = [0, 1],
        bs_group = None\<rparr>) [0, 1, 2, 3, 4, 5, 6, 7, 8, 9]"
    using sound_24HD_example by blast
  have bq: "as_bq (\<lambda>_. []) (d_fs d) (plain_filter ''96000'' ?cs) = Inr ?cs"
    by (simp add: d as_bq_def plain_filter_def need_def)
  obtain cmds where cmds: "filt (\<lambda>_. []) (Some ?e) d = Inr cmds"
    using bq push_filters_ok [of "[?cs]" "to_allocator d" 0] ss
    by (simp add: filt_def plain_entry_def)
  have T: "(\<forall>k a cs. k < 1 \<and> a \<in> set (slot_addresses (to_allocator d ! k))
        \<and> as_bq (\<lambda>_. []) (d_fs d) (ce_filters ?e ! k) = Inr cs \<longrightarrow> run_bank cmds b a = (cs, False)) \<and>
    (\<forall>k a. 1 \<le> k \<and> k < length (to_allocator d)
        \<and> a \<in> set (slot_addresses (to_allocator d ! k)) \<longrightarrow> run_bank cmds b a = (fst (b a), True)) \<and>
    (\<forall>a. a \<notin> set (layout_addresses d) \<longrightarrow> run_bank cmds b a = b a)" for b
    using filt_programs_bank [OF cmds sound_layout_distinct [OF sound_24HD [OF d(1)]], of b]
    by (simp add: plain_entry_def)
  have f0: "ce_filters ?e ! 0 = plain_filter ''96000'' ?cs" by (simp add: plain_entry_def)
  have "(''input'', 1, ''peq'', 0) \<in> set (slot_addresses (to_allocator d ! 0))"
    and "(''input'', 0, ''peq'', 9) \<in> set (slot_addresses (to_allocator d ! 9))"
    and out: "(''output'', 0, ''peq'', 0) \<notin> set (layout_addresses d)"
    by (auto simp: ss slot_addresses_def slot_address_def peq_side_def peq_addr_def side_names
        layout_addresses_def)
  moreover have "length (to_allocator d) = 10" by (simp add: ss)
  ultimately have "run_bank cmds (\<lambda>_. ([], True)) (''input'', 1, ''peq'', 0) = (?cs, False)"
    and "run_bank cmds (\<lambda>_. ([], False)) (''input'', 0, ''peq'', 9) = ([], True)"
    using conjunct1 [OF T, rule_format, of 0 "(''input'', 1, ''peq'', 0)" ?cs "\<lambda>_. ([], True)"]
      conjunct1 [OF conjunct2 [OF T], rule_format, of 9 "(''input'', 0, ''peq'', 9)" "\<lambda>_. ([], False)"]
      bq f0 by (simp_all only:) simp_all
  moreover have "run_bank cmds (\<lambda>_. ([], False)) (''output'', 0, ''peq'', 0) = ([], False)"
    using T [of "\<lambda>_. ([], False)"] out by blast
  ultimately show ?thesis using d cmds by blast
qed

text \<open>
  An entry with more filters than the device has BEQ slots is refused: no command is produced,
  whatever the filters hold, and the exception says how many slots there were.
\<close>

theorem filt_too_many:
  assumes "map_result (as_bq fmt (d_fs d)) (ce_filters e) = Inr css"
    and "length (to_allocator d) < length (ce_filters e)"
  shows "filt fmt (Some e) d =
    Inl (ValueError (''Loaded '' @ show_nat (length (to_allocator d)) @ '' filters but no slots remaining''))"
  using assms map_result_length [OF assms(1)] by (simp add: filt_def push_filters_too_many)

lemma filt_too_many_witness:
  "\<exists>d. Minidsp24HD [] = Inr d \<and>
     filt (\<lambda>_. []) (Some (plain_entry ''T'' ''A'' (replicate 11 (plain_filter ''96000'' [''1'', ''2'', ''3'', ''4'', ''5''])))) d
       = Inl (ValueError ''Loaded 10 filters but no slots remaining'')"
proof -
  let ?f = "plain_filter ''96000'' [''1'', ''2'', ''3'', ''4'', ''5'']"
  let ?e = "plain_entry ''T'' ''A'' (replicate 11 ?f)"
  obtain d where d: "Minidsp24HD [] = Inr d" "d_fs d = ''96000''"
    and ss: "length (to_allocator d) = 10"
    using sound_24HD_example by auto
  have "as_bq (\<lambda>_. []) (d_fs d) ?f = Inr [''1'', ''2'', ''3'', ''4'', ''5'']"
    by (simp add: d as_bq_def plain_filter_def need_def)
  then have "map_result (as_bq (\<lambda>_. []) (d_fs d)) (ce_filters ?e)
      = Inr (replicate 11 [''1'', ''2'', ''3'', ''4'', ''5''])"
    by (simp add: plain_entry_def numeral_eq_Suc)
  moreover have "show_nat 10 = ''10''" by (simp add: show_nat.simps digit_char_def)
  moreover have "length (ce_filters ?e) = 11" by (simp add: plain_entry_def)
  ultimately show ?thesis using filt_too_many [of "\<lambda>_. []" d ?e] d ss by simp
qed

text \<open>
  Clearing bypasses every BEQ biquad of the device and changes nothing else: no coefficient is
  written, and biquads outside the BEQ slots keep their bypass switch.
\<close>

theorem filt_clear_bypasses:
  shows "\<exists>cmds. filt fmt None d = Inr cmds \<and>
    (\<forall>b a. run_bank cmds b a = (fst (b a), a \<in> set (layout_addresses d) \<or> snd (b a)))"
proof -
  have "filt fmt None d = Inr (concat (map bypass_slot (to_allocator d)))"
    by (simp add: filt_def)
  then show ?thesis by (auto simp: run_bypass_slots layout_addresses_def prod_eq_iff)
qed

end
