(* ===== verification/Stub_Runner.thy ===== *)
theory Stub_Runner
  imports Minidsp_Commands
begin

text \<open>
  The command line runner a MiniDSP device talks to, as the three calls the program makes of it, and
  \<^verbatim>\<open>MinidspStubRunner\<close> of \<^verbatim>\<open>ezbeq/minidsp.py\<close>, the simulated device that parses the command file back.
  Lemmas: the stub reads every command file that the generator writes, so that the last
  \<^verbatim>\<open>config\<close>, \<^verbatim>\<open>gain\<close> and \<^verbatim>\<open>mute\<close> of the list decide its state.
\<close>

section \<open>Runners\<close>

text \<open>
  \<open>run_status\<close> is \<^verbatim>\<open>runner['-o', 'jsonline']()\<close>, its output lines given as \<^verbatim>\<open>json.loads\<close> reads them;
  \<open>run_probe\<close> is \<^verbatim>\<open>runner['probe']()\<close>; \<open>run_file\<close> is \<^verbatim>\<open>runner['-f', file].run()\<close> on a file with the given
  text. The boolean tells whether the return code is ignored.
\<close>

record 'w runner =
  run_status :: "bool \<Rightarrow> ('w, (exn + json) list) act"
  run_probe :: "bool \<Rightarrow> ('w, string list) act"
  run_file :: "bool \<Rightarrow> string \<Rightarrow> ('w, int) act"

definition newline :: char where
  "newline = CHR 0x0A"

text \<open>\<^verbatim>\<open>tmp_file\<close>: one command per line.\<close>

definition tmp_file :: "command list \<Rightarrow> string" where
  "tmp_file cs = concat (map (\<lambda>c. render c @ [newline]) cs)"

section \<open>The stub\<close>

datatype runner_item = ItemText string | ItemTuple "string list"

record stub =
  stub_slot :: int
  stub_gain :: rat
  stub_mute :: bool
  stub_pending :: "runner_item option"

definition new_stub :: stub where
  "new_stub = \<lparr>stub_slot = 0, stub_gain = 0, stub_mute = False, stub_pending = None\<rparr>"

definition stub_getitem :: "runner_item \<Rightarrow> stub \<Rightarrow> stub" where
  "stub_getitem i s = s\<lparr>stub_pending := Some i\<rparr>"

definition make_status :: "stub \<Rightarrow> json" where
  "make_status s = JObj
     [(''master'', JObj [(''preset'', JNum (of_int (stub_slot s))), (''source'', JStr ''Usb''),
                         (''volume'', JNum (stub_gain s)), (''mute'', JBool (stub_mute s))]),
      (''input_levels'', JList [JNum 0, JNum 0]),
      (''output_levels'', JList [JNum 0, JNum 0, JNum 0, JNum 0])]"

text \<open>
  \<^verbatim>\<open>_GAIN_PATTERN.match\<close> and \<^verbatim>\<open>_CONFIG_PATTERN.match\<close>: the text of group 1 when a prefix of the line
  matches.
\<close>

definition match_gain :: "string \<Rightarrow> string option" where
  "match_gain c =
     (if \<not> starts_with ''gain -- '' c then None
      else
        let v = drop 8 c;
            sgn = (if v \<noteq> [] \<and> hd v \<in> {CHR ''-'', CHR ''+''} then [hd v] else []);
            body = drop (length sgn) v;
            ip = takeWhile is_digit body;
            rest = dropWhile is_digit body;
            fp = takeWhile is_digit (tl rest)
        in if rest \<noteq> [] \<and> hd rest = CHR ''.'' \<and> fp \<noteq> [] then Some (sgn @ ip @ ''.'' @ fp)
           else if takeWhile is_digit v \<noteq> [] then Some (takeWhile is_digit v)
           else None)"

definition match_config :: "string \<Rightarrow> int option" where
  "match_config c =
     (if starts_with ''config '' c then
        (case drop 7 c of
           x # _ \<Rightarrow> (case digit_val x of Some n \<Rightarrow> (if n \<le> 3 then Some (int n) else None) | None \<Rightarrow> None)
         | [] \<Rightarrow> None)
      else None)"

definition apply_cmd :: "string \<Rightarrow> (stub, unit) act" where
  "apply_cmd c s =
     (if c = ''mute on'' then (Inr (), s\<lparr>stub_mute := True\<rparr>)
      else if c = ''mute off'' then (Inr (), s\<lparr>stub_mute := False\<rparr>)
      else case match_gain c of
        Some g \<Rightarrow>
          (case py_float g of
             None \<Rightarrow> (Inl (ValueError ''could not convert string to float''), s)
           | Some r \<Rightarrow> (Inr (), s\<lparr>stub_gain := r\<rparr>))
      | None \<Rightarrow>
          (case match_config c of
             Some k \<Rightarrow> (Inr (), s\<lparr>stub_slot := k\<rparr>)
           | None \<Rightarrow> (Inr (), s)))"

text \<open>Reading a text file turns every line ending into a newline.\<close>

fun universal_newlines :: "string \<Rightarrow> string" where
  "universal_newlines [] = []"
| "universal_newlines (c # cs) =
     (if c = CHR 0x0D
      then newline # (case cs of d # ds \<Rightarrow> if d = newline then universal_newlines ds
                                          else universal_newlines (d # ds) | [] \<Rightarrow> [])
      else c # universal_newlines cs)"

definition apply_file :: "string \<Rightarrow> (stub, unit) act" where
  "apply_file text =
     for_each apply_cmd (filter (\<lambda>c. c \<noteq> []) (split_on newline (universal_newlines text)))"

text \<open>\<open>files\<close> maps the path of a file to its text.\<close>

definition take_pending :: "(string \<Rightarrow> string option) \<Rightarrow> (stub, bool) act" where
  "take_pending files s =
     (let s' = s\<lparr>stub_pending := None\<rparr> in
      case stub_pending s of
        Some (ItemTuple [a, path]) \<Rightarrow>
          (if a = ''-f'' then
             (case files path of
                None \<Rightarrow> (Inl (External ''FileNotFoundError''), s')
              | Some text \<Rightarrow>
                  (case apply_file text s' of
                     (Inl e, s'') \<Rightarrow> (Inl e, s'') | (Inr _, s'') \<Rightarrow> (Inr True, s'')))
           else (Inr False, s'))
      | _ \<Rightarrow> (Inr False, s'))"

definition stub_call :: "(string \<Rightarrow> string option) \<Rightarrow> (stub, json) act" where
  "stub_call files = and_then (take_pending files) (\<lambda>_ s. (Inr (make_status s), s))"

text \<open>\<^verbatim>\<open>run\<close> returns the code and the standard output, empty after a file.\<close>

definition stub_run :: "(string \<Rightarrow> string option) \<Rightarrow> (stub, int \<times> json option) act" where
  "stub_run files =
     and_then (take_pending files)
       (\<lambda>b s. (Inr (0, if b then None else Some (make_status s)), s))"

text \<open>
  The stub as the runner of a device; \<open>dumps\<close> is the text of a status report, one line, which \<^verbatim>\<open>probe\<close>
  searches for serial numbers.
\<close>

definition stub_runner :: "(json \<Rightarrow> string) \<Rightarrow> stub runner" where
  "stub_runner dumps =
     \<lparr>run_status = (\<lambda>_ s.
        case stub_call (\<lambda>_. None) (stub_getitem (ItemTuple [''-o'', ''jsonline'']) s) of
          (Inl e, s') \<Rightarrow> (Inl e, s') | (Inr j, s') \<Rightarrow> (Inr [Inr j], s')),
      run_probe = (\<lambda>_ s.
        case stub_call (\<lambda>_. None) (stub_getitem (ItemText ''probe'') s) of
          (Inl e, s') \<Rightarrow> (Inl e, s') | (Inr j, s') \<Rightarrow> (Inr [dumps j], s')),
      run_file = (\<lambda>_ text s.
        case stub_run (\<lambda>_. Some text) (stub_getitem (ItemTuple [''-f'', ''tmp'']) s) of
          (Inl e, s') \<Rightarrow> (Inl e, s') | (Inr (code, _), s') \<Rightarrow> (Inr code, s'))\<rparr>"

section \<open>What a command file means to the stub\<close>

fun stub_step :: "command \<Rightarrow> stub \<Rightarrow> stub" where
  "stub_step (Config k) s = s\<lparr>stub_slot := k\<rparr>"
| "stub_step (MuteMaster b) s = s\<lparr>stub_mute := b\<rparr>"
| "stub_step (GainMaster g) s = s\<lparr>stub_gain := round2 g\<rparr>"
| "stub_step _ s = s"

definition one_line :: "string \<Rightarrow> bool" where
  "one_line t \<longleftrightarrow> newline \<notin> set t \<and> CHR 0x0D \<notin> set t"

text \<open>
  The commands whose text is read back as written: slots 0 to 3, sides \<^verbatim>\<open>input\<close> and \<^verbatim>\<open>output\<close>, free
  texts without a line break.
\<close>

fun cmd_ok :: "command \<Rightarrow> bool" where
  "cmd_ok (Config k) = (0 \<le> k \<and> k \<le> 3)"
| "cmd_ok (PeqSet side ch addr idx cs) =
     (side \<in> {INPUT_NAME, OUTPUT_NAME} \<and> one_line addr \<and> list_all one_line cs)"
| "cmd_ok (PeqBypass side ch addr idx b) = (side \<in> {INPUT_NAME, OUTPUT_NAME} \<and> one_line addr)"
| "cmd_ok (RawCmd side ch c) = (side \<in> {INPUT_NAME, OUTPUT_NAME} \<and> one_line c)"
| "cmd_ok (MuteChannel side ch b) = (side \<in> {INPUT_NAME, OUTPUT_NAME})"
| "cmd_ok (GainChannel side ch g) = (side \<in> {INPUT_NAME, OUTPUT_NAME})"
| "cmd_ok (MuteMaster b) = True"
| "cmd_ok (GainMaster g) = True"

lemma one_line_append [simp]: "one_line (a @ b) \<longleftrightarrow> one_line a \<and> one_line b"
  by (auto simp: one_line_def)

lemma one_line_Cons [simp]: "one_line (c # b) \<longleftrightarrow> c \<noteq> newline \<and> c \<noteq> CHR 0x0D \<and> one_line b"
  by (auto simp: one_line_def)

lemma one_line_Nil [simp]: "one_line []"
  by (simp add: one_line_def)

lemma line_ends_no_digit: "\<not> is_digit newline" "\<not> is_digit (CHR 0x0D)"
  by (simp_all add: newline_def is_digit_def digit_val_def)

lemma one_line_digits: "(\<And>c. c \<in> set t \<Longrightarrow> is_digit c) \<Longrightarrow> one_line t"
  using line_ends_no_digit by (auto simp: one_line_def)

lemma one_line_show [simp]: "one_line (show_nat n)" "one_line (show_int i)"
  by (auto simp: show_int_def newline_def show_nat_digits intro: one_line_digits)

lemma two_digits_digit: "c \<in> set (two_digits n) \<Longrightarrow> is_digit c"
  by (auto simp: two_digits_def)

lemma one_line_fmt2 [simp]: "one_line (fmt2 x)"
  by (auto simp: fmt2_def newline_def two_digits_digit intro: one_line_digits)

lemma one_line_join: "list_all one_line xs \<Longrightarrow> one_line sep \<Longrightarrow> one_line (join sep xs)"
  by (induction sep xs rule: join.induct) auto

lemma one_line_side: "side \<in> {INPUT_NAME, OUTPUT_NAME} \<Longrightarrow> one_line side"
  by (auto simp: side_names newline_def)

lemma render_one_line: "cmd_ok c \<Longrightarrow> one_line (render c)"
  by (cases c)
    (simp_all add: one_line_side one_line_join on_off_def newline_def del: insert_iff)

lemma side_starts [simp]:
  "\<not> starts_with ''gain -- '' (INPUT_NAME @ r)" "\<not> starts_with ''gain -- '' (OUTPUT_NAME @ r)"
  "\<not> starts_with ''config '' (INPUT_NAME @ r)" "\<not> starts_with ''config '' (OUTPUT_NAME @ r)"
  by (simp_all add: starts_with_def side_names)

lemma match_gain_side:
  "side \<in> {INPUT_NAME, OUTPUT_NAME} \<Longrightarrow>
     match_gain (side @ r) = None \<and> match_config (side @ r) = None
     \<and> side @ r \<noteq> ''mute on'' \<and> side @ r \<noteq> ''mute off''"
  by (elim insertE emptyE)
    (simp_all add: match_gain_def match_config_def, simp_all add: side_names)

lemma match_gain_fmt2: "match_gain (''gain -- '' @ fmt2 g) = Some (fmt2 g)"
proof -
  have hd: "hd (show_nat n @ s) \<notin> {CHR ''-'', CHR ''+''}" for n s
    using hd_show_nat_digit [of n] by auto
  have tw: "takeWhile is_digit (two_digits n) = two_digits n" for n
    by (simp add: takeWhile_eq_all_conv two_digits_digit)
  have ne: "two_digits n \<noteq> []" for n by (simp add: two_digits_def)
  show ?thesis
    using hd by (cases "g < 0") (simp_all add: match_gain_def fmt2_def starts_with_def Let_def tw ne)
qed

lemma match_config_show: "0 \<le> k \<Longrightarrow> k \<le> 3 \<Longrightarrow> match_config (''config '' @ show_int k) = Some k"
  by (simp add: match_config_def starts_with_def show_int_def show_nat.simps)

lemma apply_render: "cmd_ok c \<Longrightarrow> apply_cmd (render c) s = (Inr (), stub_step c s)"
proof (cases c)
  case (Config k)
  moreover assume "cmd_ok c"
  moreover have "match_gain (''config '' @ r) = None" for r
    by (simp add: match_gain_def starts_with_def)
  ultimately show ?thesis using match_config_show [of k] by (simp add: apply_cmd_def)
next
  case (GainMaster g)
  then show ?thesis using match_gain_fmt2 [of g] by (simp add: apply_cmd_def fmt2_py_float)
next
  case (MuteMaster b)
  then show ?thesis by (simp add: apply_cmd_def on_off_def)
qed (simp_all add: apply_cmd_def match_gain_side del: insert_iff append_assoc)

lemma universal_newlines_id: "CHR 0x0D \<notin> set t \<Longrightarrow> universal_newlines t = t"
  by (induction t) auto

lemma render_ne [simp]: "render c \<noteq> []"
  by (cases c) simp_all

lemma split_tmp_file:
  "list_all cmd_ok cs \<Longrightarrow>
   filter (\<lambda>c. c \<noteq> []) (split_on newline (tmp_file cs)) = map render cs"
proof (induction cs)
  case Nil
  then show ?case by (simp add: tmp_file_def)
next
  case (Cons c cs)
  then have "newline \<notin> set (render c)" using render_one_line [of c] by (simp add: one_line_def)
  with Cons show ?case by (simp add: tmp_file_def split_on_append)
qed

lemma tmp_file_no_cr: "list_all cmd_ok cs \<Longrightarrow> CHR 0x0D \<notin> set (tmp_file cs)"
  using render_one_line by (auto simp: tmp_file_def list_all_iff one_line_def newline_def)

lemma apply_tmp_file:
  assumes "list_all cmd_ok cs"
  shows "apply_file (tmp_file cs) s = (Inr (), fold stub_step cs s)"
proof -
  have "apply_file (tmp_file cs) s = for_each apply_cmd (map render cs) s"
    using assms by (simp add: apply_file_def universal_newlines_id tmp_file_no_cr split_tmp_file)
  also have "\<dots> = (Inr (), fold stub_step cs s)"
    using assms by (induction cs arbitrary: s) (simp_all add: apply_render)
  finally show ?thesis .
qed

lemma take_pending_file:
  assumes "list_all cmd_ok cs"
  shows "take_pending (\<lambda>_. Some (tmp_file cs)) (stub_getitem (ItemTuple [''-f'', p]) s)
    = (Inr True, fold stub_step cs (s\<lparr>stub_pending := None\<rparr>))"
  by (simp add: take_pending_def stub_getitem_def apply_tmp_file [OF assms])

lemma stub_step_pending [simp]: "stub_pending (fold stub_step cs s) = stub_pending s"
proof (induction cs arbitrary: s)
  case (Cons c cs)
  then show ?case by (cases c) simp_all
qed simp

lemma stub_runs_file:
  "list_all cmd_ok cs \<Longrightarrow> run_file (stub_runner dumps) ig (tmp_file cs) s
    = (Inr 0, fold stub_step cs (s\<lparr>stub_pending := None\<rparr>))"
  by (simp add: stub_runner_def stub_run_def and_then_def take_pending_file)

text \<open>
  Claim C18. The simulated device reads back every command file the program writes: whatever valid
  commands the file holds, the stub ends with the slot of the last \<^verbatim>\<open>config\<close>, the gain of the last
  master gain command rounded to the two decimals of the file, and the mute of the last master mute,
  and reports success.
\<close>

theorem stub_runs_command_file:
  assumes "list_all cmd_ok cs"
  shows "run_file (stub_runner dumps) ig (tmp_file cs) s
    = (Inr 0, fold stub_step cs (s\<lparr>stub_pending := None\<rparr>))"
  using assms by (rule stub_runs_file)

lemma stub_runs_command_file_witness:
  "run_file (stub_runner (\<lambda>_. '''')) False
     (tmp_file [Config 2, MuteChannel INPUT_NAME 0 True, GainMaster (- 12), MuteMaster True]) new_stub
   = (Inr 0, \<lparr>stub_slot = 2, stub_gain = - 12, stub_mute = True, stub_pending = None\<rparr>)"
proof -
  have r: "round2 (- 12) = - 12" by (rule round2_exact [of _ "- 1200"]) simp
  show ?thesis
    using stub_runs_command_file
      [of "[Config 2, MuteChannel INPUT_NAME 0 True, GainMaster (- 12), MuteMaster True]"
        "\<lambda>_. ''''" False new_stub]
    by (simp add: new_stub_def r)
qed

lemma stub_status: "run_status (stub_runner dumps) ig s
    = (Inr [Inr (make_status (s\<lparr>stub_pending := None\<rparr>))], s\<lparr>stub_pending := None\<rparr>)"
  by (simp add: stub_runner_def stub_call_def and_then_def take_pending_def stub_getitem_def)

lemma stub_probe: "\<exists>lines. run_probe (stub_runner dumps) ig s = (Inr lines, s\<lparr>stub_pending := None\<rparr>)"
  by (simp add: stub_runner_def stub_call_def and_then_def take_pending_def stub_getitem_def)

end
