(* ===== verification/Minidsp_State.thy ===== *)
theory Minidsp_State
  imports Slot_State Minidsp_Commands
begin

text \<open>
  \<^verbatim>\<open>MinidspState\<close> and \<^verbatim>\<open>MinidspSlotState\<close> of \<^verbatim>\<open>ezbeq/minidsp.py\<close>: what the program believes about a
  MiniDSP. Lemmas: the four slots keep their identity, every operation leaves exactly the active slot
  flagged, a channel update changes that channel alone, and a serialised state is restored by a merge.
\<close>

section \<open>Channel values\<close>

text \<open>A channel value is the dictionary \<^verbatim>\<open>{'id': ..., 'value': ...}\<close>.\<close>

definition channel_val :: "nat \<Rightarrow> json \<Rightarrow> obj" where
  "channel_val i v = [(''id'', JStr (show_nat (i + 1))), (''value'', v)]"

definition make_vals :: "nat \<Rightarrow> json \<Rightarrow> obj list" where
  "make_vals n v = map (\<lambda>i. channel_val i v) [0..<n]"

text \<open>\<^verbatim>\<open>next(g for g in vals if g['id'] == str(channel))['value'] = value\<close>\<close>

fun set_first :: "string \<Rightarrow> json \<Rightarrow> obj list \<Rightarrow> exn + obj list" where
  "set_first ch v [] = Inl StopIteration"
| "set_first ch v (g # gs) =
     (case map_of g ''id'' of
        None \<Rightarrow> Inl (KeyError ''id'')
      | Some k \<Rightarrow>
          if k = JStr ch then Inr (dict_set g ''value'' v # gs)
          else (case set_first ch v gs of Inl e \<Rightarrow> Inl e | Inr gs' \<Rightarrow> Inr (g # gs')))"

definition set_vals :: "string \<Rightarrow> nat \<Rightarrow> int option \<Rightarrow> json \<Rightarrow> string \<Rightarrow> (obj list, unit) act" where
  "set_vals what n channel v sid xs =
     (case channel of
        None \<Rightarrow> (Inr (), make_vals n v)
      | Some ch \<Rightarrow>
          if ch \<le> int n then
            (case set_first (show_int ch) v xs of Inl e \<Rightarrow> (Inl e, xs) | Inr ys \<Rightarrow> (Inr (), ys))
          else (Inl (ValueError (''Unknown '' @ what @ '' '' @ show_int ch @ '' for slot '' @ sid)), xs))"

text \<open>
  The loop that reads cached channel values: the list is emptied first and filled one by one, so an
  exception leaves what was read before it.
\<close>

fun merge_vals :: "(json \<Rightarrow> exn + json) \<Rightarrow> nat \<Rightarrow> json list \<Rightarrow> (obj list, unit) act" where
  "merge_vals conv i [] acc = (Inr (), acc)"
| "merge_vals conv i (g # gs) acc =
     (case g of
        JObj d \<Rightarrow> merge_vals conv (Suc i) gs (acc @ [d])
      | _ \<Rightarrow>
          (case conv g of
             Inl e \<Rightarrow> (Inl e, acc)
           | Inr v \<Rightarrow> merge_vals conv (Suc i) gs (acc @ [channel_val i v])))"

definition merge_field ::
  "string \<Rightarrow> nat \<Rightarrow> (json \<Rightarrow> exn + json) \<Rightarrow> obj \<Rightarrow> (obj list, unit) act" where
  "merge_field key n conv st xs =
     (case map_of st key of
        None \<Rightarrow> (Inr (), xs)
      | Some v \<Rightarrow>
          (case jlen v of
             Inl e \<Rightarrow> (Inl e, xs)
           | Inr k \<Rightarrow>
               if k = n then
                 (case jiter v of Inl e \<Rightarrow> (Inl e, []) | Inr ys \<Rightarrow> merge_vals conv 0 ys [])
               else (Inr (), xs)))"

definition as_float :: "json \<Rightarrow> exn + json" where
  "as_float v = (case jfloat v of Inl e \<Rightarrow> Inl e | Inr r \<Rightarrow> Inr (JNum r))"

definition as_bool :: "json \<Rightarrow> exn + json" where
  "as_bool v = Inr (JBool (truthy v))"

section \<open>Slots\<close>

record minidsp_slot = slot_state +
  input_channels :: nat
  output_channels :: nat
  gains :: "obj list"
  mutes :: "obj list"
  output_gains :: "obj list"
  output_mutes :: "obj list"
  slot_name :: "string option"

definition zero_gain :: json where "zero_gain = JNum 0"
definition unmuted :: json where "unmuted = JBool False"

definition MinidspSlotState :: "string \<Rightarrow> bool \<Rightarrow> nat \<Rightarrow> nat \<Rightarrow> string option \<Rightarrow> minidsp_slot" where
  "MinidspSlotState sid act ic oc nm =
     \<lparr>slot_id = sid, last_title = empty_title, last_author = JNull, active = act,
      input_channels = ic, output_channels = oc,
      gains = make_vals ic zero_gain, mutes = make_vals ic unmuted,
      output_gains = make_vals oc zero_gain, output_mutes = make_vals oc unmuted,
      slot_name = nm\<rparr>"

lemma MinidspSlotState_simps [simp]:
  "slot_id (MinidspSlotState sid act ic oc nm) = sid"
  "active (MinidspSlotState sid act ic oc nm) = act"
  by (simp_all add: MinidspSlotState_def)

definition slot_set_gain :: "int option \<Rightarrow> json \<Rightarrow> (minidsp_slot, unit) act" where
  "slot_set_gain channel v s =
     zoom gains gains_update (set_vals ''channel'' (input_channels s) channel v (slot_id s)) s"

definition slot_set_output_gain :: "int option \<Rightarrow> json \<Rightarrow> (minidsp_slot, unit) act" where
  "slot_set_output_gain channel v s =
     zoom output_gains output_gains_update
       (set_vals ''output channel'' (output_channels s) channel v (slot_id s)) s"

definition slot_do_mute :: "int option \<Rightarrow> bool \<Rightarrow> (minidsp_slot, unit) act" where
  "slot_do_mute channel b s =
     zoom mutes mutes_update (set_vals ''channel'' (input_channels s) channel (JBool b) (slot_id s)) s"

definition slot_set_output_mute :: "int option \<Rightarrow> bool \<Rightarrow> (minidsp_slot, unit) act" where
  "slot_set_output_mute channel b s =
     zoom output_mutes output_mutes_update
       (set_vals ''output channel'' (output_channels s) channel (JBool b) (slot_id s)) s"

definition minidsp_slot_merge :: "obj \<Rightarrow> (minidsp_slot, unit) act" where
  "minidsp_slot_merge st =
     and_then (modify (slot_merge_with st)) (\<lambda>_.
     and_then (\<lambda>s. zoom gains gains_update (merge_field ''gains'' (input_channels s) as_float st) s) (\<lambda>_.
     and_then (\<lambda>s. zoom mutes mutes_update (merge_field ''mutes'' (input_channels s) as_bool st) s) (\<lambda>_.
     and_then (\<lambda>s. zoom output_gains output_gains_update
       (merge_field ''outputGains'' (output_channels s) as_float st) s) (\<lambda>_.
     (\<lambda>s. zoom output_mutes output_mutes_update
       (merge_field ''outputMutes'' (output_channels s) as_bool st) s)))))"

definition json_objs :: "obj list \<Rightarrow> json" where
  "json_objs xs = JList (map JObj xs)"

definition minidsp_slot_as_dict :: "minidsp_slot \<Rightarrow> obj" where
  "minidsp_slot_as_dict s =
     slot_as_dict s
     @ (case slot_name s of
          Some n \<Rightarrow> (if n \<noteq> [] then [(''name'', JStr n)] else [])
        | None \<Rightarrow> [])
     @ [(''gains'', json_objs (gains s)), (''mutes'', json_objs (mutes s)),
        (''canActivate'', JBool True),
        (''inputs'', JNum (of_nat (input_channels s))),
        (''outputs'', JNum (of_nat (output_channels s)))]
     @ (if 0 < output_channels s
        then [(''outputGains'', json_objs (output_gains s)),
              (''outputMutes'', json_objs (output_mutes s))]
        else [])"

section \<open>The state of a device\<close>

record minidsp_state =
  st_name :: string
  master_volume :: json
  st_mute :: json
  active_slot :: string
  serials :: "string list"
  connected :: bool
  slots :: "minidsp_slot list"

definition slot_ids :: "string list" where
  "slot_ids = map (\<lambda>i. show_nat (i + 1)) [0..<4]"

text \<open>\<^verbatim>\<open>0 if not route else len(route.channels)\<close>\<close>

definition channel_count :: "peq_routes option \<Rightarrow> exn + nat" where
  "channel_count r =
     (case r of
        None \<Rightarrow> Inr 0
      | Some p \<Rightarrow> (case channels p of None \<Rightarrow> Inl TypeError | Some cs \<Rightarrow> Inr (length cs)))"

definition MinidspState ::
  "string \<Rightarrow> descriptor \<Rightarrow> json \<Rightarrow> json \<Rightarrow> string \<Rightarrow> string list \<Rightarrow> bool \<Rightarrow> exn + minidsp_state" where
  "MinidspState n d mv mt act srl con =
     (case channel_count (d_input d) of
        Inl e \<Rightarrow> Inl e
      | Inr ic \<Rightarrow>
          (case channel_count (d_output d) of
             Inl e \<Rightarrow> Inl e
           | Inr oc \<Rightarrow>
               Inr \<lparr>st_name = n, master_volume = mv, st_mute = mt, active_slot = act,
                    serials = srl, connected = con,
                    slots = map (\<lambda>i. MinidspSlotState i (i = act) ic oc (map_of (d_slot_names d) i))
                              slot_ids\<rparr>))"

definition update_master_state :: "json \<Rightarrow> json \<Rightarrow> minidsp_state \<Rightarrow> minidsp_state" where
  "update_master_state mt gain st = st\<lparr>st_mute := mt, master_volume := gain\<rparr>"

definition st_activate :: "string \<Rightarrow> minidsp_state \<Rightarrow> minidsp_state" where
  "st_activate sid st =
     st\<lparr>active_slot := sid, slots := map (\<lambda>s. s\<lparr>active := (slot_id s = sid)\<rparr>) (slots st)\<rparr>"

definition get_slot :: "string \<Rightarrow> minidsp_state \<Rightarrow> minidsp_slot option" where
  "get_slot sid st = find (\<lambda>s. slot_id s = sid) (slots st)"

text \<open>
  \<^verbatim>\<open>self.get_slot(slot_id).m(...)\<close>: a method of the slot found, an \<^verbatim>\<open>AttributeError\<close> when there is none.
  Slot ids are distinct (\<open>state_wf\<close>), so replacing by id replaces the object found.
\<close>

definition on_slot :: "string \<Rightarrow> (minidsp_slot, unit) act \<Rightarrow> (minidsp_state, unit) act" where
  "on_slot sid m st =
     (case get_slot sid st of
        None \<Rightarrow> (Inl AttributeError, st)
      | Some s \<Rightarrow>
          (case m s of
             (r, s') \<Rightarrow>
               (r, st\<lparr>slots := map (\<lambda>x. if slot_id x = sid then s' else x) (slots st)\<rparr>)))"

definition then_activate :: "string \<Rightarrow> (minidsp_slot, unit) act \<Rightarrow> (minidsp_state, unit) act" where
  "then_activate sid m = and_then (on_slot sid m) (\<lambda>_. modify (st_activate sid))"

definition st_load :: "string \<Rightarrow> json \<Rightarrow> json \<Rightarrow> (minidsp_state, unit) act" where
  "st_load sid title author = then_activate sid (modify (set_loaded title author))"

definition st_clear :: "string \<Rightarrow> (minidsp_state, unit) act" where
  "st_clear sid =
     then_activate sid
       (and_then (slot_do_mute None False) (\<lambda>_.
        and_then (slot_set_gain None zero_gain) (\<lambda>_.
        modify (set_loaded empty_title JNull))))"

definition st_error :: "string \<Rightarrow> (minidsp_state, unit) act" where
  "st_error sid = then_activate sid (modify (set_loaded error_title JNull))"

definition st_gain :: "string option \<Rightarrow> int option \<Rightarrow> json \<Rightarrow> (minidsp_state, unit) act" where
  "st_gain sid channel g =
     (case sid of
        None \<Rightarrow> modify (\<lambda>st. st\<lparr>master_volume := g\<rparr>)
      | Some i \<Rightarrow> then_activate i (slot_set_gain channel g))"

definition st_toggle_mute :: "string option \<Rightarrow> int option \<Rightarrow> bool \<Rightarrow> (minidsp_state, unit) act" where
  "st_toggle_mute sid channel b =
     (case sid of
        None \<Rightarrow> modify (\<lambda>st. st\<lparr>st_mute := JBool b\<rparr>)
      | Some i \<Rightarrow> then_activate i (slot_do_mute channel b))"

definition st_output_gain :: "string \<Rightarrow> int option \<Rightarrow> json \<Rightarrow> (minidsp_state, unit) act" where
  "st_output_gain sid channel g = then_activate sid (slot_set_output_gain channel g)"

definition st_toggle_output_mute :: "string \<Rightarrow> int option \<Rightarrow> bool \<Rightarrow> (minidsp_state, unit) act" where
  "st_toggle_output_mute sid channel b = then_activate sid (slot_set_output_mute channel b)"

definition st_serialise :: "minidsp_state \<Rightarrow> json" where
  "st_serialise st = JObj
     ([(''type'', JStr ''minidsp''), (''name'', JStr (st_name st)),
       (''masterVolume'', master_volume st), (''mute'', st_mute st),
       (''connected'', JBool (connected st)),
       (''slots'', JList (map (\<lambda>s. JObj (minidsp_slot_as_dict s)) (slots st)))]
      @ (if serials st \<noteq> [] then [(''serials'', JList (map JStr (serials st)))] else []))"

text \<open>\<^verbatim>\<open>{v['id']: v for v in cached.get('slots', [])}\<close>; an id that is a list or an object is not hashable.\<close>

fun hashable :: "json \<Rightarrow> bool" where
  "hashable (JList _) = False"
| "hashable (JObj _) = False"
| "hashable _ = True"

fun slots_by_id :: "json list \<Rightarrow> (json, json) pydict \<Rightarrow> exn + (json, json) pydict" where
  "slots_by_id [] acc = Inr acc"
| "slots_by_id (v # vs) acc =
     (case jget v ''id'' of
        Inl e \<Rightarrow> Inl e
      | Inr k \<Rightarrow> if hashable k then slots_by_id vs (dict_set acc k v) else Inl TypeError)"

definition saved_slots :: "json \<Rightarrow> exn + (json, json) pydict" where
  "saved_slots cached =
     (case jget_or cached ''slots'' (JList []) of
        Inl e \<Rightarrow> Inl e
      | Inr v \<Rightarrow> (case jiter v of Inl e \<Rightarrow> Inl e | Inr vs \<Rightarrow> slots_by_id vs []))"

fun merge_saved :: "json \<times> json \<Rightarrow> (minidsp_state, unit) act" where
  "merge_saved (JStr sid, JObj st) = on_slot sid (minidsp_slot_merge st)"
| "merge_saved _ = raise (KeyError ''slot'')"

definition st_merge_with :: "json \<Rightarrow> (minidsp_state, unit) act" where
  "st_merge_with cached st =
     (case saved_slots cached of
        Inl e \<Rightarrow> (Inl e, st)
      | Inr saved \<Rightarrow>
          if set (keys saved) = (\<lambda>s. JStr (slot_id s)) ` set (slots st)
          then for_each merge_saved saved st
          else (Inr (), st))"

section \<open>Identity of the slots\<close>

definition state_wf :: "minidsp_state \<Rightarrow> bool" where
  "state_wf st \<longleftrightarrow> map slot_id (slots st) = slot_ids"

definition synced :: "minidsp_state \<Rightarrow> bool" where
  "synced st \<longleftrightarrow> (\<forall>s \<in> set (slots st). active s = (slot_id s = active_slot st))"

lemma slot_ids_eq: "slot_ids = [''1'', ''2'', ''3'', ''4'']"
  by (simp add: slot_ids_def upt_rec show_nat.simps digit_char_def)

lemma zoom_simps:
  "snd (zoom sel upd m s) = upd (\<lambda>_. snd (m (sel s))) s"
  "fst (zoom sel upd m s) = fst (m (sel s))"
  by (simp_all add: zoom_def split: prod.split)

definition keeps :: "(minidsp_slot \<Rightarrow> 'a) \<Rightarrow> (minidsp_slot, unit) act \<Rightarrow> bool" where
  "keeps h m \<longleftrightarrow> (\<forall>s. h (snd (m s)) = h s)"

lemma keeps_and_then: "keeps h m \<Longrightarrow> (\<And>x. keeps h (k x)) \<Longrightarrow> keeps h (and_then m k)"
  by (auto simp: keeps_def and_then_def split: prod.split sum.split) (metis snd_conv)+

definition shape :: "minidsp_slot \<Rightarrow> string \<times> nat \<times> nat \<times> string option" where
  "shape s = (slot_id s, input_channels s, output_channels s, slot_name s)"

lemma keeps_zoom [simp]:
  "keeps shape (\<lambda>s. zoom gains gains_update (m s) s)"
  "keeps shape (\<lambda>s. zoom mutes mutes_update (m s) s)"
  "keeps shape (\<lambda>s. zoom output_gains output_gains_update (m s) s)"
  "keeps shape (\<lambda>s. zoom output_mutes output_mutes_update (m s) s)"
  "keeps active (\<lambda>s. zoom gains gains_update (m s) s)"
  "keeps active (\<lambda>s. zoom mutes mutes_update (m s) s)"
  "keeps active (\<lambda>s. zoom output_gains output_gains_update (m s) s)"
  "keeps active (\<lambda>s. zoom output_mutes output_mutes_update (m s) s)"
  by (simp_all add: keeps_def zoom_simps shape_def)

lemma keeps_slot_ops [simp]:
  "keeps shape (slot_set_gain c v)" "keeps shape (slot_do_mute c b)"
  "keeps shape (slot_set_output_gain c v)" "keeps shape (slot_set_output_mute c b)"
  "keeps active (slot_set_gain c v)" "keeps active (slot_do_mute c b)"
  "keeps active (slot_set_output_gain c v)" "keeps active (slot_set_output_mute c b)"
  unfolding slot_set_gain_def [abs_def] slot_do_mute_def [abs_def]
    slot_set_output_gain_def [abs_def] slot_set_output_mute_def [abs_def] by simp_all

lemma keeps_set_loaded [simp]:
  "keeps shape (modify (set_loaded t a))" "keeps active (modify (set_loaded t a))"
  by (simp_all add: keeps_def modify_def shape_def set_loaded_def)

lemma keeps_merge [simp]: "keeps shape (minidsp_slot_merge st)"
proof -
  have "keeps shape (modify (slot_merge_with st))"
    by (auto simp: keeps_def modify_def shape_def slot_merge_with_def Let_def split: option.split)
  then show ?thesis
    unfolding minidsp_slot_merge_def by (intro keeps_and_then) simp_all
qed

lemma keeps_shape_id: "keeps shape m \<Longrightarrow> slot_id (snd (m s)) = slot_id s"
  by (simp add: keeps_def shape_def)

lemma find_Some_iff_id: "find (\<lambda>s. slot_id s = sid) ss = Some s \<Longrightarrow> s \<in> set ss \<and> slot_id s = sid"
  by (auto simp: find_Some_iff)

lemma get_slot_known:
  assumes "state_wf st" shows "get_slot sid st = None \<longleftrightarrow> sid \<notin> set slot_ids"
proof -
  have "set slot_ids = slot_id ` set (slots st)" using assms by (metis list.set_map state_wf_def)
  then show ?thesis unfolding get_slot_def find_None_iff by (simp only:) blast
qed

lemma snd_on_slot:
  "snd (on_slot sid m st) =
     (case get_slot sid st of None \<Rightarrow> st
      | Some s \<Rightarrow> st\<lparr>slots := map (\<lambda>x. if slot_id x = sid then snd (m s) else x) (slots st)\<rparr>)"
  by (simp add: on_slot_def split: option.split prod.split)

lemma on_slot_ids:
  assumes "keeps shape m"
  shows "map slot_id (slots (snd (on_slot sid m st))) = map slot_id (slots st)"
  using keeps_shape_id [OF assms]
  by (auto simp: snd_on_slot get_slot_def dest!: find_Some_iff_id split: option.split)

lemma on_slot_active_slot [simp]: "active_slot (snd (on_slot sid m st)) = active_slot st"
  by (simp add: snd_on_slot split: option.split)

lemma ball_map_if:
  "\<forall>x \<in> set xs. P x \<Longrightarrow> P y \<Longrightarrow> \<forall>x \<in> set (map (\<lambda>x. if q x then y else x) xs). P x"
  by (induction xs) auto

lemma synced_slots:
  "synced (st\<lparr>slots := ss\<rparr>) = (\<forall>s \<in> set ss. active s = (slot_id s = active_slot st))"
  by (simp add: synced_def)

lemma on_slot_synced:
  assumes "keeps shape m" and "keeps active m" and "synced st"
  shows "synced (snd (on_slot sid m st))"
proof (cases "get_slot sid st")
  case None
  with assms(3) show ?thesis by (simp add: snd_on_slot)
next
  case (Some s)
  let ?P = "\<lambda>x. active x = (slot_id x = active_slot st)"
  have all: "\<forall>x \<in> set (slots st). ?P x" using assms(3) unfolding synced_def .
  have "s \<in> set (slots st)" using Some unfolding get_slot_def by (rule find_Some_iff_id [THEN conjunct1])
  from bspec [OF all this] have "?P (snd (m s))"
    using assms(1,2) unfolding keeps_def shape_def by simp
  from ball_map_if [OF all this] show ?thesis
    unfolding snd_on_slot Some option.case synced_slots .
qed

lemma st_activate_ids [simp]: "map slot_id (slots (st_activate sid st)) = map slot_id (slots st)"
  by (simp add: st_activate_def)

lemma st_activate_synced [simp]: "synced (st_activate sid st)"
  by (auto simp: synced_def st_activate_def)

lemma st_activate_active_slot [simp]: "active_slot (st_activate sid st) = sid"
  by (simp add: st_activate_def)

lemma snd_then_activate:
  "snd (then_activate sid m st) =
     (if isl (fst (on_slot sid m st)) then snd (on_slot sid m st)
      else st_activate sid (snd (on_slot sid m st)))"
  by (auto simp: then_activate_def and_then_def modify_def split: prod.split sum.split)

lemma then_activate_ids:
  "keeps shape m \<Longrightarrow> map slot_id (slots (snd (then_activate sid m st))) = map slot_id (slots st)"
  by (simp add: snd_then_activate on_slot_ids)

lemma then_activate_synced:
  "keeps shape m \<Longrightarrow> keeps active m \<Longrightarrow> synced st \<Longrightarrow> synced (snd (then_activate sid m st))"
  by (simp add: snd_then_activate on_slot_synced)

section \<open>Every operation of the state\<close>

datatype state_op =
    Activate string
  | Load string json json
  | Clear string
  | Error string
  | Gain "string option" "int option" json
  | ToggleMute "string option" "int option" bool
  | OutputGain string "int option" json
  | ToggleOutputMute string "int option" bool
  | UpdateMaster json json

fun run_op :: "state_op \<Rightarrow> (minidsp_state, unit) act" where
  "run_op (Activate sid) = modify (st_activate sid)"
| "run_op (Load sid t a) = st_load sid t a"
| "run_op (Clear sid) = st_clear sid"
| "run_op (Error sid) = st_error sid"
| "run_op (Gain sid ch g) = st_gain sid ch g"
| "run_op (ToggleMute sid ch b) = st_toggle_mute sid ch b"
| "run_op (OutputGain sid ch g) = st_output_gain sid ch g"
| "run_op (ToggleOutputMute sid ch b) = st_toggle_output_mute sid ch b"
| "run_op (UpdateMaster mt g) = modify (update_master_state mt g)"

lemmas state_op_defs = st_load_def st_clear_def st_error_def st_gain_def st_toggle_mute_def
  st_output_gain_def st_toggle_output_mute_def

lemma keeps_clear:
  "keeps shape (and_then (slot_do_mute None False) (\<lambda>_. and_then (slot_set_gain None zero_gain)
     (\<lambda>_. modify (set_loaded empty_title JNull))))"
  "keeps active (and_then (slot_do_mute None False) (\<lambda>_. and_then (slot_set_gain None zero_gain)
     (\<lambda>_. modify (set_loaded empty_title JNull))))"
  by (intro keeps_and_then; simp)+

lemma synced_master [simp]:
  "synced (st\<lparr>master_volume := g\<rparr>) = synced st" "synced (st\<lparr>st_mute := m\<rparr>) = synced st"
  by (simp_all add: synced_def)

lemma run_op_ids: "map slot_id (slots (snd (run_op p st))) = map slot_id (slots st)"
  by (cases p) (simp_all add: state_op_defs then_activate_ids keeps_clear modify_def
      update_master_state_def split: option.split)

lemma run_op_synced: "synced st \<Longrightarrow> synced (snd (run_op p st))"
  by (cases p) (simp_all add: state_op_defs then_activate_synced keeps_clear modify_def
      update_master_state_def split: option.split)

text \<open>The states that a device read and any sequence of operations, failing or not, lead to.\<close>

inductive reachable :: "string \<Rightarrow> descriptor \<Rightarrow> minidsp_state \<Rightarrow> bool" for n d where
  read: "MinidspState n d mv mt act srl con = Inr st \<Longrightarrow> reachable n d st"
| op: "reachable n d st \<Longrightarrow> reachable n d (snd (run_op p st))"

lemma MinidspState_shape:
  assumes "MinidspState n d mv mt act srl con = Inr st"
  shows "state_wf st" and "synced st" and "active_slot st = act"
proof -
  obtain ic oc where st: "st = \<lparr>st_name = n, master_volume = mv, st_mute = mt, active_slot = act,
      serials = srl, connected = con,
      slots = map (\<lambda>i. MinidspSlotState i (i = act) ic oc (map_of (d_slot_names d) i)) slot_ids\<rparr>"
    using assms by (auto simp: MinidspState_def split: sum.splits)
  show "state_wf st" and "synced st" and "active_slot st = act"
    by (simp_all add: st state_wf_def synced_def comp_def)
qed


definition two_in_four_out :: descriptor where
  "two_in_four_out =
     \<lparr>d_name = ''2x4'', d_fs = ''96000'',
      d_input = Some (PeqRoutes INPUT_NAME 10 (zero_til 2) (zero_til 10) None), d_crossover = None,
      d_output = Some (PeqRoutes OUTPUT_NAME 10 (zero_til 4) [] None), d_extra = None,
      d_slot_names = []\<rparr>"

lemma channel_count_example [simp]:
  "channel_count (d_input two_in_four_out) = Inr 2" "channel_count (d_output two_in_four_out) = Inr 4"
  by (simp_all add: channel_count_def two_in_four_out_def PeqRoutes_def zero_til_def)

definition example_state :: minidsp_state where
  "example_state =
     \<lparr>st_name = ''m'', master_volume = JNum 0, st_mute = JBool False, active_slot = ''2'',
      serials = [], connected = True,
      slots = map (\<lambda>i. MinidspSlotState i (i = ''2'') 2 4 None) slot_ids\<rparr>"

lemma example_state_made:
  "MinidspState ''m'' two_in_four_out (JNum 0) (JBool False) ''2'' [] True = Inr example_state"
  by (simp add: MinidspState_def example_state_def) (simp add: two_in_four_out_def)


lemma map_replace_distinct:
  "distinct (map f xs) \<Longrightarrow> s \<in> set xs \<Longrightarrow> map (\<lambda>x. if f x = f s then s else x) xs = xs"
proof (induction xs)
  case (Cons y xs)
  have "map (\<lambda>x. if f x = f s then s else x) xs = xs" if "f s \<notin> f ` set xs"
    using that by (intro map_idI) (metis image_eqI)
  with Cons show ?case by auto
qed simp

lemma replace_same:
  assumes "state_wf st" and "get_slot sid st = Some s"
  shows "st\<lparr>slots := map (\<lambda>x. if slot_id x = sid then s else x) (slots st)\<rparr> = st"
proof -
  have "distinct (map slot_id (slots st))" using assms(1) by (simp add: state_wf_def slot_ids_eq)
  moreover have s: "s \<in> set (slots st) \<and> slot_id s = sid"
    using assms(2) unfolding get_slot_def by (rule find_Some_iff_id)
  ultimately have "map (\<lambda>x. if slot_id x = slot_id s then s else x) (slots st) = slots st"
    by (intro map_replace_distinct) simp_all
  with s show ?thesis by simp
qed

section \<open>A channel update changes that channel alone\<close>

definition regular :: "nat \<Rightarrow> obj list \<Rightarrow> bool" where
  "regular n xs \<longleftrightarrow> map (\<lambda>g. map_of g ''id'') xs = map (\<lambda>i. Some (JStr (show_nat (i + 1)))) [0..<n]"

lemma regular_make_vals [simp]: "regular n (make_vals n v)"
  by (simp add: regular_def make_vals_def channel_val_def)

lemma regular_length: "regular n xs \<Longrightarrow> length xs = n"
  unfolding regular_def by (metis length_map length_upt minus_nat.diff_0)

lemma regular_nth: "regular n xs \<Longrightarrow> i < n \<Longrightarrow> map_of (xs ! i) ''id'' = Some (JStr (show_nat (i + 1)))"
  using regular_length [of n xs] unfolding regular_def
  by (metis (no_types, lifting) add_0 diff_zero length_upt nth_map nth_upt)

lemma show_int_of_nat: "show_int (int n) = show_nat n"
  by (simp add: show_int_def)

lemma set_first_nth:
  assumes "\<And>i. i < j \<Longrightarrow> \<exists>k. map_of (xs ! i) ''id'' = Some k \<and> k \<noteq> JStr ch"
    and "j < length xs" and "map_of (xs ! j) ''id'' = Some (JStr ch)"
  shows "set_first ch v xs = Inr (xs[j := dict_set (xs ! j) ''value'' v])"
  using assms
proof (induction xs arbitrary: j)
  case (Cons x xs)
  show ?case
  proof (cases j)
    case 0
    with Cons.prems show ?thesis by simp
  next
    case (Suc i)
    have "set_first ch v xs = Inr (xs[i := dict_set (xs ! i) ''value'' v])"
      using Cons.prems Suc by (intro Cons.IH) force+
    moreover have "\<exists>k. map_of x ''id'' = Some k \<and> k \<noteq> JStr ch"
      using Cons.prems(1) [of 0] Suc by simp
    ultimately show ?thesis using Suc by auto
  qed
qed simp

lemma set_first_none:
  "(\<And>g. g \<in> set xs \<Longrightarrow> \<exists>k. map_of g ''id'' = Some k \<and> k \<noteq> JStr ch) \<Longrightarrow>
   set_first ch v xs = Inl StopIteration"
  by (induction xs) (fastforce split: option.split)+

lemma set_vals_regular:
  assumes "regular n xs"
  shows "set_vals what n (Some ch) v sid xs =
    (if int n < ch then
       (Inl (ValueError (''Unknown '' @ what @ '' '' @ show_int ch @ '' for slot '' @ sid)), xs)
     else if ch < 1 then (Inl StopIteration, xs)
     else (Inr (), xs[nat (ch - 1) := dict_set (xs ! (nat (ch - 1))) ''value'' v]))"
proof -
  consider "int n < ch" | "ch < 1" "ch \<le> int n" | j where "ch = int j + 1" "j < n"
  proof -
    have "ch = int (nat (ch - 1)) + 1" if "1 \<le> ch" using that by simp
    moreover have "nat (ch - 1) < n" if "1 \<le> ch" "ch \<le> int n" using that by linarith
    ultimately show thesis using that by (meson not_less)
  qed
  then show ?thesis
  proof cases
    case 2
    have "\<exists>k. map_of g ''id'' = Some k \<and> k \<noteq> JStr (show_int ch)" if "g \<in> set xs" for g
    proof -
      obtain i where "i < n" "g = xs ! i"
        using \<open>g \<in> set xs\<close> regular_length [OF assms] by (auto simp: in_set_conv_nth)
      then show ?thesis
        using regular_nth [OF assms] 2(1) show_int_inject [of "int (i + 1)" ch]
        unfolding show_int_of_nat by auto
    qed
    from set_first_none [of xs "show_int ch" v, OF this] 2 show ?thesis by (simp add: set_vals_def)
  next
    case (3 j)
    have sh: "show_int ch = show_nat (j + 1)" using 3(1) show_int_of_nat [of "j + 1"] by (simp add: add.commute)
    have "set_first (show_int ch) v xs = Inr (xs[j := dict_set (xs ! j) ''value'' v])"
      unfolding sh
      using 3 regular_nth [OF assms] regular_length [OF assms] by (intro set_first_nth) auto
    moreover have "nat (ch - 1) = j" using 3 by simp
    ultimately show ?thesis using 3 by (simp add: set_vals_def)
  qed (simp add: set_vals_def)
qed

text \<open>
  Setting the gain of one input channel of a slot changes that channel's value and nothing
  else of the slot, and makes the slot the active one; a channel above the device's count is refused
  with a \<^verbatim>\<open>ValueError\<close>, one below 1 ends in a \<^verbatim>\<open>StopIteration\<close>, and neither changes the state.
\<close>

theorem gain_sets_one_channel:
  assumes "state_wf st" and "get_slot sid st = Some s" and "regular (input_channels s) (gains s)"
  shows "st_gain (Some sid) (Some ch) v st =
    (if int (input_channels s) < ch then
       (Inl (ValueError (''Unknown channel '' @ show_int ch @ '' for slot '' @ sid)), st)
     else if ch < 1 then (Inl StopIteration, st)
     else (Inr (), st_activate sid (st\<lparr>slots := map (\<lambda>x. if slot_id x = sid then
         s\<lparr>gains := (gains s)[nat (ch - 1) := dict_set (gains s ! nat (ch - 1)) ''value'' v]\<rparr> else x)
         (slots st)\<rparr>)))"
proof -
  have "slot_id s = sid" using assms(2) unfolding get_slot_def by (rule find_Some_iff_id [THEN conjunct2])
  then show ?thesis
    using assms(2) set_vals_regular [OF assms(3)] replace_same [OF assms(1,2)]
    by (simp add: st_gain_def then_activate_def and_then_def on_slot_def slot_set_gain_def zoom_def
        modify_def)
qed

lemma gain_sets_one_channel_witness:
  "st_gain (Some ''1'') (Some 3) (JNum 5) example_state
     = (Inl (ValueError ''Unknown channel 3 for slot 1''), example_state)
   \<and> map (\<lambda>s. map (\<lambda>g. map_of g ''value'') (gains s))
         (slots (snd (st_gain (Some ''1'') (Some 2) (JNum 5) example_state)))
       = [[Some (JNum 0), Some (JNum 5)], [Some (JNum 0), Some (JNum 0)],
          [Some (JNum 0), Some (JNum 0)], [Some (JNum 0), Some (JNum 0)]]"
proof -
  let ?s = "MinidspSlotState ''1'' False 2 4 None"
  have wf: "state_wf example_state" by (simp add: state_wf_def example_state_def comp_def)
  have s: "get_slot ''1'' example_state = Some ?s"
    by (simp add: get_slot_def example_state_def slot_ids_eq)
  have r: "regular (input_channels ?s) (gains ?s)" by (simp add: MinidspSlotState_def)
  have sh: "show_int 3 = ''3''" by (simp add: show_int_def show_nat.simps digit_char_def)
  show ?thesis
    using gain_sets_one_channel [OF wf s r, of 3 "JNum 5"] gain_sets_one_channel [OF wf s r, of 2 "JNum 5"]
    by (simp add: sh MinidspSlotState_def example_state_def slot_ids_eq st_activate_def make_vals_def
        channel_val_def zero_gain_def upt_rec)
qed

section \<open>The cache restores what was serialised\<close>

definition sized :: "minidsp_slot \<Rightarrow> bool" where
  "sized s \<longleftrightarrow> length (gains s) = input_channels s \<and> length (mutes s) = input_channels s
     \<and> length (output_gains s) = output_channels s \<and> length (output_mutes s) = output_channels s"

lemma sized_make [simp]: "sized (MinidspSlotState i a ic oc nm)"
  by (simp add: sized_def MinidspSlotState_def make_vals_def)

lemma merge_vals_objs: "merge_vals conv i (map JObj ds) acc = (Inr (), acc @ ds)"
  by (induction ds arbitrary: i acc) simp_all

lemma merge_field_objs:
  "map_of st key = Some (json_objs ds) \<Longrightarrow> length ds = n \<Longrightarrow> merge_field key n conv st xs = (Inr (), ds)"
  by (simp add: merge_field_def json_objs_def merge_vals_objs)

lemma merge_field_absent: "map_of st key = None \<Longrightarrow> merge_field key n conv st xs = (Inr (), xs)"
  by (simp add: merge_field_def)

lemma as_dict_fields:
  "map_of (minidsp_slot_as_dict s) ''last'' = Some (last_title s)"
  "map_of (minidsp_slot_as_dict s) ''active'' = Some (JBool (active s))"
  "map_of (minidsp_slot_as_dict s) ''author'' = Some (last_author s)"
  "map_of (minidsp_slot_as_dict s) ''id'' = Some (JStr (slot_id s))"
  "map_of (minidsp_slot_as_dict s) ''gains'' = Some (json_objs (gains s))"
  "map_of (minidsp_slot_as_dict s) ''mutes'' = Some (json_objs (mutes s))"
  "map_of (minidsp_slot_as_dict s) ''outputGains'' =
     (if 0 < output_channels s then Some (json_objs (output_gains s)) else None)"
  "map_of (minidsp_slot_as_dict s) ''outputMutes'' =
     (if 0 < output_channels s then Some (json_objs (output_mutes s)) else None)"
  by (simp_all add: minidsp_slot_as_dict_def slot_as_dict_def split: option.split)

lemma minidsp_slot_merge_as_dict:
  assumes "shape u = shape t" and "sized t" and "sized u"
  shows "minidsp_slot_merge (minidsp_slot_as_dict t) u = (Inr (), t)"
proof -
  have sh: "slot_id u = slot_id t" "input_channels u = input_channels t"
      "output_channels u = output_channels t" "slot_name u = slot_name t"
    using assms(1) by (simp_all add: shape_def)
  note sz = assms(2,3) [unfolded sized_def]
  have none: "output_channels t = 0 \<Longrightarrow> output_gains u = [] \<and> output_mutes u = []
      \<and> output_gains t = [] \<and> output_mutes t = []"
    using sz sh by simp
  show ?thesis
    using sh sz none
    by (cases t; cases u; cases "output_channels t = 0")
      (auto simp: minidsp_slot_merge_def and_then_def modify_def zoom_def slot_merge_with_def
        as_dict_fields merge_field_objs merge_field_absent)
qed

definition saved_entry :: "minidsp_slot \<Rightarrow> json \<times> json" where
  "saved_entry s = (JStr (slot_id s), JObj (minidsp_slot_as_dict s))"

lemma dict_set_new: "k \<notin> set (keys d) \<Longrightarrow> dict_set d k v = d @ [(k, v)]"
  by (induction d) auto

lemma slots_by_id_saved:
  "distinct (keys acc @ map (\<lambda>s. JStr (slot_id s)) ss) \<Longrightarrow>
   slots_by_id (map (\<lambda>s. JObj (minidsp_slot_as_dict s)) ss) acc = Inr (acc @ map saved_entry ss)"
proof (induction ss arbitrary: acc)
  case (Cons s ss)
  then have "JStr (slot_id s) \<notin> set (keys acc)" by auto
  with Cons show ?case by (simp add: as_dict_fields dict_set_new saved_entry_def)
qed simp

lemma distinct_ids: "state_wf st \<Longrightarrow> distinct (map (\<lambda>s. JStr (slot_id s)) (slots st))"
proof -
  assume "state_wf st"
  then have "map JStr (map slot_id (slots st)) = map JStr slot_ids" by (simp only: state_wf_def)
  then show ?thesis by (simp add: slot_ids_eq comp_def)
qed

lemma saved_slots_serialise:
  assumes "state_wf st" shows "saved_slots (st_serialise st) = Inr (map saved_entry (slots st))"
  using slots_by_id_saved [of "[]" "slots st"] distinct_ids [OF assms]
  by (simp add: saved_slots_def st_serialise_def dict_get_def)

lemma for_each_merge_saved:
  "map shape us = map shape ts \<Longrightarrow> distinct (map slot_id (pre @ us)) \<Longrightarrow>
   (\<And>x. x \<in> set us \<union> set ts \<Longrightarrow> sized x) \<Longrightarrow>
   for_each merge_saved (map saved_entry ts) (st\<lparr>slots := pre @ us\<rparr>) = (Inr (), st\<lparr>slots := pre @ ts\<rparr>)"
proof (induction ts arbitrary: pre us)
  case (Cons t ts)
  then obtain u us' where us: "us = u # us'" by (cases us) auto
  have id: "slot_id u = slot_id t" and sh: "shape u = shape t"
    using Cons.prems(1) us by (auto simp: shape_def)
  have pre: "slot_id t \<notin> slot_id ` set pre" and post: "slot_id t \<notin> slot_id ` set us'"
    using Cons.prems(2) us id by auto
  have keep: "map (\<lambda>x. if slot_id x = slot_id t then t else x) ys = ys"
    if "slot_id t \<notin> slot_id ` set ys" for ys :: "minidsp_slot list"
    using that by (intro map_idI) (metis image_eqI)
  have "find (\<lambda>s. slot_id s = slot_id t) (pre @ u # us') = Some u"
    using pre id by (induction pre) auto
  then have step: "merge_saved (saved_entry t) (st\<lparr>slots := pre @ us\<rparr>)
      = (Inr (), st\<lparr>slots := (pre @ [t]) @ us'\<rparr>)"
    using minidsp_slot_merge_as_dict [OF sh] Cons.prems(3) us id
    by (simp add: saved_entry_def on_slot_def get_slot_def keep [OF pre] keep [OF post])
  have "for_each merge_saved (map saved_entry ts) (st\<lparr>slots := (pre @ [t]) @ us'\<rparr>)
      = (Inr (), st\<lparr>slots := (pre @ [t]) @ ts\<rparr>)"
    using Cons.prems us id by (intro Cons.IH) auto
  with step show ?case by simp
qed simp

lemma merge_serialised:
  assumes "state_wf t" and "map shape (slots st) = map shape (slots t)"
    and "\<forall>s \<in> set (slots st) \<union> set (slots t). sized s"
  shows "st_merge_with (st_serialise t) st = (Inr (), st\<lparr>slots := slots t\<rparr>)"
proof -
  have ids: "map slot_id (slots st) = map slot_id (slots t)"
    using arg_cong [OF assms(2), of "map fst"] by (simp add: shape_def comp_def)
  have "set (keys (map saved_entry (slots t))) = JStr ` set (map slot_id (slots t))"
    by (auto simp: saved_entry_def)
  also have "\<dots> = (\<lambda>s. JStr (slot_id s)) ` set (slots st)"
    using ids by (metis image_image list.set_map)
  finally have k: "set (keys (map saved_entry (slots t))) = (\<lambda>s. JStr (slot_id s)) ` set (slots st)" .
  have d: "distinct (map slot_id ([] @ slots st))"
    using assms(1) ids by (simp add: state_wf_def slot_ids_eq)
  have "for_each merge_saved (map saved_entry (slots t)) (st\<lparr>slots := [] @ slots st\<rparr>)
      = (Inr (), st\<lparr>slots := [] @ slots t\<rparr>)"
    using assms(2,3) d by (intro for_each_merge_saved) auto
  then show ?thesis
    using k by (simp add: st_merge_with_def saved_slots_serialise [OF assms(1)])
qed

text \<open>
  Claim C17. What a device persisted is what it reads back: merging the serialised state \<open>t\<close> into a state
  just loaded for the same device restores every slot of \<open>t\<close> (title, author, active flag and all
  channel gains and mutes) and leaves the values read from the device (volume, mute, active slot)
  alone.
\<close>

theorem cache_restores_slots:
  assumes "state_wf t" and "map shape (slots st) = map shape (slots t)"
    and "\<forall>s \<in> set (slots st) \<union> set (slots t). sized s"
  shows "st_merge_with (st_serialise t) st = (Inr (), st\<lparr>slots := slots t\<rparr>)"
  using assms by (rule merge_serialised)

lemma cache_restores_slots_witness:
  "st_merge_with (st_serialise (st_activate ''3'' example_state)) (st_activate ''1'' example_state)
     = (Inr (), (st_activate ''1'' example_state)\<lparr>slots := slots (st_activate ''3'' example_state)\<rparr>)"
  by (rule cache_restores_slots)
    (auto simp: state_wf_def example_state_def st_activate_def shape_def sized_def MinidspSlotState_def
      make_vals_def comp_def)

text \<open>
  The active flags of the cache win over the slot the device reports: after a restart with
  the device on slot a and a cache written while slot c was active, \<^verbatim>\<open>active_slot\<close> is a but the slot
  flagged active is c.
\<close>

theorem cached_active_flag_wins:
  assumes "state_wf st" and "\<forall>s \<in> set (slots st). sized s" and "c \<in> set slot_ids"
  shows "\<exists>st'. st_merge_with (st_serialise (st_activate c st)) (st_activate a st) = (Inr (), st')
    \<and> active_slot st' = a \<and> map slot_id (filter active (slots st')) = [c]"
proof -
  have "st_merge_with (st_serialise (st_activate c st)) (st_activate a st)
      = (Inr (), (st_activate a st)\<lparr>slots := slots (st_activate c st)\<rparr>)"
    using assms(1,2) by (intro merge_serialised)
      (auto simp: state_wf_def st_activate_def shape_def sized_def comp_def)
  moreover have "map slot_id (filter active (slots (st_activate c st))) = filter (\<lambda>i. i = c) slot_ids"
  proof -
    have "map slot_id (filter active (slots (st_activate c st))) = filter (\<lambda>i. i = c) (map slot_id (slots st))"
      by (simp add: st_activate_def filter_map comp_def)
    with assms(1) show ?thesis by (simp add: state_wf_def)
  qed
  moreover have "filter (\<lambda>i. i = c) slot_ids = [c]" using assms(3) by (auto simp: slot_ids_eq)
  ultimately show ?thesis by simp
qed

lemma cached_active_flag_wins_witness:
  "\<exists>st'. st_merge_with (st_serialise (st_activate ''3'' example_state)) (st_activate ''1'' example_state)
     = (Inr (), st') \<and> active_slot st' = ''1'' \<and> map slot_id (filter active (slots st')) = [''3'']"
  by (rule cached_active_flag_wins)
    (auto simp: state_wf_def example_state_def comp_def slot_ids_eq)

end
