(* ===== verification/Minidsp.thy ===== *)
theory Minidsp
  imports Requests Stub_Runner Minidsp_State
begin

text \<open>
  \<^verbatim>\<open>Minidsp\<close> of \<^verbatim>\<open>ezbeq/minidsp.py\<close>: the device object that reads the hardware through its runner, sends
  command files to it and keeps its state. The executor of the code runs one job at a time and the
  caller waits for it, so a submitted job is a call (a job that outlives its timeout is not modelled).
  Clock values and log lines are left out.
\<close>

section \<open>Configuration\<close>

text \<open>
  \<open>catalogue_find\<close> is the catalogue's lookup by id, \<open>float_to_str\<close> the text of a float. The runner
  belongs to the device's world.
\<close>

record 'w minidsp_cfg =
  m_name :: string
  ignore_retcode :: bool
  slot_change_delay :: json
  m_descriptor :: descriptor
  m_runner :: "'w runner"
  catalogue_find :: "json \<Rightarrow> exn + catalogue_entry option"
  float_to_str :: "real \<Rightarrow> string"

type_synonym 'w minidsp_dev = "(minidsp_state, 'w) device"

abbreviation on_world :: "('w, 'a) act \<Rightarrow> (('st, 'w) device, 'a) act" where
  "on_world m \<equiv> zoom world world_update m"

section \<open>Reading the device\<close>

text \<open>
  \<^verbatim>\<open>str(status['master']['preset'] + 1)\<close>. A preset is a whole number; the text of any other number is
  some text that is no slot id.
\<close>

definition preset_text :: "rat \<Rightarrow> string" where
  "preset_text r = (if of_int \<lfloor>r\<rfloor> = r then show_int (\<lfloor>r\<rfloor> + 1) else show_int (\<lfloor>r\<rfloor> + 1) @ ''.x'')"

definition preset_slot :: "json \<Rightarrow> exn + string" where
  "preset_slot v = (case jnum v of Inl e \<Rightarrow> Inl e | Inr r \<Rightarrow> Inr (preset_text r))"

definition parse_master :: "json \<Rightarrow> exn + string \<times> json \<times> json" where
  "parse_master master =
     (case jget master ''preset'' of Inl e \<Rightarrow> Inl e | Inr p \<Rightarrow>
     (case preset_slot p of Inl e \<Rightarrow> Inl e | Inr act \<Rightarrow>
     (case jget master ''mute'' of Inl e \<Rightarrow> Inl e | Inr mt \<Rightarrow>
     (case jget master ''volume'' of Inl e \<Rightarrow> Inl e | Inr mv \<Rightarrow> Inr (act, mt, mv)))))"

definition parse_status :: "json \<Rightarrow> exn + string \<times> json \<times> json" where
  "parse_status status =
     (case jget status ''master'' of Inl e \<Rightarrow> Inl e | Inr master \<Rightarrow> parse_master master)"

text \<open>
  The pattern \<^verbatim>\<open>(\d+): Found (.*) with serial (.*) at.*\<close>, whose greedy groups take the last separators
  that let the rest match.
\<close>

definition splits :: "string \<Rightarrow> string \<Rightarrow> (string \<times> string) list" where
  "splits sep s =
     map (\<lambda>i. (take i s, drop (i + length sep) s))
       (filter (\<lambda>i. starts_with sep (drop i s)) (rev [0..<length s + 1]))"

definition serial_of :: "string \<Rightarrow> string option" where
  "serial_of line =
     (let rest = dropWhile is_digit line
      in if takeWhile is_digit line \<noteq> [] \<and> starts_with '': Found '' rest then
           (case concat (map (\<lambda>p. map fst (splits '' at'' (snd p)))
                   (splits '' with serial '' (drop 8 rest))) of
              [] \<Rightarrow> None | s # _ \<Rightarrow> Some s)
         else None)"

definition serials_of :: "string list \<Rightarrow> string list" where
  "serials_of lines = concat (map (\<lambda>l. case serial_of l of None \<Rightarrow> [] | Some s \<Rightarrow> [s]) lines)"

text \<open>
  \<^verbatim>\<open>__read_state_from_device\<close>: never raises; every failure is broadcast (the offending output, part of
  the code's message, is left out of the text) and gives \<^verbatim>\<open>None\<close>.
\<close>

definition unreadable :: "'w minidsp_cfg \<Rightarrow> string \<Rightarrow> 'w minidsp_dev \<Rightarrow> minidsp_state option \<times> 'w minidsp_dev" where
  "unreadable cfg msg d = (None, snd (broadcast_error (''['' @ m_name cfg @ ''] '' @ msg) True d))"

definition probe_serials :: "'w minidsp_cfg \<Rightarrow> 'w minidsp_dev \<Rightarrow> string list \<times> 'w minidsp_dev" where
  "probe_serials cfg d =
     (case on_world (run_probe (m_runner cfg) (ignore_retcode cfg)) d of
        (Inl e, d') \<Rightarrow> ([], d')
      | (Inr lines, d') \<Rightarrow> (serials_of lines, d'))"

definition read_state_from_device ::
  "'w minidsp_cfg \<Rightarrow> 'w minidsp_dev \<Rightarrow> minidsp_state option \<times> 'w minidsp_dev" where
  "read_state_from_device cfg d =
     (case on_world (run_status (m_runner cfg) (ignore_retcode cfg)) d of
        (Inl e, d1) \<Rightarrow> unreadable cfg ''Unable to parse device state'' d1
      | (Inr [], d1) \<Rightarrow> unreadable cfg ''No output returned from device'' d1
      | (Inr (line # _), d1) \<Rightarrow>
          (case (case line of Inl e \<Rightarrow> Inl e | Inr status \<Rightarrow> parse_status status) of
             Inl e \<Rightarrow> unreadable cfg ''Unable to parse device state'' d1
           | Inr (act, mt, mv) \<Rightarrow>
               (case probe_serials cfg d1 of (srl, d2) \<Rightarrow>
                  (case MinidspState (m_name cfg) (m_descriptor cfg) mv mt act srl True of
                     Inl e \<Rightarrow> unreadable cfg ''Unable to parse device state'' d2
                   | Inr st \<Rightarrow> (Some st, d2)))))"

definition load_state :: "'w minidsp_cfg \<Rightarrow> ('w minidsp_dev, minidsp_state) act" where
  "load_state cfg d =
     (case read_state_from_device cfg d of
        (Some st, d') \<Rightarrow> (Inr st, d')
      | (None, d') \<Rightarrow>
          (MinidspState (m_name cfg) (m_descriptor cfg) (JNum 0) (JBool False) '''' [] False, d'))"

section \<open>Sending commands\<close>

definition send_file :: "'w minidsp_cfg \<Rightarrow> command list \<Rightarrow> ('w minidsp_dev, unit) act" where
  "send_file cfg cmds d =
     (case on_world (run_file (m_runner cfg) (ignore_retcode cfg) (tmp_file cmds)) d of
        (Inl (ProcessExecutionError err), d') \<Rightarrow>
          (Inl (UnableToPatchDeviceError (PatchText (''minidsp cmd failed due to : '' @ err)) False), d')
      | (Inl e, d') \<Rightarrow> (Inl e, d')
      | (Inr code, d') \<Rightarrow> (Inr (), d'))"

text \<open>\<^verbatim>\<open>slot_change_delay is not True and slot_change_delay > 0\<close>; sleeping changes nothing.\<close>

definition sleep_after_change :: "json \<Rightarrow> exn + unit" where
  "sleep_after_change delay =
     (if delay = JBool True then Inr ()
      else (case jnum delay of Inl e \<Rightarrow> Inl e | Inr _ \<Rightarrow> Inr ()))"

definition on_target :: "minidsp_state option \<Rightarrow> int \<Rightarrow> bool" where
  "on_target st slot = (case st of None \<Rightarrow> False | Some s \<Rightarrow> active_slot s = show_int (slot + 1))"

text \<open>
  \<^verbatim>\<open>__do_run\<close>: the recursive call, which only changes the slot, is made with no delay, so the
  recursion is one level deep.
\<close>

function do_run ::
  "'w minidsp_cfg \<Rightarrow> json \<Rightarrow> command list \<Rightarrow> int option \<Rightarrow> 'w minidsp_dev \<Rightarrow> (exn + unit) \<times> 'w minidsp_dev" where
  "do_run cfg delay cmds slot d =
     (case slot of
        None \<Rightarrow> send_file cfg cmds d
      | Some k \<Rightarrow>
          (case read_state_from_device cfg d of (st, d1) \<Rightarrow>
             if on_target st k then send_file cfg cmds d1
             else if truthy delay then
               (case do_run cfg (JBool False) [] (Some k) d1 of
                  (Inl e, d2) \<Rightarrow> (Inl e, d2)
                | (Inr _, d2) \<Rightarrow>
                    (case sleep_after_change delay of
                       Inl e \<Rightarrow> (Inl e, d2)
                     | Inr _ \<Rightarrow> send_file cfg cmds d2))
             else send_file cfg (activate_cmd k # cmds) d1))"
  by pat_completeness auto
termination
  by (relation "measure (\<lambda>(_, delay, _, _, _). if truthy delay then 1 else 0)") auto

declare do_run.simps [simp del]

definition send_cmds :: "'w minidsp_cfg \<Rightarrow> int option \<Rightarrow> command list \<Rightarrow> ('w minidsp_dev, unit) act" where
  "send_cmds cfg slot cmds = do_run cfg (slot_change_delay cfg) cmds slot"

definition as_idx :: "string \<Rightarrow> exn + int" where
  "as_idx s =
     (case py_int s of None \<Rightarrow> Inl (ValueError ''invalid literal for int()'') | Some i \<Rightarrow> Inr (i - 1))"

definition validate_slot_idx :: "int \<Rightarrow> exn + unit" where
  "validate_slot_idx i =
     (if i < 0 \<or> 3 < i then Inl (InvalidRequestError ''Slot must be in range 1-4'') else Inr ())"

definition as_idxes :: "int option \<Rightarrow> string option \<Rightarrow> exn + int option \<times> int option" where
  "as_idxes channel slot =
     (case (case slot of
              None \<Rightarrow> Inr None
            | Some s \<Rightarrow> if s = [] then Inr None
                        else (case as_idx s of Inl e \<Rightarrow> Inl e | Inr i \<Rightarrow> Inr (Some i))) of
        Inl e \<Rightarrow> Inl e
      | Inr si \<Rightarrow>
          Inr (case channel of None \<Rightarrow> None | Some c \<Rightarrow> if c = 0 then None else Some (c - 1), si))"

section \<open>The operations\<close>

definition minidsp_class :: "'w minidsp_cfg \<Rightarrow> (minidsp_state, 'w) device_class" where
  "minidsp_class cfg =
     \<lparr>load_initial_state = load_state cfg, merge_state = st_merge_with, serialise = (\<lambda>st. Inr (st_serialise st))\<rparr>"

text \<open>The validated index of a slot, then the body.\<close>

definition with_slot :: "string \<Rightarrow> (int \<Rightarrow> ('w minidsp_dev, 'a) act) \<Rightarrow> ('w minidsp_dev, 'a) act" where
  "with_slot slot body =
     and_then (lift_result (as_idx slot)) (\<lambda>i.
     and_then (lift_result (validate_slot_idx i)) (\<lambda>_. body i))"

text \<open>The \<^verbatim>\<open>try\<close> block of the loading operations: a failure marks the slot and is raised again.\<close>

definition send_or_mark ::
  "'w minidsp_cfg \<Rightarrow> string \<Rightarrow> int \<Rightarrow> command list \<Rightarrow> (minidsp_state, unit) act \<Rightarrow> ('w minidsp_dev, unit) act" where
  "send_or_mark cfg slot i cmds post =
     try_except (and_then (send_cmds cfg (Some i) cmds) (\<lambda>_. on_current post))
       (\<lambda>e. and_then (on_current (st_error slot)) (\<lambda>_. raise e))"

definition activate :: "'w minidsp_cfg \<Rightarrow> string \<Rightarrow> ('w minidsp_dev, unit) act" where
  "activate cfg slot =
     hydrate_cache_broadcast (minidsp_class cfg) (with_slot slot (\<lambda>i.
       and_then (send_cmds cfg (Some i) []) (\<lambda>_. on_current (modify (st_activate slot)))))"

definition custom_or_activate :: "string \<Rightarrow> int list \<Rightarrow> (minidsp_state, unit) act" where
  "custom_or_activate slot inputs =
     (if inputs \<noteq> [] then st_load slot (JStr ''CUSTOM'') JNull else modify (st_activate slot))"

definition load_biquads ::
  "'w minidsp_cfg \<Rightarrow> string \<Rightarrow> bool \<Rightarrow> int list \<Rightarrow> int list \<Rightarrow> json list \<Rightarrow> ('w minidsp_dev, unit) act" where
  "load_biquads cfg slot overwrite inputs outputs bqs =
     hydrate_cache_broadcast (minidsp_class cfg) (with_slot slot (\<lambda>i.
       and_then (lift_result (biquads_cmds overwrite inputs outputs bqs)) (\<lambda>cmds.
       send_or_mark cfg slot i cmds (custom_or_activate slot inputs))))"

definition send_commands ::
  "'w minidsp_cfg \<Rightarrow> string \<Rightarrow> int list \<Rightarrow> int list \<Rightarrow> string list \<Rightarrow> ('w minidsp_dev, unit) act" where
  "send_commands cfg slot inputs outputs cs =
     hydrate_cache_broadcast (minidsp_class cfg) (with_slot slot (\<lambda>i.
       send_or_mark cfg slot i (commands_cmds inputs outputs cs) (custom_or_activate slot inputs)))"

definition load_filter :: "'w minidsp_cfg \<Rightarrow> string \<Rightarrow> catalogue_entry \<Rightarrow> ('w minidsp_dev, unit) act" where
  "load_filter cfg slot entry =
     hydrate_cache_broadcast (minidsp_class cfg) (with_slot slot (\<lambda>i.
       and_then (lift_result (filt (float_to_str cfg) (Some entry) (m_descriptor cfg))) (\<lambda>cmds.
       send_or_mark cfg slot i cmds
         (st_load slot (JStr (ce_formatted_title entry)) (JStr (ce_author entry))))))"

text \<open>The unmutes and zero gains of \<^verbatim>\<open>clear_filter\<close>: each input channel of the BEQ slots once.\<close>

fun level_cmds :: "int \<Rightarrow> string \<Rightarrow> int list \<Rightarrow> int list \<Rightarrow> exn + command list \<times> int list" where
  "level_cmds i side handled [] = Inr ([], handled)"
| "level_cmds i side handled (c # cs) =
     (if side = INPUT_NAME \<and> c \<notin> set handled then
        (case gain_cmds 0 (Some i) (Some c) side of
           Inl e \<Rightarrow> Inl e
         | Inr gs \<Rightarrow>
             (case level_cmds i side (handled @ [c]) cs of
                Inl e \<Rightarrow> Inl e
              | Inr (cmds, h) \<Rightarrow> Inr (mute_cmds False (Some i) (Some c) side @ gs @ cmds, h)))
      else level_cmds i side handled cs)"

fun clear_levels :: "int \<Rightarrow> int list \<Rightarrow> beq_filter_slot list \<Rightarrow> exn + command list" where
  "clear_levels i handled [] = Inr []"
| "clear_levels i handled (s # ss) =
     (case level_cmds i (bs_name s) handled (bs_channels s) of
        Inl e \<Rightarrow> Inl e
      | Inr (cmds, h) \<Rightarrow>
          (case clear_levels i h ss of Inl e \<Rightarrow> Inl e | Inr rest \<Rightarrow> Inr (cmds @ rest)))"

definition clear_filter :: "'w minidsp_cfg \<Rightarrow> string \<Rightarrow> ('w minidsp_dev, unit) act" where
  "clear_filter cfg slot =
     hydrate_cache_broadcast (minidsp_class cfg) (with_slot slot (\<lambda>i.
       and_then (lift_result (filt (float_to_str cfg) None (m_descriptor cfg))) (\<lambda>cmds.
       and_then (lift_result (clear_levels i [] (to_allocator (m_descriptor cfg)))) (\<lambda>levels.
       send_or_mark cfg slot i (cmds @ levels) (st_clear slot)))))"

definition do_mute_op ::
  "'w minidsp_cfg \<Rightarrow> string option \<Rightarrow> int option \<Rightarrow> bool \<Rightarrow> ('w minidsp_dev, unit) act" where
  "do_mute_op cfg slot channel b =
     hydrate_cache_broadcast (minidsp_class cfg)
       (and_then (lift_result (as_idxes channel slot)) (\<lambda>(ci, si).
        and_then (lift_result (case si of
            None \<Rightarrow> Inr () | Some i \<Rightarrow> if i = 0 then Inr () else validate_slot_idx i)) (\<lambda>_.
        and_then (send_cmds cfg si (mute_cmds b si ci INPUT_NAME)) (\<lambda>_.
        on_current (st_toggle_mute slot channel b)))))"

definition mute :: "'w minidsp_cfg \<Rightarrow> string option \<Rightarrow> int option \<Rightarrow> ('w minidsp_dev, unit) act" where
  "mute cfg slot channel = do_mute_op cfg slot channel True"

definition unmute :: "'w minidsp_cfg \<Rightarrow> string option \<Rightarrow> int option \<Rightarrow> ('w minidsp_dev, unit) act" where
  "unmute cfg slot channel = do_mute_op cfg slot channel False"

definition json_gain_cmds :: "json \<Rightarrow> int option \<Rightarrow> int option \<Rightarrow> string \<Rightarrow> exn + command list" where
  "json_gain_cmds g si ci side =
     (case jnum g of Inl e \<Rightarrow> Inl e | Inr r \<Rightarrow> gain_cmds r si ci side)"

definition set_gain ::
  "'w minidsp_cfg \<Rightarrow> string option \<Rightarrow> int option \<Rightarrow> json \<Rightarrow> ('w minidsp_dev, unit) act" where
  "set_gain cfg slot channel g =
     hydrate_cache_broadcast (minidsp_class cfg)
       (and_then (lift_result (as_idxes channel slot)) (\<lambda>(ci, si).
        and_then (lift_result (json_gain_cmds g si ci INPUT_NAME)) (\<lambda>cmds.
        and_then (send_cmds cfg si cmds) (\<lambda>_.
        on_current (st_gain slot channel g)))))"

definition set_output_gain ::
  "'w minidsp_cfg \<Rightarrow> string \<Rightarrow> int option \<Rightarrow> json \<Rightarrow> ('w minidsp_dev, unit) act" where
  "set_output_gain cfg slot channel g =
     hydrate_cache_broadcast (minidsp_class cfg)
       (and_then (lift_result (as_idxes channel (Some slot))) (\<lambda>(ci, si).
        and_then (lift_result (json_gain_cmds g si ci OUTPUT_NAME)) (\<lambda>cmds.
        and_then (send_cmds cfg si cmds) (\<lambda>_.
        on_current (st_output_gain slot channel g)))))"

definition do_output_mute_op ::
  "'w minidsp_cfg \<Rightarrow> string \<Rightarrow> int option \<Rightarrow> bool \<Rightarrow> ('w minidsp_dev, unit) act" where
  "do_output_mute_op cfg slot channel b =
     hydrate_cache_broadcast (minidsp_class cfg)
       (and_then (lift_result (as_idxes channel (Some slot))) (\<lambda>(ci, si).
        and_then (lift_result (case si of None \<Rightarrow> Inl TypeError | Some i \<Rightarrow> validate_slot_idx i)) (\<lambda>_.
        and_then (send_cmds cfg si (mute_cmds b si ci OUTPUT_NAME)) (\<lambda>_.
        on_current (st_toggle_output_mute slot channel b)))))"

definition output_mute :: "'w minidsp_cfg \<Rightarrow> string \<Rightarrow> int option \<Rightarrow> ('w minidsp_dev, unit) act" where
  "output_mute cfg slot channel = do_output_mute_op cfg slot channel True"

definition output_unmute :: "'w minidsp_cfg \<Rightarrow> string \<Rightarrow> int option \<Rightarrow> ('w minidsp_dev, unit) act" where
  "output_unmute cfg slot channel = do_output_mute_op cfg slot channel False"

section \<open>Reading the current state\<close>

definition state :: "'w minidsp_cfg \<Rightarrow> bool \<Rightarrow> ('w minidsp_dev, minidsp_state option) act" where
  "state cfg refresh =
     and_then (hydrate (minidsp_class cfg) False) (\<lambda>fresh.
     and_then
       (if \<not> fresh \<or> refresh then
          and_then (load_state cfg) (\<lambda>new.
          with_current (\<lambda>old.
          and_then (on_current (modify (\<lambda>st.
              (update_master_state (st_mute new) (master_volume new) st)\<lparr>connected := connected new\<rparr>)))
            (\<lambda>_. if connected old \<noteq> connected new then broadcast_state (minidsp_class cfg) else ok ())))
        else ok ())
       (\<lambda>_ d. (Inr (current d), d)))"

section \<open>Updates from a request\<close>

definition find_match :: "'w minidsp_cfg \<Rightarrow> json \<Rightarrow> exn + catalogue_entry option" where
  "find_match cfg slot =
     (case jget_or slot ''entry'' JNull of
        Inl e \<Rightarrow> Inl e
      | Inr v \<Rightarrow>
          if truthy v then
            (case catalogue_find cfg v of
               Inl e \<Rightarrow> Inl e
             | Inr None \<Rightarrow>
                 Inl (UnableToPatchDeviceError (PatchText (''Unknown catalogue entry '' @ id_text v)) True)
             | Inr (Some m) \<Rightarrow> Inr (Some m))
          else Inr None)"

definition entry_block ::
  "'w minidsp_cfg \<Rightarrow> string \<Rightarrow> catalogue_entry option \<Rightarrow> json \<Rightarrow> ('w minidsp_dev, bool) act" where
  "entry_block cfg sid m slot =
     and_then (lift_result (jcontains ''entry'' slot)) (\<lambda>present.
       if present then
         and_then (lift_result (jget slot ''entry'')) (\<lambda>v.
           if truthy v then
             (case m of
                None \<Rightarrow> raise AttributeError
              | Some e \<Rightarrow> and_then (load_filter cfg sid e) (\<lambda>_. ok True))
           else and_then (clear_filter cfg sid) (\<lambda>_. ok False))
       else ok False)"

definition update_slot :: "'w minidsp_cfg \<Rightarrow> json \<Rightarrow> ('w minidsp_dev, bool) act" where
  "update_slot cfg slot =
     and_then (lift_result (jget slot ''id'')) (\<lambda>sid.
     with_current (\<lambda>st.
       case (case sid of JStr s \<Rightarrow> get_slot s st | _ \<Rightarrow> None) of
         None \<Rightarrow> raise (UnableToPatchDeviceError (PatchText (''Unknown device slot '' @ id_text sid)) True)
       | Some cur \<Rightarrow>
           and_then (lift_result (find_match cfg slot)) (\<lambda>m.
           and_then (each_item ''gains'' slot (gain_item (set_gain cfg (Some (slot_id cur))))) (\<lambda>u1.
           and_then (each_item ''mutes'' slot
             (mute_item (mute cfg (Some (slot_id cur))) (unmute cfg (Some (slot_id cur))))) (\<lambda>u2.
           and_then (each_item ''outputGains'' slot (gain_item (set_output_gain cfg (slot_id cur)))) (\<lambda>u3.
           and_then (each_item ''outputMutes'' slot
             (mute_item (output_mute cfg (slot_id cur)) (output_unmute cfg (slot_id cur)))) (\<lambda>u4.
           and_then (entry_block cfg (slot_id cur) m slot) (\<lambda>u5.
           and_then (lift_result (jcontains ''active'' slot)) (\<lambda>present.
             if present then and_then (activate cfg (slot_id cur)) (\<lambda>_. ok True)
             else ok (u1 \<or> u2 \<or> u3 \<or> u4 \<or> u5))))))))))"

text \<open>\<^verbatim>\<open>for slot in params['slots']: any_update |= ...\<close>\<close>

fun update_slots :: "'w minidsp_cfg \<Rightarrow> json list \<Rightarrow> bool \<Rightarrow> ('w minidsp_dev, bool) act" where
  "update_slots cfg [] acc = ok acc"
| "update_slots cfg (s # ss) acc =
     and_then (update_slot cfg s) (\<lambda>u. update_slots cfg ss (acc \<or> u))"

definition slots_block :: "'w minidsp_cfg \<Rightarrow> json \<Rightarrow> ('w minidsp_dev, bool) act" where
  "slots_block cfg params =
     and_then (lift_result (jcontains ''slots'' params)) (\<lambda>present.
       if present then
         and_then (lift_result (jget params ''slots'')) (\<lambda>v.
         and_then (lift_result (jiter v)) (\<lambda>ss. update_slots cfg ss False))
       else ok False)"

definition mute_block :: "'w minidsp_cfg \<Rightarrow> json \<Rightarrow> ('w minidsp_dev, bool) act" where
  "mute_block cfg params =
     and_then (lift_result (jcontains ''mute'' params)) (\<lambda>present.
       if present then
         and_then (lift_result (jget params ''mute'')) (\<lambda>m.
         with_current (\<lambda>st.
           if \<not> json_eq m (st_mute st) then
             and_then (if truthy (st_mute st) then unmute cfg None None else mute cfg None None)
               (\<lambda>_. ok True)
           else ok False))
       else ok False)"

definition volume_block :: "'w minidsp_cfg \<Rightarrow> json \<Rightarrow> ('w minidsp_dev, bool) act" where
  "volume_block cfg params =
     and_then (lift_result (jcontains ''masterVolume'' params)) (\<lambda>present.
       if present then
         and_then (lift_result (jget params ''masterVolume'')) (\<lambda>v.
         with_current (\<lambda>st.
           and_then (lift_result (jnum v)) (\<lambda>a.
           and_then (lift_result (jnum (master_volume st))) (\<lambda>b.
             if isclose a b then ok False
             else and_then (set_gain cfg None None v) (\<lambda>_. ok True)))))
       else ok False)"

definition update :: "'w minidsp_cfg \<Rightarrow> json \<Rightarrow> ('w minidsp_dev, bool) act" where
  "update cfg params =
     hydrate_cache_broadcast (minidsp_class cfg)
       (and_then (slots_block cfg params) (\<lambda>u1.
        and_then (mute_block cfg params) (\<lambda>u2.
        and_then (volume_block cfg params) (\<lambda>u3. ok (u1 \<or> u2 \<or> u3)))))"

section \<open>Levels and messages of the device\<close>

fun level_entries :: "string \<Rightarrow> nat \<Rightarrow> json list \<Rightarrow> obj" where
  "level_entries p i [] = []"
| "level_entries p i (v # vs) = (p @ show_nat i, v) # level_entries p (Suc i) vs"

definition format_levels :: "json \<Rightarrow> exn + json" where
  "format_levels levels =
     (case jget levels ''input_levels'' of Inl e \<Rightarrow> Inl e | Inr i \<Rightarrow>
     (case jiter i of Inl e \<Rightarrow> Inl e | Inr ins \<Rightarrow>
     (case jget levels ''output_levels'' of Inl e \<Rightarrow> Inl e | Inr out \<Rightarrow>
     (case jiter out of Inl e \<Rightarrow> Inl e | Inr outs \<Rightarrow>
        Inr (JObj (level_entries ''I'' 0 ins @ level_entries ''O'' 0 outs))))))"

text \<open>\<^verbatim>\<open>levels\<close>: an empty object when anything fails; the time stamp is left out.\<close>

definition levels :: "'w minidsp_cfg \<Rightarrow> 'w minidsp_dev \<Rightarrow> json \<times> 'w minidsp_dev" where
  "levels cfg d =
     (case on_world (run_status (m_runner cfg) (ignore_retcode cfg)) d of
        (Inr [Inr status], d') \<Rightarrow>
          ((case format_levels status of
              Inl e \<Rightarrow> JObj [] | Inr l \<Rightarrow> JObj [(''name'', JStr (m_name cfg)), (''levels'', l)]), d')
      | (_, d') \<Rightarrow> (JObj [], d'))"

text \<open>
  The master part of \<^verbatim>\<open>on_ws_message\<close>: \<^verbatim>\<open>mute\<close> is a property without a setter, so assigning it raises.
\<close>

definition on_master :: "json \<Rightarrow> ('w minidsp_dev, unit) act" where
  "on_master master =
     and_then (lift_result (jget master ''preset'')) (\<lambda>p.
     and_then (lift_result (preset_slot p)) (\<lambda>preset.
     and_then (lift_result (jget master ''volume'')) (\<lambda>mv.
     and_then (lift_result (jget master ''mute'')) (\<lambda>mt.
     and_then (with_current (\<lambda>st.
       if \<not> json_eq (master_volume st) mv
       then on_current (modify (\<lambda>st. st\<lparr>master_volume := mv\<rparr>)) else ok ())) (\<lambda>_.
     and_then (with_current (\<lambda>st.
       if \<not> json_eq (st_mute st) mt then raise AttributeError else ok ())) (\<lambda>_.
     with_current (\<lambda>st.
       if active_slot st \<noteq> preset then on_current (modify (st_activate preset)) else ok ())))))))"

text \<open>The result is the levels message handed to the web socket server, if any.\<close>

definition on_ws_message :: "'w minidsp_cfg \<Rightarrow> json \<Rightarrow> ('w minidsp_dev, json option) act" where
  "on_ws_message cfg msg =
     and_then (lift_result (jcontains ''master'' msg)) (\<lambda>present.
     and_then
       (if present then
          and_then (lift_result (jget msg ''master'')) (\<lambda>master.
            if truthy master then hydrate_cache_broadcast (minidsp_class cfg) (on_master master)
            else ok ())
        else ok ()) (\<lambda>_.
     and_then (lift_result (jcontains ''input_levels'' msg)) (\<lambda>i.
     and_then (lift_result (if i then jcontains ''output_levels'' msg else Inr False)) (\<lambda>both.
       if both then
         and_then (lift_result (format_levels msg)) (\<lambda>l.
           ok (Some (JObj [(''name'', JStr (m_name cfg)), (''levels'', l)])))
       else ok None))))"

end
