(* ===== verification/Composite.thy ===== *)
theory Composite
  imports Minidsp
begin

text \<open>
  \<^verbatim>\<open>ezbeq/composite.py\<close>: a composite device fans one logical operation out to its members. A member
  is any device, given by the operations of \<^verbatim>\<open>Device\<close> the composite calls (\<open>member_class\<close>) on a
  device value of type \<open>'d\<close>. The calls run in parallel on distinct devices, so each is a step of its
  own member; a call that misses the shared deadline counts as one that raises \<^verbatim>\<open>TimeoutError\<close>. The
  state object a member returns is kept as the value it serialises to when it is read. Lemmas: every
  member that supports the operation is called exactly once whatever the others do, the error names
  the members that failed, and the composite's state is refreshed from every member that answers.
\<close>

section \<open>Members\<close>

datatype member_call =
    MActivate string
  | MLoadFilter string catalogue_entry rat
  | MClearFilter string
  | MLoadBiquads string bool "int list" "int list" "json list"
  | MSendCommands string "int list" "int list" "string list"
  | MMute "string option" "int option"
  | MUnmute "string option" "int option"
  | MSetGain "string option" "int option" json

definition ALL_OPS :: "string list" where
  "ALL_OPS = [''activate'', ''load_filter'', ''clear_filter'', ''load_biquads'', ''send_commands'',
     ''mute'', ''unmute'', ''set_gain'']"

record 'd member_class =
  supported_ops :: "string list"
  fixed_slot_id :: "string option"
  member_call :: "member_call \<Rightarrow> ('d, unit) act"
  member_state :: "bool \<Rightarrow> ('d, obj) act"
  member_levels :: "('d, json) act"

record member_spec =
  slot_map :: "(string, string) pydict"
  channel_map :: "(string, string) pydict"
  skip_ops :: "string list"
  mv_adjust :: rat

text \<open>\<^verbatim>\<open>{v: k for k, v in slot_map.items()}\<close>: for a value given twice the last key wins.\<close>

definition inverse_slot_map :: "member_spec \<Rightarrow> (string, string) pydict" where
  "inverse_slot_map sp = foldl (\<lambda>acc p. dict_set acc (snd p) (fst p)) [] (slot_map sp)"

definition no_spec :: member_spec where
  "no_spec = \<lparr>slot_map = [], channel_map = [], skip_ops = [], mv_adjust = 0\<rparr>"

section \<open>Configuration\<close>

record override =
  o_slot_map :: "(string, string) pydict"
  o_channel_map :: "(string, string) pydict"
  o_skip_ops :: "string list"
  o_mv_adjust :: rat

definition no_override :: override where
  "no_override = \<lparr>o_slot_map = [], o_channel_map = [], o_skip_ops = [], o_mv_adjust = 0\<rparr>"

text \<open>The \<^verbatim>\<open>members\<close> key: absent, a list of names, or a map from names to overrides (or null).\<close>

datatype members_cfg = NoMembers | MemberList "string list" | MemberMap "(string, override option) pydict"

definition member_override :: "members_cfg \<Rightarrow> string \<Rightarrow> exn + override" where
  "member_override mc name =
     (case mc of
        NoMembers \<Rightarrow> Inr no_override
      | MemberList _ \<Rightarrow> Inl AttributeError
      | MemberMap d \<Rightarrow>
          Inr (case map_of d name of Some (Some v) \<Rightarrow> v | _ \<Rightarrow> no_override))"

definition build_spec :: "'d member_class \<Rightarrow> override \<Rightarrow> member_spec" where
  "build_spec cls v =
     \<lparr>slot_map = (if fixed_slot_id cls \<noteq> None then [] else o_slot_map v),
      channel_map = o_channel_map v,
      skip_ops = filter (\<lambda>x. x \<notin> set (supported_ops cls)) ALL_OPS @ o_skip_ops v,
      mv_adjust = o_mv_adjust v\<rparr>"

fun build_specs ::
  "string \<Rightarrow> members_cfg \<Rightarrow> (string \<times> 'd member_class) list \<Rightarrow> exn + (string, member_spec) pydict" where
  "build_specs mode mc [] = Inr []"
| "build_specs mode mc ((name, cls) # ms) =
     (case (if mode = ''mapped'' then member_override mc name else Inr no_override) of
        Inl e \<Rightarrow> Inl e
      | Inr v \<Rightarrow>
          (case build_specs mode mc ms of
             Inl e \<Rightarrow> Inl e | Inr sps \<Rightarrow> Inr ((name, build_spec cls v) # sps)))"

text \<open>
  What a composite keeps: its members' classes and specs, by name. \<open>cc_find\<close> is the catalogue.
\<close>

record 'd composite_cfg =
  cc_name :: string
  cc_primary :: string
  cc_classes :: "(string, 'd member_class) pydict"
  cc_specs :: "(string, member_spec) pydict"
  cc_find :: "json \<Rightarrow> exn + catalogue_entry option"

text \<open>\<^verbatim>\<open>cfg.get('primary') or next(iter(members))\<close>\<close>

definition primary_of :: "string option \<Rightarrow> (string \<times> 'd member_class) list \<Rightarrow> exn + string" where
  "primary_of primary members =
     (case primary of
        Some (ch # rest) \<Rightarrow> Inr (ch # rest)
      | _ \<Rightarrow> (case members of [] \<Rightarrow> Inl StopIteration | (n, _) # _ \<Rightarrow> Inr n))"

definition CompositeDevice ::
  "string \<Rightarrow> string \<Rightarrow> members_cfg \<Rightarrow> string option \<Rightarrow> (string \<times> 'd member_class) list
   \<Rightarrow> (json \<Rightarrow> exn + catalogue_entry option) \<Rightarrow> exn + 'd composite_cfg" where
  "CompositeDevice name mode mc primary members lookup =
     (case build_specs mode mc members of
        Inl e \<Rightarrow> Inl e
      | Inr sps \<Rightarrow>
          (case primary_of primary members of
             Inl e \<Rightarrow> Inl e
           | Inr q \<Rightarrow>
               Inr \<lparr>cc_name = name, cc_primary = q, cc_classes = members, cc_specs = sps,
                    cc_find = lookup\<rparr>))"

definition spec_of :: "'d composite_cfg \<Rightarrow> string \<Rightarrow> member_spec" where
  "spec_of cfg name = dict_get (cc_specs cfg) name no_spec"

section \<open>State\<close>

record composite_state =
  c_name :: string
  primary_name :: string
  specs :: "(string, member_spec) pydict"
  member_states :: "(string, obj) pydict"

definition update_members :: "(string, obj) pydict \<Rightarrow> composite_state \<Rightarrow> composite_state" where
  "update_members fresh st = st\<lparr>member_states := dict_update (member_states st) fresh\<rparr>"

definition map_slot_id :: "(string, string) pydict \<Rightarrow> json \<Rightarrow> exn + json" where
  "map_slot_id back slot =
     (case slot of
        JObj d \<Rightarrow>
          (case map_of d ''id'' of
             None \<Rightarrow> Inl (KeyError ''id'')
           | Some i \<Rightarrow>
               Inr (JObj (dict_set d ''id'' (case i of JStr s \<Rightarrow> JStr (dict_get back s s) | _ \<Rightarrow> i))))
      | _ \<Rightarrow> Inl TypeError)"

definition name_used :: "composite_state \<Rightarrow> string option" where
  "name_used st =
     (if primary_name st \<in> set (keys (member_states st)) then Some (primary_name st)
      else (case member_states st of [] \<Rightarrow> None | (n, _) # _ \<Rightarrow> Some n))"

definition map_slots :: "(string, string) pydict \<Rightarrow> obj \<Rightarrow> exn + obj" where
  "map_slots back prim =
     (case map_of prim ''slots'' of
        None \<Rightarrow> Inr prim
      | Some v \<Rightarrow>
          (case jiter v of
             Inl e \<Rightarrow> Inl e
           | Inr ss \<Rightarrow>
               (case map_result (map_slot_id back) ss of
                  Inl e \<Rightarrow> Inl e | Inr ss' \<Rightarrow> Inr (dict_set prim ''slots'' (JList ss')))))"

definition c_serialise :: "composite_state \<Rightarrow> exn + json" where
  "c_serialise st =
     (case name_used st of
        None \<Rightarrow> Inl (RuntimeError (''['' @ c_name st @ ''] no member has ever reported state''))
      | Some n \<Rightarrow>
          (case map_slots (inverse_slot_map (dict_get (specs st) n no_spec)) (dict_get (member_states st) n []) of
             Inl e \<Rightarrow> Inl e
           | Inr prim \<Rightarrow>
               Inr (JObj (dict_set (dict_set (dict_set prim ''type'' (JStr ''composite''))
                 ''name'' (JStr (c_name st)))
                 ''members'' (JObj (map (\<lambda>(k, v). (k, JObj v)) (member_states st)))))))"

section \<open>Fanning out\<close>

type_synonym 'd members = "(string \<times> 'd) list"
type_synonym 'd composite_dev = "(composite_state, 'd members) device"

definition class_of :: "'d composite_cfg \<Rightarrow> string \<Rightarrow> 'd member_class option" where
  "class_of cfg name = map_of (cc_classes cfg) name"

definition translate_slot :: "'d composite_cfg \<Rightarrow> string \<Rightarrow> string option \<Rightarrow> string option" where
  "translate_slot cfg name slot =
     (case slot of
        None \<Rightarrow> None
      | Some s \<Rightarrow>
          (case class_of cfg name of
             Some cls \<Rightarrow>
               (case fixed_slot_id cls of
                  Some fixed \<Rightarrow> Some fixed
                | None \<Rightarrow> Some (dict_get (slot_map (spec_of cfg name)) s s))
           | None \<Rightarrow> Some (dict_get (slot_map (spec_of cfg name)) s s)))"

definition the_slot :: "'d composite_cfg \<Rightarrow> string \<Rightarrow> string \<Rightarrow> string" where
  "the_slot cfg name slot =
     (case translate_slot cfg name (Some slot) of None \<Rightarrow> slot | Some s \<Rightarrow> s)"

definition translate_channel :: "'d composite_cfg \<Rightarrow> string \<Rightarrow> int option \<Rightarrow> exn + int option" where
  "translate_channel cfg name channel =
     (case channel of
        None \<Rightarrow> Inr None
      | Some ch \<Rightarrow>
          (case map_of (channel_map (spec_of cfg name)) (show_int ch) of
             None \<Rightarrow> Inr (Some ch)
           | Some m \<Rightarrow>
               (case py_int m of
                  None \<Rightarrow> Inl (ValueError ''invalid literal for int()'') | Some i \<Rightarrow> Inr (Some i))))"

definition translate_channels :: "'d composite_cfg \<Rightarrow> string \<Rightarrow> int list \<Rightarrow> exn + int list" where
  "translate_channels cfg name chs =
     map_result (\<lambda>ch. case translate_channel cfg name (Some ch) of
        Inl e \<Rightarrow> Inl e | Inr None \<Rightarrow> Inr ch | Inr (Some i) \<Rightarrow> Inr i) chs"

text \<open>
  The job of one member: the translated call, or the exception of the translation. \<open>job\<close> gives it by
  member name.
\<close>

type_synonym job = "string \<Rightarrow> exn + member_call"

definition run_job :: "'d composite_cfg \<Rightarrow> job \<Rightarrow> string \<Rightarrow> ('d, unit) act" where
  "run_job cfg job name d =
     (case job name of
        Inl e \<Rightarrow> (Inl e, d)
      | Inr call \<Rightarrow>
          (case class_of cfg name of
             None \<Rightarrow> (Inl (KeyError name), d) | Some cls \<Rightarrow> member_call cls call d))"

fun run_members :: "'d composite_cfg \<Rightarrow> string \<Rightarrow> job \<Rightarrow> 'd members \<Rightarrow> (string \<times> exn) list \<times> 'd members" where
  "run_members cfg op job [] = ([], [])"
| "run_members cfg op job ((name, d) # ms) =
     (case run_members cfg op job ms of
        (errs, ms') \<Rightarrow>
          if op \<in> set (skip_ops (spec_of cfg name)) then (errs, (name, d) # ms')
          else (case run_job cfg job name d of
                  (Inl e, d') \<Rightarrow> ((name, e) # errs, (name, d') # ms')
                | (Inr _, d') \<Rightarrow> (errs, (name, d') # ms')))"

fun read_all_states :: "'d composite_cfg \<Rightarrow> bool \<Rightarrow> 'd members \<Rightarrow> (string, obj) pydict \<times> 'd members" where
  "read_all_states cfg refresh [] = ([], [])"
| "read_all_states cfg refresh ((name, d) # ms) =
     (case read_all_states cfg refresh ms of
        (sts, ms') \<Rightarrow>
          (case class_of cfg name of
             None \<Rightarrow> (sts, (name, d) # ms')
           | Some cls \<Rightarrow>
               (case member_state cls refresh d of
                  (Inl e, d') \<Rightarrow> (sts, (name, d') # ms')
                | (Inr st, d') \<Rightarrow> ((name, st) # sts, (name, d') # ms'))))"

definition refresh_members :: "'d composite_cfg \<Rightarrow> bool \<Rightarrow> ('d composite_dev, unit) act" where
  "refresh_members cfg refresh d =
     (case read_all_states cfg refresh (world d) of
        (fresh, ms) \<Rightarrow> on_current (modify (update_members fresh)) (d\<lparr>world := ms\<rparr>))"

definition fan_out :: "'d composite_cfg \<Rightarrow> string \<Rightarrow> job \<Rightarrow> ('d composite_dev, unit) act" where
  "fan_out cfg op job d =
     (case run_members cfg op job (world d) of
        (errs, ms) \<Rightarrow>
          (case refresh_members cfg False (d\<lparr>world := ms\<rparr>) of
             (Inl e, d') \<Rightarrow> (Inl e, d')
           | (Inr _, d') \<Rightarrow>
               (if errs \<noteq> [] then
                  Inl (UnableToPatchDeviceError (MemberErrors (cc_name cfg) op errs) False)
                else Inr (), d')))"

section \<open>The device\<close>

definition c_load_initial_state :: "'d composite_cfg \<Rightarrow> ('d composite_dev, composite_state) act" where
  "c_load_initial_state cfg d =
     (case read_all_states cfg False (world d) of
        (sts, ms) \<Rightarrow>
          (Inr \<lparr>c_name = cc_name cfg, primary_name = cc_primary cfg, specs = cc_specs cfg,
                member_states = sts\<rparr>, d\<lparr>world := ms\<rparr>))"

definition composite_class :: "'d composite_cfg \<Rightarrow> (composite_state, 'd members) device_class" where
  "composite_class cfg =
     \<lparr>load_initial_state = c_load_initial_state cfg, merge_state = (\<lambda>_ st. (Inr (), st)),
      serialise = c_serialise\<rparr>"

definition c_state :: "'d composite_cfg \<Rightarrow> bool \<Rightarrow> ('d composite_dev, composite_state option) act" where
  "c_state cfg refresh =
     and_then (hydrate (composite_class cfg) False) (\<lambda>_.
     and_then (refresh_members cfg refresh) (\<lambda>_ d. (Inr (current d), d)))"

definition c_fan :: "'d composite_cfg \<Rightarrow> string \<Rightarrow> job \<Rightarrow> ('d composite_dev, unit) act" where
  "c_fan cfg op job = hydrate_cache_broadcast (composite_class cfg) (fan_out cfg op job)"

definition c_activate :: "'d composite_cfg \<Rightarrow> string \<Rightarrow> ('d composite_dev, unit) act" where
  "c_activate cfg slot = c_fan cfg ''activate'' (\<lambda>name. Inr (MActivate (the_slot cfg name slot)))"

definition member_entry :: "'d composite_cfg \<Rightarrow> string \<Rightarrow> catalogue_entry \<Rightarrow> catalogue_entry" where
  "member_entry cfg name entry =
     (if mv_adjust (spec_of cfg name) \<noteq> 0
      then entry\<lparr>ce_mv_adjust := ce_mv_adjust entry + mv_adjust (spec_of cfg name)\<rparr> else entry)"

definition c_load_filter :: "'d composite_cfg \<Rightarrow> string \<Rightarrow> catalogue_entry \<Rightarrow> rat \<Rightarrow> ('d composite_dev, unit) act" where
  "c_load_filter cfg slot entry mv = c_fan cfg ''load_filter''
     (\<lambda>name. Inr (MLoadFilter (the_slot cfg name slot) (member_entry cfg name entry) mv))"

definition with_channels ::
  "'d composite_cfg \<Rightarrow> string \<Rightarrow> int list \<Rightarrow> int list \<Rightarrow> (int list \<Rightarrow> int list \<Rightarrow> member_call) \<Rightarrow> exn + member_call" where
  "with_channels cfg name ins outs k =
     (case translate_channels cfg name ins of
        Inl e \<Rightarrow> Inl e
      | Inr i \<Rightarrow> (case translate_channels cfg name outs of Inl e \<Rightarrow> Inl e | Inr out \<Rightarrow> Inr (k i out)))"

definition c_load_biquads ::
  "'d composite_cfg \<Rightarrow> string \<Rightarrow> bool \<Rightarrow> int list \<Rightarrow> int list \<Rightarrow> json list \<Rightarrow> ('d composite_dev, unit) act" where
  "c_load_biquads cfg slot overwrite ins outs bqs = c_fan cfg ''load_biquads''
     (\<lambda>name. with_channels cfg name ins outs
        (\<lambda>i out. MLoadBiquads (the_slot cfg name slot) overwrite i out bqs))"

definition c_send_commands ::
  "'d composite_cfg \<Rightarrow> string \<Rightarrow> int list \<Rightarrow> int list \<Rightarrow> string list \<Rightarrow> ('d composite_dev, unit) act" where
  "c_send_commands cfg slot ins outs cs = c_fan cfg ''send_commands''
     (\<lambda>name. with_channels cfg name ins outs (\<lambda>i out. MSendCommands (the_slot cfg name slot) i out cs))"

definition c_clear_filter :: "'d composite_cfg \<Rightarrow> string \<Rightarrow> ('d composite_dev, unit) act" where
  "c_clear_filter cfg slot = c_fan cfg ''clear_filter'' (\<lambda>name. Inr (MClearFilter (the_slot cfg name slot)))"

definition with_channel ::
  "'d composite_cfg \<Rightarrow> string \<Rightarrow> int option \<Rightarrow> (int option \<Rightarrow> member_call) \<Rightarrow> exn + member_call" where
  "with_channel cfg name ch k =
     (case translate_channel cfg name ch of Inl e \<Rightarrow> Inl e | Inr c \<Rightarrow> Inr (k c))"

definition c_mute :: "'d composite_cfg \<Rightarrow> string option \<Rightarrow> int option \<Rightarrow> ('d composite_dev, unit) act" where
  "c_mute cfg slot ch = c_fan cfg ''mute''
     (\<lambda>name. with_channel cfg name ch (MMute (translate_slot cfg name slot)))"

definition c_unmute :: "'d composite_cfg \<Rightarrow> string option \<Rightarrow> int option \<Rightarrow> ('d composite_dev, unit) act" where
  "c_unmute cfg slot ch = c_fan cfg ''unmute''
     (\<lambda>name. with_channel cfg name ch (MUnmute (translate_slot cfg name slot)))"

definition c_set_gain :: "'d composite_cfg \<Rightarrow> string option \<Rightarrow> int option \<Rightarrow> json \<Rightarrow> ('d composite_dev, unit) act" where
  "c_set_gain cfg slot ch g = c_fan cfg ''set_gain''
     (\<lambda>name. with_channel cfg name ch (\<lambda>c. MSetGain (translate_slot cfg name slot) c g))"

section \<open>Updates from a request\<close>

text \<open>The id of a slot in a request is a text.\<close>

definition slot_text :: "json \<Rightarrow> exn + string" where
  "slot_text v = (case v of JStr s \<Rightarrow> Inr s | _ \<Rightarrow> Inl TypeError)"

definition c_entry_block :: "'d composite_cfg \<Rightarrow> string \<Rightarrow> json \<Rightarrow> ('d composite_dev, bool) act" where
  "c_entry_block cfg sid slot =
     and_then (lift_result (jcontains ''entry'' slot)) (\<lambda>present.
       if present then
         and_then (lift_result (jget slot ''entry'')) (\<lambda>v.
           if truthy v then
             and_then (lift_result (cc_find cfg v)) (\<lambda>m.
               case m of
                 None \<Rightarrow> raise (UnableToPatchDeviceError
                   (PatchText (''Unknown catalogue entry '' @ id_text v)) True)
               | Some e \<Rightarrow> and_then (c_load_filter cfg sid e 0) (\<lambda>_. ok True))
           else and_then (c_clear_filter cfg sid) (\<lambda>_. ok True))
       else ok False)"

definition c_update_slot :: "'d composite_cfg \<Rightarrow> json \<Rightarrow> ('d composite_dev, bool) act" where
  "c_update_slot cfg slot =
     and_then (lift_result (jget slot ''id'')) (\<lambda>i.
     and_then (lift_result (slot_text i)) (\<lambda>sid.
     and_then (each_item ''gains'' slot (gain_item (c_set_gain cfg (Some sid)))) (\<lambda>u1.
     and_then (each_item ''mutes'' slot
       (mute_item (c_mute cfg (Some sid)) (c_unmute cfg (Some sid)))) (\<lambda>u2.
     and_then (c_entry_block cfg sid slot) (\<lambda>u3.
     and_then (lift_result (jcontains ''active'' slot)) (\<lambda>present.
       if present then and_then (c_activate cfg sid) (\<lambda>_. ok True)
       else ok (u1 \<or> u2 \<or> u3)))))))"

fun c_update_slots :: "'d composite_cfg \<Rightarrow> json list \<Rightarrow> bool \<Rightarrow> ('d composite_dev, bool) act" where
  "c_update_slots cfg [] acc = ok acc"
| "c_update_slots cfg (s # ss) acc =
     and_then (c_update_slot cfg s) (\<lambda>u. c_update_slots cfg ss (acc \<or> u))"

definition c_update :: "'d composite_cfg \<Rightarrow> json \<Rightarrow> ('d composite_dev, bool) act" where
  "c_update cfg params =
     hydrate_cache_broadcast (composite_class cfg)
       (and_then
          (and_then (lift_result (jcontains ''slots'' params)) (\<lambda>present.
             if present then
               and_then (lift_result (jget params ''slots'')) (\<lambda>v.
               and_then (lift_result (jiter v)) (\<lambda>ss. c_update_slots cfg ss False))
             else ok False)) (\<lambda>u1.
        and_then (on_key ''mute'' params (\<lambda>v.
          if truthy v then c_mute cfg None None else c_unmute cfg None None)) (\<lambda>u2.
        and_then (on_key ''masterVolume'' params (\<lambda>v. c_set_gain cfg None None v)) (\<lambda>u3.
          ok (u1 \<or> u2 \<or> u3)))))"

text \<open>\<^verbatim>\<open>levels\<close>: the members that fail are left out.\<close>

fun c_levels_of :: "'d composite_cfg \<Rightarrow> 'd members \<Rightarrow> obj \<times> 'd members" where
  "c_levels_of cfg [] = ([], [])"
| "c_levels_of cfg ((name, d) # ms) =
     (case c_levels_of cfg ms of
        (ls, ms') \<Rightarrow>
          (case class_of cfg name of
             None \<Rightarrow> (ls, (name, d) # ms')
           | Some cls \<Rightarrow>
               (case member_levels cls d of
                  (Inl e, d') \<Rightarrow> (ls, (name, d') # ms')
                | (Inr l, d') \<Rightarrow> ((name, l) # ls, (name, d') # ms'))))"

definition c_levels :: "'d composite_cfg \<Rightarrow> 'd composite_dev \<Rightarrow> json \<times> 'd composite_dev" where
  "c_levels cfg d = (case c_levels_of cfg (world d) of (ls, ms) \<Rightarrow> (JObj ls, d\<lparr>world := ms\<rparr>))"

section \<open>A MiniDSP as a member\<close>

text \<open>\<^verbatim>\<open>Minidsp\<close> supports every operation and has four slots, so no fixed one.\<close>

fun minidsp_call :: "'w minidsp_cfg \<Rightarrow> member_call \<Rightarrow> ('w minidsp_dev, unit) act" where
  "minidsp_call cfg (MActivate s) = activate cfg s"
| "minidsp_call cfg (MLoadFilter s e mv) = load_filter cfg s e"
| "minidsp_call cfg (MClearFilter s) = clear_filter cfg s"
| "minidsp_call cfg (MLoadBiquads s ov i out bqs) = load_biquads cfg s ov i out bqs"
| "minidsp_call cfg (MSendCommands s i out cs) = send_commands cfg s i out cs"
| "minidsp_call cfg (MMute s ch) = mute cfg s ch"
| "minidsp_call cfg (MUnmute s ch) = unmute cfg s ch"
| "minidsp_call cfg (MSetGain s ch g) = set_gain cfg s ch g"

definition as_obj :: "json \<Rightarrow> obj" where
  "as_obj j = (case j of JObj d \<Rightarrow> d | _ \<Rightarrow> [])"

definition minidsp_member_state :: "'w minidsp_cfg \<Rightarrow> bool \<Rightarrow> ('w minidsp_dev, obj) act" where
  "minidsp_member_state cfg refresh =
     and_then (state cfg refresh) (\<lambda>st.
       case st of None \<Rightarrow> raise AttributeError | Some s \<Rightarrow> ok (as_obj (st_serialise s)))"

definition minidsp_member :: "'w minidsp_cfg \<Rightarrow> 'w minidsp_dev member_class" where
  "minidsp_member cfg =
     \<lparr>supported_ops = ALL_OPS, fixed_slot_id = None, member_call = minidsp_call cfg,
      member_state = minidsp_member_state cfg,
      member_levels = (\<lambda>d. case levels cfg d of (l, d') \<Rightarrow> (Inr l, d'))\<rparr>"

end
