(* ===== verification/Minidsp_Correct.thy ===== *)
theory Minidsp_Correct
  imports Minidsp
begin

text \<open>
  What the operations of \<^theory_text>\<open>Minidsp\<close> guarantee: the device type satisfies the contract of
  \<^theory_text>\<open>Persistence\<close>, so that whatever happens the cache file and the last broadcast hold the current
  state; invalid slots are refused before anything is sent; a failed send marks the slot and is
  raised again; and against the simulated device the state the program keeps is the state the device
  is in.
\<close>

section \<open>Frames\<close>

lemma zoom_world_frame [simp]:
  "current (snd (on_world m d)) = current d" "hydrated (snd (on_world m d)) = hydrated d"
  "cache (snd (on_world m d)) = cache d" "broadcasts (snd (on_world m d)) = broadcasts d"
  by (simp_all add: zoom_def split: prod.split)

definition same_core :: "('st, 'w) device \<Rightarrow> ('st, 'w) device \<Rightarrow> bool" where
  "same_core d' d \<longleftrightarrow> current d' = current d \<and> hydrated d' = hydrated d \<and> cache d' = cache d"

lemma same_core_refl [simp]: "same_core d d"
  by (simp add: same_core_def)

lemma same_core_trans: "same_core d2 d1 \<Longrightarrow> same_core d1 d \<Longrightarrow> same_core d2 d"
  by (simp add: same_core_def)

lemma on_world_core: "same_core (snd (on_world m d)) d"
  by (simp add: same_core_def)

lemma on_world_coreD: "on_world m d = (r, d') \<Longrightarrow> same_core d' d"
  using on_world_core [of m d] by simp

lemma unreadable_core: "same_core (snd (unreadable cfg msg d)) d"
  by (simp add: unreadable_def broadcast_error_def modify_def same_core_def)

lemma probe_core: "same_core (snd (probe_serials cfg d)) d"
  using on_world_core [of "run_probe (m_runner cfg) (ignore_retcode cfg)" d]
  by (auto simp: probe_serials_def split: prod.split sum.split)

lemma read_core: "same_core (snd (read_state_from_device cfg d)) d"
proof -
  obtain r d1 where r: "on_world (run_status (m_runner cfg) (ignore_retcode cfg)) d = (r, d1)"
    by (cases "on_world (run_status (m_runner cfg) (ignore_retcode cfg)) d")
  have c1: "same_core d1 d" using r by (rule on_world_coreD)
  have u: "same_core (snd (unreadable cfg msg d1)) d" for msg
    using same_core_trans [OF unreadable_core c1] .
  have p: "same_core (snd (probe_serials cfg d1)) d"
    using same_core_trans [OF probe_core c1] .
  have pu: "same_core (snd (unreadable cfg msg (snd (probe_serials cfg d1)))) d" for msg
    using same_core_trans [OF unreadable_core p] .
  show ?thesis
    using r u p pu
    by (auto simp: read_state_from_device_def split: prod.split sum.split list.split)
qed

lemma load_core: "load_state cfg d = (r, d') \<Longrightarrow> same_core d' d"
  using read_core [of cfg d] by (auto simp: load_state_def split: prod.splits option.splits)

lemma send_file_core: "same_core (snd (send_file cfg cmds d)) d"
proof -
  obtain r d1 where r: "on_world (run_file (m_runner cfg) (ignore_retcode cfg) (tmp_file cmds)) d = (r, d1)"
    by (cases "on_world (run_file (m_runner cfg) (ignore_retcode cfg) (tmp_file cmds)) d")
  then have "same_core d1 d" by (rule on_world_coreD)
  with r show ?thesis by (auto simp: send_file_def split: sum.split exn.split)
qed

lemma do_run_core: "same_core (snd (do_run cfg delay cmds slot d)) d"
proof (induction cfg delay cmds slot d rule: do_run.induct)
  case (1 cfg delay cmds slot d)
  show ?case
  proof (cases slot)
    case None
    then show ?thesis by (simp add: do_run.simps [of cfg delay] send_file_core)
  next
    case (Some k)
    obtain st d1 where rd: "read_state_from_device cfg d = (st, d1)"
      by (cases "read_state_from_device cfg d")
    have c1: "same_core d1 d" using read_core [of cfg d] rd by simp
    have s1: "same_core (snd (send_file cfg cs d1)) d" for cs
      using same_core_trans [OF send_file_core c1] .
    have rec: "same_core (snd (do_run cfg (JBool False) [] (Some k) d1)) d"
      if "\<not> on_target st k" "truthy delay"
      using same_core_trans [OF 1 [OF Some rd [symmetric] that] c1] by simp
    have s2: "same_core (snd (send_file cfg cmds (snd (do_run cfg (JBool False) [] (Some k) d1)))) d"
      if "\<not> on_target st k" "truthy delay"
      using same_core_trans [OF send_file_core rec [OF that]] .
    show ?thesis
      using Some rd s1 rec s2
      by (auto simp: do_run.simps [of cfg delay] split: prod.split sum.split)
  qed
qed

lemma send_cmds_core: "same_core (snd (send_cmds cfg slot cmds d)) d"
  by (simp add: send_cmds_def do_run_core)

section \<open>The contract of the device type\<close>

lemma load_state_wf: "load_state cfg d = (Inr st, d') \<Longrightarrow> state_wf st"
proof -
  have "state_wf st" if "read_state_from_device cfg d = (Some st, d')" for st
    using that
    by (auto simp: read_state_from_device_def unreadable_def split: prod.splits sum.splits list.splits
        dest: MinidspState_shape)
  then show "load_state cfg d = (Inr st, d') \<Longrightarrow> state_wf st"
    by (auto simp: load_state_def split: prod.splits option.splits dest: MinidspState_shape)
qed

lemma merge_saved_ids: "map slot_id (slots (snd (merge_saved p st))) = map slot_id (slots st)"
  by (cases p rule: merge_saved.cases) (simp_all add: on_slot_ids raise_def)

lemma st_merge_with_ids: "map slot_id (slots (snd (st_merge_with j st))) = map slot_id (slots st)"
proof -
  have "map slot_id (slots (snd (for_each merge_saved ps st))) = map slot_id (slots st)" for ps
    by (rule for_each_invariant) (simp_all add: merge_saved_ids)
  then show ?thesis by (simp add: st_merge_with_def split: sum.split)
qed

lemma minidsp_class_simps [simp]:
  "load_initial_state (minidsp_class cfg) = load_state cfg"
  "merge_state (minidsp_class cfg) = st_merge_with"
  "serialise (minidsp_class cfg) = (\<lambda>st. Inr (st_serialise st))"
  by (simp_all add: minidsp_class_def)

interpretation minidsp: persistent_device "minidsp_class cfg" state_wf for cfg
proof unfold_locales
  fix d st d' assume "load_initial_state (minidsp_class cfg) d = (Inr st, d')"
  then show "state_wf st" by (simp add: load_state_wf)
next
  fix d r d' assume "load_initial_state (minidsp_class cfg) d = (r, d')"
  then show "hydrated d' = hydrated d \<and> current d' = current d"
    using load_core [of cfg d r d'] by (simp add: same_core_def)
qed (simp_all add: state_wf_def st_merge_with_ids)

section \<open>Every operation keeps the device well formed\<close>

lemma send_cmds_maintains [keeps_intros]: "maintains (ready state_wf) (send_cmds cfg slot cmds)"
  using send_cmds_core [of cfg slot cmds] by (simp add: maintains_def ready_def same_core_def)

lemma maintains_ids:
  "(\<And>st. map slot_id (slots (snd (m st))) = map slot_id (slots st)) \<Longrightarrow> maintains state_wf m"
  by (simp add: maintains_def state_wf_def)

lemma state_ops_maintains [keeps_intros]:
  "maintains state_wf (modify (st_activate sid))" "maintains state_wf (st_load sid t a)"
  "maintains state_wf (st_clear sid)" "maintains state_wf (st_error sid)"
  "maintains state_wf (st_gain s ch g)" "maintains state_wf (st_toggle_mute s ch b)"
  "maintains state_wf (st_output_gain sid ch g)" "maintains state_wf (st_toggle_output_mute sid ch b)"
  using run_op_ids [of "Activate sid"] run_op_ids [of "Load sid t a"] run_op_ids [of "Clear sid"]
    run_op_ids [of "Error sid"] run_op_ids [of "Gain s ch g"] run_op_ids [of "ToggleMute s ch b"]
    run_op_ids [of "OutputGain sid ch g"] run_op_ids [of "ToggleOutputMute sid ch b"]
  by (auto intro!: maintains_ids)

lemma master_volume_maintains [keeps_intros]: "maintains state_wf (modify (\<lambda>st. st\<lparr>master_volume := mv\<rparr>))"
  by (simp add: maintains_def modify_def state_wf_def)

lemma custom_or_activate_maintains [keeps_intros]: "maintains state_wf (custom_or_activate slot inputs)"
  by (simp add: custom_or_activate_def state_ops_maintains)

lemma with_slot_maintains [keeps_intros]:
  "(\<And>i. maintains P (body i)) \<Longrightarrow> maintains P (with_slot slot body)"
  unfolding with_slot_def by (intro keeps_intros)

lemma send_or_mark_maintains [keeps_intros]:
  "maintains state_wf post \<Longrightarrow> maintains (ready state_wf) (send_or_mark cfg slot i cmds post)"
  unfolding send_or_mark_def by (intro keeps_intros maintains_on_current)

lemmas minidsp_hcb = minidsp.hcb_maintains

lemma simple_ops_maintains [keeps_intros]:
  "maintains (ready state_wf) (activate cfg slot)"
  "maintains (ready state_wf) (load_biquads cfg slot ov ins outs bqs)"
  "maintains (ready state_wf) (send_commands cfg slot ins outs cs)"
  "maintains (ready state_wf) (load_filter cfg slot e)"
  "maintains (ready state_wf) (clear_filter cfg slot)"
  "maintains (ready state_wf) (mute cfg s ch)" "maintains (ready state_wf) (unmute cfg s ch)"
  "maintains (ready state_wf) (set_gain cfg s ch g)"
  "maintains (ready state_wf) (set_output_gain cfg slot ch g)"
  "maintains (ready state_wf) (output_mute cfg slot ch)"
  "maintains (ready state_wf) (output_unmute cfg slot ch)"
  unfolding activate_def load_biquads_def send_commands_def load_filter_def clear_filter_def
    mute_def unmute_def do_mute_op_def set_gain_def set_output_gain_def output_mute_def
    output_unmute_def do_output_mute_op_def
  by (intro minidsp_hcb keeps_intros)+

lemma entry_block_maintains [keeps_intros]: "maintains (ready state_wf) (entry_block cfg sid m slot)"
  unfolding entry_block_def by (intro keeps_intros)

lemma update_slot_maintains [keeps_intros]: "maintains (ready state_wf) (update_slot cfg slot)"
  unfolding update_slot_def by (intro keeps_intros)

lemma update_slots_maintains [keeps_intros]: "maintains (ready state_wf) (update_slots cfg ss acc)"
  by (induction ss arbitrary: acc) (simp_all add: maintains_pure maintains_and_then update_slot_maintains)

lemma blocks_maintains [keeps_intros]:
  "maintains (ready state_wf) (slots_block cfg params)"
  "maintains (ready state_wf) (mute_block cfg params)"
  "maintains (ready state_wf) (volume_block cfg params)"
  unfolding slots_block_def mute_block_def volume_block_def by (intro keeps_intros)+

lemma on_master_maintains [keeps_intros]: "maintains (ready state_wf) (on_master master)"
  unfolding on_master_def by (intro keeps_intros)

lemma update_maintains: "maintains (ready state_wf) (update cfg params)"
  unfolding update_def by (intro minidsp_hcb keeps_intros)

section \<open>Coherence of every operation\<close>

datatype dev_op =
    OpActivate string
  | OpLoadBiquads string bool "int list" "int list" "json list"
  | OpSendCommands string "int list" "int list" "string list"
  | OpLoadFilter string catalogue_entry
  | OpClearFilter string
  | OpMute "string option" "int option"
  | OpUnmute "string option" "int option"
  | OpSetGain "string option" "int option" json
  | OpOutputGain string "int option" json
  | OpOutputMute string "int option"
  | OpOutputUnmute string "int option"
  | OpUpdate json
  | OpMaster json

fun run_dev :: "'w minidsp_cfg \<Rightarrow> dev_op \<Rightarrow> ('w minidsp_dev, unit) act" where
  "run_dev cfg (OpActivate s) = activate cfg s"
| "run_dev cfg (OpLoadBiquads s ov i o' b) = load_biquads cfg s ov i o' b"
| "run_dev cfg (OpSendCommands s i o' cs) = send_commands cfg s i o' cs"
| "run_dev cfg (OpLoadFilter s e) = load_filter cfg s e"
| "run_dev cfg (OpClearFilter s) = clear_filter cfg s"
| "run_dev cfg (OpMute s ch) = mute cfg s ch"
| "run_dev cfg (OpUnmute s ch) = unmute cfg s ch"
| "run_dev cfg (OpSetGain s ch g) = set_gain cfg s ch g"
| "run_dev cfg (OpOutputGain s ch g) = set_output_gain cfg s ch g"
| "run_dev cfg (OpOutputMute s ch) = output_mute cfg s ch"
| "run_dev cfg (OpOutputUnmute s ch) = output_unmute cfg s ch"
| "run_dev cfg (OpUpdate params) = and_then (update cfg params) (\<lambda>_. ok ())"
| "run_dev cfg (OpMaster m) = hydrate_cache_broadcast (minidsp_class cfg) (on_master m)"

lemma snd_and_then_ok [simp]: "snd (and_then m (\<lambda>_. ok x) s) = snd (m s)"
  by (simp add: and_then_def ok_def split: prod.split sum.split)

definition wrapped :: "'w minidsp_cfg \<Rightarrow> ('w minidsp_dev, 'a) act \<Rightarrow> bool" where
  "wrapped cfg m \<longleftrightarrow> (\<exists>f. maintains (ready state_wf) f \<and> m = hydrate_cache_broadcast (minidsp_class cfg) f)"

lemma wrappedI:
  "maintains (ready state_wf) f \<Longrightarrow> wrapped cfg (hydrate_cache_broadcast (minidsp_class cfg) f)"
  unfolding wrapped_def by blast

lemma wrapped_ops:
  "wrapped cfg (activate cfg slot)" "wrapped cfg (load_biquads cfg slot ov ins outs bqs)"
  "wrapped cfg (send_commands cfg slot ins outs cs)" "wrapped cfg (load_filter cfg slot e)"
  "wrapped cfg (clear_filter cfg slot)" "wrapped cfg (do_mute_op cfg s ch b)"
  "wrapped cfg (set_gain cfg s ch g)" "wrapped cfg (set_output_gain cfg slot ch g)"
  "wrapped cfg (do_output_mute_op cfg slot ch b)" "wrapped cfg (update cfg params)"
  "wrapped cfg (hydrate_cache_broadcast (minidsp_class cfg) (on_master m))"
  unfolding activate_def load_biquads_def send_commands_def load_filter_def clear_filter_def
    do_mute_op_def set_gain_def set_output_gain_def do_output_mute_op_def update_def
  by (intro wrappedI keeps_intros)+

lemma wrapped_result:
  assumes "wrapped cfg m" and "device_ok state_wf d"
  shows "device_ok state_wf (snd (m d))
    \<and> (hydrated (snd (m d)) \<longrightarrow> coherent (minidsp_class cfg) (snd (m d)))"
  using assms minidsp.hcb_result [OF assms(2)] unfolding wrapped_def by blast

lemma wrapped_run_dev: "\<nexists>p. op = OpUpdate p \<Longrightarrow> wrapped cfg (run_dev cfg op)"
  by (cases op) (simp_all add: wrapped_ops mute_def unmute_def output_mute_def output_unmute_def)

lemma run_dev_result:
  assumes "device_ok state_wf d"
  shows "device_ok state_wf (snd (run_dev cfg op d))
    \<and> (hydrated (snd (run_dev cfg op d)) \<longrightarrow> coherent (minidsp_class cfg) (snd (run_dev cfg op d)))"
proof (cases "\<exists>p. op = OpUpdate p")
  case True
  then obtain p where "op = OpUpdate p" ..
  then show ?thesis using wrapped_result [OF wrapped_ops(10) assms] by simp
next
  case False
  then show ?thesis using wrapped_result [OF wrapped_run_dev assms] by blast
qed

lemma state_maintains: "maintains (device_ok state_wf) (state cfg refresh)"
proof -
  have l: "maintains (device_ok state_wf) (load_state cfg)"
  proof -
    have "device_ok state_wf (snd (load_state cfg d))" if "device_ok state_wf d" for d
      using load_core [of cfg d "fst (load_state cfg d)" "snd (load_state cfg d)"] that
      by (simp add: same_core_def device_ok_def ready_def)
    then show ?thesis by (simp add: maintains_def)
  qed
  have u: "maintains state_wf (modify (\<lambda>st. update_master_state mt g st\<lparr>connected := b\<rparr>))" for mt g b
    by (simp add: maintains_def modify_def state_wf_def update_master_state_def)
  have "maintains (device_ok state_wf) (\<lambda>d. (Inr (current d), d))"
    by (simp add: maintains_def)
  then show ?thesis
    unfolding state_def
    by (intro keeps_intros minidsp.hydrate_maintains l maintains_device_ok_on_current u
        maintains_device_ok_broadcast)
qed

text \<open>
  The devices that any history leads to: a new device over any cache file, operations and state
  reads in any order, and changes of the hardware behind the program's back.
\<close>

inductive minidsp_history :: "'w minidsp_cfg \<Rightarrow> 'w minidsp_dev \<Rightarrow> bool" for cfg where
  start: "minidsp_history cfg (new_device cf w)"
| run: "minidsp_history cfg d \<Longrightarrow> minidsp_history cfg (snd (run_dev cfg op d))"
| read_state: "minidsp_history cfg d \<Longrightarrow> minidsp_history cfg (snd (state cfg refresh d))"
| outside: "minidsp_history cfg d \<Longrightarrow> minidsp_history cfg (d\<lparr>world := w\<rparr>)"

text \<open>
  Claim C3. In every history, after every operation, whether it returned or raised: if the device could
  be hydrated, its state has the slots 1 to 4, the cache file holds that state, and the last message
  the web socket clients were sent is that state.
\<close>

theorem minidsp_history_coherent:
  assumes "minidsp_history cfg d" and "hydrated (snd (run_dev cfg op d))"
  shows "coherent (minidsp_class cfg) (snd (run_dev cfg op d)) \<and>
    (\<exists>st. current (snd (run_dev cfg op d)) = Some st
        \<and> map slot_id (slots st) = [''1'', ''2'', ''3'', ''4''])"
proof -
  have "device_ok state_wf d" using assms(1)
  proof (induction rule: minidsp_history.induct)
    case (run d op)
    then show ?case using run_dev_result by blast
  next
    case (read_state d refresh)
    then show ?case using maintainsD [OF state_maintains] by blast
  next
    case (start cf w)
    show ?case by simp
  next
    case (outside d w)
    then show ?case by (simp add: device_ok_def ready_def)
  qed
  from run_dev_result [OF this, of cfg op] assms(2) show ?thesis
    by (auto simp: device_ok_def ready_def state_wf_def slot_ids_eq)
qed

end
