(* ===== verification/Minidsp_Stub.thy ===== *)
theory Minidsp_Stub
  imports Minidsp_Correct
begin

text \<open>
  The outcome of the MiniDSP operations, branch by branch, and the refinement against the simulated
  device: when an operation returns, the slot, volume and mute that the program believes in are the
  ones the device has.
\<close>

section \<open>Operations on a hydrated device\<close>

lemma hcb_on_hydrated:
  assumes "device_ok state_wf d" and "hydrated d" and "maintains (ready state_wf) f"
  shows "fst (hydrate_cache_broadcast (minidsp_class cfg) f d) = fst (f d)"
    and "current (snd (hydrate_cache_broadcast (minidsp_class cfg) f d)) = current (snd (f d))"
    and "world (snd (hydrate_cache_broadcast (minidsp_class cfg) f d)) = world (snd (f d))"
  using minidsp.hcb_hydrated [OF assms(1,2), of f cfg] maintainsD [OF assms(3)] by simp_all

text \<open>The slot an operation addresses, for the operations that validate it.\<close>

fun validated_slot :: "dev_op \<Rightarrow> string option" where
  "validated_slot (OpActivate s) = Some s"
| "validated_slot (OpLoadBiquads s _ _ _ _) = Some s"
| "validated_slot (OpSendCommands s _ _ _) = Some s"
| "validated_slot (OpLoadFilter s _) = Some s"
| "validated_slot (OpClearFilter s) = Some s"
| "validated_slot (OpMute s _) = s"
| "validated_slot (OpUnmute s _) = s"
| "validated_slot (OpOutputMute s _) = Some s"
| "validated_slot (OpOutputUnmute s _) = Some s"
| "validated_slot _ = None"

definition refused :: "('st, 'w) device \<Rightarrow> exn \<Rightarrow> (('st, 'w) device, 'a) act \<Rightarrow> bool" where
  "refused d e m \<longleftrightarrow> fst (m d) = Inl e \<and> current (snd (m d)) = current d \<and> world (snd (m d)) = world d"

lemma refused_hcb:
  assumes "device_ok state_wf d" and "hydrated d" and "maintains (ready state_wf) f" and "f d = (Inl e, d)"
  shows "refused d e (hydrate_cache_broadcast (minidsp_class cfg) f)"
  using hcb_on_hydrated [OF assms(1-3), of cfg] assms(4) by (simp add: refused_def)

lemma with_slot_invalid:
  "py_int s = Some i \<Longrightarrow> i \<notin> {1..4} \<Longrightarrow>
   with_slot s body d = (Inl (InvalidRequestError ''Slot must be in range 1-4''), d)"
  by (auto simp: with_slot_def as_idx_def validate_slot_idx_def and_then_def lift_result_def)

lemma py_int_Nil [simp]: "py_int '''' = None"
  by (simp add: py_int_def strip_def)

lemma as_idxes_slot:
  "py_int s = Some i \<Longrightarrow> \<exists>ci. as_idxes ch (Some s) = Inr (ci, Some (i - 1))"
  by (auto simp: as_idxes_def as_idx_def)

abbreviation bad_slot :: exn where
  "bad_slot \<equiv> InvalidRequestError ''Slot must be in range 1-4''"

lemma invalid_index: "(i :: int) \<notin> {1..4} \<Longrightarrow> validate_slot_idx (i - 1) = Inl bad_slot \<and> i - 1 \<noteq> 0"
  by (auto simp: validate_slot_idx_def)

lemma invalid_refused:
  assumes "device_ok state_wf d" and "hydrated d" and "py_int s = Some i" and "i \<notin> {1..4}"
  shows "refused d bad_slot (activate cfg s)" "refused d bad_slot (load_biquads cfg s ov ins outs bqs)"
    "refused d bad_slot (send_commands cfg s ins outs cs)" "refused d bad_slot (load_filter cfg s e)"
    "refused d bad_slot (clear_filter cfg s)" "refused d bad_slot (do_mute_op cfg (Some s) ch b)"
    "refused d bad_slot (do_output_mute_op cfg s ch b)"
  unfolding activate_def load_biquads_def send_commands_def load_filter_def clear_filter_def
    do_mute_op_def do_output_mute_op_def
  using as_idxes_slot [OF assms(3), of ch] invalid_index [OF assms(4)]
  by (intro refused_hcb [OF assms(1,2)] keeps_intros;
      auto simp: with_slot_invalid [OF assms(3,4)] and_then_def lift_result_def)+


definition stub_cfg :: "stub minidsp_cfg" where
  "stub_cfg =
     \<lparr>m_name = ''m'', ignore_retcode = False, slot_change_delay = JBool False,
      m_descriptor = two_in_four_out, m_runner = stub_runner (\<lambda>_. ''''),
      catalogue_find = (\<lambda>_. Inr None), float_to_str = (\<lambda>_. '''')\<rparr>"

definition stub_device :: "stub minidsp_dev" where
  "stub_device =
     \<lparr>hydrated = True, current = Some (st_activate ''1'' example_state), cache = NoFile,
      state_provider = True, broadcasts = [], world = new_stub\<rparr>"

lemma example_state_wf [simp]: "state_wf example_state"
  by (simp add: state_wf_def example_state_def comp_def)

lemma stub_device_ok [simp]: "device_ok state_wf stub_device" "hydrated stub_device"
  using example_state_wf
  by (simp_all add: stub_device_def device_ok_def ready_def state_wf_def)


section \<open>Loading a filter, branch by branch\<close>

lemma slot_ids_index:
  assumes "s \<in> set slot_ids"
  shows "\<exists>k. 0 \<le> k \<and> k \<le> 3 \<and> as_idx s = Inr k \<and> s = show_int (k + 1)"
proof -
  have "show_int 1 = ''1''" "show_int 2 = ''2''" "show_int 3 = ''3''" "show_int 4 = ''4''"
    by (simp_all add: show_int_def show_nat.simps digit_char_def)
  with assms have "\<exists>k \<in> {0, 1, 2, 3}. s = show_int (k + 1)" by (auto simp: slot_ids_eq)
  then obtain k where "k \<in> {0, 1, 2, 3}" and "s = show_int (k + 1)" ..
  then show ?thesis by (intro exI [of _ k]) (auto simp: as_idx_def)
qed

lemma with_slot_valid:
  "as_idx s = Inr k \<Longrightarrow> 0 \<le> k \<Longrightarrow> k \<le> 3 \<Longrightarrow> with_slot s body d = body k d"
  by (simp add: with_slot_def validate_slot_idx_def and_then_def lift_result_def)

definition set_slot :: "string \<Rightarrow> (minidsp_slot \<Rightarrow> minidsp_slot) \<Rightarrow> minidsp_state \<Rightarrow> minidsp_state" where
  "set_slot sid h st =
     st_activate sid (st\<lparr>slots := map (\<lambda>x. if slot_id x = sid then h x else x) (slots st)\<rparr>)"

lemma map_if_cong: "(\<And>x. x \<in> set xs \<Longrightarrow> q x \<Longrightarrow> f x = g x) \<Longrightarrow>
    map (\<lambda>x. if q x then f x else x) xs = map (\<lambda>x. if q x then g x else x) xs"
  by (induction xs) auto

lemma unique_slot:
  assumes "state_wf st" and "get_slot sid st = Some s" and "x \<in> set (slots st)" and "slot_id x = sid"
  shows "x = s"
proof -
  have "distinct (map slot_id (slots st))" using assms(1) by (simp add: state_wf_def slot_ids_eq)
  moreover have "s \<in> set (slots st) \<and> slot_id s = sid"
    using assms(2) unfolding get_slot_def by (rule find_Some_iff_id)
  ultimately show ?thesis using assms(3,4) by (metis distinct_map inj_onD)
qed

lemma then_activate_modify:
  assumes "state_wf st" and "sid \<in> set slot_ids"
  shows "then_activate sid (modify h) st = (Inr (), set_slot sid h st)"
proof -
  obtain s where s: "get_slot sid st = Some s"
    using get_slot_known [OF assms(1), of sid] assms(2) by (cases "get_slot sid st") auto
  have "map (\<lambda>x. if slot_id x = sid then h s else x) (slots st)
      = map (\<lambda>x. if slot_id x = sid then h x else x) (slots st)"
    using unique_slot [OF assms(1) s] by (intro map_if_cong) blast
  then show ?thesis
    using s by (simp add: then_activate_def and_then_def on_slot_def modify_def set_slot_def
        del: map_eq_conv)
qed

text \<open>
  Claim C14. Loading an entry whose commands can be built either sends them and shows the entry's title and
  author on the slot, or, when sending fails, shows \<^verbatim>\<open>ERROR\<close> and no author there and raises what the
  send raised; in both cases the slot becomes the active one and no other slot changes.
\<close>

theorem load_filter_outcome:
  assumes "device_ok state_wf d" and "hydrated d" and "current d = Some st"
    and "slot \<in> set slot_ids" and "as_idx slot = Inr k"
    and "filt (float_to_str cfg) (Some entry) (m_descriptor cfg) = Inr cmds"
    and "send_cmds cfg (Some k) cmds d = (r, d1)"
  shows "fst (load_filter cfg slot entry d) = r \<and>
    current (snd (load_filter cfg slot entry d)) =
      Some (set_slot slot
        (case r of Inl _ \<Rightarrow> set_loaded error_title JNull
         | Inr _ \<Rightarrow> set_loaded (JStr (ce_formatted_title entry)) (JStr (ce_author entry))) st)"
proof -
  let ?body = "with_slot slot (\<lambda>i.
       and_then (lift_result (filt (float_to_str cfg) (Some entry) (m_descriptor cfg))) (\<lambda>cmds.
       send_or_mark cfg slot i cmds
         (st_load slot (JStr (ce_formatted_title entry)) (JStr (ce_author entry)))))
     :: (_, unit) act"
  have k: "0 \<le> k" "k \<le> 3" using slot_ids_index [OF assms(4)] assms(5) by auto
  have wf: "state_wf st" using assms(1,3) by (simp add: device_ok_def)
  have c1: "current d1 = Some st"
    using send_cmds_core [of cfg "Some k" cmds d] assms(3,7) by (simp add: same_core_def)
  have m: "maintains (ready state_wf) ?body" by (intro keeps_intros)
  have body: "?body d = send_or_mark cfg slot k cmds
      (st_load slot (JStr (ce_formatted_title entry)) (JStr (ce_author entry))) d"
    using assms(6) by (simp add: with_slot_valid [OF assms(5) k] and_then_def lift_result_def)
  have "fst (?body d) = r \<and> current (snd (?body d)) = Some (set_slot slot
        (case r of Inl _ \<Rightarrow> set_loaded error_title JNull
         | Inr _ \<Rightarrow> set_loaded (JStr (ce_formatted_title entry)) (JStr (ce_author entry))) st)"
    unfolding body using c1 assms(7) then_activate_modify [OF wf assms(4)]
    by (cases r) (simp_all add: send_or_mark_def try_except_def and_then_def on_current_def
        st_load_def st_error_def raise_def)
  then show ?thesis
    using hcb_on_hydrated [OF assms(1,2) m, of cfg] unfolding load_filter_def by simp
qed

section \<open>Sending to the simulated device\<close>

text \<open>A device that drives the stub and whose settings are of the documented types.\<close>

definition drives_stub :: "stub minidsp_cfg \<Rightarrow> bool" where
  "drives_stub cfg \<longleftrightarrow>
     (\<exists>dumps. m_runner cfg = stub_runner dumps) \<and> sleep_after_change (slot_change_delay cfg) = Inr ()
     \<and> (\<exists>ic. channel_count (d_input (m_descriptor cfg)) = Inr ic)
     \<and> (\<exists>oc. channel_count (d_output (m_descriptor cfg)) = Inr oc)"

abbreviation quiet :: "stub \<Rightarrow> stub" where
  "quiet w \<equiv> w\<lparr>stub_pending := None\<rparr>"

lemma preset_text_int [simp]: "preset_text (of_int k) = show_int (k + 1)"
  by (simp add: preset_text_def)

lemma parse_make_status:
  "parse_status (make_status w) = Inr (show_int (stub_slot w + 1), JBool (stub_mute w), JNum (stub_gain w))"
  by (simp add: parse_status_def parse_master_def make_status_def preset_slot_def)

lemma read_stub:
  assumes "drives_stub cfg"
  shows "\<exists>st d'. read_state_from_device cfg d = (Some st, d') \<and> same_core d' d
    \<and> world d' = quiet (world d) \<and> active_slot st = show_int (stub_slot (world d) + 1)
    \<and> st_mute st = JBool (stub_mute (world d)) \<and> master_volume st = JNum (stub_gain (world d))
    \<and> connected st"
proof -
  obtain dumps ic oc where r: "m_runner cfg = stub_runner dumps"
    and ic: "channel_count (d_input (m_descriptor cfg)) = Inr ic"
    and oc: "channel_count (d_output (m_descriptor cfg)) = Inr oc"
    using assms by (auto simp: drives_stub_def)
  obtain lines where p: "run_probe (stub_runner dumps) (ignore_retcode cfg) (quiet (world d))
      = (Inr lines, quiet (world d))"
    using stub_probe [of dumps "ignore_retcode cfg" "quiet (world d)"] by auto
  have "\<exists>st d'. read_state_from_device cfg d = (Some st, d')
    \<and> world d' = quiet (world d) \<and> active_slot st = show_int (stub_slot (world d) + 1)
    \<and> st_mute st = JBool (stub_mute (world d)) \<and> master_volume st = JNum (stub_gain (world d))
    \<and> connected st"
    using p by (simp add: read_state_from_device_def zoom_def r stub_status parse_make_status
        probe_serials_def MinidspState_def ic oc)
  then show ?thesis using read_core [of cfg d] by (metis snd_conv)
qed

lemma send_file_stub:
  assumes "drives_stub cfg" and "list_all cmd_ok cmds"
  shows "\<exists>d'. send_file cfg cmds d = (Inr (), d') \<and> same_core d' d
    \<and> world d' = fold stub_step cmds (quiet (world d))"
proof -
  obtain dumps where r: "m_runner cfg = stub_runner dumps" using assms(1) by (auto simp: drives_stub_def)
  have "\<exists>d'. send_file cfg cmds d = (Inr (), d') \<and> world d' = fold stub_step cmds (quiet (world d))"
    by (simp add: send_file_def zoom_def r stub_runs_file [OF assms(2)])
  then show ?thesis using send_file_core [of cfg cmds d] by (metis snd_conv)
qed

definition target :: "int option \<Rightarrow> stub \<Rightarrow> stub" where
  "target slot w = (case slot of None \<Rightarrow> quiet w | Some k \<Rightarrow> (quiet w)\<lparr>stub_slot := k\<rparr>)"

lemma do_run_direct:
  assumes "drives_stub cfg" and "list_all cmd_ok cmds" and "0 \<le> k" and "k \<le> 3" and "\<not> truthy delay"
  shows "\<exists>d'. do_run cfg delay cmds (Some k) d = (Inr (), d') \<and> same_core d' d
    \<and> world d' = fold stub_step cmds (target (Some k) (world d))"
proof -
  obtain st d1 where rd: "read_state_from_device cfg d = (Some st, d1)" "same_core d1 d"
      "world d1 = quiet (world d)" "active_slot st = show_int (stub_slot (world d) + 1)"
    using read_stub [OF assms(1), of d] by blast
  have on: "on_target (Some st) k \<longleftrightarrow> stub_slot (world d) = k"
    using rd(4) by (auto simp: on_target_def)
  show ?thesis
  proof (cases "stub_slot (world d) = k")
    case True
    then have "target (Some k) (world d) = quiet (quiet (world d))" by (simp add: target_def)
    then show ?thesis
      using send_file_stub [OF assms(1,2), of d1] True on rd same_core_trans [of _ d1 d]
      by (auto simp: do_run.simps [of cfg delay])
  next
    case False
    have "list_all cmd_ok (activate_cmd k # cmds)" using assms(2-4) by (simp add: activate_cmd_def)
    from send_file_stub [OF assms(1) this, of d1] show ?thesis
      using False on rd assms(5) same_core_trans [of _ d1 d]
      by (auto simp: do_run.simps [of cfg delay] activate_cmd_def target_def)
  qed
qed

text \<open>
  Sending to the stub always succeeds and leaves it on the target slot with the commands applied,
  with or without a delay for the slot change.
\<close>

lemma send_stub:
  assumes "drives_stub cfg" and "list_all cmd_ok cmds" and "\<And>k. slot = Some k \<Longrightarrow> 0 \<le> k \<and> k \<le> 3"
  shows "\<exists>d'. send_cmds cfg slot cmds d = (Inr (), d') \<and> same_core d' d
    \<and> world d' = fold stub_step cmds (target slot (world d))"
proof (cases slot)
  case None
  then show ?thesis
    using send_file_stub [OF assms(1,2), of d]
    by (simp add: send_cmds_def do_run.simps [of cfg "slot_change_delay cfg"] target_def)
next
  case (Some k)
  then have k: "0 \<le> k" "k \<le> 3" using assms(3) by auto
  show ?thesis
  proof (cases "truthy (slot_change_delay cfg)")
    case False
    then show ?thesis using do_run_direct [OF assms(1,2) k] Some by (simp add: send_cmds_def)
  next
    case True
    obtain st d1 where rd: "read_state_from_device cfg d = (Some st, d1)" "same_core d1 d"
        "world d1 = quiet (world d)" "active_slot st = show_int (stub_slot (world d) + 1)"
      using read_stub [OF assms(1), of d] by blast
    have on: "on_target (Some st) k \<longleftrightarrow> stub_slot (world d) = k"
      using rd(4) by (auto simp: on_target_def)
    have del: "sleep_after_change (slot_change_delay cfg) = Inr ()"
      using assms(1) by (simp add: drives_stub_def)
    obtain d2 where d2: "do_run cfg (JBool False) [] (Some k) d1 = (Inr (), d2)" "same_core d2 d1"
        "world d2 = target (Some k) (world d1)"
      using do_run_direct [OF assms(1) _ k, of "[]" "JBool False" d1] by auto
    show ?thesis
    proof (cases "stub_slot (world d) = k")
      case stay: True
      then have "target (Some k) (world d) = quiet (quiet (world d))" by (simp add: target_def)
      then show ?thesis
        using send_file_stub [OF assms(1,2), of d1] stay on rd Some same_core_trans [of _ d1 d]
        by (auto simp: send_cmds_def do_run.simps [of cfg "slot_change_delay cfg"])
    next
      case move: False
      have "same_core d2 d" using d2(2) rd(2) by (rule same_core_trans)
      moreover have "world d2 = target (Some k) (world d)" "quiet (world d2) = world d2"
        using d2(3) rd(3) by (simp_all add: target_def)
      ultimately show ?thesis
        using send_file_stub [OF assms(1,2), of d2] move on rd(1) d2(1) True del Some
          same_core_trans [of _ d2 d]
        by (auto simp: send_cmds_def do_run.simps [of cfg "slot_change_delay cfg"])
    qed
  qed
qed

section \<open>The program's belief and the device\<close>

definition agrees :: "minidsp_state \<Rightarrow> stub \<Rightarrow> bool" where
  "agrees st w \<longleftrightarrow> active_slot st = show_int (stub_slot w + 1)
     \<and> master_volume st = JNum (stub_gain w) \<and> st_mute st = JBool (stub_mute w)"

definition believes :: "stub minidsp_dev \<Rightarrow> bool" where
  "believes d \<longleftrightarrow> (\<exists>st. current d = Some st \<and> agrees st (world d))"

text \<open>Commands that address a channel: they leave slot, master gain and master mute alone.\<close>

fun channel_cmd :: "command \<Rightarrow> bool" where
  "channel_cmd (Config _) = False"
| "channel_cmd (MuteMaster _) = False"
| "channel_cmd (GainMaster _) = False"
| "channel_cmd _ = True"

lemma fold_channel: "list_all channel_cmd cmds \<Longrightarrow> fold stub_step cmds w = w"
proof (induction cmds arbitrary: w)
  case (Cons c cmds)
  then show ?case by (cases c) simp_all
qed simp

lemma channel_cmds_simps [simp]:
  "channel_cmd (bq ch i cs side g)" "channel_cmd (bypass ch i b side g)" "channel_cmd (cmd ch c side)"
  by (simp_all add: bq_def bypass_def cmd_def)

lemma push_channel [simp]: "list_all channel_cmd (push cs s)"
  and bypass_channel [simp]: "list_all channel_cmd (bypass_slot s)"
  by (auto simp: push_def bypass_slot_def list_all_iff)

lemma filt_channel: "filt fmt entry d = Inr cmds \<Longrightarrow> list_all channel_cmd cmds"
proof -
  have z: "list_all channel_cmd (concat (map2 push css ss))" for css ss
    using push_channel by (fastforce simp: list_all_iff set_zip)
  assume "filt fmt entry d = Inr cmds"
  then obtain css where "cmds = concat (map2 push css (to_allocator d))
      @ concat (map bypass_slot (drop (length css) (to_allocator d)))" by (rule filt_shape)
  then show ?thesis using z bypass_channel by (auto simp: list_all_iff)
qed

lemma map_result_concat:
  "map_result f xs = Inr css \<Longrightarrow> (\<And>x cs. f x = Inr cs \<Longrightarrow> list_all P cs) \<Longrightarrow> list_all P (concat css)"
  by (induction xs arbitrary: css) (auto split: sum.splits)

lemma biquads_channel: "biquads_cmds ov ins outs bqs = Inr cmds \<Longrightarrow> list_all channel_cmd cmds"
proof -
  have one: "one_biquad ov side ch p = Inr cs \<Longrightarrow> list_all channel_cmd cs" for side ch p cs
    by (auto simp: one_biquad_def split: prod.splits if_splits sum.splits)
  have "channel_biquads ov side bqs ch = Inr cs \<Longrightarrow> list_all channel_cmd cs" for side ch cs
    by (auto simp: channel_biquads_def list_all_iff split: sum.splits if_splits
        dest!: map_result_concat [where P = channel_cmd, OF _ one, unfolded list_all_iff])
  then show "biquads_cmds ov ins outs bqs = Inr cmds \<Longrightarrow> list_all channel_cmd cmds"
    by (auto simp: biquads_cmds_def split: sum.splits prod.splits
        elim!: map_result_concat)
qed

lemma commands_ok:
  assumes "list_all one_line cs"
  shows "list_all cmd_ok (commands_cmds ins outs cs)" "list_all channel_cmd (commands_cmds ins outs cs)"
  using assms by (auto simp: commands_cmds_def cmd_def list_all_iff)

lemma mute_cmds_ok:
  "side \<in> {INPUT_NAME, OUTPUT_NAME} \<Longrightarrow>
     list_all cmd_ok (mute_cmds b (Some k) ci side) \<and> list_all channel_cmd (mute_cmds b (Some k) ci side)"
  by (simp add: mute_cmds_def split: option.split)

lemma gain_cmds_ok:
  "gain_cmds g (Some k) ci side = Inr cmds \<Longrightarrow> side \<in> {INPUT_NAME, OUTPUT_NAME} \<Longrightarrow>
     list_all cmd_ok cmds \<and> list_all channel_cmd cmds"
  by (auto simp: gain_cmds_def split: option.splits if_splits)

lemma level_cmds_ok:
  "level_cmds i side h chs = Inr (cmds, h') \<Longrightarrow> list_all cmd_ok cmds \<and> list_all channel_cmd cmds"
proof (induction chs arbitrary: h cmds h')
  case (Cons c chs)
  then show ?case
    using gain_cmds_ok [of 0 i "Some c" INPUT_NAME] mute_cmds_ok [of INPUT_NAME False i "Some c"]
    by (auto split: if_splits sum.splits prod.splits)
qed simp

lemma clear_levels_ok:
  "clear_levels i h ss = Inr cmds \<Longrightarrow> list_all cmd_ok cmds \<and> list_all channel_cmd cmds"
proof (induction ss arbitrary: h cmds)
  case (Cons s ss)
  then show ?case using level_cmds_ok by (fastforce split: sum.splits prod.splits)
qed simp

lemma then_activate_ok:
  assumes "then_activate sid m st = (Inr (), st')"
  shows "active_slot st' = sid \<and> synced st' \<and> master_volume st' = master_volume st \<and> st_mute st' = st_mute st"
proof -
  obtain s s' where "get_slot sid st = Some s" "m s = (Inr (), s')"
    using assms
    by (auto simp: then_activate_def and_then_def on_slot_def modify_def
        split: option.splits prod.splits sum.splits)
  with assms obtain ss where "st' = st_activate sid (st\<lparr>slots := ss\<rparr>)"
    by (auto simp: then_activate_def and_then_def on_slot_def modify_def)
  then show ?thesis using st_activate_synced [of sid "st\<lparr>slots := ss\<rparr>"] by (simp add: st_activate_def)
qed

text \<open>
  \<open>moved s d d'\<close>: from \<open>d\<close> to \<open>d'\<close> the hardware went to slot \<open>s\<close>, the state shows that slot as the
  active one, and master volume and master mute are what they were on both sides.
\<close>

definition moved :: "string \<Rightarrow> stub minidsp_dev \<Rightarrow> stub minidsp_dev \<Rightarrow> bool" where
  "moved s d d' \<longleftrightarrow> (\<exists>k st st'. s = show_int (k + 1) \<and> current d = Some st \<and> current d' = Some st'
     \<and> world d' = (quiet (world d))\<lparr>stub_slot := k\<rparr> \<and> active_slot st' = s \<and> synced st'
     \<and> master_volume st' = master_volume st \<and> st_mute st' = st_mute st)"

lemma moved_believes: "moved s d d' \<Longrightarrow> believes d \<Longrightarrow> believes d'"
  by (auto simp: moved_def believes_def agrees_def)

text \<open>Sending channel commands to a slot and activating it in the state.\<close>

definition slot_post :: "string \<Rightarrow> (minidsp_state, unit) act \<Rightarrow> bool" where
  "slot_post s post \<longleftrightarrow> (\<forall>st st'. post st = (Inr (), st') \<longrightarrow>
     active_slot st' = s \<and> synced st' \<and> master_volume st' = master_volume st \<and> st_mute st' = st_mute st)"

lemma slot_posts:
  "slot_post s (modify (st_activate s))" "slot_post s (st_load s t a)" "slot_post s (st_clear s)"
  "slot_post s (st_gain (Some s) ch g)" "slot_post s (st_toggle_mute (Some s) ch b)"
  "slot_post s (st_output_gain s ch g)" "slot_post s (st_toggle_output_mute s ch b)"
  "slot_post s (custom_or_activate s ins)"
  using then_activate_ok
  by (auto simp: slot_post_def state_op_defs custom_or_activate_def modify_def synced_def st_activate_def)

lemma send_post_moves:
  assumes "drives_stub cfg" and "ready state_wf d" and "s \<in> set slot_ids" and "as_idx s = Inr k"
    and "list_all cmd_ok cmds" and "list_all channel_cmd cmds" and "slot_post s post"
    and "fst (and_then (send_cmds cfg (Some k) cmds) (\<lambda>_. on_current post) d) = Inr ()"
  shows "moved s d (snd (and_then (send_cmds cfg (Some k) cmds) (\<lambda>_. on_current post) d))"
proof -
  have k: "0 \<le> k" "k \<le> 3" "s = show_int (k + 1)" using slot_ids_index [OF assms(3)] assms(4) by auto
  obtain st where st: "current d = Some st" using assms(2) by (auto simp: ready_def)
  obtain d1 where d1: "send_cmds cfg (Some k) cmds d = (Inr (), d1)" "current d1 = Some st"
      "world d1 = (quiet (world d))\<lparr>stub_slot := k\<rparr>"
    using send_stub [OF assms(1,5), of "Some k" d] k st fold_channel [OF assms(6)]
    by (auto simp: same_core_def target_def)
  obtain st' where p: "post st = (Inr (), st')"
    using assms(8) d1 by (cases "post st") (auto simp: and_then_def on_current_def)
  then show ?thesis
    using d1 st k(3) assms(7) by (auto simp: and_then_def on_current_def moved_def slot_post_def)
qed

lemma try_mark_ok:
  "fst (send_or_mark cfg s i cmds post d) = Inr () \<Longrightarrow>
   send_or_mark cfg s i cmds post d = and_then (send_cmds cfg (Some i) cmds) (\<lambda>_. on_current post) d"
  by (auto simp: send_or_mark_def try_except_def and_then_def raise_def split: prod.splits sum.splits)

lemma mark_moves:
  assumes "drives_stub cfg" and "ready state_wf d" and "s \<in> set slot_ids" and "as_idx s = Inr k"
    and "list_all cmd_ok cmds" and "list_all channel_cmd cmds" and "slot_post s post"
    and "fst (send_or_mark cfg s k cmds post d) = Inr ()"
  shows "moved s d (snd (send_or_mark cfg s k cmds post d))"
  using try_mark_ok [OF assms(8)] send_post_moves [OF assms(1-7)] assms(8) by simp

lemma hcb_moved:
  assumes "device_ok state_wf d" and "hydrated d" and "maintains (ready state_wf) f"
    and "fst (f d) = Inr () \<Longrightarrow> moved s d (snd (f d))"
    and "fst (hydrate_cache_broadcast (minidsp_class cfg) f d) = Inr ()"
  shows "moved s d (snd (hydrate_cache_broadcast (minidsp_class cfg) f d))"
  using hcb_on_hydrated [OF assms(1-3), of cfg] assms(4,5) by (simp add: moved_def)

lemma ready_hydrated: "device_ok state_wf d \<Longrightarrow> hydrated d \<Longrightarrow> ready state_wf d"
  by (simp add: device_ok_def)

text \<open>
  The operations the agreement is stated for: known slots, free texts without line breaks, and master
  gains of at most two decimals (the command file has two).
\<close>

fun sim_ok :: "stub minidsp_cfg \<Rightarrow> dev_op \<Rightarrow> bool" where
  "sim_ok cfg (OpActivate s) = (s \<in> set slot_ids)"
| "sim_ok cfg (OpLoadBiquads s ov ins outs bqs) = (s \<in> set slot_ids \<and>
     (case biquads_cmds ov ins outs bqs of Inl _ \<Rightarrow> True | Inr cmds \<Rightarrow> list_all cmd_ok cmds))"
| "sim_ok cfg (OpSendCommands s ins outs cs) = (s \<in> set slot_ids \<and> list_all one_line cs)"
| "sim_ok cfg (OpLoadFilter s e) = (s \<in> set slot_ids \<and>
     (case filt (float_to_str cfg) (Some e) (m_descriptor cfg) of
        Inl _ \<Rightarrow> True | Inr cmds \<Rightarrow> list_all cmd_ok cmds))"
| "sim_ok cfg (OpClearFilter s) = (s \<in> set slot_ids \<and>
     (case filt (float_to_str cfg) None (m_descriptor cfg) of
        Inl _ \<Rightarrow> True | Inr cmds \<Rightarrow> list_all cmd_ok cmds))"
| "sim_ok cfg (OpMute s ch) = (case s of None \<Rightarrow> True | Some x \<Rightarrow> x \<in> set slot_ids)"
| "sim_ok cfg (OpUnmute s ch) = (case s of None \<Rightarrow> True | Some x \<Rightarrow> x \<in> set slot_ids)"
| "sim_ok cfg (OpSetGain s ch g) =
     (case s of
        None \<Rightarrow> (case g of JNum r \<Rightarrow> round2 r = r | _ \<Rightarrow> False)
      | Some x \<Rightarrow> x \<in> set slot_ids)"
| "sim_ok cfg (OpOutputGain s ch g) = (s \<in> set slot_ids)"
| "sim_ok cfg (OpOutputMute s ch) = (s \<in> set slot_ids)"
| "sim_ok cfg (OpOutputUnmute s ch) = (s \<in> set slot_ids)"
| "sim_ok cfg (OpUpdate p) = False"
| "sim_ok cfg (OpMaster m) = False"

lemma as_idxes_known:
  assumes "s \<in> set slot_ids" and "as_idx s = Inr k"
  shows "\<exists>ci. as_idxes ch (Some s) = Inr (ci, Some k)"
  using assms by (auto simp: as_idxes_def slot_ids_eq)

lemma gain_op_moves:
  assumes "device_ok state_wf d" "hydrated d" "drives_stub cfg"
    and s: "s \<in> set slot_ids" and side: "side \<in> {INPUT_NAME, OUTPUT_NAME}" and post: "slot_post s post"
    and m: "maintains state_wf post"
    and f_def: "f = and_then (lift_result (as_idxes ch (Some s))) (\<lambda>(ci, si).
        and_then (lift_result (json_gain_cmds g si ci side)) (\<lambda>cmds.
        and_then (send_cmds cfg si cmds) (\<lambda>_. on_current post)))"
    and r: "fst (hydrate_cache_broadcast (minidsp_class cfg) f d) = Inr ()"
  shows "moved s d (snd (hydrate_cache_broadcast (minidsp_class cfg) f d))"
proof -
  obtain k where k: "as_idx s = Inr k" using slot_ids_index [OF s] by blast
  obtain ci where ci: "as_idxes ch (Some s) = Inr (ci, Some k)" using as_idxes_known [OF s k] ..
  have b: "moved s d (snd (f d))" if h: "fst (f d) = Inr ()"
  proof -
    obtain cmds where c: "json_gain_cmds g (Some k) ci side = Inr cmds"
      using h ci by (cases "json_gain_cmds g (Some k) ci side")
        (auto simp: f_def and_then_def lift_result_def)
    then have "list_all cmd_ok cmds" "list_all channel_cmd cmds"
      using gain_cmds_ok side by (auto simp: json_gain_cmds_def split: sum.splits)
    then show ?thesis
      using h ci c send_post_moves [OF assms(3) ready_hydrated [OF assms(1,2)] s k _ _ post]
      by (auto simp: f_def and_then_def [of "lift_result _"] lift_result_def)
  qed
  have "maintains (ready state_wf) f" unfolding f_def by (intro keeps_intros m)
  from hcb_moved [OF assms(1,2) this b r] show ?thesis .
qed

lemma mute_op_moves:
  assumes "device_ok state_wf d" "hydrated d" "drives_stub cfg"
    and s: "s \<in> set slot_ids" and side: "side \<in> {INPUT_NAME, OUTPUT_NAME}" and post: "slot_post s post"
    and m: "maintains state_wf post" and check: "\<And>k. 0 \<le> k \<Longrightarrow> k \<le> 3 \<Longrightarrow> check (Some k) = Inr ()"
    and f_def: "f = and_then (lift_result (as_idxes ch (Some s))) (\<lambda>(ci, si).
        and_then (lift_result (check si)) (\<lambda>_.
        and_then (send_cmds cfg si (mute_cmds b si ci side)) (\<lambda>_. on_current post)))"
    and r: "fst (hydrate_cache_broadcast (minidsp_class cfg) f d) = Inr ()"
  shows "moved s d (snd (hydrate_cache_broadcast (minidsp_class cfg) f d))"
proof -
  obtain k where k: "as_idx s = Inr k" "0 \<le> k" "k \<le> 3" using slot_ids_index [OF s] by blast
  obtain ci where ci: "as_idxes ch (Some s) = Inr (ci, Some k)" using as_idxes_known [OF s k(1)] ..
  have b: "moved s d (snd (f d))" if h: "fst (f d) = Inr ()"
    using h ci check [OF k(2,3)] mute_cmds_ok [OF side]
      send_post_moves [OF assms(3) ready_hydrated [OF assms(1,2)] s k(1) _ _ post, of "mute_cmds b (Some k) ci side"]
    by (auto simp: f_def and_then_def [of "lift_result _"] lift_result_def)
  have "maintains (ready state_wf) f" unfolding f_def by (intro keeps_intros m)
  from hcb_moved [OF assms(1,2) this b r] show ?thesis .
qed

text \<open>The master commands go to no slot: the file holds the one command.\<close>

lemma master_op_sent:
  assumes "device_ok state_wf d" "hydrated d" "drives_stub cfg"
    and c: "cmd_ok c" and m: "maintains state_wf (modify h)"
    and f_def: "\<And>d. f d = and_then (send_cmds cfg None [c]) (\<lambda>_. on_current (modify h)) d"
  shows "fst (hydrate_cache_broadcast (minidsp_class cfg) f d) = Inr ()"
    and "current (snd (hydrate_cache_broadcast (minidsp_class cfg) f d)) = map_option h (current d)"
    and "world (snd (hydrate_cache_broadcast (minidsp_class cfg) f d)) = stub_step c (quiet (world d))"
proof -
  have f: "f = and_then (send_cmds cfg None [c]) (\<lambda>_. on_current (modify h))"
    by (rule ext) (rule f_def)
  have mf: "maintains (ready state_wf) f" unfolding f by (intro keeps_intros maintains_on_current m)
  obtain st where st: "current d = Some st" using assms(1,2) by (auto simp: device_ok_def ready_def)
  obtain d1 where "send_cmds cfg None [c] d = (Inr (), d1)" "current d1 = Some st"
      "world d1 = stub_step c (quiet (world d))"
    using send_stub [OF assms(3), of "[c]" None d] c st by (auto simp: same_core_def target_def)
  then show "fst (hydrate_cache_broadcast (minidsp_class cfg) f d) = Inr ()"
    and "current (snd (hydrate_cache_broadcast (minidsp_class cfg) f d)) = map_option h (current d)"
    and "world (snd (hydrate_cache_broadcast (minidsp_class cfg) f d)) = stub_step c (quiet (world d))"
    using hcb_on_hydrated [OF assms(1,2) mf, of cfg] st
    by (simp_all add: f and_then_def on_current_def modify_def)
qed

text \<open>The body of a master mute, and of a master gain that is within its range.\<close>

lemma mute_body_master:
  "and_then (lift_result (as_idxes ch None)) (\<lambda>(ci, si).
     and_then (lift_result (case si of None \<Rightarrow> Inr () | Some i \<Rightarrow> if i = 0 then Inr () else validate_slot_idx i)) (\<lambda>_.
     and_then (send_cmds cfg si (mute_cmds b si ci INPUT_NAME)) (\<lambda>_. on_current (st_toggle_mute None ch b)))) d
   = and_then (send_cmds cfg None [MuteMaster b]) (\<lambda>_. on_current (modify (\<lambda>st. st\<lparr>st_mute := JBool b\<rparr>))) d"
  by (simp add: as_idxes_def and_then_def lift_result_def mute_cmds_def st_toggle_mute_def)

lemma st_mute_maintains: "maintains state_wf (modify (\<lambda>st. st\<lparr>st_mute := JBool b\<rparr>))"
  by (simp add: maintains_def modify_def state_wf_def)

lemma master_mute_sent:
  assumes "device_ok state_wf d" "hydrated d" "drives_stub cfg"
  shows "fst (do_mute_op cfg None ch b d) = Inr ()"
    and "current (snd (do_mute_op cfg None ch b d)) = map_option (\<lambda>st. st\<lparr>st_mute := JBool b\<rparr>) (current d)"
    and "world (snd (do_mute_op cfg None ch b d)) = (quiet (world d))\<lparr>stub_mute := b\<rparr>"
  unfolding do_mute_op_def
  using master_op_sent [OF assms _ st_mute_maintains mute_body_master] by simp_all

lemma gain_body_master:
  assumes "gain_cmds r None None INPUT_NAME = Inr [GainMaster r]"
  shows "and_then (lift_result (as_idxes ch None)) (\<lambda>(ci, si).
     and_then (lift_result (json_gain_cmds (JNum r) si ci INPUT_NAME)) (\<lambda>cmds.
     and_then (send_cmds cfg si cmds) (\<lambda>_. on_current (st_gain None ch (JNum r))))) d
   = and_then (send_cmds cfg None [GainMaster r]) (\<lambda>_. on_current (modify (\<lambda>st. st\<lparr>master_volume := JNum r\<rparr>))) d"
proof -
  have "gain_cmds r None ci INPUT_NAME = Inr [GainMaster r]" for ci
    using assms by (simp add: gain_cmds_def split: if_splits)
  then show ?thesis by (simp add: as_idxes_def and_then_def lift_result_def json_gain_cmds_def st_gain_def)
qed

lemma master_gain_sent:
  assumes "device_ok state_wf d" "hydrated d" "drives_stub cfg"
    and res: "fst (set_gain cfg None ch (JNum r) d) = Inr ()"
  shows "current (snd (set_gain cfg None ch (JNum r) d)) = map_option (\<lambda>st. st\<lparr>master_volume := JNum r\<rparr>) (current d)"
    and "world (snd (set_gain cfg None ch (JNum r) d)) = (quiet (world d))\<lparr>stub_gain := round2 r\<rparr>"
proof -
  let ?f = "and_then (lift_result (as_idxes ch None)) (\<lambda>(ci, si).
        and_then (lift_result (json_gain_cmds (JNum r) si ci INPUT_NAME)) (\<lambda>cmds.
        and_then (send_cmds cfg si cmds) (\<lambda>_. on_current (st_gain None ch (JNum r)))))
    :: stub minidsp_dev \<Rightarrow> _"
  have "fst (?f d) = Inr ()"
    using res hcb_on_hydrated(1) [OF assms(1,2), of ?f cfg] unfolding set_gain_def
    by (metis (no_types, lifting) keeps_intros)
  then have g: "gain_cmds r None None INPUT_NAME = Inr [GainMaster r]"
    by (auto simp: as_idxes_def and_then_def lift_result_def json_gain_cmds_def gain_cmds_def
        split: if_splits)
  show "current (snd (set_gain cfg None ch (JNum r) d)) = map_option (\<lambda>st. st\<lparr>master_volume := JNum r\<rparr>) (current d)"
    and "world (snd (set_gain cfg None ch (JNum r) d)) = (quiet (world d))\<lparr>stub_gain := round2 r\<rparr>"
    unfolding set_gain_def
    using master_op_sent(2,3) [OF assms(1-3) _ master_volume_maintains gain_body_master [OF g]] by simp_all
qed

lemma master_volume_agrees:
  assumes "device_ok state_wf d" "hydrated d" "drives_stub cfg" "believes d" "round2 r = r"
    and res: "fst (set_gain cfg None ch (JNum r) d) = Inr ()"
  shows "believes (snd (set_gain cfg None ch (JNum r) d))"
  using assms(4,5) master_gain_sent [OF assms(1-3) res] by (auto simp: believes_def agrees_def)

lemma master_mute_agrees:
  assumes "device_ok state_wf d" "hydrated d" "drives_stub cfg" "believes d"
  shows "believes (snd (do_mute_op cfg None ch b d))"
  using assms(4) master_mute_sent(2,3) [OF assms(1-3)] by (auto simp: believes_def agrees_def)

lemma slot_op_moves:
  assumes "device_ok state_wf d" "hydrated d" and s: "s \<in> set slot_ids"
    and m: "\<And>i. maintains (ready state_wf) (body i)"
    and b: "\<And>k. as_idx s = Inr k \<Longrightarrow> fst (body k d) = Inr () \<Longrightarrow> moved s d (snd (body k d))"
    and r: "fst (hydrate_cache_broadcast (minidsp_class cfg) (with_slot s body) d) = Inr ()"
  shows "moved s d (snd (hydrate_cache_broadcast (minidsp_class cfg) (with_slot s body) d))"
proof -
  obtain k where k: "as_idx s = Inr k" "0 \<le> k" "k \<le> 3" using slot_ids_index [OF s] by blast
  have eq: "with_slot s body d = body k d" by (rule with_slot_valid [OF k])
  show ?thesis
    using b [OF k(1)] eq
    by (intro hcb_moved [OF assms(1,2) with_slot_maintains [OF m] _ r]) simp_all
qed

text \<open>Slot by slot: the operations that change the filters of a slot, then those that change a level\<close>

fun filter_op :: "dev_op \<Rightarrow> bool" where
  "filter_op (OpActivate s) = True"
| "filter_op (OpLoadBiquads s ov ins outs bqs) = True"
| "filter_op (OpSendCommands s ins outs cs) = True"
| "filter_op (OpLoadFilter s e) = True"
| "filter_op (OpClearFilter s) = True"
| "filter_op _ = False"

fun addressed_slot :: "dev_op \<Rightarrow> string option" where
  "addressed_slot (OpActivate s) = Some s"
| "addressed_slot (OpLoadBiquads s ov ins outs bqs) = Some s"
| "addressed_slot (OpSendCommands s ins outs cs) = Some s"
| "addressed_slot (OpLoadFilter s e) = Some s"
| "addressed_slot (OpClearFilter s) = Some s"
| "addressed_slot (OpMute s ch) = s"
| "addressed_slot (OpUnmute s ch) = s"
| "addressed_slot (OpSetGain s ch g) = s"
| "addressed_slot (OpOutputGain s ch g) = Some s"
| "addressed_slot (OpOutputMute s ch) = Some s"
| "addressed_slot (OpOutputUnmute s ch) = Some s"
| "addressed_slot _ = None"

lemma filter_op_moves:
  assumes "device_ok state_wf d" and "hydrated d" and "drives_stub cfg"
    and "sim_ok cfg op" and "fst (run_dev cfg op d) = Inr ()" and "filter_op op" and "addressed_slot op = Some s"
  shows "moved s d (snd (run_dev cfg op d))"
proof -
  note D = assms(1-2) note R = assms(5) note A = assms(7)
  note M = ready_hydrated [OF D] and P = slot_posts
  show ?thesis
  proof (cases op)
    case (OpActivate x)
    then have x: "x = s" using A by simp
    show ?thesis using R assms(4) send_post_moves [OF assms(3) M _ _ _ _ P(1), of s _ "[]"]
      unfolding OpActivate run_dev.simps activate_def x
      by (intro slot_op_moves [OF D] keeps_intros) simp_all
  next
    case (OpLoadBiquads x ov ins outs bqs)
    then have x: "x = s" using A by simp
    show ?thesis using R assms(4) mark_moves [OF assms(3) M _ _ _ _ P(8), of s] biquads_channel
      unfolding OpLoadBiquads run_dev.simps load_biquads_def x
      by (intro slot_op_moves [OF D] keeps_intros)
        (auto simp: and_then_def lift_result_def split: sum.splits)
  next
    case (OpSendCommands x ins outs cs)
    then have x: "x = s" using A by simp
    show ?thesis using R assms(4) mark_moves [OF assms(3) M _ _ _ _ P(8), of s] commands_ok
      unfolding OpSendCommands run_dev.simps send_commands_def x
      by (intro slot_op_moves [OF D] keeps_intros) auto
  next
    case (OpLoadFilter x e)
    then have x: "x = s" using A by simp
    show ?thesis using R assms(4) mark_moves [OF assms(3) M _ _ _ _ P(2), of s] filt_channel
      unfolding OpLoadFilter run_dev.simps load_filter_def x
      by (intro slot_op_moves [OF D] keeps_intros)
        (auto simp: and_then_def lift_result_def split: sum.splits)
  next
    case (OpClearFilter x)
    then have x: "x = s" using A by simp
    show ?thesis using R assms(4) mark_moves [OF assms(3) M _ _ _ _ P(3), of s] filt_channel clear_levels_ok
      unfolding OpClearFilter run_dev.simps clear_filter_def x
      by (intro slot_op_moves [OF D] keeps_intros)
        (auto simp: and_then_def lift_result_def split: sum.splits)
  qed (use assms(6) in simp_all)
qed

lemma level_op_moves:
  assumes "device_ok state_wf d" and "hydrated d" and "drives_stub cfg"
    and "sim_ok cfg op" and "fst (run_dev cfg op d) = Inr ()" and "\<not> filter_op op" and "addressed_slot op = Some s"
  shows "moved s d (snd (run_dev cfg op d))"
proof -
  note D = assms(1-3) note R = assms(5) note A = assms(7)
  note P = slot_posts
  show ?thesis
  proof (cases op)
    case (OpMute x ch)
    show ?thesis using R assms(4) A
      unfolding OpMute run_dev.simps mute_def
      by (auto simp: do_mute_op_def validate_slot_idx_def
          intro!: mute_op_moves [OF D _ _ P(5) state_ops_maintains(6) _ refl])
  next
    case (OpUnmute x ch)
    show ?thesis using R assms(4) A
      unfolding OpUnmute run_dev.simps unmute_def
      by (auto simp: do_mute_op_def validate_slot_idx_def
          intro!: mute_op_moves [OF D _ _ P(5) state_ops_maintains(6) _ refl])
  next
    case (OpSetGain x ch g)
    show ?thesis using R assms(4) A
      unfolding OpSetGain run_dev.simps
      by (auto simp: set_gain_def intro!: gain_op_moves [OF D _ _ P(4) state_ops_maintains(5) refl])
  next
    case (OpOutputGain x ch g)
    then have x: "x = s" using A by simp
    show ?thesis using R assms(4) unfolding OpOutputGain run_dev.simps set_output_gain_def x
      by (intro gain_op_moves [OF D _ _ P(6) state_ops_maintains(7) refl]) simp_all
  next
    case (OpOutputMute x ch)
    then have x: "x = s" using A by simp
    show ?thesis using R assms(4)
      unfolding OpOutputMute run_dev.simps output_mute_def do_output_mute_op_def x
      by (intro mute_op_moves [OF D _ _ P(7) state_ops_maintains(8) _ refl])
        (simp_all add: validate_slot_idx_def)
  next
    case (OpOutputUnmute x ch)
    then have x: "x = s" using A by simp
    show ?thesis using R assms(4)
      unfolding OpOutputUnmute run_dev.simps output_unmute_def do_output_mute_op_def x
      by (intro mute_op_moves [OF D _ _ P(7) state_ops_maintains(8) _ refl])
        (simp_all add: validate_slot_idx_def)
  qed (use assms(4,6,7) in simp_all)
qed

text \<open>An operation on a slot that returns moves hardware and state to that slot.\<close>

lemma slot_op_lands:
  assumes "device_ok state_wf d" and "hydrated d" and "drives_stub cfg"
    and "sim_ok cfg op" and "fst (run_dev cfg op d) = Inr ()" and "addressed_slot op = Some s"
  shows "moved s d (snd (run_dev cfg op d))"
  using filter_op_moves [OF assms(1-5) _ assms(6)] level_op_moves [OF assms(1-5) _ assms(6)] by blast

lemma master_op_believes:
  assumes "device_ok state_wf d" and "hydrated d" and "drives_stub cfg" and "believes d"
    and "sim_ok cfg op" and "fst (run_dev cfg op d) = Inr ()" and "addressed_slot op = None"
  shows "believes (snd (run_dev cfg op d))"
  using assms(5-7) master_mute_agrees [OF assms(1-4)] master_volume_agrees [OF assms(1-4)]
  by (cases op) (auto simp: mute_def unmute_def split: json.splits)


section \<open>Concrete runs\<close>

lemma drives_stub_cfg [simp]: "drives_stub stub_cfg"
  by (auto simp: drives_stub_def stub_cfg_def sleep_after_change_def)

lemma believes_stub_device [simp]: "believes stub_device"
  by (simp add: believes_def agrees_def stub_device_def example_state_def new_stub_def
      st_activate_def show_int_def show_nat.simps digit_char_def)

lemma as_idx_2 [simp]: "as_idx ''2'' = Inr 1"
  using py_int_show_int [of 2] by (simp add: as_idx_def show_int_def show_nat.simps digit_char_def)

definition activate_body :: "'w minidsp_cfg \<Rightarrow> string \<Rightarrow> ('w minidsp_dev, unit) act" where
  "activate_body cfg slot = with_slot slot (\<lambda>i.
     and_then (send_cmds cfg (Some i) []) (\<lambda>_. on_current (modify (st_activate slot))))"

lemma activate_eq: "activate cfg slot = hydrate_cache_broadcast (minidsp_class cfg) (activate_body cfg slot)"
  by (simp add: activate_def activate_body_def)

lemma activate_body_maintains: "maintains (ready state_wf) (activate_body cfg slot)"
  unfolding activate_body_def by (intro keeps_intros)

lemma activate_body_stub:
  assumes "drives_stub cfg" and "ready state_wf d" and "s \<in> set slot_ids"
  shows "\<exists>d'. activate_body cfg s d = (Inr (), d') \<and> hydrated d' = hydrated d"
proof -
  obtain k where k: "as_idx s = Inr k" "0 \<le> k" "k \<le> 3" using slot_ids_index [OF assms(3)] by blast
  obtain d1 where d1: "send_cmds cfg (Some k) [] d = (Inr (), d1)" "same_core d1 d"
    using send_stub [OF assms(1), of "[]" "Some k" d] k by auto
  then show ?thesis
    using assms(2)
    by (auto simp: activate_body_def with_slot_valid [OF k] and_then_def on_current_def modify_def ready_def
        same_core_def)
qed

lemma activate_succeeds:
  assumes "device_ok state_wf d" and "hydrated d" and "drives_stub cfg" and "s \<in> set slot_ids"
  shows "fst (run_dev cfg (OpActivate s) d) = Inr ()"
  using activate_body_stub [OF assms(3) ready_hydrated [OF assms(1,2)] assms(4)]
    hcb_on_hydrated(1) [OF assms(1,2) activate_body_maintains, of cfg cfg s]
  by (auto simp: activate_eq)


lemma stub_hydrates:
  assumes "drives_stub cfg"
  shows "\<exists>b d'. hydrate (minidsp_class cfg) False d = (Inr b, d') \<and> hydrated d'"
proof -
  obtain st d1 where "read_state_from_device cfg d = (Some st, d1)"
    using read_stub [OF assms, of d] by blast
  then have "load_state cfg d = (Inr st, d1)" by (simp add: load_state_def)
  then show ?thesis by (cases "hydrated d") (auto simp: hydrate_def Let_def)
qed

lemma minidsp_history_coherent_witness:
  "coherent (minidsp_class stub_cfg)
     (snd (run_dev stub_cfg (OpActivate ''2'') (new_device NoFile new_stub)))"
proof -
  let ?d = "new_device NoFile new_stub :: stub minidsp_dev"
  obtain b d1 where h: "hydrate (minidsp_class stub_cfg) False ?d = (Inr b, d1)" "hydrated d1"
    using stub_hydrates [OF drives_stub_cfg] by blast
  have r: "ready state_wf d1" using minidsp.hydrate_ok(1) [OF _ h(1)] by simp
  obtain d2 where d2: "activate_body stub_cfg ''2'' d1 = (Inr (), d2)" "hydrated d2"
    using activate_body_stub [OF drives_stub_cfg r, of "''2''"] h(2) by (auto simp: slot_ids_eq)
  have "hydrated (snd (run_dev stub_cfg (OpActivate ''2'') ?d)) = hydrated d2"
    using minidsp.hcb_coherent(6) [OF _ h(1) maintainsD [OF activate_body_maintains]] d2(1)
    by (simp add: activate_eq)
  with d2(2) have "hydrated (snd (run_dev stub_cfg (OpActivate ''2'') ?d))" by simp
  from minidsp_history_coherent [OF minidsp_history.start this] show ?thesis ..
qed

lemma input_slot_ok:
  assumes "bs_name s = INPUT_NAME" and "list_all one_line cs"
  shows "list_all cmd_ok (push cs s)" "list_all cmd_ok (bypass_slot s)"
  using assms
  by (auto simp: push_def bypass_slot_def bq_def bypass_def peq_side_def peq_addr_def side_names
      newline_def list_all_iff split: option.split)

lemma two_in_four_out_slots:
  "to_allocator two_in_four_out = map (\<lambda>i. \<lparr>bs_name = INPUT_NAME, bs_idx = i, bs_channels = [0, 1],
     bs_group = None\<rparr>) [0, 1, 2, 3, 4, 5, 6, 7, 8, 9]"
  by (simp add: to_allocator_def descriptor_routes_def two_in_four_out_def BeqFilterAllocator_def
      route_slots_def takes_beq_def PeqRoutes_def items_def zero_til_def upt_rec)

lemma one_filter_commands:
  assumes "as_bq fmt (d_fs two_in_four_out) f = Inr cs" and "list_all one_line cs"
  shows "\<exists>cmds. filt fmt (Some (plain_entry t a [f])) two_in_four_out = Inr cmds \<and> list_all cmd_ok cmds"
proof -
  obtain s ss where ss: "to_allocator two_in_four_out = s # ss"
    and names: "\<forall>x \<in> set (s # ss). bs_name x = INPUT_NAME"
    by (simp add: two_in_four_out_slots)
  have "filt fmt (Some (plain_entry t a [f])) two_in_four_out
      = Inr (push cs s @ concat (map bypass_slot ss))"
    using assms(1) by (simp add: filt_def plain_entry_def ss)
  moreover have "list_all cmd_ok (concat (map bypass_slot ss))"
    using names input_slot_ok(2) [of _ cs] assms(2) by (auto simp: list_all_iff)
  ultimately show ?thesis using names input_slot_ok(1) [of s cs] assms(2) by simp
qed

lemma load_filter_outcome_witness:
  "\<exists>e. fst (load_filter stub_cfg ''2'' e stub_device) = Inr () \<and>
    map_option (\<lambda>st. map last_title (slots st)) (current (snd (load_filter stub_cfg ''2'' e stub_device)))
      = Some [JStr ''Empty'', JStr ''T'', JStr ''Empty'', JStr ''Empty'']"
proof -
  let ?cs = "[''1'', ''2'', ''3'', ''4'', ''5'']"
  let ?e = "plain_entry ''T'' ''A'' [plain_filter ''96000'' ?cs]"
  have "as_bq (\<lambda>_. '''') (d_fs two_in_four_out) (plain_filter ''96000'' ?cs) = Inr ?cs"
    by (simp add: as_bq_def plain_filter_def need_def two_in_four_out_def)
  moreover have "list_all one_line ?cs" by (simp add: newline_def)
  ultimately obtain cmds where cmds: "filt (\<lambda>_. '''') (Some ?e) two_in_four_out = Inr cmds"
    "list_all cmd_ok cmds" using one_filter_commands by blast
  then obtain d1 where s: "send_cmds stub_cfg (Some 1) cmds stub_device = (Inr (), d1)"
    using send_stub [OF drives_stub_cfg, of cmds "Some 1" stub_device] by auto
  have f: "filt (float_to_str stub_cfg) (Some ?e) (m_descriptor stub_cfg) = Inr cmds"
    using cmds(1) by (simp add: stub_cfg_def)
  have st: "current stub_device = Some (st_activate ''1'' example_state)" by (simp add: stub_device_def)
  have id: "''2'' \<in> set slot_ids" by (simp add: slot_ids_eq)
  have names: "ce_formatted_title ?e = ''T''" "ce_author ?e = ''A''" by (simp_all add: plain_entry_def)
  have "map last_title (slots (set_slot ''2'' (set_loaded (JStr ''T'') (JStr ''A''))
      (st_activate ''1'' example_state))) = [JStr ''Empty'', JStr ''T'', JStr ''Empty'', JStr ''Empty'']"
    by (simp add: set_slot_def st_activate_def example_state_def slot_ids_eq MinidspSlotState_def
        empty_title_def)
  with load_filter_outcome [OF stub_device_ok st id as_idx_2 f s] names show ?thesis
    by (intro exI [of _ ?e]) simp
qed

section \<open>Messages of the device\<close>

definition master_msg :: "rat \<Rightarrow> json \<Rightarrow> json \<Rightarrow> json" where
  "master_msg p mv mt = JObj [(''master'', JObj [(''preset'', JNum p), (''volume'', mv), (''mute'', mt)])]"

text \<open>
  Claim C19. A status message of the device updates the volume and the active slot, as long as its mute is
  the one already known; a message with another mute updates the volume, raises an
  \<^verbatim>\<open>AttributeError\<close> and leaves mute and active slot out of date.
\<close>

theorem status_message_outcome:
  assumes "device_ok state_wf d" and "hydrated d" and "current d = Some st"
  shows "(json_eq (st_mute st) mt \<longrightarrow> (\<exists>st'.
      fst (on_ws_message cfg (master_msg p mv mt) d) = Inr None \<and>
      current (snd (on_ws_message cfg (master_msg p mv mt) d)) = Some st' \<and>
      active_slot st' = preset_text p \<and> json_eq (master_volume st') mv \<and> st_mute st' = st_mute st)) \<and>
    (\<not> json_eq (st_mute st) mt \<longrightarrow> (\<exists>st'.
      fst (on_ws_message cfg (master_msg p mv mt) d) = Inl AttributeError \<and>
      current (snd (on_ws_message cfg (master_msg p mv mt) d)) = Some st' \<and>
      active_slot st' = active_slot st \<and> json_eq (master_volume st') mv \<and> st_mute st' = st_mute st))"
proof -
  let ?m = "JObj [(''preset'', JNum p), (''volume'', mv), (''mute'', mt)]"
  let ?h = "hydrate_cache_broadcast (minidsp_class cfg) (on_master ?m)"
  note H = hcb_on_hydrated [OF assms(1,2) on_master_maintains, of cfg ?m]
  have f: "fst (on_ws_message cfg (master_msg p mv mt) d)
      = (case fst (?h d) of Inl e \<Rightarrow> Inl e | Inr _ \<Rightarrow> Inr None)"
    and s: "current (snd (on_ws_message cfg (master_msg p mv mt) d)) = current (snd (?h d))"
    by (auto simp: on_ws_message_def master_msg_def act_simps split: prod.split sum.split)
  show ?thesis
    unfolding f s H using assms(3)
    by (auto simp: on_master_def act_simps with_current_def on_current_def preset_slot_def
        st_activate_def)
qed

lemma status_message_outcome_witness:
  "\<exists>st'. fst (on_ws_message stub_cfg (master_msg 2 (JNum (- 10)) (JBool True)) stub_device) = Inl AttributeError
    \<and> current (snd (on_ws_message stub_cfg (master_msg 2 (JNum (- 10)) (JBool True)) stub_device)) = Some st'
    \<and> active_slot st' = ''1''"
proof -
  have c: "current stub_device = Some (st_activate ''1'' example_state)" by (simp add: stub_device_def)
  have m: "\<not> json_eq (st_mute (st_activate ''1'' example_state)) (JBool True)"
    and a: "active_slot (st_activate ''1'' example_state) = ''1''"
    by (simp_all add: json_eq_def st_activate_def example_state_def)
  show ?thesis
    using conjunct2 [OF status_message_outcome [OF stub_device_ok c, of "JBool True" stub_cfg 2 "JNum (- 10)"]]
      m a by auto
qed

end
