(* ===== verification/Composite_Correct.thy ===== *)
theory Composite_Correct
  imports Composite Minidsp_Stub
begin

text \<open>
  What a composite guarantees: the outcome of an operation member by member, the slot ids it shows,
  and, over members that always report a state (the interface \<open>reporting_member\<close>, which the MiniDSP
  device satisfies), that cache and broadcasts hold the state after every operation.
\<close>

section \<open>Fan out, member by member\<close>

definition skips :: "'d composite_cfg \<Rightarrow> string \<Rightarrow> string \<Rightarrow> bool" where
  "skips cfg op name \<longleftrightarrow> op \<in> set (skip_ops (spec_of cfg name))"

definition after_job :: "'d composite_cfg \<Rightarrow> string \<Rightarrow> job \<Rightarrow> string \<times> 'd \<Rightarrow> string \<times> 'd" where
  "after_job cfg op job = (\<lambda>(n, d). (n, if skips cfg op n then d else snd (run_job cfg job n d)))"

definition failure :: "'d composite_cfg \<Rightarrow> string \<Rightarrow> job \<Rightarrow> string \<times> 'd \<Rightarrow> (string \<times> exn) list" where
  "failure cfg op job = (\<lambda>(n, d).
     if skips cfg op n then [] else (case fst (run_job cfg job n d) of Inl e \<Rightarrow> [(n, e)] | Inr _ \<Rightarrow> []))"

definition read_member :: "'d composite_cfg \<Rightarrow> bool \<Rightarrow> string \<Rightarrow> ('d, obj) act" where
  "read_member cfg refresh n d =
     (case class_of cfg n of None \<Rightarrow> (Inl (KeyError n), d) | Some cls \<Rightarrow> member_state cls refresh d)"

definition after_read :: "'d composite_cfg \<Rightarrow> bool \<Rightarrow> string \<times> 'd \<Rightarrow> string \<times> 'd" where
  "after_read cfg refresh = (\<lambda>(n, d). (n, snd (read_member cfg refresh n d)))"

definition reported :: "'d composite_cfg \<Rightarrow> bool \<Rightarrow> string \<times> 'd \<Rightarrow> (string \<times> obj) list" where
  "reported cfg refresh = (\<lambda>(n, d).
     case fst (read_member cfg refresh n d) of Inl _ \<Rightarrow> [] | Inr o' \<Rightarrow> [(n, o')])"

lemma run_members_eq:
  "run_members cfg op job ms = (concat (map (failure cfg op job) ms), map (after_job cfg op job) ms)"
  by (induction ms rule: run_members.induct)
    (auto simp: failure_def after_job_def skips_def split: prod.split sum.split)

lemma read_all_states_eq:
  "read_all_states cfg refresh ms
     = (concat (map (reported cfg refresh) ms), map (after_read cfg refresh) ms)"
  by (induction cfg refresh ms rule: read_all_states.induct)
    (auto simp: reported_def after_read_def read_member_def split: prod.split sum.split option.split)

lemma refresh_members_eq:
  "current d = Some st \<Longrightarrow> refresh_members cfg refresh d =
     (Inr (), d\<lparr>world := map (after_read cfg refresh) (world d),
                current := Some (update_members (concat (map (reported cfg refresh) (world d))) st)\<rparr>)"
  by (simp add: refresh_members_def read_all_states_eq on_current_def modify_def)

lemma fan_out_eq:
  assumes "current d = Some st"
  shows "fan_out cfg op job d =
    (let called = map (after_job cfg op job) (world d);
         errs = concat (map (failure cfg op job) (world d))
     in (if errs \<noteq> [] then Inl (UnableToPatchDeviceError (MemberErrors (cc_name cfg) op errs) False) else Inr (),
         d\<lparr>world := map (after_read cfg False) called,
           current := Some (update_members (concat (map (reported cfg False) called)) st)\<rparr>))"
  using assms by (simp add: fan_out_def run_members_eq refresh_members_eq Let_def)

definition composite_after :: "'d composite_cfg \<Rightarrow> string \<Rightarrow> job \<Rightarrow> 'd members \<Rightarrow> composite_state \<Rightarrow> composite_state" where
  "composite_after cfg op job ms st =
     update_members (concat (map (reported cfg False) (map (after_job cfg op job) ms))) st"

lemma c_fan_hydrated:
  assumes "hydrated d" and "current d = Some st"
  shows "c_fan cfg op job d =
    (let st' = composite_after cfg op job (world d) st;
         errs = concat (map (failure cfg op job) (world d));
         r = (if errs \<noteq> [] then Inl (UnableToPatchDeviceError (MemberErrors (cc_name cfg) op errs) False)
              else Inr ());
         d' = d\<lparr>world := map (after_read cfg False \<circ> after_job cfg op job) (world d), current := Some st'\<rparr>
     in case c_serialise st' of
          Inl e \<Rightarrow> (Inl e, d')
        | Inr j \<Rightarrow> (r, d'\<lparr>cache := Stored j, broadcasts := broadcasts d @ [StateMsg j]\<rparr>))"
  using assms
  by (simp add: c_fan_def hydrate_cache_broadcast_def hydrate_def and_then_def try_finally_def
      fan_out_eq composite_after_def composite_class_def persist_def broadcast_state_def Let_def
      comp_def split: sum.split)

text \<open>
  Claim C22. A composite operation is best effort: every member that does not skip the operation gets its
  own translated call, on its own device, whatever happens to the others; a member that skips it is
  not called. The operation raises exactly when some call raised, naming those members and their
  exceptions in member order, and either way the composite shows the fresh state of every member that
  reports one and the earlier state of the others.
\<close>

theorem composite_best_effort:
  assumes "hydrated d" and "current d = Some st"
    and "c_serialise (composite_after cfg op job (world d) st) = Inr j"
  defines "d' \<equiv> snd (c_fan cfg op job d)"
  shows "fst (c_fan cfg op job d) =
      (case concat (map (failure cfg op job) (world d)) of
         [] \<Rightarrow> Inr ()
       | errs \<Rightarrow> Inl (UnableToPatchDeviceError (MemberErrors (cc_name cfg) op errs) False)) \<and>
    world d' = map (\<lambda>(n, m). (n, snd (read_member cfg False n
      (if skips cfg op n then m else snd (run_job cfg job n m))))) (world d) \<and>
    current d' = Some (update_members (concat (map (\<lambda>(n, m). reported cfg False (n,
      if skips cfg op n then m else snd (run_job cfg job n m))) (world d))) st) \<and>
    cache d' = Stored j \<and> last (broadcasts d') = StateMsg j"
proof -
  have w: "map (after_read cfg False \<circ> after_job cfg op job) (world d)
      = map (\<lambda>(n, m). (n, snd (read_member cfg False n
          (if skips cfg op n then m else snd (run_job cfg job n m))))) (world d)"
    by (intro map_cong) (auto simp: after_read_def after_job_def)
  have r: "map (reported cfg False) (map (after_job cfg op job) (world d))
      = map (\<lambda>(n, m). reported cfg False (n,
          if skips cfg op n then m else snd (run_job cfg job n m))) (world d)"
    unfolding map_map by (intro map_cong) (auto simp: after_job_def)
  show ?thesis
    using assms(3) unfolding d'_def c_fan_hydrated [OF assms(1,2)]
    by (cases "concat (map (failure cfg op job) (world d))")
      (simp_all add: Let_def w r [unfolded map_map] composite_after_def del: concat_eq_Nil_conv)
qed

section \<open>When a composite can serialise\<close>

definition obj_ok :: "obj \<Rightarrow> bool" where
  "obj_ok m \<longleftrightarrow> (case map_of m ''slots'' of
     None \<Rightarrow> True
   | Some (JList ss) \<Rightarrow> list_all (\<lambda>s. case s of JObj d \<Rightarrow> map_of d ''id'' \<noteq> None | _ \<Rightarrow> False) ss
   | Some _ \<Rightarrow> False)"

definition c_good :: "composite_state \<Rightarrow> bool" where
  "c_good st \<longleftrightarrow> member_states st \<noteq> [] \<and> (\<forall>p \<in> set (member_states st). obj_ok (snd p))"

lemma map_slots_total: "obj_ok m \<Longrightarrow> \<exists>r. map_slots b m = Inr r"
proof -
  have "\<exists>r. map_result (map_slot_id b) ss = Inr r"
    if "list_all (\<lambda>s. case s of JObj d \<Rightarrow> map_of d ''id'' \<noteq> None | _ \<Rightarrow> False) ss" for ss
    using that by (induction ss) (auto simp: map_slot_id_def split: json.splits)
  then show "obj_ok m \<Longrightarrow> \<exists>r. map_slots b m = Inr r"
    unfolding obj_ok_def map_slots_def by (auto split: option.splits json.splits sum.splits) fastforce+
qed

lemma set_dict_update: "set (dict_update d e) \<subseteq> set d \<union> set e"
proof (induction e arbitrary: d)
  case (Cons p e)
  have "set (dict_update (dict_set d (fst p) (snd p)) e) \<subseteq> set (dict_set d (fst p) (snd p)) \<union> set e"
    by (rule Cons.IH)
  then show ?case using set_dict_set [of d "fst p" "snd p"] by (auto simp: dict_update_Cons)
qed simp

lemma c_serialise_total: "c_good st \<Longrightarrow> \<exists>j. c_serialise st = Inr j"
proof -
  assume g: "c_good st"
  then obtain q m' rest where ne: "member_states st = (q, m') # rest"
    by (cases "member_states st") (auto simp: c_good_def)
  obtain n where n: "name_used st = Some n" "n \<in> set (keys (member_states st))"
    by (cases "primary_name st \<in> set (keys (member_states st))") (auto simp: name_used_def ne)
  then obtain m where "map_of (member_states st) n = Some m"
    by (metis map_of_eq_None_iff not_Some_eq list.set_map)
  then have "dict_get (member_states st) n [] = m" and "obj_ok m"
    using g map_of_SomeD by (force simp: dict_get_def c_good_def)+
  then show ?thesis
    using n map_slots_total [of m "inverse_slot_map (dict_get (specs st) n no_spec)"]
    by (auto simp: c_serialise_def)
qed

lemma update_members_good:
  assumes "\<And>p. p \<in> set fresh \<Longrightarrow> obj_ok (snd p)" and "c_good st"
  shows "c_good (update_members fresh st)"
proof -
  have "fst ` set (dict_update (member_states st) fresh) \<noteq> {}"
    using assms(2) unfolding set_keys_dict_update by (simp add: c_good_def)
  then have "dict_update (member_states st) fresh \<noteq> []" by (metis image_is_empty set_empty)
  then show ?thesis
    using assms set_dict_update [of "member_states st" fresh]
    by (auto simp: c_good_def update_members_def)
qed

section \<open>Members that always report\<close>

text \<open>The interface: a device that answers every state read and keeps \<open>healthy\<close> whatever is called.\<close>

locale reporting_member =
  fixes cls :: "'d member_class" and healthy :: "'d \<Rightarrow> bool"
  assumes answers: "healthy d \<Longrightarrow> \<exists>m. fst (member_state cls r d) = Inr m \<and> obj_ok m"
    and state_keeps: "healthy d \<Longrightarrow> healthy (snd (member_state cls r d))"
    and call_keeps: "healthy d \<Longrightarrow> healthy (snd (member_call cls call d))"

definition members_ok :: "'d member_class \<Rightarrow> ('d \<Rightarrow> bool) \<Rightarrow> 'd composite_cfg \<Rightarrow> 'd members \<Rightarrow> bool" where
  "members_ok cls healthy cfg ms \<longleftrightarrow>
     ms \<noteq> [] \<and> (\<forall>p \<in> set ms. class_of cfg (fst p) = Some cls \<and> healthy (snd p))"

definition composite_ok :: "'d member_class \<Rightarrow> ('d \<Rightarrow> bool) \<Rightarrow> 'd composite_cfg \<Rightarrow> 'd composite_dev \<Rightarrow> bool" where
  "composite_ok cls healthy cfg d \<longleftrightarrow> members_ok cls healthy cfg (world d)
     \<and> (hydrated d \<longrightarrow> (\<exists>st. current d = Some st \<and> c_good st))"

context reporting_member
begin

lemma after_read_ok: "members_ok cls healthy cfg ms \<Longrightarrow> members_ok cls healthy cfg (map (after_read cfg r) ms)"
  using state_keeps by (fastforce simp: members_ok_def after_read_def read_member_def)

lemma after_job_ok: "members_ok cls healthy cfg ms \<Longrightarrow> members_ok cls healthy cfg (map (after_job cfg op job) ms)"
  using call_keeps by (fastforce simp: members_ok_def after_job_def run_job_def split: sum.split)

lemma reported_ok:
  assumes "members_ok cls healthy cfg ms"
  shows "concat (map (reported cfg r) ms) \<noteq> []"
    and "p \<in> set (concat (map (reported cfg r) ms)) \<Longrightarrow> obj_ok (snd p)"
proof -
  have one: "\<exists>m. reported cfg r q = [(fst q, m)] \<and> obj_ok m" if "q \<in> set ms" for q
    using assms that answers [of "snd q" r] by (cases q) (force simp: members_ok_def reported_def read_member_def)
  show "concat (map (reported cfg r) ms) \<noteq> []"
    using assms one by (cases ms) (force simp: members_ok_def)+
  show "obj_ok (snd p)" if "p \<in> set (concat (map (reported cfg r) ms))"
    using that one by force
qed

lemma hydrate_composite:
  assumes "composite_ok cls healthy cfg d"
  shows "\<exists>b d1. hydrate (composite_class cfg) False d = (Inr b, d1) \<and> hydrated d1
    \<and> composite_ok cls healthy cfg d1"
proof (cases "hydrated d")
  case True
  with assms have "hydrate (composite_class cfg) False d = (Inr False, d) \<and> hydrated d
      \<and> composite_ok cls healthy cfg d" by (simp add: hydrate_def)
  then show ?thesis by blast
next
  case False
  let ?sts = "concat (map (reported cfg False) (world d))"
  have w: "members_ok cls healthy cfg (world d)" using assms by (simp add: composite_ok_def)
  define st0 where "st0 = \<lparr>c_name = cc_name cfg, primary_name = cc_primary cfg, specs = cc_specs cfg,
    member_states = ?sts\<rparr>"
  let ?d1 = "d\<lparr>world := map (after_read cfg False) (world d), current := Some st0, state_provider := True,
    hydrated := True\<rparr>"
  have h: "hydrate (composite_class cfg) False d = (Inr True, ?d1)"
    using False
    by (simp add: hydrate_def composite_class_def c_load_initial_state_def read_all_states_eq
        merge_cache_def Let_def st0_def split: cache_file.split)
  have "c_good st0" using reported_ok [OF w, where r = False] by (simp add: c_good_def st0_def)
  then have "composite_ok cls healthy cfg ?d1"
    using after_read_ok [OF w, of False] by (simp add: composite_ok_def)
  with h show ?thesis by (intro exI conjI) auto
qed

lemma c_fan_coherent:
  assumes "composite_ok cls healthy cfg d"
  shows "composite_ok cls healthy cfg (snd (c_fan cfg op job d))
    \<and> coherent (composite_class cfg) (snd (c_fan cfg op job d)) \<and> hydrated (snd (c_fan cfg op job d))"
proof -
  obtain b d1 where h: "hydrate (composite_class cfg) False d = (Inr b, d1)" "hydrated d1"
      and ok: "composite_ok cls healthy cfg d1"
    using hydrate_composite [OF assms] by blast
  then obtain st where st: "current d1 = Some st" "c_good st" by (auto simp: composite_ok_def)
  have same: "c_fan cfg op job d = c_fan cfg op job d1"
    using h by (simp add: c_fan_def hydrate_cache_broadcast_def and_then_def) (simp add: hydrate_def)
  let ?ms = "map (after_job cfg op job) (world d1)"
  have ms: "members_ok cls healthy cfg ?ms"
    using ok by (intro after_job_ok) (simp add: composite_ok_def)
  have g: "c_good (composite_after cfg op job (world d1) st)"
    unfolding composite_after_def by (intro update_members_good st(2) reported_ok(2) [OF ms])
  then obtain j where j: "c_serialise (composite_after cfg op job (world d1) st) = Inr j"
    using c_serialise_total by blast
  have w: "members_ok cls healthy cfg (map (after_read cfg False \<circ> after_job cfg op job) (world d1))"
    using after_read_ok [OF ms, of False] by simp
  show ?thesis
    unfolding same c_fan_hydrated [OF h(2) st(1)]
    using g j w h(2) by (simp add: Let_def composite_ok_def coherent_def composite_class_def)
qed

lemma hydrated_fan: "maintains (\<lambda>d. composite_ok cls healthy cfg d \<and> hydrated d) (c_fan cfg op job)"
  using c_fan_coherent by (simp add: maintains_def)

lemmas fan_ops = c_activate_def c_load_filter_def c_clear_filter_def c_mute_def c_unmute_def
  c_set_gain_def c_load_biquads_def c_send_commands_def

lemma update_slot_keeps: "maintains (\<lambda>d. composite_ok cls healthy cfg d \<and> hydrated d) (c_update_slot cfg slot)"
  unfolding c_update_slot_def c_entry_block_def fan_ops
  by (intro keeps_intros hydrated_fan)

lemma update_slots_keeps:
  "maintains (\<lambda>d. composite_ok cls healthy cfg d \<and> hydrated d) (c_update_slots cfg ss acc)"
  by (induction ss arbitrary: acc) (auto intro!: keeps_intros update_slot_keeps)

lemma update_coherent:
  assumes "composite_ok cls healthy cfg d"
  shows "composite_ok cls healthy cfg (snd (c_update cfg params d))
    \<and> coherent (composite_class cfg) (snd (c_update cfg params d))"
proof -
  obtain b d1 where h: "hydrate (composite_class cfg) False d = (Inr b, d1)" "hydrated d1"
      and ok: "composite_ok cls healthy cfg d1"
    using hydrate_composite [OF assms] by blast
  have fin: "composite_ok cls healthy cfg (snd (hydrate_cache_broadcast (composite_class cfg) f d))
      \<and> coherent (composite_class cfg) (snd (hydrate_cache_broadcast (composite_class cfg) f d))"
    if "maintains (\<lambda>d. composite_ok cls healthy cfg d \<and> hydrated d) f" for f :: "('d composite_dev, bool) act"
  proof -
    obtain r d2 where f: "f d1 = (r, d2)" by (cases "f d1")
    then have c2: "composite_ok cls healthy cfg d2 \<and> hydrated d2"
      using maintainsD [OF that, of d1] ok h(2) by simp
    then obtain st j where "current d2 = Some st" "c_serialise st = Inr j"
      using c_serialise_total by (fastforce simp: composite_ok_def)
    with c2 show ?thesis
      using h f by (simp add: hydrate_cache_broadcast_def and_then_def try_finally_def persist_def
          broadcast_state_def composite_class_def coherent_def composite_ok_def)
  qed
  show ?thesis
    unfolding c_update_def on_key_def fan_ops
    by (intro fin keeps_intros update_slots_keeps hydrated_fan)
qed

end

section \<open>The MiniDSP reports\<close>

definition counts_ok :: "'w minidsp_cfg \<Rightarrow> bool" where
  "counts_ok cfg \<longleftrightarrow> (\<exists>ic. channel_count (d_input (m_descriptor cfg)) = Inr ic)
     \<and> (\<exists>oc. channel_count (d_output (m_descriptor cfg)) = Inr oc)"

lemma load_state_answers:
  assumes "counts_ok cfg" shows "\<exists>st d'. load_state cfg d = (Inr st, d')"
  using assms
  by (auto simp: load_state_def counts_ok_def MinidspState_def split: prod.split option.split)

lemma hydrate_answers:
  assumes "counts_ok cfg"
  shows "\<exists>b d'. hydrate (minidsp_class cfg) r d = (Inr b, d')"
  using load_state_answers [OF assms, of d] by (cases "\<not> hydrated d \<or> r") (auto simp: hydrate_def Let_def)

lemma state_answers:
  assumes "counts_ok cfg" and ok: "device_ok state_wf d"
  shows "\<exists>st d'. state cfg r d = (Inr (Some st), d')"
proof -
  obtain b d1 where h: "hydrate (minidsp_class cfg) False d = (Inr b, d1)"
    using hydrate_answers [OF assms(1)] by blast
  obtain new d2 where l: "load_state cfg d1 = (Inr new, d2)" using load_state_answers [OF assms(1)] by blast
  obtain st where st: "current d1 = Some st"
    using minidsp.hydrate_ok(1) [OF ok h] by (auto simp: ready_def)
  then have "current d2 = Some st" using load_core [OF l] by (simp add: same_core_def)
  then show ?thesis
    using h l st
    by (auto simp: state_def and_then_def with_current_def on_current_def modify_def ok_def
        broadcast_state_def)
qed

lemma serialised_obj_ok: "obj_ok (as_obj (st_serialise st))"
  by (auto simp: obj_ok_def as_obj_def st_serialise_def minidsp_slot_as_dict_def slot_as_dict_def
      list_all_iff)

definition minidsp_healthy :: "'w minidsp_cfg \<Rightarrow> 'w minidsp_dev \<Rightarrow> bool" where
  "minidsp_healthy cfg d \<longleftrightarrow> counts_ok cfg \<and> device_ok state_wf d"

lemma minidsp_call_run_dev: "\<exists>op. minidsp_call cfg c = run_dev cfg op"
proof (cases c)
  case (MActivate s)
  then show ?thesis by (intro exI [of _ "OpActivate s"]) simp
next
  case (MLoadFilter s e mv)
  then show ?thesis by (intro exI [of _ "OpLoadFilter s e"]) simp
next
  case (MClearFilter s)
  then show ?thesis by (intro exI [of _ "OpClearFilter s"]) simp
next
  case (MLoadBiquads s ov i out bqs)
  then show ?thesis by (intro exI [of _ "OpLoadBiquads s ov i out bqs"]) simp
next
  case (MSendCommands s i out cs)
  then show ?thesis by (intro exI [of _ "OpSendCommands s i out cs"]) simp
next
  case (MMute s ch)
  then show ?thesis by (intro exI [of _ "OpMute s ch"]) simp
next
  case (MUnmute s ch)
  then show ?thesis by (intro exI [of _ "OpUnmute s ch"]) simp
next
  case (MSetGain s ch g)
  then show ?thesis by (intro exI [of _ "OpSetGain s ch g"]) simp
qed

interpretation minidsp_reports: reporting_member "minidsp_member cfg" "minidsp_healthy cfg" for cfg
proof unfold_locales
  fix d r assume h: "minidsp_healthy cfg d"
  then obtain st d' where s: "state cfg r d = (Inr (Some st), d')"
    using state_answers unfolding minidsp_healthy_def by blast
  then show "\<exists>m. fst (member_state (minidsp_member cfg) r d) = Inr m \<and> obj_ok m"
    by (simp add: minidsp_member_def minidsp_member_state_def and_then_def ok_def serialised_obj_ok)
  have "device_ok state_wf d'" using maintainsD [OF state_maintains, of d cfg r] h s
    by (simp add: minidsp_healthy_def)
  then show "minidsp_healthy cfg (snd (member_state (minidsp_member cfg) r d))"
    using h s by (simp add: minidsp_member_def minidsp_member_state_def and_then_def ok_def minidsp_healthy_def)
next
  fix d call assume h: "minidsp_healthy cfg d"
  obtain op where "minidsp_call cfg call = run_dev cfg op" using minidsp_call_run_dev by blast
  then show "minidsp_healthy cfg (snd (member_call (minidsp_member cfg) call d))"
    using h run_dev_result [of d cfg op] by (simp add: minidsp_member_def minidsp_healthy_def)
qed

text \<open>A composite over new MiniDSPs, and what any operations and updates make of it.\<close>

inductive composite_history ::
  "'w minidsp_cfg \<Rightarrow> 'w minidsp_dev composite_cfg \<Rightarrow> 'w minidsp_dev composite_dev \<Rightarrow> bool" for mcfg cfg where
  start: "ms \<noteq> [] \<Longrightarrow> \<forall>p \<in> set ms. class_of cfg (fst p) = Some (minidsp_member mcfg)
      \<and> (\<exists>f w. snd p = new_device f w) \<Longrightarrow> composite_history mcfg cfg (new_device cf ms)"
| fan: "composite_history mcfg cfg d \<Longrightarrow> composite_history mcfg cfg (snd (c_fan cfg op job d))"
| update: "composite_history mcfg cfg d \<Longrightarrow> composite_history mcfg cfg (snd (c_update cfg params d))"

text \<open>
  Claim C23. A composite of MiniDSPs never loses track: in every history of operations and updates,
  whichever members fail, after the next one the composite's cache file and last broadcast hold its
  current state.
\<close>

theorem composite_history_coherent:
  assumes "counts_ok mcfg" and "composite_history mcfg cfg d"
  shows "coherent (composite_class cfg) (snd (c_fan cfg op job d))
    \<and> coherent (composite_class cfg) (snd (c_update cfg params d))"
proof -
  have "composite_ok (minidsp_member mcfg) (minidsp_healthy mcfg) cfg d"
    using assms(2)
  proof (induction rule: composite_history.induct)
    case (start ms cf)
    then show ?case
      using assms(1)
      by (fastforce simp: composite_ok_def members_ok_def minidsp_healthy_def new_device_def device_ok_def)
  next
    case (fan d op job)
    then show ?case using minidsp_reports.c_fan_coherent by blast
  next
    case (update d params)
    then show ?case using minidsp_reports.update_coherent by blast
  qed
  then show ?thesis
    using minidsp_reports.c_fan_coherent minidsp_reports.update_coherent by blast
qed

text \<open>One simulated MiniDSP behind a composite, after a failed load.\<close>

definition stub_array_cfg :: "stub minidsp_dev composite_cfg" where
  "stub_array_cfg =
     \<lparr>cc_name = ''array'', cc_primary = ''m'', cc_classes = [(''m'', minidsp_member stub_cfg)],
      cc_specs = [], cc_find = (\<lambda>_. Inr None)\<rparr>"

lemma stub_counts_ok: "counts_ok stub_cfg"
  by (simp add: counts_ok_def stub_cfg_def)

theorem composite_history_coherent_witness:
  "coherent (composite_class stub_array_cfg)
     (snd (c_mute stub_array_cfg (Some ''2'') None
       (snd (c_activate stub_array_cfg ''9'' (new_device NoFile [(''m'', new_device NoFile new_stub)])))))"
proof -
  have "composite_history stub_cfg stub_array_cfg (new_device NoFile [(''m'', new_device NoFile new_stub)])"
    by (rule composite_history.start) (auto simp: stub_array_cfg_def class_of_def)
  then have "composite_history stub_cfg stub_array_cfg
      (snd (c_activate stub_array_cfg ''9'' (new_device NoFile [(''m'', new_device NoFile new_stub)])))"
    unfolding c_activate_def by (rule composite_history.fan)
  from composite_history_coherent [OF stub_counts_ok this] show ?thesis by (simp add: c_mute_def)
qed

section \<open>Slot ids\<close>

lemma map_of_inverse:
  "distinct (map snd ps) \<Longrightarrow>
   map_of (foldl (\<lambda>acc p. dict_set acc (snd p) (fst p)) acc ps)
     = map_of acc ++ map_of (map (\<lambda>p. (snd p, fst p)) ps)"
proof (induction ps arbitrary: acc)
  case (Cons p ps)
  have "map_of (map (\<lambda>p. (snd p, fst p)) ps) (snd p) = None"
    using Cons.prems by (simp add: map_of_eq_None_iff image_image)
  then show ?case using Cons by (auto simp: fun_eq_iff map_add_def split: option.split)
qed simp

lemma inverse_slot_map_get:
  assumes "distinct (keys (slot_map sp))" and "distinct (map snd (slot_map sp))"
    and "s \<in> set (keys (slot_map sp)) \<or> s \<notin> set (map snd (slot_map sp))"
  defines "m \<equiv> dict_get (slot_map sp) s s"
  shows "dict_get (inverse_slot_map sp) m m = s"
proof -
  have inv: "map_of (inverse_slot_map sp) = map_of (map (\<lambda>p. (snd p, fst p)) (slot_map sp))"
    using map_of_inverse [OF assms(2), of "[]"] by (simp add: inverse_slot_map_def)
  show ?thesis
  proof (cases "map_of (slot_map sp) s")
    case None
    then have "s \<notin> set (map snd (slot_map sp))" using assms(3) by (auto simp: map_of_eq_None_iff)
    then have "map_of (map (\<lambda>p. (snd p, fst p)) (slot_map sp)) s = None"
      by (force simp: map_of_eq_None_iff)
    with None show ?thesis by (simp add: m_def dict_get_def inv)
  next
    case (Some v)
    then have "(v, s) \<in> set (map (\<lambda>p. (snd p, fst p)) (slot_map sp))" by (force dest: map_of_SomeD)
    moreover have "distinct (map fst (map (\<lambda>p. (snd p, fst p)) (slot_map sp)))"
      using assms(2) by (simp add: comp_def)
    ultimately have "map_of (map (\<lambda>p. (snd p, fst p)) (slot_map sp)) v = Some s" by simp
    with Some show ?thesis by (simp add: m_def dict_get_def inv)
  qed
qed

text \<open>
  The slot ids of a composite are its own: when a slot map gives no two composite slots the same
  member slot, the slot a composite operation addresses on a member is shown back under the id the
  operation was called with.
\<close>

theorem composite_slot_roundtrip:
  assumes "class_of cfg n = Some cls" and "fixed_slot_id cls = None"
    and "distinct (keys (slot_map (spec_of cfg n)))" and "distinct (map snd (slot_map (spec_of cfg n)))"
    and "s \<in> set (keys (slot_map (spec_of cfg n))) \<or> s \<notin> set (map snd (slot_map (spec_of cfg n)))"
    and "map_of slot ''id'' = Some (JStr (the_slot cfg n s))"
  shows "map_slot_id (inverse_slot_map (spec_of cfg n)) (JObj slot) = Inr (JObj (dict_set slot ''id'' (JStr s)))"
  using assms inverse_slot_map_get [OF assms(3-5)]
  by (simp add: map_slot_id_def the_slot_def translate_slot_def)

section \<open>An example\<close>

text \<open>Two members counting their calls; the second raises on every call but still reports.\<close>

definition counter :: "bool \<Rightarrow> nat member_class" where
  "counter works =
     \<lparr>supported_ops = ALL_OPS, fixed_slot_id = None,
      member_call = (\<lambda>_ n. (if works then Inr () else Inl (External ''offline''), n + 1)),
      member_state = (\<lambda>_ n. (Inr [(''count'', JNum (of_nat n))], n)),
      member_levels = (\<lambda>n. (Inr JNull, n))\<rparr>"

definition demo_cfg :: "nat composite_cfg" where
  "demo_cfg =
     \<lparr>cc_name = ''array'', cc_primary = ''a'', cc_classes = [(''b'', counter False), (''a'', counter True)],
      cc_specs = [(''a'', \<lparr>slot_map = [(''1'', ''4''), (''2'', ''1'')], channel_map = [], skip_ops = [],
        mv_adjust = 0\<rparr>)], cc_find = (\<lambda>_. Inr None)\<rparr>"

definition demo_device :: "nat composite_dev" where
  "demo_device =
     \<lparr>hydrated = True,
      current = Some \<lparr>c_name = ''array'', primary_name = ''a'', specs = cc_specs demo_cfg,
        member_states = [(''b'', []), (''a'', [])]\<rparr>,
      cache = NoFile, state_provider = True, broadcasts = [], world = [(''b'', 0), (''a'', 0)]\<rparr>"

lemmas demo_defs = demo_cfg_def demo_device_def counter_def class_of_def spec_of_def no_spec_def dict_get_def

lemma composite_best_effort_witness:
  "fst (c_activate demo_cfg ''1'' demo_device)
     = Inl (UnableToPatchDeviceError (MemberErrors ''array'' ''activate'' [(''b'', External ''offline'')]) False)
   \<and> world (snd (c_activate demo_cfg ''1'' demo_device)) = [(''b'', 1), (''a'', 1)]"
proof -
  let ?job = "\<lambda>name. Inr (MActivate (the_slot demo_cfg name ''1'')) :: exn + member_call"
  obtain st where st: "current demo_device = Some st" and h: "hydrated demo_device"
    by (simp add: demo_device_def)
  have "\<exists>j. c_serialise (composite_after demo_cfg ''activate'' ?job (world demo_device) st) = Inr j"
    using st by (auto simp: demo_defs composite_after_def after_job_def reported_def read_member_def
        run_job_def skips_def update_members_def dict_update_def c_serialise_def name_used_def map_slots_def)
  then obtain j where j: "c_serialise (composite_after demo_cfg ''activate'' ?job (world demo_device) st) = Inr j" ..
  show ?thesis
    using composite_best_effort [OF h st j]
    by (simp add: c_activate_def) (simp add: demo_defs failure_def skips_def run_job_def read_member_def)
qed

lemma composite_slot_roundtrip_witness:
  "map_slot_id (inverse_slot_map (spec_of demo_cfg ''a'')) (JObj [(''id'', JStr ''4'')])
     = Inr (JObj [(''id'', JStr ''1'')])"
  using composite_slot_roundtrip [of demo_cfg "''a''" "counter True" "''1''" "[(''id'', JStr ''4'')]"]
  by (simp add: demo_defs the_slot_def translate_slot_def)

end
