(* ===== verification/Device_Config.thy ===== *)
theory Device_Config
  imports Composite_Correct "HOL-Library.List_Lexorder" "HOL-Library.Char_ord"
begin

text \<open>
  \<^verbatim>\<open>ezbeq/device.py\<close> above a single device: the start up validation of composite configurations, the
  construction of all devices, and the repository that dispatches to them. Lemmas: validation accepts
  exactly the well formed configurations, whatever order the composites are visited in; the devices
  come back in the order of the configuration; one failing device does not hide the others.
\<close>

section \<open>Device classes\<close>

definition quoted :: "string \<Rightarrow> string" where
  "quoted s = CHR 0x27 # s @ [CHR 0x27]"

text \<open>\<^verbatim>\<open>_device_class_for_type\<close>, as what is read of the class: \<^verbatim>\<open>SUPPORTED_OPS\<close> and \<^verbatim>\<open>FIXED_SLOT_ID\<close>.\<close>

record class_info =
  ci_ops :: "string list"
  ci_slot :: "string option"

definition single_ops :: "string list" where
  "single_ops = [''activate'', ''load_filter'', ''clear_filter'']"

definition device_class_for_type :: "string \<Rightarrow> exn + class_info" where
  "device_class_for_type t =
     (if t = ''minidsp'' then Inr \<lparr>ci_ops = ALL_OPS, ci_slot = None\<rparr>
      else if t = ''htp1'' then Inr \<lparr>ci_ops = single_ops, ci_slot = Some ''HTP1''\<rparr>
      else if t = ''stormaudio'' then Inr \<lparr>ci_ops = single_ops, ci_slot = Some ''StormAudio''\<rparr>
      else if t = ''jriver'' then Inr \<lparr>ci_ops = single_ops, ci_slot = None\<rparr>
      else if t = ''qsys'' then Inr \<lparr>ci_ops = single_ops, ci_slot = Some ''QSYS''\<rparr>
      else if t = ''camilladsp'' then
        Inr \<lparr>ci_ops = single_ops @ [''mute'', ''unmute'', ''set_gain''], ci_slot = Some ''CamillaDSP''\<rparr>
      else if t = ''reaper'' then Inr \<lparr>ci_ops = single_ops, ci_slot = Some ''REAPER''\<rparr>
      else Inl (ValueError (''Unknown device type '' @ quoted t)))"

section \<open>Validation\<close>

record device_cfg =
  dc_type :: string
  dc_mode :: "string option"
  dc_members :: members_cfg
  dc_primary :: "string option"
  dc_allow_partial :: bool
  dc_expose :: bool

type_synonym devices_cfg = "(string, device_cfg) pydict"

definition composite_member_names :: "device_cfg \<Rightarrow> string list" where
  "composite_member_names v =
     (case dc_members v of NoMembers \<Rightarrow> [] | MemberList ns \<Rightarrow> ns | MemberMap d \<Rightarrow> keys d)"

definition BALANCE_OPS :: "string list" where
  "BALANCE_OPS = [''set_gain'', ''mute'', ''unmute'']"

definition type_of :: "devices_cfg \<Rightarrow> string \<Rightarrow> exn + string" where
  "type_of cfg n = (case map_of cfg n of None \<Rightarrow> Inl (KeyError n) | Some v \<Rightarrow> Inr (dc_type v))"

definition effective_support :: "devices_cfg \<Rightarrow> members_cfg \<Rightarrow> string \<Rightarrow> exn + string list" where
  "effective_support cfg mc n =
     (case type_of cfg n of
        Inl e \<Rightarrow> Inl e
      | Inr t \<Rightarrow>
          (case device_class_for_type t of
             Inl e \<Rightarrow> Inl e
           | Inr cls \<Rightarrow>
               (case (case mc of NoMembers \<Rightarrow> Inr no_override | _ \<Rightarrow> member_override mc n) of
                  Inl e \<Rightarrow> Inl e
                | Inr v \<Rightarrow> Inr (filter (\<lambda>x. x \<notin> set (o_skip_ops v)) (ci_ops cls)))))"

fun check_balance :: "string \<Rightarrow> (string \<times> string list) list \<Rightarrow> string list \<Rightarrow> exn + unit" where
  "check_balance name support [] = Inr ()"
| "check_balance name support (op # ops) =
     (let supporting = remdups (map fst (filter (\<lambda>p. op \<in> set (snd p)) support)) in
      if supporting \<noteq> [] \<and> length supporting < length support
      then Inl (ValueError (''Composite device '' @ quoted name @ '' would apply '' @ quoted op
             @ '' to some members but not others (''
             @ join '', '' (sort (remdups (filter (\<lambda>m. m \<notin> set supporting) (map fst support))))
             @ '' do not support it)''))
      else check_balance name support ops)"

definition validate_no_silent_partial_gain ::
  "string \<Rightarrow> device_cfg \<Rightarrow> string list \<Rightarrow> devices_cfg \<Rightarrow> exn + unit" where
  "validate_no_silent_partial_gain name v members cfg =
     (if dc_allow_partial v then Inr ()
      else (case map_result (effective_support cfg (dc_members v)) members of
              Inl e \<Rightarrow> Inl e
            | Inr ops \<Rightarrow> check_balance name (zip members ops) BALANCE_OPS))"

definition composite_names :: "devices_cfg \<Rightarrow> string list" where
  "composite_names cfg = map fst (filter (\<lambda>p. dc_type (snd p) = ''composite'') cfg)"

text \<open>The loop over the members of one composite; \<open>seen\<close> maps a member to its composite.\<close>

fun check_members ::
  "devices_cfg \<Rightarrow> string \<Rightarrow> string list \<Rightarrow> (string, string) pydict \<Rightarrow> exn + (string, string) pydict" where
  "check_members cfg name [] seen = Inr seen"
| "check_members cfg name (m # ms) seen =
     (if m \<notin> set (keys cfg) then
        Inl (ValueError (''Composite device '' @ quoted name @ '' references unknown member '' @ quoted m))
      else if m \<in> set (composite_names cfg) then
        Inl (ValueError (''Composite device '' @ quoted name @ '' references '' @ quoted m
          @ '' which is itself a composite - nesting composite devices is not supported''))
      else (case map_of seen m of
              Some first \<Rightarrow>
                Inl (ValueError (''Device '' @ quoted m @ '' cannot be a member of more than one composite (''
                  @ quoted first @ '' and '' @ quoted name @ '')''))
            | None \<Rightarrow> check_members cfg name ms (dict_set seen m name)))"

definition member_types :: "devices_cfg \<Rightarrow> string list \<Rightarrow> exn + string list" where
  "member_types cfg members =
     (case map_result (type_of cfg) members of Inl e \<Rightarrow> Inl e | Inr ts \<Rightarrow> Inr (remdups ts))"

definition check_mode ::
  "devices_cfg \<Rightarrow> string \<Rightarrow> device_cfg \<Rightarrow> string \<Rightarrow> string list \<Rightarrow> exn + unit" where
  "check_mode cfg name v mode members =
     (if mode = ''mirror'' then
        (case member_types cfg members of
           Inl e \<Rightarrow> Inl e
         | Inr ts \<Rightarrow>
             if 1 < length ts then
               Inl (ValueError (''Composite device '' @ quoted name
                 @ '' is in mirror mode but its members have differing types ('' @ join '', '' (sort ts) @ '')''))
             else Inr ())
      else
        (case dc_primary v of
           None \<Rightarrow> Inl (ValueError (''Composite device '' @ quoted name
             @ '' is in mapped mode but has no primary member set''))
         | Some p \<Rightarrow>
             if p = [] then Inl (ValueError (''Composite device '' @ quoted name
               @ '' is in mapped mode but has no primary member set''))
             else if p \<notin> set members then
               Inl (ValueError (''Composite device '' @ quoted name @ '' has primary '' @ quoted p
                 @ '' which is not one of its members''))
             else validate_no_silent_partial_gain name v members cfg))"

definition check_composite ::
  "devices_cfg \<Rightarrow> string \<Rightarrow> device_cfg \<Rightarrow> (string, string) pydict \<Rightarrow> exn + (string, string) pydict" where
  "check_composite cfg name v seen =
     (case dc_mode v of
        None \<Rightarrow> Inl (ValueError (''Composite device '' @ quoted name @ '' has invalid mode''))
      | Some mode \<Rightarrow>
          if mode \<noteq> ''mirror'' \<and> mode \<noteq> ''mapped'' then
            Inl (ValueError (''Composite device '' @ quoted name @ '' has invalid mode''))
          else
            let members = composite_member_names v in
            if members = [] then
              Inl (ValueError (''Composite device '' @ quoted name @ '' has no members configured''))
            else (case check_members cfg name members seen of
                    Inl e \<Rightarrow> Inl e
                  | Inr seen' \<Rightarrow>
                      (case check_mode cfg name v mode members of Inl e \<Rightarrow> Inl e | Inr _ \<Rightarrow> Inr seen')))"

text \<open>
  \<^verbatim>\<open>for name in composite_names\<close>: a set, so the order is any; \<open>order\<close> lists the composites in the order
  they are visited.
\<close>

fun validate_in_order ::
  "devices_cfg \<Rightarrow> string list \<Rightarrow> (string, string) pydict \<Rightarrow> exn + (string, string) pydict" where
  "validate_in_order cfg [] seen = Inr seen"
| "validate_in_order cfg (n # ns) seen =
     (case map_of cfg n of
        None \<Rightarrow> Inl (KeyError n)
      | Some v \<Rightarrow>
          (case check_composite cfg n v seen of
             Inl e \<Rightarrow> Inl e | Inr seen' \<Rightarrow> validate_in_order cfg ns seen'))"

definition validate_composite_configs :: "devices_cfg \<Rightarrow> string list \<Rightarrow> exn + unit" where
  "validate_composite_configs cfg order =
     (case validate_in_order cfg order [] of Inl e \<Rightarrow> Inl e | Inr _ \<Rightarrow> Inr ())"

section \<open>What validation accepts\<close>

definition members_of :: "devices_cfg \<Rightarrow> string \<Rightarrow> string list" where
  "members_of cfg n = (case map_of cfg n of None \<Rightarrow> [] | Some v \<Rightarrow> composite_member_names v)"

definition balanced :: "devices_cfg \<Rightarrow> device_cfg \<Rightarrow> bool" where
  "balanced cfg v \<longleftrightarrow> dc_allow_partial v \<or>
     (\<exists>ops. list_all2 (\<lambda>m s. effective_support cfg (dc_members v) m = Inr s) (composite_member_names v) ops
        \<and> (\<forall>b \<in> set BALANCE_OPS. (\<forall>s \<in> set ops. b \<in> set s) \<or> (\<forall>s \<in> set ops. b \<notin> set s)))"

definition composite_cfg_ok :: "devices_cfg \<Rightarrow> device_cfg \<Rightarrow> bool" where
  "composite_cfg_ok cfg v \<longleftrightarrow>
     composite_member_names v \<noteq> [] \<and> distinct (composite_member_names v)
     \<and> (\<forall>m \<in> set (composite_member_names v). m \<in> set (keys cfg) \<and> m \<notin> set (composite_names cfg))
     \<and> (dc_mode v = Some ''mirror''
          \<and> (\<forall>m \<in> set (composite_member_names v). \<forall>m' \<in> set (composite_member_names v).
               type_of cfg m = type_of cfg m')
        \<or> dc_mode v = Some ''mapped''
          \<and> (\<exists>q \<in> set (composite_member_names v). q \<noteq> [] \<and> dc_primary v = Some q) \<and> balanced cfg v)"

definition config_ok :: "devices_cfg \<Rightarrow> bool" where
  "config_ok cfg \<longleftrightarrow>
     (\<forall>n \<in> set (composite_names cfg). \<exists>v. map_of cfg n = Some v \<and> composite_cfg_ok cfg v)
     \<and> (\<forall>n \<in> set (composite_names cfg). \<forall>n' \<in> set (composite_names cfg).
          n \<noteq> n' \<longrightarrow> set (members_of cfg n) \<inter> set (members_of cfg n') = {})"

lemma check_members_Inr:
  "check_members cfg name ms seen = Inr seen' \<Longrightarrow>
     (\<forall>m \<in> set ms. m \<in> set (keys cfg) \<and> m \<notin> set (composite_names cfg)) \<and> distinct ms
     \<and> set ms \<inter> set (keys seen) = {} \<and> set (keys seen') = set (keys seen) \<union> set ms"
proof (induction ms arbitrary: seen)
  case (Cons m ms)
  then have "m \<in> set (keys cfg)" "m \<notin> set (composite_names cfg)" "m \<notin> set (keys seen)"
    and "check_members cfg name ms (dict_set seen m name) = Inr seen'"
    by (auto simp: map_of_eq_None_iff split: if_splits option.splits)
  with Cons.IH [OF this(4)] show ?case by auto
qed simp

lemma check_members_ok:
  "(\<forall>m \<in> set ms. m \<in> set (keys cfg) \<and> m \<notin> set (composite_names cfg)) \<Longrightarrow> distinct ms \<Longrightarrow>
   set ms \<inter> set (keys seen) = {} \<Longrightarrow> \<exists>seen'. check_members cfg name ms seen = Inr seen'"
proof (induction ms arbitrary: seen)
  case (Cons m ms)
  have "\<exists>seen'. check_members cfg name ms (dict_set seen m name) = Inr seen'"
    using Cons.prems by (intro Cons.IH) auto
  moreover have "map_of seen m = None" using Cons.prems by (auto simp: map_of_eq_None_iff)
  ultimately show ?case using Cons.prems by simp
qed simp

lemma check_members_iff:
  "(\<exists>seen'. check_members cfg name ms seen = Inr seen') \<longleftrightarrow>
     (\<forall>m \<in> set ms. m \<in> set (keys cfg) \<and> m \<notin> set (composite_names cfg)) \<and> distinct ms
     \<and> set ms \<inter> set (keys seen) = {}"
  using check_members_Inr check_members_ok by metis

lemma check_balance_iff:
  assumes "distinct (map fst support)"
  shows "check_balance name support ops = Inr () \<longleftrightarrow>
    (\<forall>b \<in> set ops. (\<forall>p \<in> set support. b \<in> set (snd p)) \<or> (\<forall>p \<in> set support. b \<notin> set (snd p)))"
proof (induction ops)
  case (Cons b ops)
  let ?f = "filter (\<lambda>p. b \<in> set (snd p)) support"
  have rd: "remdups (map fst ?f) = map fst ?f"
    using assms by (intro distinct_remdups_id distinct_map_filter)
  have "length ?f < length support \<longleftrightarrow> \<not> (\<forall>p \<in> set support. b \<in> set (snd p))"
    by (metis filter_id_conv length_filter_le length_filter_less nat_less_le)
  moreover have "?f \<noteq> [] \<longleftrightarrow> \<not> (\<forall>p \<in> set support. b \<notin> set (snd p))"
    by (simp add: filter_empty_conv)
  ultimately show ?case using Cons by (simp add: rd Let_def)
qed simp

lemma zip_snd_ball:
  "length xs = length ys \<Longrightarrow> (\<forall>p \<in> set (zip xs ys). P (snd p)) \<longleftrightarrow> (\<forall>y \<in> set ys. P y)"
  by (induction xs ys rule: list_induct2) auto

lemma validate_gain_iff:
  assumes "distinct (composite_member_names v)"
  shows "validate_no_silent_partial_gain name v (composite_member_names v) cfg = Inr () \<longleftrightarrow> balanced cfg v"
proof (cases "map_result (effective_support cfg (dc_members v)) (composite_member_names v)")
  case (Inl e)
  then have "\<nexists>ops. list_all2 (\<lambda>m s. effective_support cfg (dc_members v) m = Inr s) (composite_member_names v) ops"
    by (auto dest: map_result_InrI)
  with Inl show ?thesis by (simp add: validate_no_silent_partial_gain_def balanced_def)
next
  case (Inr ops)
  let ?agree = "\<lambda>ops. \<forall>b \<in> set BALANCE_OPS. (\<forall>s \<in> set ops. b \<in> set s) \<or> (\<forall>s \<in> set ops. b \<notin> set s)"
  have len: "length (composite_member_names v) = length ops" using map_result_length [OF Inr] by simp
  have all2: "list_all2 (\<lambda>m s. effective_support cfg (dc_members v) m = Inr s) (composite_member_names v) ops'
      \<longleftrightarrow> ops' = ops" for ops'
    using Inr unfolding map_result_Inr_iff [symmetric] by auto
  have "distinct (map fst (zip (composite_member_names v) ops))" using assms len by simp
  note iff = check_balance_iff [OF this]
  have pos: "(\<forall>p \<in> set (zip (composite_member_names v) ops). b \<in> set (snd p)) \<longleftrightarrow> (\<forall>s \<in> set ops. b \<in> set s)" for b
    by (rule zip_snd_ball [OF len])
  have neg: "(\<forall>p \<in> set (zip (composite_member_names v) ops). b \<notin> set (snd p)) \<longleftrightarrow> (\<forall>s \<in> set ops. b \<notin> set s)" for b
    by (rule zip_snd_ball [OF len])
  have "check_balance name (zip (composite_member_names v) ops) BALANCE_OPS = Inr () \<longleftrightarrow> ?agree ops"
    by (simp only: iff pos neg)
  moreover have "balanced cfg v \<longleftrightarrow> dc_allow_partial v \<or> ?agree ops"
    unfolding balanced_def all2 by blast
  ultimately show ?thesis
    using Inr by (simp add: validate_no_silent_partial_gain_def)
qed

lemma type_of_total: "m \<in> set (keys cfg) \<Longrightarrow> \<exists>t. type_of cfg m = Inr t"
  by (cases "map_of cfg m") (auto simp: type_of_def map_of_eq_None_iff)

lemma remdups_at_most_one: "length (remdups xs) \<le> 1 \<longleftrightarrow> (\<forall>x \<in> set xs. \<forall>y \<in> set xs. x = y)"
  by (simp add: length_remdups_card_conv card_le_Suc0_iff_eq)

lemma check_mirror_iff:
  assumes "\<forall>m \<in> set ms. m \<in> set (keys cfg)"
  shows "check_mode cfg name v ''mirror'' ms = Inr () \<longleftrightarrow> (\<forall>m \<in> set ms. \<forall>m' \<in> set ms. type_of cfg m = type_of cfg m')"
proof -
  obtain ts where ts: "map_result (type_of cfg) ms = Inr ts"
    using map_result_total [of ms "type_of cfg"] assms type_of_total by blast
  have "list_all2 (\<lambda>m t. type_of cfg m = Inr t) ms ts" using ts by (rule map_result_InrD)
  then have img: "type_of cfg ` set ms = Inr ` set ts"
    by (induction rule: list_all2_induct) auto
  have "check_mode cfg name v ''mirror'' ms = Inr () \<longleftrightarrow> length (remdups ts) \<le> 1"
    using ts by (simp add: check_mode_def member_types_def not_less)
  also have "\<dots> \<longleftrightarrow> (\<forall>a \<in> Inr ` set ts. \<forall>b \<in> Inr ` set ts. a = (b :: exn + string))"
    by (auto simp: remdups_at_most_one [unfolded One_nat_def])
  also have "\<dots> \<longleftrightarrow> (\<forall>a \<in> type_of cfg ` set ms. \<forall>b \<in> type_of cfg ` set ms. a = b)"
    by (simp only: img)
  finally show ?thesis by simp
qed

lemma check_mapped_iff:
  assumes "distinct (composite_member_names v)"
  shows "check_mode cfg name v ''mapped'' (composite_member_names v) = Inr () \<longleftrightarrow>
    (\<exists>q \<in> set (composite_member_names v). q \<noteq> [] \<and> dc_primary v = Some q) \<and> balanced cfg v"
  by (cases "dc_primary v") (auto simp: check_mode_def validate_gain_iff [OF assms])

lemma check_composite_iff:
  "(\<exists>seen'. check_composite cfg name v seen = Inr seen') \<longleftrightarrow>
     composite_cfg_ok cfg v \<and> set (composite_member_names v) \<inter> set (keys seen) = {}"
  (is "?L \<longleftrightarrow> ?R")
proof -
  let ?ms = "composite_member_names v"
  let ?M = "(\<forall>m \<in> set ?ms. m \<in> set (keys cfg) \<and> m \<notin> set (composite_names cfg)) \<and> distinct ?ms
     \<and> set ?ms \<inter> set (keys seen) = {}"
  have L: "?L \<longleftrightarrow> ?ms \<noteq> [] \<and> ?M \<and> check_mode cfg name v mode ?ms = Inr ()"
    if "dc_mode v = Some mode" "mode = ''mirror'' \<or> mode = ''mapped''" for mode
    unfolding check_members_iff [symmetric, where name = name] using that
    by (auto simp: check_composite_def Let_def split: sum.splits)
  consider "dc_mode v = Some ''mirror''" | "dc_mode v = Some ''mapped''"
    | "dc_mode v \<noteq> Some ''mirror''" "dc_mode v \<noteq> Some ''mapped''" by blast
  then show ?thesis
  proof cases
    case 1
    have "?M \<Longrightarrow> check_mode cfg name v ''mirror'' ?ms = Inr () \<longleftrightarrow>
        (\<forall>m \<in> set ?ms. \<forall>m' \<in> set ?ms. type_of cfg m = type_of cfg m')"
      by (rule check_mirror_iff) blast
    with L [OF 1] 1 show ?thesis unfolding composite_cfg_ok_def by auto
  next
    case 2
    have "?M \<Longrightarrow> check_mode cfg name v ''mapped'' ?ms = Inr () \<longleftrightarrow>
        (\<exists>q \<in> set ?ms. q \<noteq> [] \<and> dc_primary v = Some q) \<and> balanced cfg v"
      by (rule check_mapped_iff) blast
    with L [OF 2] 2 show ?thesis unfolding composite_cfg_ok_def by auto
  next
    case 3
    then show ?thesis by (auto simp: check_composite_def composite_cfg_ok_def split: option.splits)
  qed
qed

lemma check_composite_seen:
  assumes "check_composite cfg name v seen = Inr seen'"
  shows "set (keys seen') = set (keys seen) \<union> set (composite_member_names v)"
proof -
  have "check_members cfg name (composite_member_names v) seen = Inr seen'"
    using assms by (auto simp: check_composite_def Let_def split: option.splits if_splits sum.splits)
  then show ?thesis using check_members_Inr by blast
qed

lemma disjoint_insert_pairs:
  assumes "n \<notin> N"
  shows "(\<forall>k \<in> insert n N. \<forall>l \<in> insert n N. k \<noteq> l \<longrightarrow> M k \<inter> M l = {}) \<longleftrightarrow>
    (\<forall>k \<in> N. M n \<inter> M k = {}) \<and> (\<forall>k \<in> N. \<forall>l \<in> N. k \<noteq> l \<longrightarrow> M k \<inter> M l = {})"
  using assms pairwise_insert [of "\<lambda>k l. M k \<inter> M l = {}" n N] unfolding pairwise_def by (metis Int_commute)

lemma validate_in_order_iff:
  "distinct order \<Longrightarrow>
   (\<exists>seen'. validate_in_order cfg order seen = Inr seen') \<longleftrightarrow>
     (\<forall>n \<in> set order. \<exists>v. map_of cfg n = Some v \<and> composite_cfg_ok cfg v
        \<and> set (members_of cfg n) \<inter> set (keys seen) = {})
     \<and> (\<forall>n \<in> set order. \<forall>n' \<in> set order. n \<noteq> n' \<longrightarrow> set (members_of cfg n) \<inter> set (members_of cfg n') = {})"
proof (induction order arbitrary: seen)
  case (Cons n ns)
  show ?case
  proof (cases "map_of cfg n")
    case None
    then show ?thesis by simp
  next
    case (Some v)
    then have mem: "members_of cfg n = composite_member_names v" by (simp add: members_of_def)
    show ?thesis
    proof (cases "check_composite cfg n v seen")
      case (Inl e)
      then have "\<not> (composite_cfg_ok cfg v \<and> set (composite_member_names v) \<inter> set (keys seen) = {})"
        using check_composite_iff [of cfg n v seen] by simp
      with Inl Some mem show ?thesis by auto
    next
      case (Inr s)
      then have okv: "composite_cfg_ok cfg v" "set (members_of cfg n) \<inter> set (keys seen) = {}"
        using check_composite_iff [of cfg n v seen] mem by auto
      have keys: "set (keys s) = set (keys seen) \<union> set (members_of cfg n)"
        using check_composite_seen [OF Inr] mem by simp
      have "distinct ns" and n: "n \<notin> set ns" using Cons.prems by auto
      have "(\<exists>seen'. validate_in_order cfg (n # ns) seen = Inr seen')
          \<longleftrightarrow> (\<exists>seen'. validate_in_order cfg ns s = Inr seen')" using Some Inr by simp
      also note Cons.IH [OF \<open>distinct ns\<close>]
      also have "(\<forall>k \<in> set ns. \<exists>w. map_of cfg k = Some w \<and> composite_cfg_ok cfg w
            \<and> set (members_of cfg k) \<inter> set (keys s) = {})
          \<longleftrightarrow> (\<forall>k \<in> set ns. \<exists>w. map_of cfg k = Some w \<and> composite_cfg_ok cfg w
            \<and> set (members_of cfg k) \<inter> set (keys seen) = {})
            \<and> (\<forall>k \<in> set ns. set (members_of cfg n) \<inter> set (members_of cfg k) = {})"
        unfolding keys by blast
      finally show ?thesis
        unfolding list.set
        unfolding disjoint_insert_pairs [OF n]
        unfolding Set.ball_simps(7)
        using okv Some by simp
    qed
  qed
qed simp

section \<open>An example configuration\<close>

text \<open>A mirrored pair of minidsps, the composite declared first.\<close>

definition plain_cfg :: "string \<Rightarrow> device_cfg" where
  "plain_cfg t = \<lparr>dc_type = t, dc_mode = None, dc_members = NoMembers, dc_primary = None,
     dc_allow_partial = False, dc_expose = False\<rparr>"

definition pair_cfg :: devices_cfg where
  "pair_cfg =
     [(''both'', (plain_cfg ''composite'')\<lparr>dc_mode := Some ''mirror'', dc_members := MemberList [''left'', ''right'']\<rparr>),
      (''left'', plain_cfg ''minidsp''), (''right'', plain_cfg ''minidsp'')]"

lemma pair_cfg_names: "composite_names pair_cfg = [''both'']" "distinct (keys pair_cfg)"
  by (simp_all add: composite_names_def pair_cfg_def plain_cfg_def)

lemma pair_cfg_nonempty: "pair_cfg \<noteq> []"
  by (simp add: pair_cfg_def)

lemma pair_cfg_validates: "validate_composite_configs pair_cfg [''both''] = Inr ()"
  by (simp add: validate_composite_configs_def check_composite_def composite_member_names_def Let_def
      check_mode_def member_types_def type_of_def composite_names_def pair_cfg_def plain_cfg_def)

lemma pair_cfg_ok: "config_ok pair_cfg"
  using validate_in_order_iff [of "[''both'']" pair_cfg "[]"] pair_cfg_validates pair_cfg_names(1)
  by (simp only: config_ok_def validate_composite_configs_def) (auto split: sum.splits)

text \<open>
  Claim C24. Start up accepts exactly the well formed composite configurations, in whatever order the set
  of composites is visited: a valid mode, at least one member, members that exist and are no
  composites, no device used twice, members of one type when mirrored, and when mapped a primary
  among the members and gain and mute supported by all members or by none unless allowed.
\<close>

theorem validation_accepts:
  assumes "distinct order" and "set order = set (composite_names cfg)"
  shows "validate_composite_configs cfg order = Inr () \<longleftrightarrow> config_ok cfg"
proof -
  have "validate_composite_configs cfg order = Inr () \<longleftrightarrow> (\<exists>s. validate_in_order cfg order [] = Inr s)"
    by (auto simp: validate_composite_configs_def split: sum.split)
  also have "\<dots> \<longleftrightarrow> config_ok cfg"
    using validate_in_order_iff [OF assms(1), of cfg "[]"] assms(2) by (simp add: config_ok_def)
  finally show ?thesis .
qed

theorem validation_accepts_witness:
  "validate_composite_configs pair_cfg [''both''] = Inr () \<and> config_ok pair_cfg"
  using validation_accepts [of "[''both'']" pair_cfg] pair_cfg_validates pair_cfg_names(1) by simp

section \<open>Building the devices\<close>

text \<open>
  The constructor calls are parameters: \<open>factory\<close> instantiates the class of a plain device, \<open>compose\<close> a
  composite over the devices of its members. The first loop builds the plain devices and collects the
  composites, the second builds these, and the list is put back in the order of the configuration.
\<close>

fun build_plain ::
  "(string \<Rightarrow> string \<Rightarrow> device_cfg \<Rightarrow> exn + 'd) \<Rightarrow> devices_cfg \<Rightarrow> (string, 'd) pydict \<Rightarrow>
   devices_cfg \<Rightarrow> exn + (string, 'd) pydict \<times> devices_cfg" where
  "build_plain factory [] devs comps = Inr (devs, comps)"
| "build_plain factory ((n, v) # cfg) devs comps =
     (if dc_type v = ''composite'' then build_plain factory cfg devs (dict_set comps n v)
      else (case device_class_for_type (dc_type v) of
              Inl e \<Rightarrow> Inl e
            | Inr _ \<Rightarrow>
                (case factory (dc_type v) n v of
                   Inl e \<Rightarrow> Inl e
                 | Inr d \<Rightarrow> build_plain factory cfg (dict_set devs n d) comps)))"

definition device_named :: "(string, 'd) pydict \<Rightarrow> string \<Rightarrow> exn + 'd" where
  "device_named devs n = (case map_of devs n of None \<Rightarrow> Inl (KeyError n) | Some d \<Rightarrow> Inr d)"

fun build_composites ::
  "(string \<Rightarrow> device_cfg \<Rightarrow> (string, 'd) pydict \<Rightarrow> exn + 'd) \<Rightarrow> devices_cfg \<Rightarrow> (string, 'd) pydict \<Rightarrow>
   exn + (string, 'd) pydict" where
  "build_composites compose [] devs = Inr devs"
| "build_composites compose ((n, v) # comps) devs =
     (case map_result (device_named devs) (composite_member_names v) of
        Inl e \<Rightarrow> Inl e
      | Inr ds \<Rightarrow>
          (case compose n v (zip (composite_member_names v) ds) of
             Inl e \<Rightarrow> Inl e
           | Inr d \<Rightarrow> build_composites compose comps (dict_set devs n d)))"

definition create_devices ::
  "(string \<Rightarrow> string \<Rightarrow> device_cfg \<Rightarrow> exn + 'd) \<Rightarrow>
   (string \<Rightarrow> device_cfg \<Rightarrow> (string, 'd) pydict \<Rightarrow> exn + 'd) \<Rightarrow>
   devices_cfg \<Rightarrow> string list \<Rightarrow> exn + 'd list" where
  "create_devices factory compose cfg order =
     (case validate_composite_configs cfg order of
        Inl e \<Rightarrow> Inl e
      | Inr _ \<Rightarrow>
          (case build_plain factory cfg [] [] of
             Inl e \<Rightarrow> Inl e
           | Inr (devs, comps) \<Rightarrow>
               (case build_composites compose comps devs of
                  Inl e \<Rightarrow> Inl e
                | Inr all \<Rightarrow>
                    if all = [] then Inl (ValueError ''No device configured'')
                    else map_result (device_named all) (keys cfg))))"

subsection \<open>What is built\<close>

definition constructed :: "(string \<Rightarrow> string \<Rightarrow> device_cfg \<Rightarrow> exn + 'd) \<Rightarrow> devices_cfg \<Rightarrow> string \<Rightarrow> 'd \<Rightarrow> bool" where
  "constructed factory cfg n d \<longleftrightarrow>
     (\<exists>v. map_of cfg n = Some v \<and> dc_type v \<noteq> ''composite'' \<and> factory (dc_type v) n v = Inr d)"

definition constructible :: "(string \<Rightarrow> string \<Rightarrow> device_cfg \<Rightarrow> exn + 'd) \<Rightarrow> devices_cfg \<Rightarrow> bool" where
  "constructible factory cfg \<longleftrightarrow>
     (\<forall>(n, v) \<in> set cfg. dc_type v \<noteq> ''composite'' \<longrightarrow>
        (\<exists>cls. device_class_for_type (dc_type v) = Inr cls) \<and> (\<exists>d. factory (dc_type v) n v = Inr d))"

lemma build_plain_ok:
  "constructible factory cfg \<Longrightarrow> distinct (keys cfg) \<Longrightarrow> set (keys comps) \<inter> set (keys cfg) = {} \<Longrightarrow>
   \<exists>devs'. build_plain factory cfg devs comps
       = Inr (devs', comps @ filter (\<lambda>p. dc_type (snd p) = ''composite'') cfg)
     \<and> (\<forall>n. if \<exists>d. constructed factory cfg n d
            then \<exists>d. constructed factory cfg n d \<and> map_of devs' n = Some d
            else map_of devs' n = map_of devs n)"
proof (induction cfg arbitrary: devs comps)
  case (Cons p cfg)
  obtain n v where p: "p = (n, v)" by fastforce
  have n: "map_of cfg n = None" and fresh: "n \<notin> fst ` set comps"
    using Cons.prems p by (auto simp: map_of_eq_None_iff)
  have cfg: "constructible factory cfg" "distinct (keys cfg)"
    using Cons.prems by (auto simp: constructible_def)
  have eq: "constructed factory (p # cfg) k d \<longleftrightarrow>
      (if k = n then dc_type v \<noteq> ''composite'' \<and> factory (dc_type v) n v = Inr d else constructed factory cfg k d)"
    for k d by (simp add: constructed_def p)
  have none: "\<not> constructed factory cfg n d" for d using n by (simp add: constructed_def)
  show ?case
  proof (cases "dc_type v = ''composite''")
    case True
    have "set (keys (comps @ [(n, v)])) \<inter> set (keys cfg) = {}" using Cons.prems p by auto
    from Cons.IH [OF cfg this, of devs] show ?thesis
      using True fresh none by (auto simp: eq dict_set_fresh) (auto simp: p dict_set_fresh)
  next
    case False
    then obtain cls d where d: "device_class_for_type (dc_type v) = Inr cls" "factory (dc_type v) n v = Inr d"
      using Cons.prems(1) p by (auto simp: constructible_def)
    have "set (keys comps) \<inter> set (keys cfg) = {}" using Cons.prems by auto
    from Cons.IH [OF cfg this, of "dict_set devs n d"] obtain devs' where
      run: "build_plain factory cfg (dict_set devs n d) comps
         = Inr (devs', comps @ filter (\<lambda>p. dc_type (snd p) = ''composite'') cfg)"
      and at: "\<And>k. if \<exists>d. constructed factory cfg k d
            then \<exists>d. constructed factory cfg k d \<and> map_of devs' k = Some d
            else map_of devs' k = map_of (dict_set devs n d) k" by blast
    have "if \<exists>d. constructed factory (p # cfg) k d
        then \<exists>d. constructed factory (p # cfg) k d \<and> map_of devs' k = Some d
        else map_of devs' k = map_of devs k" for k
      using at [of k] none d False by (cases "k = n") (simp_all add: eq)
    moreover have "build_plain factory (p # cfg) devs comps
        = Inr (devs', comps @ filter (\<lambda>p. dc_type (snd p) = ''composite'') (p # cfg))"
      using run d False by (simp add: p)
    ultimately show ?thesis by blast
  qed
qed (simp add: constructed_def)

lemma composite_namesI: "(n, v) \<in> set cfg \<Longrightarrow> dc_type v = ''composite'' \<Longrightarrow> n \<in> set (composite_names cfg)"
  unfolding composite_names_def by force

definition composed ::
  "(string \<Rightarrow> device_cfg \<Rightarrow> (string, 'd) pydict \<Rightarrow> exn + 'd) \<Rightarrow> (string \<Rightarrow> 'd \<Rightarrow> bool) \<Rightarrow>
   string \<Rightarrow> device_cfg \<Rightarrow> 'd \<Rightarrow> bool" where
  "composed compose plain n v d \<longleftrightarrow>
     (\<exists>ds. list_all2 plain (composite_member_names v) ds \<and> compose n v (zip (composite_member_names v) ds) = Inr d)"

lemma build_composites_ok:
  "(\<forall>n v ms. \<exists>d. compose n v ms = Inr d) \<Longrightarrow> distinct (keys comps) \<Longrightarrow>
   (\<forall>n v m. (n, v) \<in> set comps \<longrightarrow> m \<in> set (composite_member_names v) \<longrightarrow>
      m \<notin> set (keys comps) \<and> (\<exists>d. map_of devs m = Some d)) \<Longrightarrow>
   \<exists>all. build_composites compose comps devs = Inr all
     \<and> (\<forall>n v. (n, v) \<in> set comps \<longrightarrow>
          (\<exists>d. composed compose (\<lambda>m d. map_of devs m = Some d) n v d \<and> map_of all n = Some d))
     \<and> (\<forall>n. n \<notin> set (keys comps) \<longrightarrow> map_of all n = map_of devs n)"
proof (induction comps arbitrary: devs)
  case (Cons p comps)
  obtain n v where p: "p = (n, v)" by fastforce
  let ?ms = "composite_member_names v"
  have mem: "m \<noteq> n \<and> m \<notin> fst ` set comps \<and> (\<exists>d. map_of devs m = Some d)"
    if "(k, w) \<in> set (p # comps)" "m \<in> set (composite_member_names w)" for k w m
  proof -
    have "m \<notin> set (keys (p # comps)) \<and> (\<exists>d. map_of devs m = Some d)" using Cons.prems(3) that by blast
    then show ?thesis by (simp add: p)
  qed
  have "\<exists>d. device_named devs m = Inr d" if "m \<in> set ?ms" for m
    using mem [of n v m] that by (auto simp: device_named_def p)
  then obtain ds where ds: "map_result (device_named devs) ?ms = Inr ds"
    using map_result_total [of ?ms "device_named devs"] by blast
  have all2: "list_all2 (\<lambda>m d. map_of devs m = Some d) ?ms ds"
    using map_result_InrD [OF ds] by (rule list_all2_mono) (auto simp: device_named_def split: option.splits)
  obtain d where d: "compose n v (zip ?ms ds) = Inr d" using Cons.prems(1) by blast
  have distinct: "distinct (keys comps)" and n: "n \<notin> fst ` set comps" using Cons.prems(2) p by auto
  have "\<forall>k w m. (k, w) \<in> set comps \<longrightarrow> m \<in> set (composite_member_names w) \<longrightarrow>
      m \<notin> set (keys comps) \<and> (\<exists>x. map_of (dict_set devs n d) m = Some x)"
  proof (intro allI impI)
    fix k w m assume "(k, w) \<in> set comps" "m \<in> set (composite_member_names w)"
    with mem [of k w m] show "m \<notin> set (keys comps) \<and> (\<exists>x. map_of (dict_set devs n d) m = Some x)" by simp
  qed
  from Cons.IH [OF Cons.prems(1) distinct this] obtain all where
    run: "build_composites compose comps (dict_set devs n d) = Inr all"
    and got: "\<And>k w. (k, w) \<in> set comps \<Longrightarrow>
      \<exists>x. composed compose (\<lambda>m d'. map_of (dict_set devs n d) m = Some d') k w x \<and> map_of all k = Some x"
    and rest: "\<And>k. k \<notin> set (keys comps) \<Longrightarrow> map_of all k = map_of (dict_set devs n d) k" by blast
  have same: "composed compose (\<lambda>m d'. map_of (dict_set devs n d) m = Some d') k w x
      \<longleftrightarrow> composed compose (\<lambda>m d'. map_of devs m = Some d') k w x" if "(k, w) \<in> set comps" for k w x
  proof -
    have "list_all2 (\<lambda>m d'. map_of (dict_set devs n d) m = Some d') (composite_member_names w) ys
        = list_all2 (\<lambda>m d'. map_of devs m = Some d') (composite_member_names w) ys" for ys
      using mem [of k w] that by (intro list.rel_cong refl) auto
    then show ?thesis by (simp only: composed_def)
  qed
  have "composed compose (\<lambda>m d'. map_of devs m = Some d') n v d" unfolding composed_def using all2 d by blast
  moreover have "map_of all n = Some d" using rest [of n] n by simp
  moreover have "build_composites compose (p # comps) devs = Inr all" using run ds d by (simp add: p)
  moreover have "map_of all k = map_of devs k" if "k \<notin> set (keys (p # comps))" for k
    using rest [of k] that p by simp
  moreover have "\<exists>x. composed compose (\<lambda>m d'. map_of devs m = Some d') k w x \<and> map_of all k = Some x"
    if "(k, w) \<in> set comps" for k w
    using got [OF that] unfolding same [OF that] .
  ultimately show ?case unfolding p by (intro exI [of _ all]) (simp only: list.set insert_iff prod.inject, blast)
qed simp

text \<open>
  From an accepted configuration whose constructors succeed, start up builds one device per
  configured name, in the order of the configuration: a plain device is what its class constructs,
  a composite is built over exactly the devices of its members, whatever order they are declared in.
\<close>

theorem devices_in_config_order:
  assumes cfg: "distinct (keys cfg)" "cfg \<noteq> []" "config_ok cfg"
    and order: "distinct order" "set order = set (composite_names cfg)"
    and plain: "constructible factory cfg" and comp: "\<forall>n v ms. \<exists>d. compose n v ms = Inr d"
  shows "\<exists>ds. create_devices factory compose cfg order = Inr ds
    \<and> list_all2 (\<lambda>(n, v) d. if dc_type v = ''composite'' then composed compose (constructed factory cfg) n v d
                           else factory (dc_type v) n v = Inr d) cfg ds"
proof -
  let ?C = "filter (\<lambda>p. dc_type (snd p) = ''composite'') cfg"
  obtain devs where run: "build_plain factory cfg [] [] = Inr (devs, ?C)"
    and "\<forall>n. if \<exists>d. constructed factory cfg n d
        then \<exists>d. constructed factory cfg n d \<and> map_of devs n = Some d else map_of devs n = map_of [] n"
    using build_plain_ok [OF plain cfg(1), of "[]" "[]"] by auto
  then have at: "map_of devs n = Some d \<longleftrightarrow> constructed factory cfg n d" for n d
    by (smt (verit) constructed_def map_of.simps(1) option.distinct(1) option.inject sum.inject(2))
  have some: "\<exists>d. constructed factory cfg n d" if "(n, v) \<in> set cfg" "dc_type v \<noteq> ''composite''" for n v
    using that plain cfg(1) by (fastforce simp: constructed_def constructible_def)
  have names: "set (keys ?C) = set (composite_names cfg)" by (simp add: composite_names_def)
  have members: "m \<notin> set (keys ?C) \<and> (\<exists>d. map_of devs m = Some d)"
    if nv: "(n, v) \<in> set ?C" and m: "m \<in> set (composite_member_names v)" for n v m
  proof -
    have "map_of cfg n = Some v" "n \<in> set (composite_names cfg)"
      using cfg(1) nv by (auto intro: composite_namesI)
    with cfg(3) have "composite_cfg_ok cfg v" by (auto simp: config_ok_def)
    with m have mc: "m \<in> set (keys cfg)" "m \<notin> set (composite_names cfg)" by (auto simp: composite_cfg_ok_def)
    then obtain w where w: "(m, w) \<in> set cfg" by auto
    with mc have "dc_type w \<noteq> ''composite''" by (auto intro: composite_namesI)
    with some [OF w] have "\<exists>d. map_of devs m = Some d" by (simp add: at)
    then show ?thesis using mc names by simp
  qed
  have "distinct (keys ?C)" using cfg(1) by (rule distinct_map_filter)
  from build_composites_ok [OF comp this, of devs] members obtain all where
    run': "build_composites compose ?C devs = Inr all"
    and built: "\<And>n v. (n, v) \<in> set ?C \<Longrightarrow>
      \<exists>d. composed compose (\<lambda>m d. map_of devs m = Some d) n v d \<and> map_of all n = Some d"
    and rest: "\<And>n. n \<notin> set (keys ?C) \<Longrightarrow> map_of all n = map_of devs n" by blast
  let ?R = "\<lambda>(n, v) d. if dc_type v = ''composite'' then composed compose (constructed factory cfg) n v d
                           else factory (dc_type v) n v = Inr d"
  have each: "\<exists>d. map_of all n = Some d \<and> ?R (n, v) d" if nv: "(n, v) \<in> set cfg" for n v
  proof (cases "dc_type v = ''composite''")
    case True
    then show ?thesis using built [of n v] nv by (auto simp: at)
  next
    case False
    have "n \<notin> set (keys ?C)"
      using nv False cfg(1) by (auto dest: eq_key_imp_eq_value)
    with rest have "map_of all n = map_of devs n" by simp
    moreover obtain d where "constructed factory cfg n d" using some [OF nv False] by blast
    moreover have "map_of cfg n = Some v" using nv cfg(1) by simp
    ultimately show ?thesis using False at [of n] by (auto simp: constructed_def)
  qed
  have "\<exists>ds. map_result (device_named all) (keys cs) = Inr ds \<and> list_all2 ?R cs ds" if "set cs \<subseteq> set cfg" for cs
    using that
  proof (induction cs)
    case (Cons p cs)
    obtain n v where p: "p = (n, v)" by fastforce
    obtain d where "map_of all n = Some d" "?R (n, v) d" using each [of n v] Cons.prems p by auto
    moreover obtain ds where "map_result (device_named all) (keys cs) = Inr ds" "list_all2 ?R cs ds"
      using Cons by auto
    moreover have "device_named all n = Inr d" using \<open>map_of all n = Some d\<close> by (simp add: device_named_def)
    ultimately show ?case unfolding p by (intro exI [of _ "d # ds"]) simp
  qed simp
  then obtain ds where "map_result (device_named all) (keys cfg) = Inr ds" "list_all2 ?R cfg ds" by blast
  moreover have "all \<noteq> []" using cfg(2) each by (cases cfg) fastforce+
  moreover have "validate_composite_configs cfg order = Inr ()"
    using validate_in_order_iff [OF order(1), of cfg "[]"] order(2) cfg(3)
    by (auto simp: validate_composite_configs_def config_ok_def)
  ultimately show ?thesis using run run' by (simp add: create_devices_def)
qed

definition pair_factory :: "string \<Rightarrow> string \<Rightarrow> device_cfg \<Rightarrow> exn + string" where
  "pair_factory t n v = Inr (t @ '' '' @ n)"

definition pair_compose :: "string \<Rightarrow> device_cfg \<Rightarrow> (string, string) pydict \<Rightarrow> exn + string" where
  "pair_compose n v ms = Inr (n @ '' of '' @ join '', '' (map snd ms))"

theorem devices_in_config_order_witness:
  "create_devices pair_factory pair_compose pair_cfg [''both'']
     = Inr [''both of minidsp left, minidsp right'', ''minidsp left'', ''minidsp right'']"
proof -
  have "constructible pair_factory pair_cfg"
    by (simp add: constructible_def pair_factory_def pair_cfg_def plain_cfg_def device_class_for_type_def)
  from devices_in_config_order [OF pair_cfg_names(2) _ pair_cfg_ok _ _ this, of "[''both'']" pair_compose]
  obtain ds where "create_devices pair_factory pair_compose pair_cfg [''both''] = Inr ds"
    and "list_all2 (\<lambda>(n, v) d. if dc_type v = ''composite''
        then composed pair_compose (constructed pair_factory pair_cfg) n v d
        else pair_factory (dc_type v) n v = Inr d) pair_cfg ds"
    using pair_cfg_names(1) by (auto simp: pair_compose_def pair_cfg_nonempty)
  then show ?thesis
    by (auto simp: pair_cfg_def plain_cfg_def list_all2_Cons1 composed_def constructed_def pair_factory_def
        pair_compose_def composite_member_names_def)
qed

section \<open>The repository\<close>

text \<open>
  A composite and the repository hold the same device objects, so the repository maps names to
  handles and every operation of a device is a computation on the one world of all objects.
\<close>

record ('h, 'w, 'st, 'e) device_ops =
  op_type :: "'h \<Rightarrow> string"
  op_expose :: "'h \<Rightarrow> bool"
  op_members :: "'h \<Rightarrow> string list"
  op_state :: "'h \<Rightarrow> bool \<Rightarrow> ('w, 'st) act"
  op_activate :: "'h \<Rightarrow> string \<Rightarrow> ('w, unit) act"
  op_load_filter :: "'h \<Rightarrow> string \<Rightarrow> 'e \<Rightarrow> ('w, unit) act"
  op_load_biquads :: "'h \<Rightarrow> string \<Rightarrow> bool \<Rightarrow> int list \<Rightarrow> int list \<Rightarrow> json list \<Rightarrow> ('w, unit) act"
  op_send_commands :: "'h \<Rightarrow> string \<Rightarrow> int list \<Rightarrow> int list \<Rightarrow> string list \<Rightarrow> ('w, unit) act"
  op_clear_filter :: "'h \<Rightarrow> string \<Rightarrow> ('w, unit) act"
  op_mute :: "'h \<Rightarrow> string option \<Rightarrow> int option \<Rightarrow> ('w, unit) act"
  op_unmute :: "'h \<Rightarrow> string option \<Rightarrow> int option \<Rightarrow> ('w, unit) act"
  op_set_gain :: "'h \<Rightarrow> string option \<Rightarrow> int option \<Rightarrow> rat \<Rightarrow> ('w, unit) act"
  op_update :: "'h \<Rightarrow> json \<Rightarrow> ('w, bool) act"
  op_levels :: "'h \<Rightarrow> ('w, json) act"

record 'h device_repo =
  repo_devices :: "(string, 'h) pydict"
  repo_hidden :: "string list"

definition repo_init :: "('h, 'w, 'st, 'e) device_ops \<Rightarrow> (string \<times> 'h) list \<Rightarrow> 'h device_repo" where
  "repo_init ops named =
     (let devs = dict_update [] named in
      \<lparr>repo_devices = devs,
       repo_hidden = concat (map (\<lambda>p. op_members ops (snd p))
         (filter (\<lambda>p. op_type ops (snd p) = ''composite'' \<and> \<not> op_expose ops (snd p)) devs))\<rparr>)"

definition repo_get :: "'h device_repo \<Rightarrow> string \<Rightarrow> ('w, 'h) act" where
  "repo_get r name = (case map_of (repo_devices r) name of None \<Rightarrow> raise (NoSuchDevice name) | Some h \<Rightarrow> ok h)"

definition repo_device_type :: "('h, 'w, 'st, 'e) device_ops \<Rightarrow> 'h device_repo \<Rightarrow> string \<Rightarrow> ('w, string) act" where
  "repo_device_type ops r name = and_then (repo_get r name) (\<lambda>h. ok (op_type ops h))"

definition repo_state :: "('h, 'w, 'st, 'e) device_ops \<Rightarrow> 'h device_repo \<Rightarrow> string \<Rightarrow> ('w, 'st) act" where
  "repo_state ops r name = and_then (repo_get r name) (\<lambda>h. op_state ops h False)"

fun survey ::
  "('h, 'w, 'st, 'e) device_ops \<Rightarrow> string list \<Rightarrow> bool \<Rightarrow> (string \<times> 'h) list \<Rightarrow>
   (string, 'st) pydict \<Rightarrow> ('w, (string, 'st) pydict) act" where
  "survey ops hidden refresh [] res w = (Inr res, w)"
| "survey ops hidden refresh ((n, h) # devs) res w =
     (if n \<in> set hidden then survey ops hidden refresh devs res w
      else (case op_state ops h refresh w of
              (Inl _, w') \<Rightarrow> survey ops hidden refresh devs res w'
            | (Inr st, w') \<Rightarrow> survey ops hidden refresh devs (dict_set res n st) w'))"

definition repo_all_devices ::
  "('h, 'w, 'st, 'e) device_ops \<Rightarrow> 'h device_repo \<Rightarrow> bool \<Rightarrow> ('w, (string, 'st) pydict) act" where
  "repo_all_devices ops r refresh = survey ops (repo_hidden r) refresh (repo_devices r) []"

definition repo_activate :: "('h, 'w, 'st, 'e) device_ops \<Rightarrow> 'h device_repo \<Rightarrow> string \<Rightarrow> string \<Rightarrow> ('w, unit) act" where
  "repo_activate ops r name slot = and_then (repo_get r name) (\<lambda>h. op_activate ops h slot)"

definition repo_load_filter ::
  "('h, 'w, 'st, 'e) device_ops \<Rightarrow> 'h device_repo \<Rightarrow> string \<Rightarrow> string \<Rightarrow> 'e \<Rightarrow> ('w, unit) act" where
  "repo_load_filter ops r name slot entry = and_then (repo_get r name) (\<lambda>h. op_load_filter ops h slot entry)"

definition repo_load_biquads ::
  "('h, 'w, 'st, 'e) device_ops \<Rightarrow> 'h device_repo \<Rightarrow> string \<Rightarrow> string \<Rightarrow> bool \<Rightarrow> int list \<Rightarrow> int list \<Rightarrow>
   json list \<Rightarrow> ('w, unit) act" where
  "repo_load_biquads ops r name slot overwrite ins outs bqs =
     and_then (repo_get r name) (\<lambda>h. op_load_biquads ops h slot overwrite ins outs bqs)"

definition repo_send_commands ::
  "('h, 'w, 'st, 'e) device_ops \<Rightarrow> 'h device_repo \<Rightarrow> string \<Rightarrow> string \<Rightarrow> int list \<Rightarrow> int list \<Rightarrow>
   string list \<Rightarrow> ('w, unit) act" where
  "repo_send_commands ops r name slot ins outs cmds =
     and_then (repo_get r name) (\<lambda>h. op_send_commands ops h slot ins outs cmds)"

definition repo_clear_filter ::
  "('h, 'w, 'st, 'e) device_ops \<Rightarrow> 'h device_repo \<Rightarrow> string \<Rightarrow> string \<Rightarrow> ('w, unit) act" where
  "repo_clear_filter ops r name slot = and_then (repo_get r name) (\<lambda>h. op_clear_filter ops h slot)"

definition repo_mute ::
  "('h, 'w, 'st, 'e) device_ops \<Rightarrow> 'h device_repo \<Rightarrow> string \<Rightarrow> string option \<Rightarrow> int option \<Rightarrow> ('w, unit) act" where
  "repo_mute ops r name slot channel = and_then (repo_get r name) (\<lambda>h. op_mute ops h slot channel)"

definition repo_unmute ::
  "('h, 'w, 'st, 'e) device_ops \<Rightarrow> 'h device_repo \<Rightarrow> string \<Rightarrow> string option \<Rightarrow> int option \<Rightarrow> ('w, unit) act" where
  "repo_unmute ops r name slot channel = and_then (repo_get r name) (\<lambda>h. op_unmute ops h slot channel)"

definition repo_set_gain ::
  "('h, 'w, 'st, 'e) device_ops \<Rightarrow> 'h device_repo \<Rightarrow> string \<Rightarrow> string option \<Rightarrow> int option \<Rightarrow> rat \<Rightarrow>
   ('w, unit) act" where
  "repo_set_gain ops r name slot channel gain =
     and_then (repo_get r name) (\<lambda>h. op_set_gain ops h slot channel gain)"

definition repo_update :: "('h, 'w, 'st, 'e) device_ops \<Rightarrow> 'h device_repo \<Rightarrow> string \<Rightarrow> json \<Rightarrow> ('w, bool) act" where
  "repo_update ops r name params = and_then (repo_get r name) (\<lambda>h. op_update ops h params)"

definition repo_levels :: "('h, 'w, 'st, 'e) device_ops \<Rightarrow> 'h device_repo \<Rightarrow> string \<Rightarrow> ('w, json) act" where
  "repo_levels ops r name = and_then (repo_get r name) (\<lambda>h. op_levels ops h)"

section \<open>What the repository does\<close>

lemma survey_spec:
  "\<exists>new w'. survey ops hidden refresh devs res w = (Inr new, w')
     \<and> set (keys new) \<subseteq> set (keys res) \<union> {n. n \<in> set (keys devs) \<and> n \<notin> set hidden}
     \<and> set (keys res) \<subseteq> set (keys new)
     \<and> (\<forall>n h. (n, h) \<in> set devs \<longrightarrow> n \<notin> set hidden \<longrightarrow>
          (\<forall>w. \<exists>st. fst (op_state ops h refresh w) = Inr st) \<longrightarrow> n \<in> set (keys new))"
proof (induction devs arbitrary: res w)
  case (Cons p devs)
  obtain n h where p: "p = (n, h)" by fastforce
  show ?case
  proof (cases "n \<in> set hidden")
    case True
    from Cons.IH [of res w] obtain new w' where
      IH: "survey ops hidden refresh devs res w = (Inr new, w')"
        "set (keys new) \<subseteq> set (keys res) \<union> {n. n \<in> set (keys devs) \<and> n \<notin> set hidden}"
        "set (keys res) \<subseteq> set (keys new)"
        "\<forall>n h. (n, h) \<in> set devs \<longrightarrow> n \<notin> set hidden \<longrightarrow>
          (\<forall>w. \<exists>st. fst (op_state ops h refresh w) = Inr st) \<longrightarrow> n \<in> set (keys new)" by blast
    with True show ?thesis by (intro exI [of _ new] exI [of _ w']) (auto simp: p)
  next
    case False
    obtain r w1 where step: "op_state ops h refresh w = (r, w1)" by fastforce
    let ?res = "case r of Inl _ \<Rightarrow> res | Inr st \<Rightarrow> dict_set res n st"
    from Cons.IH [of ?res w1] obtain new w' where
      IH: "survey ops hidden refresh devs ?res w1 = (Inr new, w')"
        "set (keys new) \<subseteq> set (keys ?res) \<union> {n. n \<in> set (keys devs) \<and> n \<notin> set hidden}"
        "set (keys ?res) \<subseteq> set (keys new)"
        "\<forall>n h. (n, h) \<in> set devs \<longrightarrow> n \<notin> set hidden \<longrightarrow>
          (\<forall>w. \<exists>st. fst (op_state ops h refresh w) = Inr st) \<longrightarrow> n \<in> set (keys new)" by blast
    have run: "survey ops hidden refresh (p # devs) res w = (Inr new, w')"
      using IH(1) False step by (cases r) (simp_all add: p)
    have "n \<in> set (keys new)" if "\<forall>w. \<exists>st. fst (op_state ops h refresh w) = Inr st"
      using that [rule_format, of w] step IH(3) by auto
    moreover have "set (keys res) \<subseteq> set (keys new)" using IH(3) by (cases r) auto
    moreover have "set (keys new) \<subseteq> set (keys res) \<union> {m. m \<in> set (keys (p # devs)) \<and> m \<notin> set hidden}"
      using IH(2) False by (cases r) (auto simp: p)
    ultimately show ?thesis using run IH(4) by (intro exI [of _ new] exI [of _ w']) (simp add: p)
  qed
qed simp

definition hidden_names :: "('h, 'w, 'st, 'e) device_ops \<Rightarrow> (string \<times> 'h) list \<Rightarrow> string set" where
  "hidden_names ops named = {m. \<exists>n h. (n, h) \<in> set named \<and> op_type ops h = ''composite''
     \<and> \<not> op_expose ops h \<and> m \<in> set (op_members ops h)}"

text \<open>
  Listing the devices never raises. It lists only configured devices that are no member of a
  composite that keeps its members to itself, and a device whose own state can be read is listed
  whatever the other devices do.
\<close>

theorem all_devices_best_effort:
  assumes "distinct (keys named)"
  shows "\<exists>res w'. repo_all_devices ops (repo_init ops named) refresh w = (Inr res, w')
    \<and> set (keys res) \<subseteq> set (keys named) - hidden_names ops named
    \<and> (\<forall>n h. (n, h) \<in> set named \<longrightarrow> n \<notin> hidden_names ops named \<longrightarrow>
         (\<forall>w. \<exists>st. fst (op_state ops h refresh w) = Inr st) \<longrightarrow> n \<in> set (keys res))"
proof -
  have devs: "repo_devices (repo_init ops named) = named"
    using dict_update_distinct [OF assms(1), of "[]"] by (simp add: repo_init_def Let_def)
  have hid: "set (repo_hidden (repo_init ops named)) = hidden_names ops named"
    using dict_update_distinct [OF assms(1), of "[]"] by (fastforce simp: repo_init_def Let_def hidden_names_def)
  show ?thesis
    using survey_spec [of ops "repo_hidden (repo_init ops named)" refresh named "[]" w]
    unfolding repo_all_devices_def devs hid by auto
qed

text \<open>A healthy composite that hides its members, and a plain device that cannot be reached.\<close>

definition demo_ops :: "(string, unit, unit, unit) device_ops" where
  "demo_ops = \<lparr>op_type = (\<lambda>h. if h = ''both'' then ''composite'' else ''minidsp''), op_expose = (\<lambda>_. False),
     op_members = (\<lambda>h. if h = ''both'' then [''left''] else []),
     op_state = (\<lambda>h _ w. (if h = ''down'' then Inl TimeoutError else Inr (), w)),
     op_activate = (\<lambda>_ _. ok ()), op_load_filter = (\<lambda>_ _ _. ok ()), op_load_biquads = (\<lambda>_ _ _ _ _ _. ok ()),
     op_send_commands = (\<lambda>_ _ _ _ _. ok ()), op_clear_filter = (\<lambda>_ _. ok ()), op_mute = (\<lambda>_ _ _. ok ()),
     op_unmute = (\<lambda>_ _ _. ok ()), op_set_gain = (\<lambda>_ _ _ _. ok ()), op_update = (\<lambda>_ _. ok False),
     op_levels = (\<lambda>_. ok JNull)\<rparr>"

theorem all_devices_best_effort_witness:
  "\<exists>res w'. repo_all_devices demo_ops
       (repo_init demo_ops [(''down'', ''down''), (''both'', ''both''), (''left'', ''left'')]) False () = (Inr res, w')
     \<and> ''both'' \<in> set (keys res) \<and> ''left'' \<notin> set (keys res)"
proof -
  let ?named = "[(''down'', ''down''), (''both'', ''both''), (''left'', ''left'')]"
  have hidden: "''left'' \<in> hidden_names demo_ops ?named" "''both'' \<notin> hidden_names demo_ops ?named"
    by (auto simp: hidden_names_def demo_ops_def)
  have reads: "\<forall>w. \<exists>st. fst (op_state demo_ops ''both'' False w) = Inr st"
    by (simp add: demo_ops_def)
  have "distinct (keys ?named)" by simp
  from all_devices_best_effort [OF this, of demo_ops False "()"] obtain res w' where
    run: "repo_all_devices demo_ops (repo_init demo_ops ?named) False () = (Inr res, w')"
    and sub: "set (keys res) \<subseteq> set (keys ?named) - hidden_names demo_ops ?named"
    and listed: "\<And>n h. (n, h) \<in> set ?named \<Longrightarrow> n \<notin> hidden_names demo_ops ?named \<Longrightarrow>
         \<forall>w. \<exists>st. fst (op_state demo_ops h False w) = Inr st \<Longrightarrow> n \<in> set (keys res)" by blast
  have "''both'' \<in> set (keys res)" using listed [OF _ hidden(2) reads] by simp
  moreover have "''left'' \<notin> set (keys res)" using sub hidden(1) by blast
  ultimately show ?thesis using run by blast
qed

text \<open>
  Every operation of the repository on a name that is not configured raises NoSuchDevice and
  touches nothing; on a configured name it is that device's own operation.
\<close>

theorem repository_dispatch:
  "repo_mute ops r name slot channel w =
     (case map_of (repo_devices r) name of
        None \<Rightarrow> (Inl (NoSuchDevice name), w) | Some h \<Rightarrow> op_mute ops h slot channel w)
   \<and> repo_set_gain ops r name slot channel gain w =
     (case map_of (repo_devices r) name of
        None \<Rightarrow> (Inl (NoSuchDevice name), w) | Some h \<Rightarrow> op_set_gain ops h slot channel gain w)
   \<and> repo_load_filter ops r name s entry w =
     (case map_of (repo_devices r) name of
        None \<Rightarrow> (Inl (NoSuchDevice name), w) | Some h \<Rightarrow> op_load_filter ops h s entry w)"
  by (auto simp: repo_mute_def repo_set_gain_def repo_load_filter_def repo_get_def act_simps split: option.split)

end
