(* ===== verification/Device_Api.thy ===== *)
theory Device_Api
  imports Filter_Text Device_Config
begin

text \<open>
  The request handlers of \<^verbatim>\<open>ezbeq/apis/devices.py\<close> over the device repository of \<^theory_text>\<open>Device_Config\<close>: an
  answer is a JSON body and a status; an exception that leaves a handler is the \<^verbatim>\<open>Inl\<close> of the result.
  The text of a patch error, the catalogue lookup and the serialisation of a state are parameters.
  Lemmas: which status each outcome gets, and what a list of legacy commands does and reports.
\<close>

type_synonym answer = "json \<times> int"

record ('h, 'w, 'st, 'e) device_api =
  da_ops :: "('h, 'w, 'st, 'e) device_ops"
  da_repo :: "'h device_repo"
  da_serialise :: "'st \<Rightarrow> exn + json"
  da_find_by_id :: "json \<Rightarrow> ('w, 'e option) act"
  da_patch_text :: "patch_msg \<Rightarrow> string"
  da_float_to_str :: "real \<Rightarrow> string"

text \<open>\<^verbatim>\<open>bridge.state(device_name).serialise()\<close>\<close>

definition state_body :: "('h, 'w, 'st, 'e) device_api \<Rightarrow> string \<Rightarrow> ('w, json) act" where
  "state_body a name =
     and_then (repo_state (da_ops a) (da_repo a) name) (\<lambda>st. lift_result (da_serialise a st))"

definition state_answer :: "('h, 'w, 'st, 'e) device_api \<Rightarrow> string \<Rightarrow> int \<Rightarrow> ('w, answer) act" where
  "state_answer a name code = and_then (state_body a name) (\<lambda>j. ok (j, code))"

definition failure_code :: "exn \<Rightarrow> int" where
  "failure_code e = (case e of InvalidRequestError _ \<Rightarrow> 400 | _ \<Rightarrow> 500)"

text \<open>
  The \<^verbatim>\<open>try\<close> block that the handlers share: do it and answer with the state, or answer with the state
  and what went wrong.
\<close>

definition responding :: "('h, 'w, 'st, 'e) device_api \<Rightarrow> string \<Rightarrow> ('w, unit) act \<Rightarrow> ('w, answer) act" where
  "responding a name op =
     try_except (and_then op (\<lambda>_. state_answer a name 200)) (\<lambda>e. state_answer a name (failure_code e))"

definition http_delete_filter :: "('h, 'w, 'st, 'e) device_api \<Rightarrow> string \<Rightarrow> string \<Rightarrow> ('w, answer) act" where
  "http_delete_filter a name slot =
     try_except (and_then (repo_clear_filter (da_ops a) (da_repo a) name slot) (\<lambda>_. state_answer a name 200))
       (\<lambda>_. state_answer a name 500)"

definition http_load_biquads ::
  "('h, 'w, 'st, 'e) device_api \<Rightarrow> string \<Rightarrow> string \<Rightarrow> bool \<Rightarrow> int list \<Rightarrow> int list \<Rightarrow> string \<Rightarrow> ('w, answer) act" where
  "http_load_biquads a name slot overwrite ins outs content =
     and_then (lift_result (text_to_commands (da_float_to_str a) ''bq'' (splitlines content))) (\<lambda>p.
     responding a name
       (case p of
          Bq bqs \<Rightarrow> repo_load_biquads (da_ops a) (da_repo a) name slot overwrite ins outs (map JObj bqs)
        | Rs _ \<Rightarrow> raise (InvalidRequestError ''load_biquads but parsed command type is rs'')))"

definition http_load_commands ::
  "('h, 'w, 'st, 'e) device_api \<Rightarrow> string \<Rightarrow> string \<Rightarrow> bool \<Rightarrow> int list \<Rightarrow> int list \<Rightarrow> string \<Rightarrow> string \<Rightarrow> ('w, answer) act" where
  "http_load_commands a name slot overwrite ins outs command_type commands =
     and_then (lift_result (text_to_commands (da_float_to_str a) command_type (splitlines commands))) (\<lambda>p.
     responding a name
       (case p of
          Bq bqs \<Rightarrow> repo_load_biquads (da_ops a) (da_repo a) name slot overwrite ins outs (map JObj bqs)
        | Rs ls \<Rightarrow> repo_send_commands (da_ops a) (da_repo a) name slot ins outs ls))"

definition http_load_filter ::
  "('h, 'w, 'st, 'e) device_api \<Rightarrow> 'e option \<Rightarrow> string \<Rightarrow> string \<Rightarrow> ('w, answer) act" where
  "http_load_filter a entry name slot =
     (case entry of
        None \<Rightarrow> ok (JObj [(''message'', JStr ''No such entry, please refresh.'')], 404)
      | Some e \<Rightarrow> responding a name (repo_load_filter (da_ops a) (da_repo a) name slot e))"

definition http_activate_slot :: "('h, 'w, 'st, 'e) device_api \<Rightarrow> string \<Rightarrow> string \<Rightarrow> ('w, answer) act" where
  "http_activate_slot a name slot = responding a name (repo_activate (da_ops a) (da_repo a) name slot)"

definition http_mute_device ::
  "('h, 'w, 'st, 'e) device_api \<Rightarrow> string \<Rightarrow> string option \<Rightarrow> bool \<Rightarrow> int option \<Rightarrow> ('w, answer) act" where
  "http_mute_device a name slot b channel =
     responding a name
       (if b then repo_mute (da_ops a) (da_repo a) name slot channel
        else repo_unmute (da_ops a) (da_repo a) name slot channel)"

definition http_set_gain ::
  "('h, 'w, 'st, 'e) device_api \<Rightarrow> string \<Rightarrow> string option \<Rightarrow> rat \<Rightarrow> int option \<Rightarrow> ('w, answer) act" where
  "http_set_gain a name slot g channel =
     responding a name (repo_set_gain (da_ops a) (da_repo a) name slot channel g)"

section \<open>The resources\<close>

fun serialise_each :: "('st \<Rightarrow> exn + json) \<Rightarrow> (string, 'st) pydict \<Rightarrow> exn + obj" where
  "serialise_each ser [] = Inr []"
| "serialise_each ser ((n, st) # ds) =
     rbind (ser st) (\<lambda>j. rbind (serialise_each ser ds) (\<lambda>r. Inr ((n, j) # r)))"

definition devices_v1_get :: "('h, 'w, 'st, 'e) device_api \<Rightarrow> ('w, answer) act" where
  "devices_v1_get a =
     and_then (repo_all_devices (da_ops a) (da_repo a) False) (\<lambda>ds.
       case ds of
         [] \<Rightarrow> ok (JNull, 404)
       | (n, st) # _ \<Rightarrow> and_then (lift_result (da_serialise a st)) (\<lambda>j. ok (j, 200)))"

definition devices_v2_get :: "('h, 'w, 'st, 'e) device_api \<Rightarrow> ('w, answer) act" where
  "devices_v2_get a =
     and_then (repo_all_devices (da_ops a) (da_repo a) True) (\<lambda>ds.
     and_then (lift_result (serialise_each (da_serialise a) ds)) (\<lambda>d. ok (JObj d, 200)))"

definition number_values :: "json \<Rightarrow> exn + json" where
  "number_values v =
     rbind (jiter v) (\<lambda>xs. Inr (JList (map (\<lambda>(i, x). JObj [(''id'', JStr (show_nat (i + 1))), (''value'', x)])
       (enumerate 0 xs))))"

text \<open>\<^verbatim>\<open>if key in slot: slot[key] = [...]\<close>\<close>

definition number_key :: "string \<Rightarrow> json \<Rightarrow> exn + json" where
  "number_key key slot =
     rbind (jcontains key slot) (\<lambda>b. if b then jupd key number_values slot else Inr slot)"

definition number_slot :: "json \<Rightarrow> exn + json" where
  "number_slot slot = rbind (number_key ''gains'' slot) (number_key ''mutes'')"

text \<open>The slots are changed in place, so the payload holds the numbered ones afterwards.\<close>

definition number_payload :: "json \<Rightarrow> exn + json" where
  "number_payload payload =
     rbind (jget_or payload ''slots'' (JList [])) (\<lambda>v. rbind (jiter v) (\<lambda>slots.
     rbind (map_result number_slot slots) (\<lambda>slots'.
       rbind (jcontains ''slots'' payload) (\<lambda>b. if b then jset payload ''slots'' (JList slots') else Inr payload))))"

definition device_v2_patch :: "('h, 'w, 'st, 'e) device_api \<Rightarrow> string \<Rightarrow> json \<Rightarrow> ('w, answer) act" where
  "device_v2_patch a name payload =
     and_then (lift_result (number_payload payload)) (\<lambda>p.
     and_then (repo_update (da_ops a) (da_repo a) name p) (\<lambda>_. state_answer a name 200))"

definition device_v3_patch :: "('h, 'w, 'st, 'e) device_api \<Rightarrow> string \<Rightarrow> json \<Rightarrow> ('w, answer) act" where
  "device_v3_patch a name payload =
     and_then
       (try_except (and_then (repo_update (da_ops a) (da_repo a) name payload) (\<lambda>_. ok None))
         (\<lambda>e. case e of
            UnableToPatchDeviceError m invalid \<Rightarrow>
              ok (Some (JObj [(''message'', JStr (''Update failed : '' @ da_patch_text a m))], if invalid then 400 else 500))
          | _ \<Rightarrow> raise e))
       (\<lambda>r. case r of Some x \<Rightarrow> ok x | None \<Rightarrow> state_answer a name 200)"

definition device_levels_get :: "('h, 'w, 'st, 'e) device_api \<Rightarrow> string \<Rightarrow> ('w, answer) act" where
  "device_levels_get a name =
     try_except (and_then (repo_levels (da_ops a) (da_repo a) name) (\<lambda>j. ok (j, 200)))
       (\<lambda>e. ok (JObj [], failure_code e))"

definition set_gain_put ::
  "('h, 'w, 'st, 'e) device_api \<Rightarrow> string \<Rightarrow> string option \<Rightarrow> int option \<Rightarrow> json \<Rightarrow> ('w, answer) act" where
  "set_gain_put a name slot channel payload =
     and_then (lift_result (rbind (jget payload ''gain'') jnum)) (\<lambda>g. http_set_gain a name slot g channel)"

definition set_gain_delete ::
  "('h, 'w, 'st, 'e) device_api \<Rightarrow> string \<Rightarrow> string option \<Rightarrow> int option \<Rightarrow> ('w, answer) act" where
  "set_gain_delete a name slot channel = http_set_gain a name slot 0 channel"

definition manage_filter_put :: "('h, 'w, 'st, 'e) device_api \<Rightarrow> string \<Rightarrow> string \<Rightarrow> json \<Rightarrow> ('w, answer) act" where
  "manage_filter_put a name slot payload =
     and_then (lift_result (jget payload ''entryId'')) (\<lambda>i.
     and_then (da_find_by_id a i) (\<lambda>entry. http_load_filter a entry name slot))"

section \<open>The legacy resource\<close>

text \<open>The channel of a legacy mute or gain: whether the master is meant, and the channel.\<close>

definition legacy_channel :: "json \<Rightarrow> exn + bool \<times> int option" where
  "legacy_channel payload =
     rbind (jget_or payload ''channel'' JNull) (\<lambda>c.
       if c = JStr ''master'' then Inr (True, None)
       else if c = JStr ''0'' \<or> c = JNull then Inr (False, None)
       else rbind (jint c) (\<lambda>i. Inr (False, Some i)))"

definition MASTER :: string where
  "MASTER = ''master''"

definition legacy_level :: "('h, 'w, 'st, 'e) device_api \<Rightarrow> string \<Rightarrow> json \<Rightarrow> json \<Rightarrow> ('w, answer) act" where
  "legacy_level a slot command payload =
     and_then (lift_result (legacy_channel payload)) (\<lambda>(master, channel).
       let s = (if master then None else Some slot) in
       and_then (lift_result (jget payload ''value'')) (\<lambda>v.
         if command = JStr ''mute'' then http_mute_device a MASTER s (v \<noteq> JStr ''off'') channel
         else and_then (lift_result (jfloat v)) (\<lambda>g. http_set_gain a MASTER s (py_round g 2) channel)))"

definition handle_command :: "('h, 'w, 'st, 'e) device_api \<Rightarrow> string \<Rightarrow> json \<Rightarrow> ('w, answer) act" where
  "handle_command a slot payload =
     and_then (lift_result (jcontains ''command'' payload)) (\<lambda>present.
       if \<not> present then ok (JNull, 400)
       else
         and_then (lift_result (jget payload ''command'')) (\<lambda>command.
           if command = JStr ''load'' then
             and_then (lift_result (jcontains ''id'' payload)) (\<lambda>b.
               if b then
                 and_then (lift_result (jget payload ''id'')) (\<lambda>i.
                 and_then (da_find_by_id a i) (\<lambda>entry. http_load_filter a entry MASTER slot))
               else ok (JNull, 400))
           else if command = JStr ''activate'' then http_activate_slot a MASTER slot
           else if command = JStr ''mute'' \<or> command = JStr ''gain'' then
             and_then (lift_result (jcontains ''value'' payload)) (\<lambda>b.
               if b then legacy_level a slot command payload else ok (JNull, 400))
           else ok (JNull, 400)))"

text \<open>A list of commands: the body of the last one is kept, its status is not.\<close>

fun handle_commands :: "('h, 'w, 'st, 'e) device_api \<Rightarrow> string \<Rightarrow> json list \<Rightarrow> json \<Rightarrow> ('w, json) act" where
  "handle_commands a slot [] result = ok result"
| "handle_commands a slot (p # ps) result =
     and_then (handle_command a slot p) (\<lambda>r. handle_commands a slot ps (fst r))"

definition legacy_put :: "('h, 'w, 'st, 'e) device_api \<Rightarrow> string \<Rightarrow> json \<Rightarrow> ('w, answer) act" where
  "legacy_put a slot payload =
     (case payload of
        JList ps \<Rightarrow>
          and_then (handle_commands a slot ps JNull) (\<lambda>r. state_answer a MASTER (if truthy r then 200 else 500))
      | JObj d \<Rightarrow> handle_command a slot payload
      | _ \<Rightarrow> state_answer a MASTER 404)"

definition legacy_delete :: "('h, 'w, 'st, 'e) device_api \<Rightarrow> string \<Rightarrow> ('w, answer) act" where
  "legacy_delete a slot = http_delete_filter a MASTER slot"

section \<open>Which outcome gets which status\<close>

text \<open>A device that always answers with a state that can be serialised.\<close>

definition readable :: "('h, 'w, 'st, 'e) device_api \<Rightarrow> 'h \<Rightarrow> bool" where
  "readable a h \<longleftrightarrow> (\<forall>w. \<exists>st j. fst (op_state (da_ops a) h False w) = Inr st \<and> da_serialise a st = Inr j)"

text \<open>The answer to an operation of device \<open>h\<close>: its state afterwards, and the status of the outcome.\<close>

definition answer_for :: "('h, 'w, 'st, 'e) device_api \<Rightarrow> 'h \<Rightarrow> ('w, 'x) act \<Rightarrow> ('w, answer) act" where
  "answer_for a h op w =
     (case op w of (r, w1) \<Rightarrow>
       (case op_state (da_ops a) h False w1 of (s, w2) \<Rightarrow>
         (case s of Inl e \<Rightarrow> (Inl e, w2) | Inr st \<Rightarrow>
           (rbind (da_serialise a st) (\<lambda>j. Inr (j, case r of Inr _ \<Rightarrow> 200 | Inl e \<Rightarrow> failure_code e)), w2))))"

lemma responding_known_at:
  assumes "map_of (repo_devices (da_repo a)) name = Some h" and "op h w = (r, w1)"
    and "op_state (da_ops a) h False w1 = (Inr st, w2)" and "da_serialise a st = Inr j"
  shows "responding a name (and_then (repo_get (da_repo a) name) op) w
    = (Inr (j, case r of Inr _ \<Rightarrow> 200 | Inl e \<Rightarrow> failure_code e), w2)"
  using assms
  by (cases r) (simp_all add: responding_def state_answer_def state_body_def repo_state_def repo_get_def act_simps)

lemma responding_known:
  assumes "map_of (repo_devices (da_repo a)) name = Some h" and "readable a h"
  shows "responding a name (and_then (repo_get (da_repo a) name) op) = answer_for a h (op h)"
proof
  fix w
  obtain r w1 where op: "op h w = (r, w1)" by fastforce
  obtain s w2 where st: "op_state (da_ops a) h False w1 = (s, w2)" by fastforce
  obtain x j where "s = Inr x" "da_serialise a x = Inr j"
    using assms(2) st unfolding readable_def by (metis fst_conv)
  then show "responding a name (and_then (repo_get (da_repo a) name) op) w = answer_for a h (op h) w"
    using responding_known_at [where op = op, OF assms(1) op, of x w2 j] op st by (simp add: answer_for_def)
qed

lemma responding_unknown:
  assumes "map_of (repo_devices (da_repo a)) name = None"
  shows "responding a name (and_then (repo_get (da_repo a) name) op) = raise (NoSuchDevice name)"
  using assms
  by (simp add: responding_def state_answer_def state_body_def repo_state_def repo_get_def act_simps fun_eq_iff)

definition on_device :: "('h, 'w, 'st, 'e) device_api \<Rightarrow> string \<Rightarrow> ('h \<Rightarrow> ('w, unit) act) \<Rightarrow> ('w, answer) act" where
  "on_device a name op =
     (case map_of (repo_devices (da_repo a)) name of
        None \<Rightarrow> raise (NoSuchDevice name) | Some h \<Rightarrow> answer_for a h (op h))"

lemma responding_on_device:
  assumes "\<forall>h. map_of (repo_devices (da_repo a)) name = Some h \<longrightarrow> readable a h"
  shows "responding a name (and_then (repo_get (da_repo a) name) op) = on_device a name op"
  using assms by (auto simp: on_device_def responding_known responding_unknown split: option.split)

lemmas api_defs = http_activate_slot_def http_mute_device_def http_set_gain_def http_load_filter_def
  repo_activate_def repo_mute_def repo_unmute_def repo_set_gain_def repo_load_filter_def


section \<open>Lists of legacy commands\<close>

datatype legacy_channel_spec = MasterChannel | AllChannels | OneChannel nat

datatype 'e legacy_command =
    LegacyActivate
  | LegacyLoad json 'e
  | LegacyMute legacy_channel_spec bool
  | LegacyGain legacy_channel_spec rat

fun channel_json :: "legacy_channel_spec \<Rightarrow> json" where
  "channel_json MasterChannel = JStr ''master''"
| "channel_json AllChannels = JStr ''0''"
| "channel_json (OneChannel n) = JStr (show_nat (n + 1))"

fun legacy_payload :: "'e legacy_command \<Rightarrow> json" where
  "legacy_payload LegacyActivate = JObj [(''command'', JStr ''activate'')]"
| "legacy_payload (LegacyLoad i e) = JObj [(''command'', JStr ''load''), (''id'', i)]"
| "legacy_payload (LegacyMute c b) =
     JObj [(''command'', JStr ''mute''), (''channel'', channel_json c), (''value'', JStr (if b then ''on'' else ''off''))]"
| "legacy_payload (LegacyGain c g) =
     JObj [(''command'', JStr ''gain''), (''channel'', channel_json c), (''value'', JNum g)]"

fun target :: "string \<Rightarrow> legacy_channel_spec \<Rightarrow> string option \<times> int option" where
  "target slot MasterChannel = (None, None)"
| "target slot AllChannels = (Some slot, None)"
| "target slot (OneChannel n) = (Some slot, Some (int n + 1))"

text \<open>The operation of the device a command stands for.\<close>

fun legacy_op :: "('h, 'w, 'st, 'e) device_api \<Rightarrow> 'h \<Rightarrow> string \<Rightarrow> 'e legacy_command \<Rightarrow> ('w, unit) act" where
  "legacy_op a h slot LegacyActivate = op_activate (da_ops a) h slot"
| "legacy_op a h slot (LegacyLoad i e) = op_load_filter (da_ops a) h slot e"
| "legacy_op a h slot (LegacyMute c b) =
     (if b then op_mute else op_unmute) (da_ops a) h (fst (target slot c)) (snd (target slot c))"
| "legacy_op a h slot (LegacyGain c g) =
     op_set_gain (da_ops a) h (fst (target slot c)) (snd (target slot c)) (py_round g 2)"

text \<open>The commands in turn, whatever each returns, with a reading of the state after each.\<close>

definition legacy_run ::
  "('h, 'w, 'st, 'e) device_api \<Rightarrow> 'h \<Rightarrow> string \<Rightarrow> 'e legacy_command list \<Rightarrow> 'w \<Rightarrow> 'w" where
  "legacy_run a h slot cs w = fold (\<lambda>c. snd \<circ> answer_for a h (legacy_op a h slot c)) cs w"

lemma legacy_channel_payload:
  "legacy_channel (JObj ((''command'', x) # (''channel'', channel_json c) # d)) = Inr
     (c = MasterChannel, snd (target [] c))"
proof (cases c)
  case (OneChannel n)
  have n: "show_nat (Suc n) = show_int (int n + 1)" by (simp add: show_int_def nat_add_distrib)
  have "hd (show_nat (Suc n)) \<noteq> CHR ''m''"
    using hd_show_nat_digit [of "Suc n"] by (auto simp: is_digit_def digit_val_def)
  then have "show_nat (Suc n) \<noteq> ''master''" by auto
  then have m: "show_int (int n + 1) \<noteq> ''master''" by (simp add: n)
  have z: "show_int (int n + 1) \<noteq> ''0''"
  proof
    assume "show_int (int n + 1) = ''0''"
    then have "py_int ''0'' = Some (int n + 1)" by (metis py_int_show_int)
    moreover have "py_int ''0'' = Some 0" by code_simp
    ultimately show False by simp
  qed
  then show ?thesis
    using OneChannel m by (simp add: legacy_channel_def dict_get_def n)
qed (simp_all add: legacy_channel_def dict_get_def)

lemma handle_command_known:
  assumes h: "map_of (repo_devices (da_repo a)) MASTER = Some h" and r: "readable a h"
    and find: "\<forall>i e. c = LegacyLoad i e \<longrightarrow> da_find_by_id a i = ok (Some e)"
  shows "handle_command a slot (legacy_payload c) = answer_for a h (legacy_op a h slot c)"
proof -
  have dev: "responding a MASTER (and_then (repo_get (da_repo a) MASTER) op) = answer_for a h (op h)" for op
    using h r by (rule responding_known)
  have lift: "and_then (lift_result (Inr x)) f = f x" for x f by (rule ext) (simp add: act_simps)
  show ?thesis
  proof (cases c)
    case LegacyActivate
    then show ?thesis by (simp add: handle_command_def lift api_defs dev)
  next
    case (LegacyLoad i e)
    then show ?thesis using find by (simp add: handle_command_def lift api_defs dev)
  next
    case (LegacyMute ch b)
    then show ?thesis
      by (cases ch) (simp_all add: handle_command_def lift legacy_level_def legacy_channel_payload api_defs dev
          del: channel_json.simps)
  next
    case (LegacyGain ch g)
    then show ?thesis
      by (cases ch) (simp_all add: handle_command_def lift legacy_level_def legacy_channel_payload api_defs dev
          del: channel_json.simps)
  qed
qed

text \<open>A readable device whose serialised state is never empty.\<close>

definition shows_state :: "('h, 'w, 'st, 'e) device_api \<Rightarrow> 'h \<Rightarrow> bool" where
  "shows_state a h \<longleftrightarrow>
     (\<forall>w. \<exists>st d. fst (op_state (da_ops a) h False w) = Inr st \<and> da_serialise a st = Inr (JObj d) \<and> d \<noteq> [])"

lemma answer_for_shown:
  assumes "shows_state a h"
  shows "\<exists>d code w'. answer_for a h op w = (Inr (JObj d, code), w') \<and> d \<noteq> []"
proof -
  obtain r w1 where op: "op w = (r, w1)" by fastforce
  obtain s w2 where st: "op_state (da_ops a) h False w1 = (s, w2)" by fastforce
  obtain x d where "s = Inr x" "da_serialise a x = Inr (JObj d)" "d \<noteq> []"
    using assms st unfolding shows_state_def by (metis fst_conv)
  then show ?thesis using op st by (simp add: answer_for_def)
qed

lemma handle_commands_run:
  assumes h: "map_of (repo_devices (da_repo a)) MASTER = Some h" and s: "shows_state a h"
    and find: "\<forall>i e. LegacyLoad i e \<in> set cs \<longrightarrow> da_find_by_id a i = ok (Some e)"
  shows "\<exists>j. handle_commands a slot (map legacy_payload cs) j0 w = (Inr j, legacy_run a h slot cs w)
    \<and> (if cs = [] then j = j0 else truthy j)"
  using find
proof (induction cs arbitrary: j0 w)
  case Nil
  then show ?case by (simp add: ok_def legacy_run_def)
next
  case (Cons c cs)
  have r: "readable a h" using s unfolding shows_state_def readable_def by blast
  have c: "handle_command a slot (legacy_payload c) = answer_for a h (legacy_op a h slot c)"
    using Cons.prems by (intro handle_command_known [OF h r]) simp
  obtain d code w' where one: "answer_for a h (legacy_op a h slot c) w = (Inr (JObj d, code), w')" "d \<noteq> []"
    using answer_for_shown [OF s] by blast
  have "\<exists>j. handle_commands a slot (map legacy_payload cs) (JObj d) w' = (Inr j, legacy_run a h slot cs w')
      \<and> (if cs = [] then j = JObj d else truthy j)"
    using Cons.prems by (intro Cons.IH) simp
  then show ?case using one by (auto simp: c and_then_def legacy_run_def split: if_splits)
qed

text \<open>
  A list of legacy commands is carried out in order on the master device, each command whatever the
  ones before it did, and the answer is the final state with status 200 even when every command
  failed; an empty list is answered with 500.
\<close>

theorem legacy_list_outcome:
  assumes h: "map_of (repo_devices (da_repo a)) MASTER = Some h" and s: "shows_state a h"
    and find: "\<forall>i e. LegacyLoad i e \<in> set cs \<longrightarrow> da_find_by_id a i = ok (Some e)"
  shows "\<exists>j. legacy_put a slot (JList (map legacy_payload cs)) w =
      (Inr (j, if cs = [] then 500 else 200), snd (op_state (da_ops a) h False (legacy_run a h slot cs w)))"
proof -
  obtain j where j: "handle_commands a slot (map legacy_payload cs) JNull w = (Inr j, legacy_run a h slot cs w)"
    "if cs = [] then j = JNull else truthy j"
    using handle_commands_run [OF h s find] by blast
  obtain x w2 where st: "op_state (da_ops a) h False (legacy_run a h slot cs w) = (x, w2)" by fastforce
  then obtain st d where "x = Inr st" "da_serialise a st = Inr (JObj d)"
    using s unfolding shows_state_def by (metis fst_conv)
  with j st h show ?thesis
    by (auto simp: legacy_put_def and_then_def state_answer_def state_body_def repo_state_def repo_get_def act_simps)
qed

text \<open>A device that refuses every activation.\<close>

definition demo_api :: "(string, unit, unit, unit) device_api" where
  "demo_api =
     \<lparr>da_ops = demo_ops\<lparr>op_activate := \<lambda>_ _. raise (InvalidRequestError ''no such slot'')\<rparr>,
      da_repo = repo_init demo_ops [(''master'', ''up'')], da_serialise = (\<lambda>_. Inr (JObj [(''name'', JStr ''master'')])),
      da_find_by_id = (\<lambda>_. ok None), da_patch_text = (\<lambda>_. []), da_float_to_str = (\<lambda>_. ''0.0'')\<rparr>"

lemma demo_api_facts:
  "repo_devices (da_repo demo_api) = [(''master'', ''up'')]"
  "shows_state demo_api ''up''" "readable demo_api ''up''"
  by (simp_all add: demo_api_def repo_init_def dict_update_def demo_ops_def shows_state_def readable_def)


theorem legacy_list_outcome_witness:
  "\<exists>j. legacy_put demo_api ''9'' (JList [JObj [(''command'', JStr ''activate'')]]) () = (Inr (j, 200), ())"
proof -
  have "map_of (repo_devices (da_repo demo_api)) MASTER = Some ''up''" by (simp add: demo_api_facts MASTER_def)
  from legacy_list_outcome [OF this demo_api_facts(2), of "[LegacyActivate]" "''9''" "()"] show ?thesis by simp
qed

end
