(* ===== verification/Ws_Server.thy ===== *)
theory Ws_Server
  imports Json
begin

text \<open>
  \<^verbatim>\<open>ezbeq/apis/ws.py\<close>: the web socket server factory that fans messages out to its clients. A client
  receives either every broadcast or, after it subscribed to the levels of a device, those levels
  only. A message is the JSON value whose text is sent; \<open>None\<close> is an absent message. A client whose
  connection is down makes \<^verbatim>\<open>sendMessage\<close> raise \<^verbatim>\<open>Disconnected\<close>. Lemmas: a client is never in two
  places, a broadcast reaches each live client once, the client lists shrink to the live clients,
  and a closed client is forgotten.
\<close>

section \<open>State\<close>

text \<open>
  \<open>down\<close> are the clients whose connection is lost, \<open>sent\<close> what was sent to whom, oldest first,
  \<open>loads\<close> the clients the catalogue loader was started for. The providers are callables: they read
  (the levels provider also changes) the rest of the program, \<open>rest\<close>.
\<close>

record ('c, 'w) ws_factory =
  clients :: "'c list"
  levels_client :: "(string, 'c list) pydict"
  ws_state_provider :: "('w \<Rightarrow> exn + json option) option"
  meta_provider :: "('w \<Rightarrow> exn + json option) option"
  catalogue_loader :: bool
  levels_provider :: "(string, ('w, unit) act) pydict"
  down :: "'c list"
  sent :: "('c \<times> json) list"
  loads :: "'c list"
  rest :: 'w

definition new_ws_factory :: "'w \<Rightarrow> ('c, 'w) ws_factory" where
  "new_ws_factory w =
     \<lparr>clients = [], levels_client = [], ws_state_provider = None, meta_provider = None,
      catalogue_loader = False, levels_provider = [], down = [], sent = [], loads = [], rest = w\<rparr>"

definition init_state_provider :: "('w \<Rightarrow> exn + json option) \<Rightarrow> ('c, 'w) ws_factory \<Rightarrow> ('c, 'w) ws_factory" where
  "init_state_provider f s = s\<lparr>ws_state_provider := Some f\<rparr>"

definition init_meta_provider :: "('w \<Rightarrow> exn + json option) \<Rightarrow> ('c, 'w) ws_factory \<Rightarrow> ('c, 'w) ws_factory" where
  "init_meta_provider f s = s\<lparr>meta_provider := Some f\<rparr>"

definition init_catalogue_loader :: "('c, 'w) ws_factory \<Rightarrow> ('c, 'w) ws_factory" where
  "init_catalogue_loader s = s\<lparr>catalogue_loader := True\<rparr>"

definition set_levels_provider :: "string \<Rightarrow> ('w, unit) act \<Rightarrow> ('c, 'w) ws_factory \<Rightarrow> ('c, 'w) ws_factory" where
  "set_levels_provider name f s = s\<lparr>levels_provider := dict_set (levels_provider s) name f\<rparr>"

section \<open>Sending and registering\<close>

definition disconnected :: exn where
  "disconnected = External ''Disconnected''"

definition send_message :: "'c \<Rightarrow> json \<Rightarrow> (('c, 'w) ws_factory, unit) act" where
  "send_message c msg s =
     (if c \<in> set (down s) then (Inl disconnected, s) else (Inr (), s\<lparr>sent := sent s @ [(c, msg)]\<rparr>))"

definition send_provided ::
  "('w \<Rightarrow> exn + json option) option \<Rightarrow> 'c \<Rightarrow> (('c, 'w) ws_factory, unit) act" where
  "send_provided p c s =
     (case p of
        None \<Rightarrow> (Inr (), s)
      | Some f \<Rightarrow>
          (case f (rest s) of
             Inl e \<Rightarrow> (Inl e, s) | Inr None \<Rightarrow> (Inr (), s) | Inr (Some msg) \<Rightarrow> send_message c msg s))"

definition register :: "'c \<Rightarrow> (('c, 'w) ws_factory, unit) act" where
  "register c s =
     (if c \<in> set (clients s) then (Inr (), s)
      else and_then (send_provided (meta_provider s) c)
             (\<lambda>_. send_provided (ws_state_provider s) c) (s\<lparr>clients := clients s @ [c]\<rparr>))"

definition send_catalogue :: "'c \<Rightarrow> (('c, 'w) ws_factory, unit) act" where
  "send_catalogue c s =
     (if c \<notin> set (clients s) then (Inr (), s)
      else if catalogue_loader s then (Inr (), s\<lparr>loads := loads s @ [c]\<rparr>)
      else (Inr (), s))"

text \<open>The callback the loader is given.\<close>

definition encode_and_send :: "'c \<Rightarrow> json option \<Rightarrow> (('c, 'w) ws_factory, unit) act" where
  "encode_and_send c msg = (case msg of None \<Rightarrow> ok () | Some m \<Rightarrow> send_message c m)"

text \<open>\<^verbatim>\<open>defaultdict\<close>: reading a missing device inserts an empty list.\<close>

definition subscribe_level :: "string \<Rightarrow> 'c \<Rightarrow> (string, 'c list) pydict \<Rightarrow> (string, 'c list) pydict" where
  "subscribe_level device c d =
     (let cs = dict_get d device [] in dict_set d device (if c \<in> set cs then cs else cs @ [c]))"

definition call_levels_provider :: "('w, unit) act \<Rightarrow> (('c, 'w) ws_factory, unit) act" where
  "call_levels_provider f s = (case f (rest s) of (r, w) \<Rightarrow> (r, s\<lparr>rest := w\<rparr>))"

definition register_for_levels :: "string \<Rightarrow> 'c \<Rightarrow> (('c, 'w) ws_factory, unit) act" where
  "register_for_levels device c s =
     (case map_of (levels_provider s) device of
        None \<Rightarrow> (Inr (), s)
      | Some f \<Rightarrow>
          call_levels_provider f
            (s\<lparr>clients := remove1 c (clients s),
               levels_client := subscribe_level device c (levels_client s)\<rparr>))"

definition unregister_for_levels :: "'c \<Rightarrow> ('c, 'w) ws_factory \<Rightarrow> ('c, 'w) ws_factory" where
  "unregister_for_levels c s = s\<lparr>levels_client := map (\<lambda>(k, v). (k, remove1 c v)) (levels_client s)\<rparr>"

definition unregister :: "'c \<Rightarrow> ('c, 'w) ws_factory \<Rightarrow> ('c, 'w) ws_factory" where
  "unregister c s =
     (if c \<in> set (clients s) then s\<lparr>clients := remove1 c (clients s)\<rparr>
      else s\<lparr>levels_client := map (\<lambda>(k, v). (k, if c \<in> set v then remove1 c v else v)) (levels_client s)\<rparr>)"

section \<open>Sending to all\<close>

text \<open>
  \<^verbatim>\<open>__send_to_all\<close> is given one of the factory's own lists, which \<^verbatim>\<open>unregister\<close> then mutates: the
  final length is that of the list afterwards.
\<close>

datatype audience = AllClients | LevelsOf string

definition audience_list :: "audience \<Rightarrow> ('c, 'w) ws_factory \<Rightarrow> 'c list" where
  "audience_list a s = (case a of AllClients \<Rightarrow> clients s | LevelsOf d \<Rightarrow> dict_get (levels_client s) d [])"

fun send_each :: "json \<Rightarrow> 'c list \<Rightarrow> ('c, 'w) ws_factory \<Rightarrow> 'c list \<times> ('c, 'w) ws_factory" where
  "send_each msg [] s = ([], s)"
| "send_each msg (c # cs) s =
     (case send_message c msg s of
        (Inl _, s') \<Rightarrow> (case send_each msg cs s' of (bad, s'') \<Rightarrow> (c # bad, s''))
      | (Inr _, s') \<Rightarrow> send_each msg cs s')"

definition send_to_all :: "audience \<Rightarrow> json \<Rightarrow> ('c, 'w) ws_factory \<Rightarrow> bool \<times> ('c, 'w) ws_factory" where
  "send_to_all a msg s =
     (if audience_list a s = [] then (False, s)
      else (case send_each msg (audience_list a s) s of
              (bad, s') \<Rightarrow>
                (let s'' = fold unregister bad s' in (length bad < length (audience_list a s''), s''))))"

definition ws_broadcast :: "json \<Rightarrow> ('c, 'w) ws_factory \<Rightarrow> ('c, 'w) ws_factory" where
  "ws_broadcast msg s = snd (send_to_all AllClients msg s)"

definition send_levels :: "string \<Rightarrow> json \<Rightarrow> ('c, 'w) ws_factory \<Rightarrow> bool \<times> ('c, 'w) ws_factory" where
  "send_levels device msg s =
     (if dict_get (levels_client s) device [] = [] then (False, s) else send_to_all (LevelsOf device) msg s)"

definition has_levels_client :: "string \<Rightarrow> ('c, 'w) ws_factory \<Rightarrow> bool" where
  "has_levels_client device s \<longleftrightarrow> 0 < length (dict_get (levels_client s) device [])"

text \<open>\<^verbatim>\<open>WsServer\<close>\<close>

definition ws_broadcast_error :: "string \<Rightarrow> bool \<Rightarrow> ('c, 'w) ws_factory \<Rightarrow> ('c, 'w) ws_factory" where
  "ws_broadcast_error msg persistent =
     ws_broadcast (JObj [(''message'', JStr ''Error''), (''data'', JStr msg), (''persistent'', JBool persistent)])"

definition ws_levels :: "string \<Rightarrow> json \<Rightarrow> ('c, 'w) ws_factory \<Rightarrow> bool \<times> ('c, 'w) ws_factory" where
  "ws_levels device lv = send_levels device (JObj [(''message'', JStr ''Levels''), (''data'', lv)])"

section \<open>The protocol\<close>

definition SUBSCRIBE_LEVELS_CMD :: string where
  "SUBSCRIBE_LEVELS_CMD = ''subscribe levels''"

definition LOAD_CATALOGUE_CMD :: string where
  "LOAD_CATALOGUE_CMD = ''load catalogue''"

definition rstrip :: "string \<Rightarrow> string" where
  "rstrip s = rev (dropWhile is_blank (rev s))"

text \<open>\<open>payload\<close> is the decoded text, \<open>None\<close> when it is not valid UTF-8. Exceptions are logged.\<close>

definition on_message :: "'c \<Rightarrow> string option \<Rightarrow> ('c, 'w) ws_factory \<Rightarrow> ('c, 'w) ws_factory" where
  "on_message c payload s =
     (case payload of
        None \<Rightarrow> s
      | Some t \<Rightarrow>
          if starts_with SUBSCRIBE_LEVELS_CMD t then
            snd (register_for_levels (rstrip (drop (length SUBSCRIBE_LEVELS_CMD + 1) t)) c s)
          else if starts_with LOAD_CATALOGUE_CMD t then snd (send_catalogue c s)
          else s)"

section \<open>Histories\<close>

text \<open>
  What can happen to a factory: a new connection opens, an open one sends a message, breaks or closes,
  the catalogue loader sends a chunk, the program broadcasts, sends levels or installs a provider.
  \<open>opened\<close> are the clients that ever opened.
\<close>

inductive ws_history :: "'c set \<Rightarrow> ('c, 'w) ws_factory \<Rightarrow> bool" where
  start: "ws_history {} (new_ws_factory w)"
| opens: "ws_history opened s \<Longrightarrow> c \<notin> opened \<Longrightarrow> ws_history (insert c opened) (snd (register c s))"
| message: "ws_history opened s \<Longrightarrow> c \<in> opened \<Longrightarrow> c \<notin> set (down s) \<Longrightarrow> ws_history opened (on_message c t s)"
| breaks: "ws_history opened s \<Longrightarrow> ws_history opened (s\<lparr>down := c # down s\<rparr>)"
| closes: "ws_history opened s \<Longrightarrow> ws_history opened ((unregister c s)\<lparr>down := c # down s\<rparr>)"
| chunk: "ws_history opened s \<Longrightarrow> c \<in> set (loads s) \<Longrightarrow> ws_history opened (snd (encode_and_send c m s))"
| broadcast: "ws_history opened s \<Longrightarrow> ws_history opened (ws_broadcast msg s)"
| levels: "ws_history opened s \<Longrightarrow> ws_history opened (snd (ws_levels d lv s))"
| state_provider: "ws_history opened s \<Longrightarrow> ws_history opened (init_state_provider f s)"
| meta_provider: "ws_history opened s \<Longrightarrow> ws_history opened (init_meta_provider f s)"
| loader: "ws_history opened s \<Longrightarrow> ws_history opened (init_catalogue_loader s)"
| levels_provider: "ws_history opened s \<Longrightarrow> ws_history opened (set_levels_provider d g s)"
| elsewhere: "ws_history opened s \<Longrightarrow> ws_history opened (s\<lparr>rest := w\<rparr>)"

text \<open>
  The invariant: the lists hold opened clients without repetition, and no client receives both
  broadcasts and levels.
\<close>

definition level_lists :: "('c, 'w) ws_factory \<Rightarrow> 'c list list" where
  "level_lists s = map snd (levels_client s)"

definition ws_ok :: "'c set \<Rightarrow> ('c, 'w) ws_factory \<Rightarrow> bool" where
  "ws_ok opened s \<longleftrightarrow> distinct (clients s) \<and> set (clients s) \<subseteq> opened \<and> distinct (keys (levels_client s))
     \<and> (\<forall>v \<in> set (level_lists s). distinct v \<and> set v \<subseteq> opened \<and> set v \<inter> set (clients s) = {})"

section \<open>Lemmas\<close>

lemma send_message_frame [simp]:
  "clients (snd (send_message c m s)) = clients s"
  "levels_client (snd (send_message c m s)) = levels_client s"
  by (simp_all add: send_message_def)

lemma send_provided_frame [simp]:
  "clients (snd (send_provided p c s)) = clients s"
  "levels_client (snd (send_provided p c s)) = levels_client s"
  by (simp_all add: send_provided_def split: option.split sum.split)

lemma call_levels_provider_frame [simp]:
  "clients (snd (call_levels_provider f s)) = clients s"
  "levels_client (snd (call_levels_provider f s)) = levels_client s"
  by (simp_all add: call_levels_provider_def split: prod.split)

lemma ws_ok_cong:
  "clients s' = clients s \<Longrightarrow> levels_client s' = levels_client s \<Longrightarrow> ws_ok opened s' = ws_ok opened s"
  by (simp add: ws_ok_def level_lists_def)

lemma register_lists:
  "clients (snd (register c s)) = (if c \<in> set (clients s) then clients s else clients s @ [c])"
  "levels_client (snd (register c s)) = levels_client s"
  by (auto simp: register_def and_then_def split: prod.split sum.split)
    (metis select_convs(1,2) send_provided_frame snd_conv surjective update_convs(1))+

lemma ws_ok_register: "ws_ok opened s \<Longrightarrow> c \<notin> opened \<Longrightarrow> ws_ok (insert c opened) (snd (register c s))"
  unfolding ws_ok_def level_lists_def register_lists by auto

lemma ws_ok_unregister: "ws_ok opened s \<Longrightarrow> ws_ok opened (unregister c s)"
  by (auto simp: ws_ok_def level_lists_def unregister_def comp_def case_prod_unfold dest: notin_set_remove1)

lemma ws_ok_subscribe:
  assumes "ws_ok opened s" and "c \<in> opened"
  shows "ws_ok opened (s\<lparr>clients := remove1 c (clients s), levels_client := subscribe_level d c (levels_client s)\<rparr>)"
proof -
  let ?cs = "dict_get (levels_client s) d []"
  let ?new = "if c \<in> set ?cs then ?cs else ?cs @ [c]"
  have "?cs = [] \<or> ?cs \<in> set (level_lists s)"
    using set_dict_get [of "levels_client s" d] by (auto simp: level_lists_def)
  then have cs: "distinct ?cs" "set ?cs \<subseteq> opened" "set ?cs \<inter> set (clients s) = {}"
    using assms(1) by (auto simp: ws_ok_def)
  let ?s = "s\<lparr>clients := remove1 c (clients s), levels_client := subscribe_level d c (levels_client s)\<rparr>"
  have sub: "set (remove1 c (clients s)) \<subseteq> set (clients s)" by (rule set_remove1_subset)
  have c: "c \<notin> set (remove1 c (clients s))" using assms(1) by (simp add: ws_ok_def)
  have "distinct v \<and> set v \<subseteq> opened \<and> set v \<inter> set (clients ?s) = {}" if v: "v \<in> set (level_lists ?s)" for v
  proof -
    have "v = ?new \<or> v \<in> set (level_lists s)"
      using v snd_dict_set [of "levels_client s" d ?new] by (auto simp: subscribe_level_def Let_def level_lists_def)
    then show ?thesis
    proof
      assume "v = ?new"
      then show ?thesis using cs sub c assms(2) by (auto split: if_splits)
    next
      assume "v \<in> set (level_lists s)"
      then have "distinct v \<and> set v \<subseteq> opened \<and> set v \<inter> set (clients s) = {}"
        using assms(1) by (simp add: ws_ok_def)
      then show ?thesis using sub by auto
    qed
  qed
  moreover have "distinct (clients ?s)" "set (clients ?s) \<subseteq> opened" "distinct (keys (levels_client ?s))"
    using assms(1) sub by (auto simp: ws_ok_def subscribe_level_def Let_def)
  ultimately show ?thesis unfolding ws_ok_def by blast
qed

lemma ws_ok_on_message: "ws_ok opened s \<Longrightarrow> c \<in> opened \<Longrightarrow> ws_ok opened (on_message c t s)"
proof -
  assume ok: "ws_ok opened s" and c: "c \<in> opened"
  have "ws_ok opened (snd (register_for_levels d c s))" for d
    using ws_ok_subscribe [OF ok c] ok
    by (auto simp: register_for_levels_def split: option.split) (simp add: ws_ok_def level_lists_def)
  moreover have "ws_ok opened (snd (send_catalogue c s))"
    using ok by (simp add: send_catalogue_def ws_ok_def level_lists_def)
  ultimately show ?thesis using ok by (simp add: on_message_def split: option.split)
qed

lemma send_each_eq:
  "send_each msg cs s = (filter (\<lambda>c. c \<in> set (down s)) cs,
     s\<lparr>sent := sent s @ map (\<lambda>c. (c, msg)) (filter (\<lambda>c. c \<notin> set (down s)) cs)\<rparr>)"
  by (induction cs arbitrary: s) (auto simp: send_message_def)

lemma fold_unregister_clients:
  "set bad \<subseteq> set (clients s) \<Longrightarrow> distinct bad \<Longrightarrow> distinct (clients s) \<Longrightarrow>
   fold unregister bad s = s\<lparr>clients := filter (\<lambda>c. c \<notin> set bad) (clients s)\<rparr>"
proof (induction bad arbitrary: s)
  case (Cons c bad)
  let ?s = "s\<lparr>clients := remove1 c (clients s)\<rparr>"
  have rem: "remove1 c (clients s) = filter (\<lambda>x. x \<noteq> c) (clients s)"
    using Cons.prems by (simp add: distinct_remove1_filter)
  have "fold unregister bad ?s = ?s\<lparr>clients := filter (\<lambda>c. c \<notin> set bad) (clients ?s)\<rparr>"
    using Cons.prems by (intro Cons.IH) (auto simp: rem)
  moreover have "unregister c s = s\<lparr>clients := filter (\<lambda>x. x \<noteq> c) (clients s)\<rparr>"
    using Cons.prems by (simp add: unregister_def rem)
  ultimately show ?case by (simp add: rem)
qed simp

lemma fold_unregister_levels:
  "set bad \<inter> set (clients s) = {} \<Longrightarrow> \<forall>v \<in> set (level_lists s). distinct v \<Longrightarrow>
   fold unregister bad s
     = s\<lparr>levels_client := map (\<lambda>(k, v). (k, filter (\<lambda>c. c \<notin> set bad) v)) (levels_client s)\<rparr>"
proof (induction bad arbitrary: s)
  case (Cons c bad)
  let ?s = "unregister c s"
  have rem: "(if c \<in> set v then remove1 c v else v) = filter (\<lambda>x. x \<noteq> c) v" if "(k, v) \<in> set (levels_client s)" for k v
  proof -
    have "distinct v" using that Cons.prems(2) by (force simp: level_lists_def)
    then show ?thesis by (auto simp: distinct_remove1_filter intro!: filter_True [symmetric])
  qed
  have s: "?s = s\<lparr>levels_client := map (\<lambda>(k, v). (k, filter (\<lambda>x. x \<noteq> c) v)) (levels_client s)\<rparr>"
  proof -
    have "map (\<lambda>(k, v). (k, if c \<in> set v then remove1 c v else v)) (levels_client s)
        = map (\<lambda>(k, v). (k, filter (\<lambda>x. x \<noteq> c) v)) (levels_client s)"
      by (intro map_cong refl) (clarsimp simp only: prod.case rem, simp)
    then show ?thesis using Cons.prems(1) by (simp add: unregister_def)
  qed
  have "fold unregister bad ?s
      = ?s\<lparr>levels_client := map (\<lambda>(k, v). (k, filter (\<lambda>c. c \<notin> set bad) v)) (levels_client ?s)\<rparr>"
    using Cons.prems by (intro Cons.IH) (auto simp: s level_lists_def)
  then show ?case by (simp add: s comp_def case_prod_unfold conj_commute)
qed simp

lemma ws_ok_fold_unregister: "ws_ok opened s \<Longrightarrow> ws_ok opened (fold unregister bad s)"
  by (induction bad arbitrary: s) (simp_all add: ws_ok_unregister)

lemma ws_ok_send_to_all: "ws_ok opened s \<Longrightarrow> ws_ok opened (snd (send_to_all a msg s))"
  by (auto simp: send_to_all_def send_each_eq Let_def intro!: ws_ok_fold_unregister)
    (simp add: ws_ok_def level_lists_def)

lemma ws_history_ok: "ws_history opened s \<Longrightarrow> ws_ok opened s"
proof (induction rule: ws_history.induct)
  case (start w)
  then show ?case by (simp add: ws_ok_def new_ws_factory_def level_lists_def)
next
  case (closes opened s c)
  then show ?case using ws_ok_cong [of "(unregister c s)\<lparr>down := c # down s\<rparr>" "unregister c s"] ws_ok_unregister by auto
next
  case (chunk opened s c m)
  then show ?case
    by (auto simp: encode_and_send_def ok_def ws_ok_def level_lists_def split: option.split)
next
  case (opens opened s c)
  then show ?case by (blast intro: ws_ok_register)
next
  case (message opened s c t)
  then show ?case by (blast intro: ws_ok_on_message)
next
  case (broadcast opened s msg)
  then show ?case by (simp add: ws_broadcast_def ws_ok_send_to_all)
next
  case (levels opened s d lv)
  then show ?case by (simp add: ws_levels_def send_levels_def ws_ok_send_to_all)
qed (simp_all add: init_state_provider_def init_meta_provider_def
    init_catalogue_loader_def set_levels_provider_def ws_ok_def level_lists_def)

lemma ws_ok_subscribers:
  assumes "ws_ok opened s"
  shows "distinct (dict_get (levels_client s) d [])"
    and "set (dict_get (levels_client s) d []) \<subseteq> opened"
    and "set (dict_get (levels_client s) d []) \<inter> set (clients s) = {}"
proof -
  have "dict_get (levels_client s) d [] = [] \<or> dict_get (levels_client s) d [] \<in> set (level_lists s)"
    using set_dict_get [of "levels_client s" d] unfolding level_lists_def set_map by blast
  then show "distinct (dict_get (levels_client s) d [])"
    and "set (dict_get (levels_client s) d []) \<subseteq> opened"
    and "set (dict_get (levels_client s) d []) \<inter> set (clients s) = {}"
    using assms unfolding ws_ok_def by auto
qed

text \<open>
  Claim C13. Whatever clients and program do, no client is ever listed twice, no client receives both
  broadcasts and levels, and only clients that opened are listed.
\<close>

theorem ws_lists_exclusive:
  assumes "ws_history opened s"
  shows "distinct (clients s) \<and> set (clients s) \<subseteq> opened
    \<and> (\<forall>d. distinct (dict_get (levels_client s) d []) \<and> set (dict_get (levels_client s) d []) \<subseteq> opened
          \<and> set (dict_get (levels_client s) d []) \<inter> set (clients s) = {})"
  using ws_history_ok [OF assms] ws_ok_subscribers [OF ws_history_ok [OF assms]]
  by (simp add: ws_ok_def)

text \<open>
  Claim C7. A broadcast reaches every live client exactly once, in the order of registration, drops the
  clients whose connection is lost and changes nothing else.
\<close>

theorem broadcast_outcome:
  assumes "ws_history opened s"
  shows "ws_broadcast msg s =
    s\<lparr>clients := filter (\<lambda>c. c \<notin> set (down s)) (clients s),
      sent := sent s @ map (\<lambda>c. (c, msg)) (filter (\<lambda>c. c \<notin> set (down s)) (clients s))\<rparr>"
proof -
  let ?bad = "filter (\<lambda>c. c \<in> set (down s)) (clients s)"
  let ?s = "s\<lparr>sent := sent s @ map (\<lambda>c. (c, msg)) (filter (\<lambda>c. c \<notin> set (down s)) (clients s))\<rparr>"
  have "distinct (clients s)" using ws_history_ok [OF assms] by (simp add: ws_ok_def)
  then have "fold unregister ?bad ?s = ?s\<lparr>clients := filter (\<lambda>c. c \<notin> set ?bad) (clients ?s)\<rparr>"
    by (intro fold_unregister_clients) auto
  moreover have "filter (\<lambda>c. c \<notin> set ?bad) (clients s) = filter (\<lambda>c. c \<notin> set (down s)) (clients s)"
    by (rule filter_cong) auto
  ultimately show ?thesis
    by (auto simp: ws_broadcast_def send_to_all_def audience_list_def send_each_eq Let_def)
qed

text \<open>
  Levels go to the live subscribers of the device and the lost ones are dropped. The result is
  not whether somebody received them: it is whether the live subscribers outnumber the lost ones.
\<close>

theorem levels_outcome:
  assumes "ws_history opened s" and subs_def: "subs = dict_get (levels_client s) d []"
  shows "(fst (ws_levels d lv s) \<longleftrightarrow>
      length (filter (\<lambda>c. c \<in> set (down s)) subs) < length (filter (\<lambda>c. c \<notin> set (down s)) subs))
    \<and> dict_get (levels_client (snd (ws_levels d lv s))) d [] = filter (\<lambda>c. c \<notin> set (down s)) subs
    \<and> clients (snd (ws_levels d lv s)) = clients s
    \<and> sent (snd (ws_levels d lv s)) = sent s @ map
        (\<lambda>c. (c, JObj [(''message'', JStr ''Levels''), (''data'', lv)])) (filter (\<lambda>c. c \<notin> set (down s)) subs)"
proof -
  let ?msg = "JObj [(''message'', JStr ''Levels''), (''data'', lv)]"
  let ?bad = "filter (\<lambda>c. c \<in> set (down s)) subs"
  let ?s = "s\<lparr>sent := sent s @ map (\<lambda>c. (c, ?msg)) (filter (\<lambda>c. c \<notin> set (down s)) subs)\<rparr>"
  have lists: "\<forall>v \<in> set (level_lists ?s). distinct v" and "set subs \<inter> set (clients s) = {}"
    using ws_history_ok [OF assms(1)] ws_ok_subscribers(3) [OF ws_history_ok [OF assms(1)]]
    by (simp_all add: ws_ok_def level_lists_def subs_def)
  then have "set ?bad \<inter> set (clients ?s) = {}" by auto
  from fold_unregister_levels [OF this lists]
  have un: "fold unregister ?bad ?s
      = ?s\<lparr>levels_client := map (\<lambda>(k, v). (k, filter (\<lambda>c. c \<notin> set ?bad) v)) (levels_client s)\<rparr>" by simp
  have get: "dict_get (map (\<lambda>(k, v). (k, filter (\<lambda>c. c \<notin> set ?bad) v)) ds) d []
      = filter (\<lambda>c. c \<notin> set ?bad) (dict_get ds d [])" for ds
    by (induction ds) (auto simp: dict_get_def)
  have live: "filter (\<lambda>c. c \<notin> set ?bad) subs = filter (\<lambda>c. c \<notin> set (down s)) subs"
    by (rule filter_cong) auto
  have "ws_levels d lv s = (if subs = [] then (False, s) else
      (length ?bad < length (filter (\<lambda>c. c \<notin> set (down s)) subs), fold unregister ?bad ?s))"
    using un live get [of "levels_client s"]
    by (simp add: ws_levels_def send_levels_def send_to_all_def audience_list_def send_each_eq Let_def
        subs_def [symmetric])
  then show ?thesis using un live get [of "levels_client s"] by (auto simp: subs_def)
qed

text \<open>A client that closed is forgotten: it is in no list of the factory.\<close>

theorem closed_client_forgotten:
  assumes "ws_history opened s"
  shows "c \<notin> set (clients (unregister c s)) \<and> c \<notin> set (dict_get (levels_client (unregister c s)) d [])"
proof -
  note ok = ws_history_ok [OF assms]
  have "c \<notin> set v" if "v \<in> set (level_lists (unregister c s))" for v
    using that ok by (auto simp: ws_ok_def level_lists_def unregister_def split: if_splits)
  moreover have "c \<notin> set (clients (unregister c s))"
    using ok by (auto simp: ws_ok_def unregister_def)
  ultimately show ?thesis
    using set_dict_get [of "levels_client (unregister c s)" d]
    by (cases "dict_get (levels_client (unregister c s)) d [] = []") (auto simp: level_lists_def)
qed

lemma count_list_distinct: "distinct xs \<Longrightarrow> count_list xs c = (if c \<in> set xs then 1 else 0)"
  by (induction xs) auto

text \<open>
  A subscription to the levels of a known device moves the client from the broadcasts to that
  device's subscribers, where it is listed once; a subscription to an unknown device changes nothing.
\<close>

theorem subscription_outcome:
  assumes "ws_history opened s" and "dev \<noteq> []" and "\<not> is_blank (last dev)"
  shows "let s' = on_message c (Some (SUBSCRIBE_LEVELS_CMD @ CHR '' '' # dev)) s in
    if dev \<in> set (keys (levels_provider s))
    then c \<notin> set (clients s') \<and> count_list (dict_get (levels_client s') dev []) c = 1
      \<and> (\<forall>b. b \<noteq> c \<longrightarrow> (b \<in> set (clients s') \<longleftrightarrow> b \<in> set (clients s)))
    else s' = s"
proof -
  have cmd: "drop (length SUBSCRIBE_LEVELS_CMD + 1) (SUBSCRIBE_LEVELS_CMD @ CHR '' '' # dev) = dev" by simp
  have strip: "rstrip dev = dev"
    using assms(2,3) by (cases dev rule: rev_cases) (simp_all add: rstrip_def)
  have msg: "on_message c (Some (SUBSCRIBE_LEVELS_CMD @ CHR '' '' # dev)) s = snd (register_for_levels dev c s)"
    unfolding on_message_def option.case cmd strip by simp
  have d: "distinct (clients s)" "distinct (dict_get (levels_client s) dev [])"
    using ws_history_ok [OF assms(1)] ws_ok_subscribers(1) by (auto simp: ws_ok_def)
  show ?thesis
  proof (cases "map_of (levels_provider s) dev")
    case None
    then have "dev \<notin> set (keys (levels_provider s))" by (simp add: map_of_eq_None_iff)
    with None show ?thesis unfolding msg by (simp add: register_for_levels_def Let_def)
  next
    case (Some f)
    then have "dev \<in> set (keys (levels_provider s))" by (metis map_of_eq_None_iff option.distinct(1) list.set_map)
    moreover have "count_list (dict_get (subscribe_level dev c (levels_client s)) dev []) c = 1"
      using d(2) by (simp add: subscribe_level_def Let_def dict_get_def count_list_distinct)
    ultimately show ?thesis
      unfolding msg using Some d(1) by (simp add: register_for_levels_def Let_def)
  qed
qed

section \<open>An example\<close>

text \<open>
  Clients 1, 2 and 3 connect, 3 subscribes to the levels of a device, then 1 breaks.
\<close>

definition demo_factory :: "(nat, unit) ws_factory" where
  "demo_factory =
     (let s = set_levels_provider ''m'' (ok ()) (new_ws_factory ());
          s = snd (register 3 (snd (register 2 (snd (register 1 s)))));
          s = on_message 3 (Some ''subscribe levels m'') s
      in s\<lparr>down := 1 # down s\<rparr>)"

lemma demo_factory_history: "ws_history {1, 2, 3} demo_factory"
proof -
  let ?s0 = "set_levels_provider ''m'' (ok ()) (new_ws_factory ()) :: (nat, unit) ws_factory"
  let ?s3 = "snd (register 3 (snd (register 2 (snd (register 1 ?s0)))))"
  have "ws_history {} ?s0" by (intro ws_history.levels_provider ws_history.start)
  then have "ws_history (insert 3 (insert 2 (insert 1 {}))) ?s3" by (intro ws_history.opens) auto
  then have "ws_history {1, 2, 3} ?s3" by (simp add: insert_commute)
  moreover have "(3 :: nat) \<notin> set (down ?s3)"
    by (simp add: register_def and_then_def send_provided_def set_levels_provider_def new_ws_factory_def)
  ultimately have "ws_history {1, 2, 3} (on_message 3 (Some ''subscribe levels m'') ?s3)"
    by (intro ws_history.message) auto
  then show ?thesis unfolding demo_factory_def Let_def by (rule ws_history.breaks)
qed

lemma demo_factory_eq:
  "clients demo_factory = [1, 2]" "down demo_factory = [1]" "sent demo_factory = []"
  "levels_client demo_factory = [(''m'', [3])]" "keys (levels_provider demo_factory) = [''m'']"
  by (simp_all add: demo_factory_def register_def and_then_def send_provided_def set_levels_provider_def
      new_ws_factory_def on_message_def SUBSCRIBE_LEVELS_CMD_def starts_with_def rstrip_def is_blank_def
      register_for_levels_def call_levels_provider_def ok_def subscribe_level_def dict_get_def Let_def)

theorem ws_lists_exclusive_witness: "3 \<notin> set (clients demo_factory) \<and> distinct (clients demo_factory)"
  using ws_lists_exclusive [OF demo_factory_history] by (auto simp: demo_factory_eq dict_get_def)

theorem broadcast_outcome_witness:
  "clients (ws_broadcast JNull demo_factory) = [2] \<and> sent (ws_broadcast JNull demo_factory) = [(2, JNull)]"
  unfolding broadcast_outcome [OF demo_factory_history] by (simp add: demo_factory_eq)

theorem levels_outcome_witness: "fst (ws_levels ''m'' JNull demo_factory)"
  using levels_outcome [OF demo_factory_history refl, of "''m''" JNull] by (simp add: demo_factory_eq dict_get_def)

theorem closed_client_forgotten_witness: "dict_get (levels_client (unregister 3 demo_factory)) ''m'' [] = []"
  using closed_client_forgotten [OF demo_factory_history, of 3 "''m''"]
  by (simp add: unregister_def demo_factory_eq dict_get_def)

theorem subscription_outcome_witness:
  "2 \<notin> set (clients (on_message 2 (Some ''subscribe levels m'') demo_factory))"
  using subscription_outcome [OF demo_factory_history, of "''m''" 2]
  by (simp add: demo_factory_eq SUBSCRIBE_LEVELS_CMD_def is_blank_def Let_def)

end
