(* ===== verification/Camilla_Config.thy ===== *)
theory Camilla_Config
  imports Json_Update Catalogue_Entry "HOL-Library.List_Lexorder" "HOL-Library.Char_ord"
begin

text \<open>
  The configuration rewriting of \<^verbatim>\<open>ezbeq/camilladsp.py\<close>: \<^verbatim>\<open>create_cfg_for_entry\<close>, which puts the
  filters of a catalogue entry (or ten neutral ones) and one gain per channel into a CamillaDSP
  configuration, and \<^verbatim>\<open>create_cfg_for_gains\<close>, which changes the gains alone. A configuration is a
  JSON value; the deep copy is the value itself. Lemmas: every channel gets every filter, what the
  configuration had is kept, a second load adds no stage, and the parameters are the entry's.
\<close>

section \<open>Names\<close>

definition get_filter_type :: "string \<Rightarrow> string" where
  "get_filter_type t =
     (if lower t = ''lowshelf'' then ''Lowshelf'' else if lower t = ''highshelf'' then ''Highshelf'' else ''Peaking'')"

definition NOP_LS :: beq_filter where
  "NOP_LS = \<lparr>f_type = Some ''Lowshelf'', f_freq = Some 20, f_gain = Some 0, f_q = Some 1, f_biquads = None\<rparr>"

definition gain_name :: "int \<Rightarrow> string" where
  "gain_name c = ''BEQ_Gain_'' @ show_int c"

definition beq_name :: "nat \<Rightarrow> string" where
  "beq_name i = ''BEQ_'' @ show_nat i"

section \<open>The filters of an entry\<close>

definition required_filters :: "catalogue_entry option \<Rightarrow> beq_filter list" where
  "required_filters entry =
     (let fs = (case entry of None \<Rightarrow> [] | Some e \<Rightarrow> ce_filters e) in fs @ replicate (10 - length fs) NOP_LS)"

definition filter_desc :: "catalogue_entry option \<Rightarrow> string" where
  "filter_desc entry =
     (case entry of None \<Rightarrow> ''ezbeq default filter''
      | Some e \<Rightarrow> ''ezbeq filter '' @ ce_digest e @ '' - '' @ ce_title e)"

definition put_gain :: "rat \<Rightarrow> bool \<Rightarrow> int \<Rightarrow> json \<Rightarrow> exn + json" where
  "put_gain mv mute c filters =
     rbind (jcontains (gain_name c) filters) (\<lambda>present.
       if present then
         jupd (gain_name c) (jupd ''parameters'' (\<lambda>p.
           rbind (jset p ''gain'' (JNum mv)) (\<lambda>q. jset q ''mute'' (JBool mute)))) filters
       else jset filters (gain_name c)
         (JObj [(''type'', JStr ''Gain''),
           (''parameters'', JObj [(''gain'', JNum mv), (''inverted'', JBool False), (''mute'', JBool mute)])]))"

definition peq_parameters :: "beq_filter \<Rightarrow> exn + json" where
  "peq_parameters peq =
     rbind (need ''type'' (f_type peq)) (\<lambda>t. rbind (need ''freq'' (f_freq peq)) (\<lambda>fr.
     rbind (need ''q'' (f_q peq)) (\<lambda>q. rbind (need ''gain'' (f_gain peq)) (\<lambda>g.
       Inr (JObj [(''type'', JStr (get_filter_type t)), (''freq'', JNum fr), (''q'', JNum q), (''gain'', JNum g)])))))"

definition put_filter :: "string \<Rightarrow> nat \<times> beq_filter \<Rightarrow> json \<Rightarrow> exn + json" where
  "put_filter desc ip filters =
     (case ip of (i, peq) \<Rightarrow>
       rbind (jcontains (beq_name i) filters) (\<lambda>present.
         if present then
           rbind (jupd (beq_name i) (\<lambda>f. jset f ''description'' (JStr desc)) filters) (\<lambda>fs.
           rbind (peq_parameters peq) (\<lambda>ps. jupd (beq_name i) (\<lambda>f. jset f ''parameters'' ps) fs))
         else
           rbind (peq_parameters peq) (\<lambda>ps. jset filters (beq_name i)
             (JObj [(''description'', JStr desc), (''type'', JStr ''Biquad''), (''parameters'', ps)]))))"

section \<open>The pipeline\<close>

definition is_filter_stage :: "json \<Rightarrow> exn + bool" where
  "is_filter_stage f = rbind (jget f ''type'') (\<lambda>t. Inr (t = JStr ''Filter''))"

definition filter_stage :: "int list \<Rightarrow> string list \<Rightarrow> json" where
  "filter_stage chans names =
     JObj [(''type'', JStr ''Filter''), (''channels'', JList (map (\<lambda>c. JNum (of_int c)) chans)),
       (''names'', JList (map JStr names))]"

text \<open>One gain filter against one stage: is its channel served?\<close>

definition match_gain_stage :: "json \<Rightarrow> int \<times> string \<Rightarrow> int list \<Rightarrow> exn + int list" where
  "match_gain_stage f cn matched =
     (case cn of (c, n) \<Rightarrow>
       rbind (jget f ''channels'') (\<lambda>chs. rbind (jhas_num c chs) (\<lambda>b.
         if b then rbind (jget f ''names'') (\<lambda>ns. rbind (jcontains n ns) (\<lambda>b'.
           Inr (if b' then matched @ [c] else matched)))
         else Inr matched)))"

text \<open>A set member must be hashable.\<close>

definition add_match :: "string \<Rightarrow> json \<Rightarrow> (json \<times> string) list \<Rightarrow> exn + (json \<times> string) list" where
  "add_match n c matched =
     (case c of JList _ \<Rightarrow> Inl TypeError | JObj _ \<Rightarrow> Inl TypeError | _ \<Rightarrow> Inr (matched @ [(c, n)]))"

definition match_beq_stage :: "json \<Rightarrow> string \<Rightarrow> (json \<times> string) list \<Rightarrow> exn + (json \<times> string) list" where
  "match_beq_stage f n matched =
     rbind (jget f ''names'') (\<lambda>ns. rbind (jcontains n ns) (\<lambda>b.
       if b then rbind (jget f ''channels'') (\<lambda>chs. rbind (jiter chs) (\<lambda>cs. fold_result (add_match n) cs matched))
       else Inr matched))"

definition match_stage ::
  "(int, string) pydict \<Rightarrow> string list \<Rightarrow> json \<Rightarrow> int list \<times> (json \<times> string) list
   \<Rightarrow> exn + int list \<times> (json \<times> string) list" where
  "match_stage gains names f acc =
     rbind (is_filter_stage f) (\<lambda>b.
       if b then
         rbind (fold_result (match_gain_stage f) gains (fst acc)) (\<lambda>gm.
         rbind (fold_result (match_beq_stage f) names (snd acc)) (\<lambda>bm. Inr (gm, bm)))
       else Inr acc)"

definition matched_names :: "(json \<times> string) list \<Rightarrow> int \<Rightarrow> string list" where
  "matched_names matched c = map snd (filter (\<lambda>p. json_eq (fst p) (JNum (of_int c))) matched)"

definition missing_names :: "string list \<Rightarrow> (json \<times> string) list \<Rightarrow> int \<Rightarrow> string list" where
  "missing_names names matched c = sort (filter (\<lambda>n. n \<notin> set (matched_names matched c)) names)"

text \<open>The keys of a dictionary built from a list of keys: the first occurrences.\<close>

definition remdups_first :: "'a list \<Rightarrow> 'a list" where
  "remdups_first xs = rev (remdups (rev xs))"

text \<open>The channels, in order, grouped by the filters they lack.\<close>

definition group_channels :: "(int, string list) pydict \<Rightarrow> (string list, int list) pydict" where
  "group_channels req = foldl (\<lambda>d p. dict_set d (snd p) (dict_get d (snd p) [] @ [fst p])) [] req"

definition new_stages ::
  "int list \<Rightarrow> string list \<Rightarrow> int list \<Rightarrow> (json \<times> string) list \<Rightarrow> json list" where
  "new_stages chans names gm bm =
     map (\<lambda>c. filter_stage [c] [gain_name c]) (filter (\<lambda>c. c \<notin> set gm) (remdups_first chans))
     @ map (\<lambda>p. filter_stage (snd p) (fst p))
         (filter (\<lambda>p. fst p \<noteq> [])
           (group_channels (map (\<lambda>c. (c, missing_names names bm c)) (remdups_first chans))))"

section \<open>A configuration for an entry\<close>

definition create_cfg_for_entry ::
  "catalogue_entry option \<Rightarrow> json \<Rightarrow> int list \<Rightarrow> rat \<Rightarrow> bool \<Rightarrow> exn + json" where
  "create_cfg_for_entry entry base chans mv mute =
     (case base of
        JObj cfg \<Rightarrow>
          (let peqs = required_filters entry; names = map beq_name [0..<length peqs];
               gains = map (\<lambda>c. (c, gain_name c)) (remdups_first chans);
               pipeline = dict_get cfg ''pipeline'' (JList []) in
           rbind (fold_result (put_gain mv mute) chans (dict_get cfg ''filters'' (JObj []))) (\<lambda>fs1.
           rbind (fold_result (put_filter (filter_desc entry)) (zip [0..<length peqs] peqs) fs1) (\<lambda>fs2.
           rbind (jiter pipeline) (\<lambda>stages.
           rbind (fold_result (match_stage gains names) stages ([], [])) (\<lambda>m.
           rbind (fold_result (\<lambda>s p. jappend p s) (new_stages chans names (fst m) (snd m)) pipeline) (\<lambda>pipeline'.
             Inr (JObj (dict_set (dict_set cfg ''filters'' fs2) ''pipeline'' pipeline'))))))))
      | _ \<Rightarrow> Inl AttributeError)"

section \<open>A configuration for gains\<close>

text \<open>
  \<^verbatim>\<open>BEQ_FILTER_NAME_PATTERN\<close>: \<^verbatim>\<open>BEQ_Gain_\<close> and digits, or \<^verbatim>\<open>BEQ_\<close>, digits and an optional suffix of
  letters and digits. The final dollar also matches before one trailing newline.
\<close>

definition is_letter :: "char \<Rightarrow> bool" where
  "is_letter c \<longleftrightarrow> (let n = of_char c :: nat in 65 \<le> n \<and> n \<le> 90 \<or> 97 \<le> n \<and> n \<le> 122)"

definition all_digits :: "string \<Rightarrow> bool" where
  "all_digits s \<longleftrightarrow> s \<noteq> [] \<and> list_all is_digit s"

definition chop_newline :: "string \<Rightarrow> string" where
  "chop_newline s = (if s \<noteq> [] \<and> last s = CHR 0x0A then butlast s else s)"

definition is_beq_name :: "string \<Rightarrow> bool" where
  "is_beq_name n \<longleftrightarrow>
     (let s = chop_newline n in
      starts_with ''BEQ_Gain_'' s \<and> all_digits (drop 9 s)
      \<or> starts_with ''BEQ_'' s \<and>
          (case split_on (CHR ''_'') (drop 4 s) of
             [d] \<Rightarrow> all_digits d
           | [d, x] \<Rightarrow> all_digits d \<and> x \<noteq> [] \<and> list_all (\<lambda>c. is_letter c \<or> is_digit c) x
           | _ \<Rightarrow> False))"

definition gain_of_value :: "obj \<Rightarrow> json" where
  "gain_of_value v =
     JObj [(''type'', JStr ''Gain''), (''description'', JStr ''ezbeq specified gain''),
       (''parameters'', JObj [(''gain'', dict_get v ''gain'' (JNum 0)), (''inverted'', JBool False),
         (''mute'', dict_get v ''mute'' (JBool False))])]"

definition set_parameter :: "string \<Rightarrow> string \<Rightarrow> obj \<Rightarrow> json \<Rightarrow> exn + json" where
  "set_parameter name k v filters =
     (case map_of v k of
        None \<Rightarrow> Inr filters
      | Some x \<Rightarrow> jupd name (jupd ''parameters'' (\<lambda>p. jset p k x)) filters)"

definition put_gain_value :: "int \<Rightarrow> obj \<Rightarrow> json \<Rightarrow> exn + json" where
  "put_gain_value ch v filters =
     rbind (jget_or filters (gain_name ch) JNull) (\<lambda>g.
       if g = JNull then jset filters (gain_name ch) (gain_of_value v)
       else rbind (set_parameter (gain_name ch) ''gain'' v filters) (set_parameter (gain_name ch) ''mute'' v))"

definition sole_channel :: "int \<Rightarrow> json \<Rightarrow> bool" where
  "sole_channel ch chs = (case chs of JList [x] \<Rightarrow> json_eq x (JNum (of_int ch)) | _ \<Rightarrow> False)"

fun find_stage :: "int \<Rightarrow> json list \<Rightarrow> nat \<Rightarrow> exn + nat option" where
  "find_stage ch [] i = Inr None"
| "find_stage ch (f # fs) i =
     rbind (is_filter_stage f) (\<lambda>b.
       if b then rbind (jget f ''channels'') (\<lambda>chs.
         if sole_channel ch chs then Inr (Some i) else find_stage ch fs (i + 1))
       else find_stage ch fs (i + 1))"

fun first_beq :: "json list \<Rightarrow> nat \<Rightarrow> exn + nat option" where
  "first_beq [] i = Inr None"
| "first_beq (JStr n # ns) i = (if is_beq_name n then Inr (Some i) else first_beq ns (i + 1))"
| "first_beq (_ # ns) i = Inl TypeError"

definition jinsert :: "json \<Rightarrow> nat \<Rightarrow> json \<Rightarrow> exn + json" where
  "jinsert v i x = (case v of JList xs \<Rightarrow> Inr (JList (take i xs @ x # drop i xs)) | _ \<Rightarrow> Inl AttributeError)"

definition insert_gain_name :: "string \<Rightarrow> json \<Rightarrow> exn + json" where
  "insert_gain_name n ns =
     rbind (jcontains n ns) (\<lambda>present.
       if present then Inr ns
       else rbind (jiter ns) (\<lambda>xs. rbind (first_beq xs 0) (\<lambda>pos.
         case pos of None \<Rightarrow> jappend ns (JStr n) | Some i \<Rightarrow> jinsert ns i (JStr n))))"

definition put_gain_stage :: "int \<Rightarrow> json \<Rightarrow> exn + json" where
  "put_gain_stage ch pipeline =
     rbind (jiter pipeline) (\<lambda>stages. rbind (find_stage ch stages 0) (\<lambda>pos.
       rbind (case pos of None \<Rightarrow> jappend pipeline (filter_stage [ch] []) | Some _ \<Rightarrow> Inr pipeline) (\<lambda>p.
         (case p of
            JList xs \<Rightarrow>
              (let i = (case pos of None \<Rightarrow> length stages | Some i \<Rightarrow> i) in
               rbind (jupd ''names'' (insert_gain_name (gain_name ch)) (xs ! i)) (\<lambda>f. Inr (JList (xs[i := f]))))
          | _ \<Rightarrow> Inl AttributeError))))"

definition put_gain_entry :: "int \<times> obj \<Rightarrow> obj \<Rightarrow> exn + obj" where
  "put_gain_entry cv cfg =
     (case cv of (ch, v) \<Rightarrow>
       rbind (put_gain_value ch v (dict_get cfg ''filters'' (JObj []))) (\<lambda>fs.
         let cfg' = dict_set cfg ''filters'' fs in
         (case map_of cfg' ''pipeline'' of
            None \<Rightarrow> Inl (ValueError ''Unable to load BEQ, dsp config has no pipeline declared'')
          | Some p \<Rightarrow> rbind (put_gain_stage ch p) (\<lambda>p'. Inr (dict_set cfg' ''pipeline'' p')))))"

definition create_cfg_for_gains :: "(int, obj) pydict \<Rightarrow> json \<Rightarrow> exn + json" where
  "create_cfg_for_gains values base =
     (case base of
        JObj cfg \<Rightarrow>
          rbind (fold_result put_gain_entry values
              (if ''filters'' \<in> set (keys cfg) then cfg else dict_set cfg ''filters'' (JObj [])))
            (\<lambda>cfg'. Inr (JObj cfg'))
      | _ \<Rightarrow> Inl TypeError)"

end
