(* ===== verification/Camilla_Dsp.thy ===== *)
theory Camilla_Dsp
  imports Camilla_Config Requests
begin

text \<open>
  The CamillaDSP device of \<^verbatim>\<open>ezbeq/camilladsp.py\<close>: its state, the connection to the DSP, the one
  configuration update that may be in flight, the operations, and the messages the DSP sends back. The
  text of a JSON value on the wire is the value itself, so \<^verbatim>\<open>json.dumps\<close> is not seen; \<^verbatim>\<open>json.loads\<close> of a
  configuration and the text of a payload in an error message are parameters of \<open>cam_cfg\<close>.
\<close>

section \<open>State\<close>

definition CAM_SLOT_ID :: string where
  "CAM_SLOT_ID = ''CamillaDSP''"

record cam_slot = slot_state +
  cam_gains :: json
  cam_mutes :: json

record cam_state =
  cam_slot_of :: cam_slot
  cam_volume :: json
  cam_mute :: json

definition new_cam_slot :: cam_slot where
  "new_cam_slot = \<lparr>slot_id = CAM_SLOT_ID, last_title = empty_title, last_author = JNull, active = True,
     cam_gains = JList [], cam_mutes = JList []\<rparr>"

definition new_cam_state :: cam_state where
  "new_cam_state = \<lparr>cam_slot_of = new_cam_slot, cam_volume = JNum 0, cam_mute = JBool False\<rparr>"

definition cam_slot_as_dict :: "cam_slot \<Rightarrow> obj" where
  "cam_slot_as_dict s = slot_as_dict s @ [(''gains'', cam_gains s), (''mutes'', cam_mutes s)]"

definition cam_serialise :: "string \<Rightarrow> cam_state \<Rightarrow> json" where
  "cam_serialise name st =
     JObj [(''type'', JStr ''camilladsp''), (''name'', JStr name), (''mute'', cam_mute st),
       (''has_volume'', JBool True), (''slots'', JList [JObj (cam_slot_as_dict (cam_slot_of st))]),
       (''masterVolume'', cam_volume st)]"

definition upd_slot :: "(cam_slot \<Rightarrow> cam_slot) \<Rightarrow> cam_state \<Rightarrow> cam_state" where
  "upd_slot f st = st\<lparr>cam_slot_of := f (cam_slot_of st)\<rparr>"

text \<open>\<^verbatim>\<open>if slot[key]: loaded.slot.x = slot[key]\<close>\<close>

definition take_if :: "string \<Rightarrow> (json \<Rightarrow> cam_slot \<Rightarrow> cam_slot) \<Rightarrow> json \<Rightarrow> (cam_state, unit) act" where
  "take_if key f slot =
     and_then (lift_result (jget slot key)) (\<lambda>v. if truthy v then modify (upd_slot (f v)) else ok ())"

definition cam_merge_slot :: "json \<Rightarrow> (cam_state, unit) act" where
  "cam_merge_slot slot =
     and_then (lift_result (jcontains ''id'' slot)) (\<lambda>present.
       if present then
         and_then (lift_result (jget slot ''id'')) (\<lambda>i.
           if i = JStr CAM_SLOT_ID then
             and_then (take_if ''last'' (\<lambda>v s. s\<lparr>last_title := v\<rparr>) slot) (\<lambda>_.
             and_then (take_if ''author'' (\<lambda>v s. s\<lparr>last_author := v\<rparr>) slot) (\<lambda>_.
             and_then (take_if ''gains'' (\<lambda>v s. s\<lparr>cam_gains := v\<rparr>) slot) (\<lambda>_.
               take_if ''mutes'' (\<lambda>v s. s\<lparr>cam_mutes := v\<rparr>) slot)))
           else ok ())
       else ok ())"

definition cam_merge_state :: "json \<Rightarrow> (cam_state, unit) act" where
  "cam_merge_state cached =
     and_then (on_key ''masterVolume'' cached (\<lambda>v. modify (\<lambda>st. st\<lparr>cam_volume := v\<rparr>))) (\<lambda>_.
     and_then (on_key ''slots'' cached (\<lambda>v.
       and_then (lift_result (jiter v)) (for_each cam_merge_slot))) (\<lambda>_. ok ()))"

section \<open>The connection and the update in flight\<close>

text \<open>
  A job is what \<^verbatim>\<open>LoadConfig\<close> or \<^verbatim>\<open>UpdateGain\<close> was built with: it determines how the configuration is
  rewritten and what completes it.
\<close>

datatype cam_job = LoadJob "catalogue_entry option" rat | GainJob "(int, obj) pydict"

record cam_update =
  cu_job :: cam_job
  cu_config :: "json option"
  cu_failed :: bool

text \<open>
  \<open>conns\<close> are the open connections to the DSP (\<^verbatim>\<open>CamillaDspClientFactory\<close>), \<open>lost\<close> those on which a
  send raises \<^verbatim>\<open>Disconnected\<close>, \<open>to_dsp\<close> what was sent on which connection, \<open>levels_out\<close> the levels
  handed to the web socket server.
\<close>

record cam_world =
  conns :: "nat list"
  lost :: "nat list"
  to_dsp :: "(nat \<times> json) list"
  current_config :: json
  updater :: "cam_update option"
  peaks :: "json list"
  rmss :: "json list"
  levels_out :: "json list"

type_synonym cam_dev = "(cam_state, cam_world) device"

record cam_cfg =
  cam_name :: string
  beq_channels :: "int list"
  levels_interval :: rat
  cam_find :: "json \<Rightarrow> exn + catalogue_entry option"
  json_loads :: "json \<Rightarrow> exn + json"
  payload_text :: "json \<Rightarrow> string"
  cam_time :: rat

definition new_cam_world :: cam_world where
  "new_cam_world = \<lparr>conns = [], lost = [], to_dsp = [], current_config = JObj [], updater = None,
     peaks = [], rmss = [], levels_out = []\<rparr>"

text \<open>The constructor refuses a device without channels.\<close>

definition CamillaDsp :: "string \<Rightarrow> string \<Rightarrow> int \<Rightarrow> int list \<Rightarrow> rat \<Rightarrow> exn + cam_world" where
  "CamillaDsp name ip port chans fps =
     (if fps = 0 then Inl ZeroDivisionError
      else if chans = [] then
        Inl (ValueError (''No channels supplied for CamillaDSP '' @ name @ '' - '' @ ip @ '':'' @ show_int port))
      else Inr new_cam_world)"

definition client_register :: "nat \<Rightarrow> cam_world \<Rightarrow> cam_world" where
  "client_register c w = (if c \<notin> set (conns w) then w\<lparr>conns := conns w @ [c]\<rparr> else w)"

definition client_unregister :: "nat \<Rightarrow> cam_world \<Rightarrow> cam_world" where
  "client_unregister c w = (if c \<in> set (conns w) then w\<lparr>conns := remove1 c (conns w)\<rparr> else w)"

text \<open>The error of \<^verbatim>\<open>broadcast\<close> also repeats the message that is not sent; its text is left out.\<close>

fun client_send_each :: "json \<Rightarrow> nat list \<Rightarrow> cam_world \<Rightarrow> nat list \<times> cam_world" where
  "client_send_each msg [] w = ([], w)"
| "client_send_each msg (c # cs) w =
     (if c \<in> set (lost w) then (case client_send_each msg cs w of (bad, w') \<Rightarrow> (c # bad, w'))
      else client_send_each msg cs (w\<lparr>to_dsp := to_dsp w @ [(c, msg)]\<rparr>))"

definition client_broadcast :: "json \<Rightarrow> (cam_world, unit) act" where
  "client_broadcast msg w =
     (if conns w = [] then (Inl (ValueError ''No devices connected, ignoring''), w)
      else (case client_send_each msg (conns w) w of (bad, w') \<Rightarrow> (Inr (), fold client_unregister bad w')))"

definition dsp_send :: "json \<Rightarrow> (cam_dev, unit) act" where
  "dsp_send msg = zoom world world_update (client_broadcast msg)"

definition send_command :: "string \<Rightarrow> json \<Rightarrow> (cam_dev, unit) act" where
  "send_command cmd v =
     and_then (dsp_send (JObj [(''Set'' @ cmd, v)])) (\<lambda>_. dsp_send (JStr (''Get'' @ cmd)))"

definition cam_class :: "cam_cfg \<Rightarrow> (cam_state, cam_world) device_class" where
  "cam_class cfg =
     \<lparr>load_initial_state = ok new_cam_state, merge_state = cam_merge_state,
      serialise = (\<lambda>st. Inr (cam_serialise (cam_name cfg) st))\<rparr>"

section \<open>Gains from a configuration\<close>

definition channel_value :: "json \<Rightarrow> json \<Rightarrow> json" where
  "channel_value c v = JObj [(''id'', c), (''value'', v)]"

text \<open>\<^verbatim>\<open>x in v\<close> for a number or text \<open>x\<close>\<close>

definition json_in :: "json \<Rightarrow> json \<Rightarrow> exn + bool" where
  "json_in x v =
     (case v of
        JList xs \<Rightarrow> Inr (\<exists>y \<in> set xs. json_eq x y)
      | JObj d \<Rightarrow> Inr (case x of JStr s \<Rightarrow> s \<in> set (keys d) | _ \<Rightarrow> False)
      | JStr t \<Rightarrow> (case x of JStr s \<Rightarrow> Inr (is_substring s t) | _ \<Rightarrow> Inl TypeError)
      | _ \<Rightarrow> Inl TypeError)"

fun drop_channels :: "json \<Rightarrow> json list \<Rightarrow> exn + json list" where
  "drop_channels chs [] = Inr []"
| "drop_channels chs (g # gs) =
     rbind (jget g ''id'') (\<lambda>i. rbind (json_in i chs) (\<lambda>b.
       rbind (drop_channels chs gs) (\<lambda>gs'. Inr (if b then gs' else g # gs'))))"

definition gain_parameter :: "json \<Rightarrow> string \<Rightarrow> exn + json" where
  "gain_parameter f k = rbind (jget f ''parameters'') (\<lambda>p. jget p k)"

definition read_gain_filter :: "json \<Rightarrow> json \<Rightarrow> string \<Rightarrow> json list \<times> json list \<Rightarrow> exn + json list \<times> json list" where
  "read_gain_filter filters chs name gm =
     rbind (jget filters name) (\<lambda>f. rbind (jget f ''type'') (\<lambda>t.
       if t = JStr ''Gain'' then
         rbind (drop_channels chs (fst gm)) (\<lambda>gs. rbind (drop_channels chs (snd gm)) (\<lambda>ms.
         rbind (jiter chs) (\<lambda>cs. fold_result (\<lambda>c acc.
           rbind (gain_parameter f ''gain'') (\<lambda>g. rbind (gain_parameter f ''mute'') (\<lambda>m.
             Inr (fst acc @ [channel_value c g], snd acc @ [channel_value c m])))) cs (gs, ms))))
       else Inr gm))"

fun beq_gain_names :: "json list \<Rightarrow> exn + string list" where
  "beq_gain_names [] = Inr []"
| "beq_gain_names (JStr n # ns) =
     rbind (beq_gain_names ns) (\<lambda>r. Inr (if starts_with ''BEQ_Gain'' n then n # r else r))"
| "beq_gain_names (_ # ns) = Inl AttributeError"

definition read_stage :: "json \<Rightarrow> json \<Rightarrow> json list \<times> json list \<Rightarrow> exn + json list \<times> json list" where
  "read_stage filters stage gm =
     rbind (is_filter_stage stage) (\<lambda>b.
       if b then
         rbind (jget stage ''names'') (\<lambda>v. rbind (jiter v) (\<lambda>ns. rbind (beq_gain_names ns) (\<lambda>names.
         rbind (jget stage ''channels'') (\<lambda>chs. fold_result (read_gain_filter filters chs) names gm))))
       else Inr gm)"

definition initial_values :: "int list \<Rightarrow> json \<Rightarrow> json list" where
  "initial_values chans v = map (\<lambda>c. channel_value (JNum (of_int c)) v) chans"

text \<open>The setter of \<^verbatim>\<open>current_config\<close>; the state changes only when the whole pipeline could be read.\<close>

definition read_gains :: "int list \<Rightarrow> json \<Rightarrow> exn + (json \<times> json) option" where
  "read_gains chans cfg =
     rbind (jget_or cfg ''pipeline'' (JList [])) (\<lambda>pipeline. rbind (jget_or cfg ''filters'' (JObj [])) (\<lambda>filters.
       if truthy pipeline then
         rbind (jiter pipeline) (\<lambda>stages.
         rbind (fold_result (read_stage filters) stages
             (initial_values chans (JNum 0), initial_values chans (JBool False)))
           (\<lambda>gm. Inr (Some (JList (fst gm), JList (snd gm)))))
       else Inr None))"

definition apply_gains :: "int list \<Rightarrow> json \<Rightarrow> (cam_dev, unit) act" where
  "apply_gains chans v =
     and_then (lift_result (read_gains chans v)) (\<lambda>r.
       case r of
         None \<Rightarrow> ok ()
       | Some (g, m) \<Rightarrow> on_current (modify (upd_slot (\<lambda>s. s\<lparr>cam_gains := g, cam_mutes := m\<rparr>))))"

definition set_current_config :: "cam_cfg \<Rightarrow> json \<Rightarrow> (cam_dev, unit) act" where
  "set_current_config cfg v =
     and_then (modify (world_update (\<lambda>w. w\<lparr>current_config := v\<rparr>)))
       (\<lambda>_. hydrate_cache_broadcast (cam_class cfg) (apply_gains (beq_channels cfg) v))"

section \<open>Completion\<close>

text \<open>\<^verbatim>\<open>for g in xs: g["value"] = v\<close>: what was assigned before a failure stays.\<close>

fun assign_each :: "json \<Rightarrow> json list \<Rightarrow> (exn + unit) \<times> json list" where
  "assign_each v [] = (Inr (), [])"
| "assign_each v (JObj d # xs) =
     (case assign_each v xs of (r, ys) \<Rightarrow> (r, JObj (dict_set d ''value'' v) # ys))"
| "assign_each v (x # xs) = (Inl TypeError, x # xs)"

definition assign_all :: "json \<Rightarrow> json \<Rightarrow> (exn + unit) \<times> json" where
  "assign_all v j =
     (case j of JList xs \<Rightarrow> (case assign_each v xs of (r, ys) \<Rightarrow> (r, JList ys)) | _ \<Rightarrow> (Inl TypeError, j))"

definition on_gains :: "(json \<Rightarrow> (exn + unit) \<times> json) \<Rightarrow> (cam_state, unit) act" where
  "on_gains f st =
     (case f (cam_gains (cam_slot_of st)) of (r, g) \<Rightarrow> (r, upd_slot (\<lambda>s. s\<lparr>cam_gains := g\<rparr>) st))"

definition on_mutes :: "(json \<Rightarrow> (exn + unit) \<times> json) \<Rightarrow> (cam_state, unit) act" where
  "on_mutes f st =
     (case f (cam_mutes (cam_slot_of st)) of (r, g) \<Rightarrow> (r, upd_slot (\<lambda>s. s\<lparr>cam_mutes := g\<rparr>) st))"

text \<open>\<^verbatim>\<open>next(g for g in xs if g["id"] == k)["value"] = v\<close>\<close>

fun assign_first :: "int \<Rightarrow> json \<Rightarrow> json list \<Rightarrow> (exn + unit) \<times> json list" where
  "assign_first k v [] = (Inl StopIteration, [])"
| "assign_first k v (g # gs) =
     (case jget g ''id'' of
        Inl e \<Rightarrow> (Inl e, g # gs)
      | Inr i \<Rightarrow>
          if json_eq i (JNum (of_int k)) then
            (case jset g ''value'' v of Inl e \<Rightarrow> (Inl e, g # gs) | Inr g' \<Rightarrow> (Inr (), g' # gs))
          else (case assign_first k v gs of (r, gs') \<Rightarrow> (r, g # gs')))"

definition assign_for :: "int \<Rightarrow> json \<Rightarrow> json \<Rightarrow> (exn + unit) \<times> json" where
  "assign_for k v j =
     (case j of JList xs \<Rightarrow> (case assign_first k v xs of (r, ys) \<Rightarrow> (r, JList ys)) | _ \<Rightarrow> (Inl TypeError, j))"

definition set_title :: "json \<Rightarrow> json \<Rightarrow> (cam_state, unit) act" where
  "set_title t a = modify (upd_slot (set_loaded t a))"

definition gain_completed :: "int \<times> obj \<Rightarrow> (cam_state, unit) act" where
  "gain_completed kv =
     (case kv of (k, v) \<Rightarrow>
       and_then (case map_of v ''gain'' of None \<Rightarrow> ok () | Some g \<Rightarrow> on_gains (assign_for k g)) (\<lambda>_.
         case map_of v ''mute'' of None \<Rightarrow> ok () | Some m \<Rightarrow> on_mutes (assign_for k m)))"

fun job_completed :: "cam_job \<Rightarrow> bool \<Rightarrow> (cam_state, unit) act" where
  "job_completed (LoadJob entry mv) success =
     (if success then
        and_then (case entry of
            Some e \<Rightarrow> set_title (JStr (ce_formatted_title e)) (JStr (ce_author e))
          | None \<Rightarrow> set_title empty_title JNull) (\<lambda>_.
        and_then (on_gains (assign_all (JNum mv))) (\<lambda>_. on_mutes (assign_all (JBool False))))
      else set_title error_title JNull)"
| "job_completed (GainJob vals) success = (if success then for_each gain_completed vals else ok ())"

definition on_complete :: "cam_cfg \<Rightarrow> cam_job \<Rightarrow> bool \<Rightarrow> (cam_dev, unit) act" where
  "on_complete cfg job success =
     hydrate_cache_broadcast (cam_class cfg) (on_current (job_completed job success))"

section \<open>The update in flight\<close>

definition job_name :: "cam_job \<Rightarrow> string" where
  "job_name job =
     (case job of LoadJob (Some e) _ \<Rightarrow> ce_formatted_title e | LoadJob None _ \<Rightarrow> ''Clearing BEQ''
      | GainJob _ \<Rightarrow> ''UpdateGain'')"

definition create_cfg :: "cam_cfg \<Rightarrow> cam_job \<Rightarrow> json \<Rightarrow> exn + json" where
  "create_cfg cfg job base =
     (case job of
        LoadJob entry mv \<Rightarrow> create_cfg_for_entry entry base (beq_channels cfg) mv False
      | GainJob vals \<Rightarrow> create_cfg_for_gains vals base)"

definition set_updater :: "cam_update option \<Rightarrow> (cam_dev, unit) act" where
  "set_updater u = modify (world_update (\<lambda>w. w\<lparr>updater := u\<rparr>))"

definition start_job :: "cam_job \<Rightarrow> (cam_dev, unit) act" where
  "start_job job d =
     (case updater (world d) of
        None \<Rightarrow>
          and_then (set_updater (Some \<lparr>cu_job = job, cu_config = None, cu_failed = False\<rparr>))
            (\<lambda>_. dsp_send (JStr ''GetConfigJson'')) d
      | Some u \<Rightarrow>
          (Inl (ValueError (''Unable to load BEQ, config update already in progress for '' @ job_name (cu_job u))), d))"

text \<open>\<^verbatim>\<open>UpdateConfig.on_get_config\<close>: remember, rewrite and send back.\<close>

definition updater_on_get_config :: "cam_cfg \<Rightarrow> cam_update \<Rightarrow> json \<Rightarrow> (cam_dev, unit) act" where
  "updater_on_get_config cfg u v =
     and_then (set_updater (Some (u\<lparr>cu_config := Some v\<rparr>))) (\<lambda>_.
     and_then (lift_result (create_cfg cfg (cu_job u) v)) (\<lambda>new.
     and_then (set_updater (Some (u\<lparr>cu_config := Some new\<rparr>))) (\<lambda>_.
       dsp_send (JObj [(''SetConfigJson'', new)]))))"

definition updater_failed :: "cam_cfg \<Rightarrow> cam_update \<Rightarrow> string \<Rightarrow> json \<Rightarrow> (cam_dev, unit) act" where
  "updater_failed cfg u stage payload =
     and_then (set_updater (Some (u\<lparr>cu_failed := True\<rparr>))) (\<lambda>_.
     and_then (on_complete cfg (cu_job u) False) (\<lambda>_.
       modify (\<lambda>d. d\<lparr>broadcasts := broadcasts d
         @ [PlainError (stage @ '' failed : '' @ payload_text cfg payload)]\<rparr>)))"

section \<open>Operations\<close>

definition set_slot_error :: "(cam_dev, unit) act" where
  "set_slot_error = on_current (modify (upd_slot (\<lambda>s. s\<lparr>last_title := error_title\<rparr>)))"

definition do_load_filter :: "catalogue_entry option \<Rightarrow> rat \<Rightarrow> (cam_dev, unit) act" where
  "do_load_filter entry mv =
     try_except
       (and_then (on_current (set_title (JStr (if entry \<noteq> None then ''Loading'' else ''Clearing'')) JNull))
          (\<lambda>_. start_job (LoadJob entry mv)))
       (\<lambda>e. and_then set_slot_error (\<lambda>_. raise e))"

definition cam_load_filter :: "cam_cfg \<Rightarrow> catalogue_entry \<Rightarrow> rat \<Rightarrow> (cam_dev, unit) act" where
  "cam_load_filter cfg entry mv = hydrate_cache_broadcast (cam_class cfg) (do_load_filter (Some entry) mv)"

definition cam_clear_filter :: "cam_cfg \<Rightarrow> (cam_dev, unit) act" where
  "cam_clear_filter cfg = hydrate_cache_broadcast (cam_class cfg) (do_load_filter None 0)"

definition cam_activate :: "cam_cfg \<Rightarrow> (cam_dev, unit) act" where
  "cam_activate cfg =
     hydrate_cache_broadcast (cam_class cfg) (on_current (modify (upd_slot (\<lambda>s. s\<lparr>active := True\<rparr>))))"

definition cam_mute_op :: "cam_cfg \<Rightarrow> bool \<Rightarrow> (cam_dev, unit) act" where
  "cam_mute_op cfg b = hydrate_cache_broadcast (cam_class cfg) (send_command ''Mute'' (JBool b))"

definition cam_set_gain :: "cam_cfg \<Rightarrow> int option \<Rightarrow> json \<Rightarrow> (cam_dev, unit) act" where
  "cam_set_gain cfg channel gain =
     hydrate_cache_broadcast (cam_class cfg)
       (case channel of None \<Rightarrow> send_command ''Volume'' gain | Some _ \<Rightarrow> ok ())"

definition cam_load_biquads :: "(cam_dev, unit) act" where
  "cam_load_biquads = raise NotImplementedError"

definition cam_send_commands :: "(cam_dev, unit) act" where
  "cam_send_commands = raise NotImplementedError"

section \<open>Updates from a request\<close>

text \<open>\<^verbatim>\<open>float(slot['gains'][0]['value'])\<close> when there are gains\<close>

definition first_gain :: "json \<Rightarrow> exn + rat" where
  "first_gain slot =
     rbind (jget_or slot ''gains'' JNull) (\<lambda>v.
       if truthy v then
         (case v of
            JList (g # _) \<Rightarrow> rbind (jget g ''value'') jfloat
          | JObj _ \<Rightarrow> Inl (KeyError ''0'')
          | _ \<Rightarrow> Inl TypeError)
       else Inr 0)"

definition merge_value :: "int list \<Rightarrow> string \<Rightarrow> json \<Rightarrow> (int, obj) pydict \<Rightarrow> exn + (int, obj) pydict" where
  "merge_value chans k g merged =
     rbind (jget g ''id'') (\<lambda>i. rbind (jint i) (\<lambda>c.
       if c \<in> set chans then
         rbind (jget g ''value'') (\<lambda>v. Inr (dict_set merged c (dict_set (dict_get merged c []) k v)))
       else Inl (ValueError (''Invalid channel id for gain setting '' @ show_int c))))"

definition merged_values :: "int list \<Rightarrow> json \<Rightarrow> exn + (int, obj) pydict" where
  "merged_values chans slot =
     rbind (jget_or slot ''gains'' (JList [])) (\<lambda>gv. rbind (jiter gv) (\<lambda>gs.
     rbind (fold_result (merge_value chans ''gain'') gs []) (\<lambda>m1.
     rbind (jget_or slot ''mutes'' (JList [])) (\<lambda>mv. rbind (jiter mv) (\<lambda>ms.
       fold_result (merge_value chans ''mute'') ms m1)))))"

definition cam_update_slot :: "cam_cfg \<Rightarrow> json \<Rightarrow> (cam_dev, bool) act" where
  "cam_update_slot cfg slot =
     and_then (lift_result (jget slot ''id'')) (\<lambda>i.
     if i \<noteq> JStr CAM_SLOT_ID then ok False
     else
       and_then (lift_result (jcontains ''entry'' slot)) (\<lambda>has_entry.
       if has_entry then
         and_then (lift_result (jget slot ''entry'')) (\<lambda>v.
           if truthy v then
             and_then (lift_result (cam_find cfg v)) (\<lambda>m.
               case m of
                 None \<Rightarrow> ok False
               | Some e \<Rightarrow>
                   and_then (lift_result (first_gain slot)) (\<lambda>mv.
                   and_then (cam_load_filter cfg e mv) (\<lambda>_. ok True)))
           else and_then (cam_clear_filter cfg) (\<lambda>_. ok True))
       else
         and_then (lift_result (jcontains ''gains'' slot)) (\<lambda>g.
         and_then (lift_result (jcontains ''mutes'' slot)) (\<lambda>m.
           if g \<or> m then
             and_then (lift_result (merged_values (beq_channels cfg) slot)) (\<lambda>vals.
             and_then (start_job (GainJob vals)) (\<lambda>_. ok True))
           else ok False))))"

fun cam_update_slots :: "cam_cfg \<Rightarrow> json list \<Rightarrow> bool \<Rightarrow> (cam_dev, bool) act" where
  "cam_update_slots cfg [] acc = ok acc"
| "cam_update_slots cfg (s # ss) acc =
     and_then (cam_update_slot cfg s) (\<lambda>u. cam_update_slots cfg ss (acc \<or> u))"

definition cam_slots_block :: "cam_cfg \<Rightarrow> json \<Rightarrow> (cam_dev, bool) act" where
  "cam_slots_block cfg params =
     and_then (lift_result (jcontains ''slots'' params)) (\<lambda>present.
       if present then
         and_then (lift_result (jget params ''slots'')) (\<lambda>v.
         and_then (lift_result (jiter v)) (\<lambda>ss. cam_update_slots cfg ss False))
       else ok False)"

definition cam_mute_block :: "cam_cfg \<Rightarrow> json \<Rightarrow> (cam_dev, bool) act" where
  "cam_mute_block cfg params =
     and_then (lift_result (jcontains ''mute'' params)) (\<lambda>present.
       if present then
         and_then (lift_result (jget params ''mute'')) (\<lambda>v.
         with_current (\<lambda>st.
           if json_eq v (cam_mute st) then ok False
           else and_then (cam_mute_op cfg (\<not> truthy (cam_mute st))) (\<lambda>_. ok True)))
       else ok False)"

definition cam_volume_block :: "cam_cfg \<Rightarrow> json \<Rightarrow> (cam_dev, bool) act" where
  "cam_volume_block cfg params =
     and_then (lift_result (jcontains ''masterVolume'' params)) (\<lambda>present.
       if present then
         and_then (lift_result (jget params ''masterVolume'')) (\<lambda>v.
         with_current (\<lambda>st.
         and_then (lift_result (jnum v)) (\<lambda>a.
         and_then (lift_result (jnum (cam_volume st))) (\<lambda>b.
           if isclose a b then ok False
           else and_then (cam_set_gain cfg None v) (\<lambda>_. ok True)))))
       else ok False)"

definition cam_update_params :: "cam_cfg \<Rightarrow> json \<Rightarrow> (cam_dev, bool) act" where
  "cam_update_params cfg params =
     hydrate_cache_broadcast (cam_class cfg)
       (and_then (cam_slots_block cfg params) (\<lambda>u1.
        and_then (cam_mute_block cfg params) (\<lambda>u2.
        and_then (cam_volume_block cfg params) (\<lambda>u3. ok (u1 \<or> u2 \<or> u3)))))"

section \<open>Messages from the DSP\<close>

definition request_levels :: "(cam_dev, unit) act" where
  "request_levels =
     and_then (dsp_send (JStr ''GetPlaybackSignalPeak'')) (\<lambda>_. dsp_send (JStr ''GetPlaybackSignalRms''))"

definition cam_levels :: "cam_cfg \<Rightarrow> cam_world \<Rightarrow> json" where
  "cam_levels cfg w =
     JObj [(''name'', JStr (cam_name cfg)), (''ts'', JNum (cam_time cfg)),
       (''levels'', JObj (dict_update
          (map (\<lambda>(i, v). (''RMS-'' @ show_nat i, v)) (zip [0..<length (rmss w)] (rmss w)))
          (map (\<lambda>(i, v). (''Peak-'' @ show_nat i, v)) (zip [0..<length (peaks w)] (peaks w)))))]"

definition cam_on_open :: "cam_cfg \<Rightarrow> (cam_dev, unit) act" where
  "cam_on_open cfg =
     and_then (dsp_send (JStr ''GetConfigJson'')) (\<lambda>_.
     and_then (dsp_send (JStr ''GetVolume'')) (\<lambda>_.
     and_then (dsp_send (JStr ''GetMute'')) (\<lambda>_.
       dsp_send (JObj [(''SetUpdateInterval'', JNum (levels_interval cfg))]))))"

definition protocol_open :: "cam_cfg \<Rightarrow> nat \<Rightarrow> (cam_dev, unit) act" where
  "protocol_open cfg c = and_then (modify (world_update (client_register c))) (\<lambda>_. cam_on_open cfg)"

definition cam_on_get_config :: "cam_cfg \<Rightarrow> json \<Rightarrow> (cam_dev, unit) act" where
  "cam_on_get_config cfg config =
     and_then (lift_result (jget_or config ''result'' JNull)) (\<lambda>r.
       if r = JStr ''Ok'' then
         and_then (lift_result (rbind (jget config ''value'') (json_loads cfg))) (\<lambda>v.
         and_then (set_current_config cfg v) (\<lambda>_ d.
           case updater (world d) of None \<Rightarrow> (Inr (), d) | Some u \<Rightarrow> updater_on_get_config cfg u v d))
       else (\<lambda>d. case updater (world d) of
           None \<Rightarrow> (Inr (), d)
         | Some u \<Rightarrow> and_then (updater_failed cfg u ''GetConfig'' config) (\<lambda>_. set_updater None) d))"

definition cam_on_set_config :: "cam_cfg \<Rightarrow> json \<Rightarrow> (cam_dev, unit) act" where
  "cam_on_set_config cfg r d =
     (case updater (world d) of
        None \<Rightarrow> (Inr (), d)
      | Some u \<Rightarrow>
          and_then
            (if r = JStr ''Ok'' then
               and_then (on_complete cfg (cu_job u) True) (\<lambda>_.
                 set_current_config cfg (case cu_config u of None \<Rightarrow> JNull | Some v \<Rightarrow> v))
             else updater_failed cfg u ''SetConfig'' r) (\<lambda>_. set_updater None) d)"

definition if_ok :: "json \<Rightarrow> (json \<Rightarrow> (cam_dev, unit) act) \<Rightarrow> (cam_dev, unit) act" where
  "if_ok msg f =
     and_then (lift_result (jget msg ''result'')) (\<lambda>r.
       if r = JStr ''Ok'' then f msg else ok ())"

definition cam_on_get_volume :: "cam_cfg \<Rightarrow> json \<Rightarrow> (cam_dev, unit) act" where
  "cam_on_get_volume cfg msg = if_ok msg (\<lambda>m. hydrate_cache_broadcast (cam_class cfg)
     (and_then (lift_result (jget m ''value'')) (\<lambda>v. on_current (modify (\<lambda>st. st\<lparr>cam_volume := v\<rparr>)))))"

definition cam_on_get_mute :: "cam_cfg \<Rightarrow> json \<Rightarrow> (cam_dev, unit) act" where
  "cam_on_get_mute cfg msg = if_ok msg (\<lambda>m. hydrate_cache_broadcast (cam_class cfg)
     (and_then (lift_result (jget m ''value'')) (\<lambda>v. on_current (modify (\<lambda>st. st\<lparr>cam_mute := v\<rparr>)))))"

definition cam_on_set_volume :: "json \<Rightarrow> (cam_dev, unit) act" where
  "cam_on_set_volume msg = if_ok msg (\<lambda>_. dsp_send (JStr ''GetVolume''))"

definition cam_on_set_mute :: "json \<Rightarrow> (cam_dev, unit) act" where
  "cam_on_set_mute msg = if_ok msg (\<lambda>_. dsp_send (JStr ''GetMute''))"

definition floor_silence :: "json \<Rightarrow> exn + json" where
  "floor_silence v = rbind (jnum v) (\<lambda>x. Inr (if isclose x (-1000) then JNum (-144) else v))"

definition playback_values :: "json \<Rightarrow> exn + json list" where
  "playback_values m = rbind (jget m ''value'') (\<lambda>v. rbind (jiter v) (map_result floor_silence))"

definition cam_on_get_rms :: "cam_cfg \<Rightarrow> json \<Rightarrow> (cam_dev, unit) act" where
  "cam_on_get_rms cfg msg = if_ok msg (\<lambda>m.
     and_then (lift_result (playback_values m)) (\<lambda>vs.
       modify (world_update (\<lambda>w. let w' = w\<lparr>rmss := vs\<rparr> in w'\<lparr>levels_out := levels_out w @ [cam_levels cfg w']\<rparr>))))"

definition cam_on_get_peak :: "json \<Rightarrow> (cam_dev, unit) act" where
  "cam_on_get_peak msg = if_ok msg (\<lambda>m.
     and_then (lift_result (playback_values m)) (\<lambda>vs. modify (world_update (\<lambda>w. w\<lparr>peaks := vs\<rparr>))))"

text \<open>\<^verbatim>\<open>CamillaDspProtocol.onMessage\<close>: the first key that is there decides; exceptions are logged.\<close>

definition result_of :: "json \<Rightarrow> (json \<Rightarrow> (cam_dev, unit) act) \<Rightarrow> (cam_dev, unit) act" where
  "result_of m f = and_then (lift_result (jget m ''result'')) f"

fun first_key :: "(string \<times> (json \<Rightarrow> (cam_dev, unit) act)) list \<Rightarrow> json \<Rightarrow> (cam_dev, unit) act" where
  "first_key [] msg = ok ()"
| "first_key ((k, f) # ks) msg =
     and_then (lift_result (jcontains k msg)) (\<lambda>present.
       if present then and_then (lift_result (jget msg k)) f else first_key ks msg)"

definition cam_handlers :: "cam_cfg \<Rightarrow> (string \<times> (json \<Rightarrow> (cam_dev, unit) act)) list" where
  "cam_handlers cfg =
     [(''GetConfigJson'', cam_on_get_config cfg),
      (''SetConfigJson'', \<lambda>m. result_of m (cam_on_set_config cfg)),
      (''Reload'', \<lambda>m. result_of m (\<lambda>_. ok ())),
      (''GetVolume'', cam_on_get_volume cfg),
      (''GetMute'', cam_on_get_mute cfg),
      (''GetPlaybackSignalRms'', cam_on_get_rms cfg),
      (''GetPlaybackSignalPeak'', cam_on_get_peak)]"

definition cam_on_message :: "cam_cfg \<Rightarrow> json \<Rightarrow> cam_dev \<Rightarrow> cam_dev" where
  "cam_on_message cfg msg d = snd (first_key (cam_handlers cfg) msg d)"

end
