(* ===== verification/Camilla_Config_Correct.thy ===== *)
theory Camilla_Config_Correct
  imports Camilla_Config
begin

text \<open>
  What the configuration rewriting of \<^theory_text>\<open>Camilla_Config\<close> achieves: on a well formed configuration it
  succeeds, every channel is served by its gain filter and by every BEQ filter, nothing that was
  there is lost, and rewriting the result again leaves the pipeline alone.
\<close>

section \<open>Names\<close>

lemma beq_name_inject [simp]: "beq_name i = beq_name j \<longleftrightarrow> i = j"
  by (simp add: beq_name_def)

lemma gain_name_inject [simp]: "gain_name c = gain_name d \<longleftrightarrow> c = d"
  by (simp add: gain_name_def)

lemma gain_ne_beq [simp]: "gain_name c \<noteq> beq_name i" "beq_name i \<noteq> gain_name c"
proof -
  have "gain_name c \<noteq> beq_name i"
  proof
    assume "gain_name c = beq_name i"
    then have "CHR ''G'' # ''ain_'' @ show_int c = show_nat i" by (simp add: gain_name_def beq_name_def)
    then have "is_digit (CHR ''G'')" using hd_show_nat_digit [of i] by (metis list.sel(1))
    then show False by (simp add: is_digit_def digit_val_def)
  qed
  then show "gain_name c \<noteq> beq_name i" "beq_name i \<noteq> gain_name c" by auto
qed

lemma beq_not_gain [simp]: "beq_name i \<notin> gain_name ` A"
  by auto

lemma set_remdups_first [simp]: "set (remdups_first xs) = set xs"
  by (simp add: remdups_first_def)

section \<open>Well formed configurations\<close>

definition has_params :: "json \<Rightarrow> bool" where
  "has_params x \<longleftrightarrow> (\<exists>d q. x = JObj d \<and> map_of d ''parameters'' = Some (JObj q))"

definition num_list :: "int list \<Rightarrow> json" where
  "num_list cs = JList (map (\<lambda>c. JNum (of_int c)) cs)"

definition str_list :: "string list \<Rightarrow> json" where
  "str_list ns = JList (map JStr ns)"

definition filter_fields :: "json \<Rightarrow> int list \<Rightarrow> string list \<Rightarrow> bool" where
  "filter_fields f cs ns \<longleftrightarrow> (\<exists>d. f = JObj d \<and> map_of d ''type'' = Some (JStr ''Filter'')
     \<and> map_of d ''channels'' = Some (num_list cs) \<and> map_of d ''names'' = Some (str_list ns))"

definition stage_wf :: "json \<Rightarrow> bool" where
  "stage_wf f \<longleftrightarrow> (\<exists>cs ns. filter_fields f cs ns)
     \<or> (\<exists>d t. f = JObj d \<and> map_of d ''type'' = Some t \<and> t \<noteq> JStr ''Filter'')"

text \<open>Stage \<open>f\<close> applies filter \<open>n\<close> to channel \<open>c\<close>.\<close>

definition serves :: "json \<Rightarrow> int \<Rightarrow> string \<Rightarrow> bool" where
  "serves f c n \<longleftrightarrow> (\<exists>cs ns. filter_fields f cs ns \<and> c \<in> set cs \<and> n \<in> set ns)"

lemma JNum_of_int_mono: "map (\<lambda>c. JNum (of_int c)) cs = map (\<lambda>c. JNum (of_int c)) ds \<longleftrightarrow> cs = (ds :: int list)"
  by (rule inj_map_eq_map) (auto simp: inj_def)

lemma map_JStr_inject: "map JStr ns = map JStr ms \<longleftrightarrow> ns = ms"
  by (rule inj_map_eq_map) (auto simp: inj_def)

lemma filter_fields_unique: "filter_fields f cs ns \<Longrightarrow> filter_fields f cs' ns' \<Longrightarrow> cs' = cs \<and> ns' = ns"
  by (auto simp: filter_fields_def num_list_def str_list_def JNum_of_int_mono map_JStr_inject)

lemma serves_fields: "filter_fields f cs ns \<Longrightarrow> serves f c n \<longleftrightarrow> c \<in> set cs \<and> n \<in> set ns"
  unfolding serves_def using filter_fields_unique by blast

lemma filter_stage_fields: "filter_fields (filter_stage cs ns) cs ns"
  by (simp add: filter_fields_def filter_stage_def num_list_def str_list_def)

lemma jhas_num_list [simp]: "jhas_num c (num_list cs) = Inr (c \<in> set cs)"
  by (auto simp: num_list_def json_eq_def)

lemma jcontains_str_list [simp]: "jcontains n (str_list ns) = Inr (n \<in> set ns)"
  by (auto simp: str_list_def)

section \<open>Matching\<close>

lemma fold_result_total: "(\<And>x a. x \<in> set xs \<Longrightarrow> f x a = Inr (g x a)) \<Longrightarrow> fold_result f xs a = Inr (fold g xs a)"
  by (induction xs arbitrary: a) auto

lemma match_gain_stage_eq:
  "filter_fields f cs ns \<Longrightarrow>
   match_gain_stage f (c, n) matched = Inr (if c \<in> set cs \<and> n \<in> set ns then matched @ [c] else matched)"
  by (auto simp: match_gain_stage_def filter_fields_def)

lemma match_beq_stage_eq:
  assumes "filter_fields f cs ns"
  shows "match_beq_stage f n matched
    = Inr (if n \<in> set ns then matched @ map (\<lambda>c. (JNum (of_int c), n)) cs else matched)"
proof -
  have "fold_result (add_match n) (map (\<lambda>c. JNum (of_int c)) cs) m = Inr (m @ map (\<lambda>c. (JNum (of_int c), n)) cs)"
    for m by (induction cs arbitrary: m) (simp_all add: add_match_def)
  then show ?thesis using assms by (auto simp: match_beq_stage_def filter_fields_def num_list_def)
qed

text \<open>What one stage adds: the gain channels it serves, and every channel under every filter it applies.\<close>

definition stage_gains :: "(int, string) pydict \<Rightarrow> json \<Rightarrow> int list" where
  "stage_gains gains f = map fst (filter (\<lambda>p. serves f (fst p) (snd p)) gains)"

lemma match_stage_spec:
  assumes "stage_wf f"
  shows "\<exists>bm'. match_stage gains names f (gm, bm) = Inr (gm @ stage_gains gains f, bm @ bm')
    \<and> (\<forall>c n. (JNum (of_int c), n) \<in> set bm' \<longleftrightarrow> n \<in> set names \<and> serves f c n)
    \<and> (\<forall>p \<in> set bm'. \<exists>c. fst p = JNum (of_int (c :: int)))"
  using assms unfolding stage_wf_def
proof (elim disjE exE conjE)
  fix cs ns assume ff: "filter_fields f cs ns"
  have g: "fold_result (match_gain_stage f) gains gm = Inr (gm @ stage_gains gains f)" for gm
    by (induction gains arbitrary: gm)
      (auto simp: match_gain_stage_eq [OF ff] stage_gains_def serves_fields [OF ff])
  let ?bm = "concat (map (\<lambda>n. if n \<in> set ns then map (\<lambda>c. (JNum (of_int c), n)) cs else []) names)"
  have b: "fold_result (match_beq_stage f) names bm = Inr (bm @ concat (map
      (\<lambda>n. if n \<in> set ns then map (\<lambda>c. (JNum (of_int c), n)) cs else []) names))" for bm
    by (induction names arbitrary: bm) (auto simp: match_beq_stage_eq [OF ff])
  have "is_filter_stage f = Inr True" using ff by (auto simp: is_filter_stage_def filter_fields_def)
  then have "match_stage gains names f (gm, bm) = Inr (gm @ stage_gains gains f, bm @ ?bm)"
    by (simp add: match_stage_def g b)
  moreover have "(JNum (of_int c), n) \<in> set ?bm \<longleftrightarrow> n \<in> set names \<and> serves f c n" for c n
    by (auto simp: serves_fields [OF ff] split: if_splits)
  moreover have "\<forall>p \<in> set ?bm. \<exists>c. fst p = JNum (of_int (c :: int))" by (auto split: if_splits)
  ultimately show ?thesis by blast
next
  fix d t assume d: "f = JObj d" "map_of d ''type'' = Some t" "t \<noteq> JStr ''Filter''"
  then have "\<not> serves f c n" for c n by (auto simp: serves_def filter_fields_def)
  then show ?thesis using d by (intro exI [of _ "[]"]) (simp add: match_stage_def is_filter_stage_def stage_gains_def)
qed

lemma match_stages_spec:
  assumes "\<forall>f \<in> set stages. stage_wf f"
  shows "\<exists>gm' bm'. fold_result (match_stage gains names) stages (gm, bm) = Inr (gm @ gm', bm @ bm')
    \<and> (\<forall>c. c \<in> set gm' \<longleftrightarrow> (\<exists>n. (c, n) \<in> set gains \<and> (\<exists>f \<in> set stages. serves f c n)))
    \<and> (\<forall>c n. (JNum (of_int c), n) \<in> set bm' \<longleftrightarrow> n \<in> set names \<and> (\<exists>f \<in> set stages. serves f c n))
    \<and> (\<forall>p \<in> set bm'. \<exists>c. fst p = JNum (of_int (c :: int)))"
  using assms
proof (induction stages arbitrary: gm bm)
  case (Cons f fs)
  obtain b1 where one: "match_stage gains names f (gm, bm) = Inr (gm @ stage_gains gains f, bm @ b1)"
    "\<forall>c n. (JNum (of_int c), n) \<in> set b1 \<longleftrightarrow> n \<in> set names \<and> serves f c n"
    "\<forall>p \<in> set b1. \<exists>c. fst p = JNum (of_int (c :: int))"
    using match_stage_spec [of f gains names gm bm] Cons.prems by auto
  obtain g2 b2 where more:
    "fold_result (match_stage gains names) fs (gm @ stage_gains gains f, bm @ b1)
       = Inr ((gm @ stage_gains gains f) @ g2, (bm @ b1) @ b2)"
    "\<forall>c. c \<in> set g2 \<longleftrightarrow> (\<exists>n. (c, n) \<in> set gains \<and> (\<exists>f \<in> set fs. serves f c n))"
    "\<forall>c n. (JNum (of_int c), n) \<in> set b2 \<longleftrightarrow> n \<in> set names \<and> (\<exists>f \<in> set fs. serves f c n)"
    "\<forall>p \<in> set b2. \<exists>c. fst p = JNum (of_int (c :: int))"
    using Cons.IH [of "gm @ stage_gains gains f" "bm @ b1"] Cons.prems by auto
  have g: "c \<in> set (stage_gains gains f) \<longleftrightarrow> (\<exists>n. (c, n) \<in> set gains \<and> serves f c n)" for c
    by (force simp: stage_gains_def)
  show ?case
    using one more g
    by (intro exI [of _ "stage_gains gains f @ g2"] exI [of _ "b1 @ b2"]) (simp, blast)
qed simp

lemma set_matched_names:
  assumes "\<forall>p \<in> set bm. \<exists>c. fst p = JNum (of_int (c :: int))"
  shows "n \<in> set (matched_names bm c) \<longleftrightarrow> (JNum (of_int c), n) \<in> set bm"
proof
  assume "n \<in> set (matched_names bm c)"
  then obtain p where p: "p \<in> set bm" "json_eq (fst p) (JNum (of_int c))" "n = snd p" by (auto simp: matched_names_def)
  moreover obtain d where "fst p = JNum (of_int (d :: int))" using assms p(1) by blast
  ultimately have "p = (JNum (of_int c), n)" by (simp add: json_eq_def prod_eq_iff)
  with p(1) show "(JNum (of_int c), n) \<in> set bm" by simp
next
  assume "(JNum (of_int c), n) \<in> set bm"
  then show "n \<in> set (matched_names bm c)" by (force simp: matched_names_def)
qed

section \<open>The new stages\<close>

lemma group_channels_get:
  "c \<in> set (dict_get (group_channels req) k []) \<longleftrightarrow> (c, k) \<in> set req"
proof -
  have "c \<in> set (dict_get (foldl (\<lambda>d p. dict_set d (snd p) (dict_get d (snd p) [] @ [fst p])) d req) k [])
      \<longleftrightarrow> c \<in> set (dict_get d k []) \<or> (c, k) \<in> set req" for d
    by (induction req arbitrary: d) (auto simp: dict_get_def)
  then show ?thesis by (simp add: group_channels_def dict_get_def)
qed

lemma group_channels_keys: "set (keys (group_channels req)) = snd ` set req"
proof -
  have "fst ` set (foldl (\<lambda>d p. dict_set d (snd p) (dict_get d (snd p) [] @ [fst p])) d req)
      = fst ` set d \<union> snd ` set req" for d
    by (induction req arbitrary: d) auto
  then show ?thesis by (simp add: group_channels_def)
qed

lemma group_channels_stage:
  assumes "(c, k) \<in> set req"
  shows "\<exists>cs. (k, cs) \<in> set (group_channels req) \<and> c \<in> set cs"
proof -
  have c: "c \<in> set (dict_get (group_channels req) k [])" using assms by (simp add: group_channels_get)
  then have "map_of (group_channels req) k = Some (dict_get (group_channels req) k [])"
    by (cases "map_of (group_channels req) k") (auto simp: dict_get_def)
  with c show ?thesis by (blast dest: map_of_SomeD)
qed

lemma serves_filter_stage: "serves (filter_stage cs ns) c n \<longleftrightarrow> c \<in> set cs \<and> n \<in> set ns"
  using serves_fields [OF filter_stage_fields] .

lemma filter_stage_wf: "stage_wf (filter_stage cs ns)"
  unfolding stage_wf_def using filter_stage_fields by blast

lemma new_stages_wf: "\<forall>f \<in> set (new_stages chans names gm bm). stage_wf f"
  using filter_stage_fields by (fastforce simp: new_stages_def stage_wf_def)

lemma new_stages_gain:
  "c \<in> set chans \<Longrightarrow> c \<notin> set gm \<Longrightarrow> \<exists>f \<in> set (new_stages chans names gm bm). serves f c (gain_name c)"
  by (rule bexI [of _ "filter_stage [c] [gain_name c]"]) (auto simp: new_stages_def serves_filter_stage)

lemma new_stages_beq:
  assumes "c \<in> set chans" "n \<in> set names" "n \<notin> set (matched_names bm c)"
  shows "\<exists>f \<in> set (new_stages chans names gm bm). serves f c n"
proof -
  let ?k = "missing_names names bm c"
  let ?req = "map (\<lambda>c. (c, missing_names names bm c)) (remdups_first chans)"
  have n: "n \<in> set ?k" using assms by (simp add: missing_names_def)
  have "(c, ?k) \<in> set ?req" using assms(1) by auto
  then obtain cs where cs: "(?k, cs) \<in> set (group_channels ?req)" "c \<in> set cs"
    using group_channels_stage by blast
  then have "filter_stage cs ?k \<in> set (new_stages chans names gm bm)"
    using n by (force simp: new_stages_def)
  then show ?thesis using cs(2) n serves_filter_stage by blast
qed

lemma new_stages_none:
  assumes "set chans \<subseteq> set gm" and "\<forall>c \<in> set chans. set names \<subseteq> set (matched_names bm c)"
  shows "new_stages chans names gm bm = []"
proof -
  let ?req = "map (\<lambda>c. (c, missing_names names bm c)) (remdups_first chans)"
  have "missing_names names bm c = []" if "c \<in> set chans" for c
  proof -
    have "filter (\<lambda>n. n \<notin> set (matched_names bm c)) names = []"
      using assms(2) that by (auto simp: filter_empty_conv)
    then show ?thesis by (simp add: missing_names_def)
  qed
  then have "snd ` set ?req \<subseteq> {[]}" by auto
  then have "set (keys (group_channels ?req)) \<subseteq> {[]}" unfolding group_channels_keys .
  then have "filter (\<lambda>p. fst p \<noteq> []) (group_channels ?req) = []" by (auto simp: filter_empty_conv)
  moreover have "filter (\<lambda>c. c \<notin> set gm) (remdups_first chans) = []"
    using assms(1) by (auto simp: filter_empty_conv)
  ultimately show ?thesis by (simp add: new_stages_def)
qed

section \<open>The filters\<close>

text \<open>\<open>x\<close> is a gain filter set to \<open>mv\<close> and \<open>mute\<close>; \<open>y\<close> is a filter with the given parameters.\<close>

definition gain_is :: "rat \<Rightarrow> bool \<Rightarrow> json \<Rightarrow> bool" where
  "gain_is mv mute x \<longleftrightarrow> (\<exists>d q. x = JObj d \<and> map_of d ''parameters'' = Some (JObj q)
     \<and> map_of q ''gain'' = Some (JNum mv) \<and> map_of q ''mute'' = Some (JBool mute))"

definition params_are :: "json \<Rightarrow> json \<Rightarrow> bool" where
  "params_are ps y \<longleftrightarrow> (\<exists>d. y = JObj d \<and> map_of d ''parameters'' = Some ps)"

lemma gain_is_has_params: "gain_is mv mute x \<Longrightarrow> has_params x"
  by (auto simp: gain_is_def has_params_def)

lemma put_gain_spec:
  assumes "\<And>x. map_of fd (gain_name c) = Some x \<Longrightarrow> has_params x"
  shows "\<exists>fd' x. put_gain mv mute c (JObj fd) = Inr (JObj fd')
    \<and> map_of fd' = (map_of fd)(gain_name c \<mapsto> x) \<and> gain_is mv mute x"
proof (cases "map_of fd (gain_name c)")
  case None
  then show ?thesis by (auto simp: put_gain_def gain_is_def)
next
  case (Some x)
  with assms obtain d q where x: "x = JObj d" "map_of d ''parameters'' = Some (JObj q)"
    by (auto simp: has_params_def)
  let ?q = "dict_set (dict_set q ''gain'' (JNum mv)) ''mute'' (JBool mute)"
  let ?x = "JObj (dict_set d ''parameters'' (JObj ?q))"
  have "put_gain mv mute c (JObj fd) = Inr (JObj (dict_set fd (gain_name c) ?x))"
    using Some x by (simp add: put_gain_def jupd_def)
  moreover have "gain_is mv mute ?x" by (simp add: gain_is_def)
  ultimately show ?thesis
    by (intro exI [of _ "dict_set fd (gain_name c) ?x"] exI [of _ ?x]) simp
qed

lemma put_gains_spec:
  assumes "\<forall>c \<in> set chans. \<forall>x. map_of fd (gain_name c) = Some x \<longrightarrow> has_params x"
  shows "\<exists>fd'. fold_result (put_gain mv mute) chans (JObj fd) = Inr (JObj fd')
    \<and> (\<forall>c \<in> set chans. \<exists>x. map_of fd' (gain_name c) = Some x \<and> gain_is mv mute x)
    \<and> (\<forall>n. n \<notin> gain_name ` set chans \<longrightarrow> map_of fd' n = map_of fd n)"
  using assms
proof (induction chans arbitrary: fd rule: rev_induct)
  case (snoc c chans)
  obtain fd1 where one: "fold_result (put_gain mv mute) chans (JObj fd) = Inr (JObj fd1)"
    "\<forall>c \<in> set chans. \<exists>x. map_of fd1 (gain_name c) = Some x \<and> gain_is mv mute x"
    "\<forall>n. n \<notin> gain_name ` set chans \<longrightarrow> map_of fd1 n = map_of fd n"
  proof -
    have "\<forall>c \<in> set chans. \<forall>x. map_of fd (gain_name c) = Some x \<longrightarrow> has_params x" using snoc.prems by simp
    from snoc.IH [OF this] that show ?thesis by blast
  qed
  have "has_params x" if x: "map_of fd1 (gain_name c) = Some x" for x
  proof (cases "c \<in> set chans")
    case True
    then obtain y where "map_of fd1 (gain_name c) = Some y" "gain_is mv mute y" using one(2) by blast
    with x gain_is_has_params show ?thesis by simp
  next
    case False
    then have "gain_name c \<notin> gain_name ` set chans" by auto
    with one(3) x have "map_of fd (gain_name c) = Some x" by simp
    with snoc.prems show ?thesis by simp
  qed
  from put_gain_spec [OF this] obtain fd' x where two: "put_gain mv mute c (JObj fd1) = Inr (JObj fd')"
    "map_of fd' = (map_of fd1)(gain_name c \<mapsto> x)" "gain_is mv mute x" by blast
  then show ?case using one by (intro exI [of _ fd']) (auto simp: fold_result_append)
qed simp

definition complete_peq :: "beq_filter \<Rightarrow> bool" where
  "complete_peq b \<longleftrightarrow> f_type b \<noteq> None \<and> f_freq b \<noteq> None \<and> f_gain b \<noteq> None \<and> f_q b \<noteq> None"

lemma put_filter_spec:
  assumes "\<And>x. map_of fd (beq_name i) = Some x \<Longrightarrow> is_obj x" and "peq_parameters b = Inr ps"
  shows "\<exists>fd' y. put_filter desc (i, b) (JObj fd) = Inr (JObj fd')
    \<and> map_of fd' = (map_of fd)(beq_name i \<mapsto> y) \<and> params_are ps y"
proof (cases "map_of fd (beq_name i)")
  case None
  then show ?thesis using assms(2) by (auto simp: put_filter_def params_are_def)
next
  case (Some x)
  with assms obtain d where x: "x = JObj d" by (cases x) auto
  let ?y = "JObj (dict_set (dict_set d ''description'' (JStr desc)) ''parameters'' ps)"
  let ?fd = "dict_set (dict_set fd (beq_name i) (JObj (dict_set d ''description'' (JStr desc)))) (beq_name i) ?y"
  have "put_filter desc (i, b) (JObj fd) = Inr (JObj ?fd)"
    using Some x assms(2) by (simp add: put_filter_def jupd_def)
  moreover have "params_are ps ?y" by (auto simp: params_are_def)
  moreover have "map_of ?fd = (map_of fd)(beq_name i \<mapsto> ?y)" by simp
  ultimately show ?thesis by blast
qed

lemma put_filters_spec:
  assumes "\<forall>i x. k \<le> i \<longrightarrow> i < k + length bs \<longrightarrow> map_of fd (beq_name i) = Some x \<longrightarrow> is_obj x"
    and "\<forall>b \<in> set bs. \<exists>ps. peq_parameters b = Inr ps"
  shows "\<exists>fd'. fold_result (put_filter desc) (zip [k..<k + length bs] bs) (JObj fd) = Inr (JObj fd')
    \<and> (\<forall>i < length bs. \<exists>y ps. map_of fd' (beq_name (k + i)) = Some y \<and> peq_parameters (bs ! i) = Inr ps \<and> params_are ps y)
    \<and> (\<forall>n. (\<forall>i < length bs. n \<noteq> beq_name (k + i)) \<longrightarrow> map_of fd' n = map_of fd n)"
  using assms
proof (induction bs arbitrary: k fd)
  case (Cons b bs)
  obtain ps where ps: "peq_parameters b = Inr ps" using Cons.prems(2) by auto
  obtain fd1 y where one: "put_filter desc (k, b) (JObj fd) = Inr (JObj fd1)"
    "map_of fd1 = (map_of fd)(beq_name k \<mapsto> y)" "params_are ps y"
    using put_filter_spec [OF _ ps, of fd k desc] Cons.prems(1) by force
  have p1: "\<forall>i x. Suc k \<le> i \<longrightarrow> i < Suc k + length bs \<longrightarrow> map_of fd1 (beq_name i) = Some x \<longrightarrow> is_obj x"
  proof (intro allI impI)
    fix i x assume "Suc k \<le> i" "i < Suc k + length bs" "map_of fd1 (beq_name i) = Some x"
    then show "is_obj x" using Cons.prems(1) [rule_format, of i x] one(2) by simp
  qed
  have p2: "\<forall>b \<in> set bs. \<exists>ps. peq_parameters b = Inr ps" using Cons.prems(2) by simp
  obtain fd' where two: "fold_result (put_filter desc) (zip [Suc k..<Suc k + length bs] bs) (JObj fd1) = Inr (JObj fd')"
    "\<forall>i < length bs. \<exists>y ps. map_of fd' (beq_name (Suc k + i)) = Some y \<and> peq_parameters (bs ! i) = Inr ps \<and> params_are ps y"
    "\<forall>n. (\<forall>i < length bs. n \<noteq> beq_name (Suc k + i)) \<longrightarrow> map_of fd' n = map_of fd1 n"
    using Cons.IH [OF p1 p2] by blast
  have run: "fold_result (put_filter desc) (zip [k..<k + length (b # bs)] (b # bs)) (JObj fd) = Inr (JObj fd')"
  proof -
    have "[k..<k + length (b # bs)] = k # [Suc k..<Suc k + length bs]"
      by (subst upt_conv_Cons) (simp_all del: upt_Suc)
    with one(1) two(1) show ?thesis by (simp del: upt_Suc)
  qed
  have each: "\<exists>y ps. map_of fd' (beq_name (k + i)) = Some y \<and> peq_parameters ((b # bs) ! i) = Inr ps \<and> params_are ps y"
    if "i < length (b # bs)" for i
  proof (cases i)
    case 0
    have "map_of fd' (beq_name k) = Some y" using two(3) one(2) by simp
    then show ?thesis using 0 ps one(3) by auto
  next
    case (Suc j)
    then show ?thesis using two(2) that by auto
  qed
  have "map_of fd' n = map_of fd n" if n: "\<forall>i < length (b # bs). n \<noteq> beq_name (k + i)" for n
  proof -
    have "n \<noteq> beq_name k" using n by (metis add_0_right length_Cons zero_less_Suc)
    moreover have "\<forall>i < length bs. n \<noteq> beq_name (Suc k + i)" using n by auto
    ultimately show ?thesis using two(3) one(2) by simp
  qed
  with run each show ?case by blast
qed simp

section \<open>The rewriting as a whole\<close>

text \<open>
  The configurations the device hands out: filters by name, the gain filters of the channels with
  their parameters, and a pipeline of stages with channel numbers and filter names.
\<close>

definition cfg_filters :: "obj \<Rightarrow> obj" where
  "cfg_filters cfg = (case dict_get cfg ''filters'' (JObj []) of JObj fd \<Rightarrow> fd | _ \<Rightarrow> [])"

definition cfg_pipeline :: "obj \<Rightarrow> json list" where
  "cfg_pipeline cfg = (case dict_get cfg ''pipeline'' (JList []) of JList ps \<Rightarrow> ps | _ \<Rightarrow> [])"

definition cfg_wf :: "int list \<Rightarrow> nat \<Rightarrow> obj \<Rightarrow> bool" where
  "cfg_wf chans n cfg \<longleftrightarrow>
     dict_get cfg ''filters'' (JObj []) = JObj (cfg_filters cfg)
     \<and> dict_get cfg ''pipeline'' (JList []) = JList (cfg_pipeline cfg)
     \<and> (\<forall>f \<in> set (cfg_pipeline cfg). stage_wf f)
     \<and> (\<forall>c \<in> set chans. \<forall>x. map_of (cfg_filters cfg) (gain_name c) = Some x \<longrightarrow> has_params x)
     \<and> (\<forall>i < n. \<forall>x. map_of (cfg_filters cfg) (beq_name i) = Some x \<longrightarrow> is_obj x)"

lemma cfg_wf_mono: "cfg_wf chans n cfg \<Longrightarrow> m \<le> n \<Longrightarrow> cfg_wf chans m cfg"
  unfolding cfg_wf_def using order_less_le_trans by blast

text \<open>Every channel passes its gain and the first \<open>n\<close> BEQ filters.\<close>

definition fully_served :: "int list \<Rightarrow> nat \<Rightarrow> obj \<Rightarrow> bool" where
  "fully_served chans n cfg \<longleftrightarrow>
     (\<forall>c \<in> set chans. \<forall>m \<in> insert (gain_name c) (beq_name ` {..<n}). \<exists>f \<in> set (cfg_pipeline cfg). serves f c m)"

lemma fold_jappend: "fold_result (\<lambda>s p. jappend p s) ss (JList ps) = Inr (JList (ps @ ss))"
  by (induction ss arbitrary: ps) simp_all

lemma fully_served_gains:
  "fully_served chans n cfg \<Longrightarrow> c \<in> set chans \<Longrightarrow> \<exists>f \<in> set (cfg_pipeline cfg). serves f c (gain_name c)"
  by (simp add: fully_served_def)

lemma create_cfg_run:
  assumes wf: "cfg_wf chans (length (required_filters entry)) cfg"
    and peqs: "\<forall>b \<in> set (required_filters entry). \<exists>ps. peq_parameters b = Inr ps"
  shows "\<exists>cfg' stages. create_cfg_for_entry entry (JObj cfg) chans mv mute = Inr (JObj cfg')
    \<and> cfg_wf chans (length (required_filters entry)) cfg'
    \<and> cfg_pipeline cfg' = cfg_pipeline cfg @ stages
    \<and> fully_served chans (length (required_filters entry)) cfg'
    \<and> (fully_served chans (length (required_filters entry)) cfg \<longrightarrow> stages = [])
    \<and> (\<forall>c \<in> set chans. \<exists>x. map_of (cfg_filters cfg') (gain_name c) = Some x \<and> gain_is mv mute x)
    \<and> (\<forall>i < length (required_filters entry). \<exists>y ps. map_of (cfg_filters cfg') (beq_name i) = Some y
         \<and> peq_parameters (required_filters entry ! i) = Inr ps \<and> params_are ps y)
    \<and> (\<forall>m. m \<notin> gain_name ` set chans \<longrightarrow> (\<forall>i < length (required_filters entry). m \<noteq> beq_name i) \<longrightarrow>
         map_of (cfg_filters cfg') m = map_of (cfg_filters cfg) m)
    \<and> (\<forall>k. k \<noteq> ''filters'' \<longrightarrow> k \<noteq> ''pipeline'' \<longrightarrow> map_of cfg' k = map_of cfg k)"
proof -
  let ?peqs = "required_filters entry" and ?n = "length (required_filters entry)"
  let ?names = "map beq_name [0..<?n]" and ?gains = "map (\<lambda>c. (c, gain_name c)) (remdups_first chans)"
  let ?fd = "cfg_filters cfg" and ?ps = "cfg_pipeline cfg"
  obtain fd1 where g: "fold_result (put_gain mv mute) chans (JObj ?fd) = Inr (JObj fd1)"
    "\<forall>c \<in> set chans. \<exists>x. map_of fd1 (gain_name c) = Some x \<and> gain_is mv mute x"
    "\<forall>m. m \<notin> gain_name ` set chans \<longrightarrow> map_of fd1 m = map_of ?fd m"
    using put_gains_spec [of chans ?fd mv mute] wf unfolding cfg_wf_def by blast
  have "\<forall>i x. 0 \<le> i \<longrightarrow> i < 0 + ?n \<longrightarrow> map_of fd1 (beq_name i) = Some x \<longrightarrow> is_obj x"
    using g(3) wf by (simp add: cfg_wf_def)
  from put_filters_spec [OF this peqs, of "filter_desc entry"] obtain fd2 where
    f: "fold_result (put_filter (filter_desc entry)) (zip [0..<?n] ?peqs) (JObj fd1) = Inr (JObj fd2)"
    "\<forall>i < ?n. \<exists>y ps. map_of fd2 (beq_name i) = Some y \<and> peq_parameters (?peqs ! i) = Inr ps \<and> params_are ps y"
    "\<forall>m. (\<forall>i < ?n. m \<noteq> beq_name i) \<longrightarrow> map_of fd2 m = map_of fd1 m" by auto
  have "\<forall>f \<in> set ?ps. stage_wf f" using wf by (simp add: cfg_wf_def)
  from match_stages_spec [OF this, of ?gains ?names "[]" "[]"] obtain gm bm where
    m: "fold_result (match_stage ?gains ?names) ?ps ([], []) = Inr (gm, bm)"
    "\<forall>c. c \<in> set gm \<longleftrightarrow> (\<exists>n. (c, n) \<in> set ?gains \<and> (\<exists>f \<in> set ?ps. serves f c n))"
    "\<forall>c n. (JNum (of_int c), n) \<in> set bm \<longleftrightarrow> n \<in> set ?names \<and> (\<exists>f \<in> set ?ps. serves f c n)"
    "\<forall>p \<in> set bm. \<exists>c. fst p = JNum (of_int (c :: int))" by auto
  note mn = set_matched_names [OF m(4)]
  let ?new = "new_stages chans ?names gm bm"
  let ?cfg = "dict_set (dict_set cfg ''filters'' (JObj fd2)) ''pipeline'' (JList (?ps @ ?new))"
  have fields: "cfg_filters ?cfg = fd2" "cfg_pipeline ?cfg = ?ps @ ?new"
    by (simp_all add: cfg_filters_def cfg_pipeline_def dict_get_def)
  have "create_cfg_for_entry entry (JObj cfg) chans mv mute = Inr (JObj ?cfg)"
    using wf g(1) f(1) m(1) by (simp add: create_cfg_for_entry_def Let_def cfg_wf_def fold_jappend)
  moreover have gains: "\<forall>c \<in> set chans. \<exists>x. map_of fd2 (gain_name c) = Some x \<and> gain_is mv mute x"
    using g(2) f(3) by simp
  moreover have "cfg_wf chans ?n ?cfg"
    using wf gains f(2) new_stages_wf [of chans ?names gm bm]
    unfolding cfg_wf_def fields
    by (auto simp: dict_get_def params_are_def dest: gain_is_has_params) (fastforce dest: gain_is_has_params)+
  moreover have "fully_served chans ?n ?cfg"
    unfolding fully_served_def fields
  proof (intro ballI)
    fix c k assume c: "c \<in> set chans" and k: "k \<in> insert (gain_name c) (beq_name ` {..<?n})"
    show "\<exists>f \<in> set (?ps @ ?new). serves f c k"
    proof (cases "k = gain_name c")
      case True
      then show ?thesis using new_stages_gain [OF c, of gm ?names bm] m(2) by auto
    next
      case False
      then have "k \<in> set ?names" using k by auto
      then show ?thesis using new_stages_beq [OF c, of k ?names bm gm] mn m(3) by auto
    qed
  qed
  moreover have "?new = []" if s: "fully_served chans ?n cfg"
  proof (rule new_stages_none)
    show "set chans \<subseteq> set gm"
    proof
      fix c assume c: "c \<in> set chans"
      then have "(c, gain_name c) \<in> set ?gains" by simp
      moreover have "\<exists>f \<in> set ?ps. serves f c (gain_name c)" using s c by (simp add: fully_served_def)
      ultimately show "c \<in> set gm" using m(2) by blast
    qed
    show "\<forall>c \<in> set chans. set ?names \<subseteq> set (matched_names bm c)"
      using s mn m(3) by (auto simp: fully_served_def)
  qed
  moreover have "\<forall>k. k \<notin> gain_name ` set chans \<longrightarrow> (\<forall>i < ?n. k \<noteq> beq_name i) \<longrightarrow> map_of fd2 k = map_of ?fd k"
    using g(3) f(3) by simp
  moreover have "\<forall>k. k \<noteq> ''filters'' \<longrightarrow> k \<noteq> ''pipeline'' \<longrightarrow> map_of ?cfg k = map_of cfg k" by simp
  ultimately show ?thesis using f(2) fields by (intro exI [of _ ?cfg] exI [of _ ?new]) simp
qed

lemma complete_peq_parameters: "complete_peq b \<Longrightarrow> \<exists>ps. peq_parameters b = Inr ps"
  by (auto simp: complete_peq_def peq_parameters_def need_def)

lemma required_filters_complete:
  assumes "\<forall>e. entry = Some e \<longrightarrow> (\<forall>b \<in> set (ce_filters e). complete_peq b)"
  shows "\<forall>b \<in> set (required_filters entry). \<exists>ps. peq_parameters b = Inr ps"
proof -
  have "complete_peq NOP_LS" by (simp add: complete_peq_def NOP_LS_def)
  then have "\<forall>b \<in> set (required_filters entry). complete_peq b"
    using assms by (auto simp: required_filters_def Let_def split: option.splits)
  then show ?thesis using complete_peq_parameters by blast
qed

text \<open>
  Claim C6. Rewriting a well formed configuration for an entry always succeeds. Afterwards every configured
  channel passes its gain filter, set to the requested gain and mute, and every filter of the entry
  (or the ten neutral ones), with the entry's parameters; the stages that were there come first and
  unchanged, and every other filter and section is kept.
\<close>

theorem entry_config_complete:
  assumes "cfg_wf chans (length (required_filters entry)) cfg"
    and "\<forall>e. entry = Some e \<longrightarrow> (\<forall>b \<in> set (ce_filters e). complete_peq b)"
  shows "\<exists>cfg' stages. create_cfg_for_entry entry (JObj cfg) chans mv mute = Inr (JObj cfg')
    \<and> cfg_pipeline cfg' = cfg_pipeline cfg @ stages
    \<and> fully_served chans (length (required_filters entry)) cfg'
    \<and> (\<forall>c \<in> set chans. \<exists>x. map_of (cfg_filters cfg') (gain_name c) = Some x \<and> gain_is mv mute x)
    \<and> (\<forall>i < length (required_filters entry). \<exists>y ps. map_of (cfg_filters cfg') (beq_name i) = Some y
         \<and> peq_parameters (required_filters entry ! i) = Inr ps \<and> params_are ps y)
    \<and> (\<forall>m. m \<notin> gain_name ` set chans \<longrightarrow> (\<forall>i < length (required_filters entry). m \<noteq> beq_name i) \<longrightarrow>
         map_of (cfg_filters cfg') m = map_of (cfg_filters cfg) m)
    \<and> (\<forall>k. k \<noteq> ''filters'' \<longrightarrow> k \<noteq> ''pipeline'' \<longrightarrow> map_of cfg' k = map_of cfg k)"
  using create_cfg_run [OF assms(1) required_filters_complete [OF assms(2)], of mv mute]
  by (elim exE conjE) (intro exI conjI; assumption)

text \<open>
  Loading is idempotent on the pipeline: once an entry has been loaded, loading another one with
  no more filters adds no stage, whatever it and the gains are.
\<close>

theorem second_load_adds_no_stage:
  assumes "cfg_wf chans (length (required_filters entry)) cfg"
    and "\<forall>e. entry = Some e \<longrightarrow> (\<forall>b \<in> set (ce_filters e). complete_peq b)"
    and "\<forall>e. entry' = Some e \<longrightarrow> (\<forall>b \<in> set (ce_filters e). complete_peq b)"
    and n: "length (required_filters entry') \<le> length (required_filters entry)"
  shows "\<exists>cfg1 cfg2. create_cfg_for_entry entry (JObj cfg) chans mv mute = Inr (JObj cfg1)
    \<and> create_cfg_for_entry entry' (JObj cfg1) chans mv' mute' = Inr (JObj cfg2)
    \<and> cfg_pipeline cfg2 = cfg_pipeline cfg1"
proof -
  obtain cfg1 where one: "create_cfg_for_entry entry (JObj cfg) chans mv mute = Inr (JObj cfg1)"
    "cfg_wf chans (length (required_filters entry)) cfg1"
    "fully_served chans (length (required_filters entry)) cfg1"
    using create_cfg_run [OF assms(1) required_filters_complete [OF assms(2)], of mv mute]
    by (elim exE conjE) (rule that; assumption)
  have wf: "cfg_wf chans (length (required_filters entry')) cfg1"
    using cfg_wf_mono [OF one(2) n] .
  have "fully_served chans (length (required_filters entry')) cfg1"
    unfolding fully_served_def
  proof (intro ballI)
    fix c m assume c: "c \<in> set chans" and m: "m \<in> insert (gain_name c) (beq_name ` {..<length (required_filters entry')})"
    then have "m \<in> insert (gain_name c) (beq_name ` {..<length (required_filters entry)})" using n by auto
    then show "\<exists>f \<in> set (cfg_pipeline cfg1). serves f c m" using one(3) c unfolding fully_served_def by blast
  qed
  then obtain cfg2 where "create_cfg_for_entry entry' (JObj cfg1) chans mv' mute' = Inr (JObj cfg2)"
    "cfg_pipeline cfg2 = cfg_pipeline cfg1"
    using create_cfg_run [OF wf required_filters_complete [OF assms(3)], of mv' mute']
    by (elim exE conjE) (rule that, assumption, simp)
  with one(1) show ?thesis by blast
qed

section \<open>Gains alone\<close>

text \<open>A parameter of a filter.\<close>

definition param_of :: "json \<Rightarrow> string \<Rightarrow> json option" where
  "param_of x k = (case x of JObj d \<Rightarrow> (case map_of d ''parameters'' of Some (JObj q) \<Rightarrow> map_of q k | _ \<Rightarrow> None) | _ \<Rightarrow> None)"

definition requested :: "obj \<Rightarrow> string \<Rightarrow> json \<Rightarrow> json option \<Rightarrow> json option" where
  "requested v k fallback old =
     (case map_of v k of Some y \<Rightarrow> Some y
      | None \<Rightarrow> (case old of None \<Rightarrow> Some fallback | Some x \<Rightarrow> param_of x k))"

lemma set_parameter_spec:
  assumes "map_of fd n = Some x" and "has_params x"
  shows "\<exists>fd' x'. set_parameter n k v (JObj fd) = Inr (JObj fd') \<and> map_of fd' = (map_of fd)(n \<mapsto> x') \<and> has_params x'
    \<and> param_of x' k = (case map_of v k of None \<Rightarrow> param_of x k | Some y \<Rightarrow> Some y)
    \<and> (\<forall>j. j \<noteq> k \<longrightarrow> param_of x' j = param_of x j)"
proof (cases "map_of v k")
  case None
  then show ?thesis using assms by (intro exI [of _ fd] exI [of _ x]) (auto simp: set_parameter_def)
next
  case (Some y)
  obtain d q where x: "x = JObj d" "map_of d ''parameters'' = Some (JObj q)" using assms(2) by (auto simp: has_params_def)
  let ?x = "JObj (dict_set d ''parameters'' (JObj (dict_set q k y)))"
  have "set_parameter n k v (JObj fd) = Inr (JObj (dict_set fd n ?x))"
    using Some assms(1) x by (simp add: set_parameter_def jupd_def)
  then show ?thesis
    using Some x by (intro exI [of _ "dict_set fd n ?x"] exI [of _ ?x]) (simp add: has_params_def param_of_def)
qed

lemma put_gain_value_spec:
  assumes "\<forall>x. map_of fd (gain_name ch) = Some x \<longrightarrow> has_params x"
  shows "\<exists>fd' x. put_gain_value ch v (JObj fd) = Inr (JObj fd') \<and> map_of fd' = (map_of fd)(gain_name ch \<mapsto> x)
    \<and> has_params x \<and> param_of x ''gain'' = requested v ''gain'' (JNum 0) (map_of fd (gain_name ch))
    \<and> param_of x ''mute'' = requested v ''mute'' (JBool False) (map_of fd (gain_name ch))"
proof (cases "map_of fd (gain_name ch)")
  case None
  then show ?thesis
    by (intro exI [of _ "dict_set fd (gain_name ch) (gain_of_value v)"] exI [of _ "gain_of_value v"])
      (auto simp: put_gain_value_def dict_get_def gain_of_value_def has_params_def param_of_def requested_def
        split: option.split)
next
  case (Some x)
  then have x: "has_params x" using assms by simp
  then have ne: "x \<noteq> JNull" by (auto simp: has_params_def)
  obtain fd1 x1 where one: "set_parameter (gain_name ch) ''gain'' v (JObj fd) = Inr (JObj fd1)"
    "map_of fd1 = (map_of fd)(gain_name ch \<mapsto> x1)" "has_params x1"
    "param_of x1 ''gain'' = (case map_of v ''gain'' of None \<Rightarrow> param_of x ''gain'' | Some y \<Rightarrow> Some y)"
    "\<forall>j. j \<noteq> ''gain'' \<longrightarrow> param_of x1 j = param_of x j"
    using set_parameter_spec [OF Some x, of "''gain''" v] by blast
  have at: "map_of fd1 (gain_name ch) = Some x1" using one(2) by simp
  obtain fd2 x2 where two: "set_parameter (gain_name ch) ''mute'' v (JObj fd1) = Inr (JObj fd2)"
    "map_of fd2 = (map_of fd1)(gain_name ch \<mapsto> x2)" "has_params x2"
    "param_of x2 ''mute'' = (case map_of v ''mute'' of None \<Rightarrow> param_of x1 ''mute'' | Some y \<Rightarrow> Some y)"
    "\<forall>j. j \<noteq> ''mute'' \<longrightarrow> param_of x2 j = param_of x1 j"
    using set_parameter_spec [OF at one(3), of "''mute''" v] by blast
  have "put_gain_value ch v (JObj fd) = Inr (JObj fd2)"
    using Some ne one(1) two(1) by (simp add: put_gain_value_def dict_get_def)
  then show ?thesis
    using Some one two by (intro exI [of _ fd2] exI [of _ x2]) (auto simp: requested_def split: option.split)
qed

lemma find_stage_spec:
  assumes "\<forall>f \<in> set ps. stage_wf f"
  shows "find_stage ch ps k = Inr None
    \<or> (\<exists>i < length ps. \<exists>ns. find_stage ch ps k = Inr (Some (k + i)) \<and> filter_fields (ps ! i) [ch] ns)"
  using assms
proof (induction ps arbitrary: k)
  case (Cons f fs)
  have IH: "find_stage ch fs (k + 1) = Inr None
    \<or> (\<exists>i < length fs. \<exists>ns. find_stage ch fs (k + 1) = Inr (Some (k + 1 + i)) \<and> filter_fields (fs ! i) [ch] ns)"
    using Cons.IH [of "k + 1"] Cons.prems by simp
  from Cons.prems have "stage_wf f" by simp
  then show ?case unfolding stage_wf_def
  proof (elim disjE exE conjE)
    fix cs ns assume ff: "filter_fields f cs ns"
    then have st: "is_filter_stage f = Inr True" "jget f ''channels'' = Inr (num_list cs)"
      by (auto simp: is_filter_stage_def filter_fields_def)
    show ?thesis
    proof (cases "cs = [ch]")
      case True
      then have "find_stage ch (f # fs) k = Inr (Some (k + 0))"
        using st by (simp add: sole_channel_def num_list_def json_eq_def)
      then show ?thesis using ff True by (metis length_greater_0_conv list.distinct(1) nth_Cons_0)
    next
      case False
      then have "\<not> sole_channel ch (num_list cs)"
        by (auto simp: sole_channel_def num_list_def json_eq_def split: list.splits)
      then have "find_stage ch (f # fs) k = find_stage ch fs (k + 1)" using st by simp
      then show ?thesis using IH by (metis add.assoc nth_Cons_Suc plus_1_eq_Suc Suc_less_eq length_Cons)
    qed
  next
    fix d t assume "f = JObj d" "map_of d ''type'' = Some t" "t \<noteq> JStr ''Filter''"
    then have "find_stage ch (f # fs) k = find_stage ch fs (k + 1)" by (simp add: is_filter_stage_def)
    then show ?thesis using IH by (metis add.assoc nth_Cons_Suc plus_1_eq_Suc Suc_less_eq length_Cons)
  qed
qed simp

lemma first_beq_total: "\<exists>r. first_beq (map JStr ns) k = Inr r"
  by (induction ns arbitrary: k) auto

lemma insert_gain_name_spec:
  "\<exists>ms. insert_gain_name n (str_list ns) = Inr (str_list ms) \<and> set ms = insert n (set ns)"
proof (cases "n \<in> set ns")
  case True
  then show ?thesis by (auto simp: insert_gain_name_def)
next
  case False
  obtain r where r: "first_beq (map JStr ns) 0 = Inr r" using first_beq_total by blast
  show ?thesis
  proof (cases r)
    case None
    then show ?thesis using False r
      by (intro exI [of _ "ns @ [n]"]) (simp add: insert_gain_name_def, simp add: str_list_def)
  next
    case (Some i)
    have "set (take i ns @ n # drop i ns) = insert n (set ns)"
      by (metis Un_insert_right append_take_drop_id list.simps(15) set_append)
    then show ?thesis using False r Some
      by (intro exI [of _ "take i ns @ n # drop i ns"])
        (simp add: insert_gain_name_def, simp add: str_list_def jinsert_def take_map drop_map)
  qed
qed

lemma bex_list_update:
  "i < length xs \<Longrightarrow> P y = P (xs ! i) \<Longrightarrow> (\<exists>x \<in> set (xs[i := y]). P x) \<longleftrightarrow> (\<exists>x \<in> set xs. P x)"
  by (metis in_set_conv_nth length_list_update nth_list_update)

lemma update_stage_spec:
  assumes i: "i < length xs" and ff: "filter_fields (xs ! i) [ch] ns" and wf: "\<forall>f \<in> set xs. stage_wf f"
  shows "\<exists>f. jupd ''names'' (insert_gain_name n) (xs ! i) = Inr f \<and> (\<forall>g \<in> set (xs[i := f]). stage_wf g)
    \<and> (\<exists>g \<in> set (xs[i := f]). serves g ch n)
    \<and> (\<forall>c m. (c, m) \<noteq> (ch, n) \<longrightarrow> (\<exists>g \<in> set (xs[i := f]). serves g c m) = (\<exists>g \<in> set xs. serves g c m))"
proof -
  obtain ms where ms: "insert_gain_name n (str_list ns) = Inr (str_list ms)" "set ms = insert n (set ns)"
    using insert_gain_name_spec by blast
  obtain d where d: "xs ! i = JObj d" "map_of d ''names'' = Some (str_list ns)"
    using ff by (auto simp: filter_fields_def)
  let ?f = "JObj (dict_set d ''names'' (str_list ms))"
  have run: "jupd ''names'' (insert_gain_name n) (xs ! i) = Inr ?f" using d ms(1) by (simp add: jupd_def)
  have ff': "filter_fields ?f [ch] ms" using ff d(1) by (simp add: filter_fields_def)
  then have "\<forall>g \<in> set (xs[i := ?f]). stage_wf g"
    using wf set_update_subset_insert [of xs i ?f] by (auto simp: stage_wf_def)
  moreover have "serves ?f ch n" using serves_fields [OF ff'] ms(2) by simp
  then have "\<exists>g \<in> set (xs[i := ?f]). serves g ch n" using set_update_memI [OF i] by blast
  moreover have "(\<exists>g \<in> set (xs[i := ?f]). serves g c m) = (\<exists>g \<in> set xs. serves g c m)" if "(c, m) \<noteq> (ch, n)" for c m
    using that ms(2) by (intro bex_list_update [OF i]) (auto simp: serves_fields [OF ff'] serves_fields [OF ff])
  ultimately show ?thesis using run by blast
qed

lemma put_gain_stage_spec:
  assumes wf: "\<forall>f \<in> set ps. stage_wf f"
  shows "\<exists>qs. put_gain_stage ch (JList ps) = Inr (JList qs) \<and> (\<forall>f \<in> set qs. stage_wf f)
    \<and> (\<exists>f \<in> set qs. serves f ch (gain_name ch))
    \<and> (\<forall>c m. (c, m) \<noteq> (ch, gain_name ch) \<longrightarrow> (\<exists>f \<in> set qs. serves f c m) = (\<exists>f \<in> set ps. serves f c m))"
proof -
  have "(\<exists>i ns. find_stage ch ps 0 = Inr (Some i) \<and> i < length ps \<and> filter_fields (ps ! i) [ch] ns)
      \<or> find_stage ch ps 0 = Inr None"
    using find_stage_spec [OF wf, of ch 0] by auto
  then show ?thesis
  proof (elim disjE exE conjE)
    fix i ns assume i: "find_stage ch ps 0 = Inr (Some i)" "i < length ps" "filter_fields (ps ! i) [ch] ns"
    obtain f where "jupd ''names'' (insert_gain_name (gain_name ch)) (ps ! i) = Inr f"
      and rest: "\<forall>g \<in> set (ps[i := f]). stage_wf g" "\<exists>g \<in> set (ps[i := f]). serves g ch (gain_name ch)"
      "\<forall>c m. (c, m) \<noteq> (ch, gain_name ch) \<longrightarrow> (\<exists>g \<in> set (ps[i := f]). serves g c m) = (\<exists>g \<in> set ps. serves g c m)"
      using update_stage_spec [OF i(2,3) wf, of "gain_name ch"] by blast
    then have "put_gain_stage ch (JList ps) = Inr (JList (ps[i := f]))"
      using i(1) by (simp add: put_gain_stage_def Let_def)
    with rest show ?thesis by blast
  next
    assume none: "find_stage ch ps 0 = Inr None"
    let ?xs = "ps @ [filter_stage [ch] []]"
    have ff: "filter_fields (?xs ! length ps) [ch] []" by (simp add: filter_stage_fields)
    have wf': "\<forall>f \<in> set ?xs. stage_wf f" using wf by (auto simp: filter_stage_wf)
    obtain f where "jupd ''names'' (insert_gain_name (gain_name ch)) (?xs ! length ps) = Inr f"
      and rest: "\<forall>g \<in> set (?xs[length ps := f]). stage_wf g" "\<exists>g \<in> set (?xs[length ps := f]). serves g ch (gain_name ch)"
      "\<forall>c m. (c, m) \<noteq> (ch, gain_name ch) \<longrightarrow>
        (\<exists>g \<in> set (?xs[length ps := f]). serves g c m) = (\<exists>g \<in> set ?xs. serves g c m)"
      using update_stage_spec [OF _ ff wf', of "gain_name ch"] by auto
    then have "put_gain_stage ch (JList ps) = Inr (JList (?xs[length ps := f]))"
      using none by (simp add: put_gain_stage_def Let_def)
    moreover have "(\<exists>g \<in> set ?xs. serves g c m) = (\<exists>g \<in> set ps. serves g c m)" for c m
      by (simp add: serves_filter_stage)
    ultimately show ?thesis using rest by blast
  qed
qed

definition gains_wf :: "int set \<Rightarrow> obj \<Rightarrow> bool" where
  "gains_wf chans cfg \<longleftrightarrow>
     dict_get cfg ''filters'' (JObj []) = JObj (cfg_filters cfg)
     \<and> map_of cfg ''pipeline'' = Some (JList (cfg_pipeline cfg)) \<and> (\<forall>f \<in> set (cfg_pipeline cfg). stage_wf f)
     \<and> (\<forall>c \<in> chans. \<forall>x. map_of (cfg_filters cfg) (gain_name c) = Some x \<longrightarrow> has_params x)"

definition gain_applied :: "obj \<Rightarrow> obj \<Rightarrow> int \<times> obj \<Rightarrow> bool" where
  "gain_applied cfg cfg' cv \<longleftrightarrow> (case cv of (ch, v) \<Rightarrow>
     (\<exists>x. map_of (cfg_filters cfg') (gain_name ch) = Some x
       \<and> param_of x ''gain'' = requested v ''gain'' (JNum 0) (map_of (cfg_filters cfg) (gain_name ch))
       \<and> param_of x ''mute'' = requested v ''mute'' (JBool False) (map_of (cfg_filters cfg) (gain_name ch)))
     \<and> (\<exists>f \<in> set (cfg_pipeline cfg'). serves f ch (gain_name ch)))"

lemma put_gain_entry_spec:
  assumes wf: "gains_wf chans cfg" and ch: "ch \<in> chans"
  shows "\<exists>cfg'. put_gain_entry (ch, v) cfg = Inr cfg' \<and> gains_wf chans cfg' \<and> gain_applied cfg cfg' (ch, v)
    \<and> (\<forall>m. m \<noteq> gain_name ch \<longrightarrow> map_of (cfg_filters cfg') m = map_of (cfg_filters cfg) m)
    \<and> (\<forall>c m. (c, m) \<noteq> (ch, gain_name ch) \<longrightarrow>
         (\<exists>f \<in> set (cfg_pipeline cfg'). serves f c m) = (\<exists>f \<in> set (cfg_pipeline cfg). serves f c m))"
proof -
  have "\<forall>x. map_of (cfg_filters cfg) (gain_name ch) = Some x \<longrightarrow> has_params x" using wf ch by (simp add: gains_wf_def)
  from put_gain_value_spec [OF this, of v] obtain fd x where
    f: "put_gain_value ch v (JObj (cfg_filters cfg)) = Inr (JObj fd)"
      "map_of fd = (map_of (cfg_filters cfg))(gain_name ch \<mapsto> x)" "has_params x"
      "param_of x ''gain'' = requested v ''gain'' (JNum 0) (map_of (cfg_filters cfg) (gain_name ch))"
      "param_of x ''mute'' = requested v ''mute'' (JBool False) (map_of (cfg_filters cfg) (gain_name ch))" by blast
  obtain qs where p: "put_gain_stage ch (JList (cfg_pipeline cfg)) = Inr (JList qs)" "\<forall>f \<in> set qs. stage_wf f"
    "\<exists>f \<in> set qs. serves f ch (gain_name ch)"
    "\<forall>c m. (c, m) \<noteq> (ch, gain_name ch) \<longrightarrow> (\<exists>f \<in> set qs. serves f c m) = (\<exists>f \<in> set (cfg_pipeline cfg). serves f c m)"
    using put_gain_stage_spec [of "cfg_pipeline cfg" ch] wf unfolding gains_wf_def by blast
  let ?cfg = "dict_set (dict_set cfg ''filters'' (JObj fd)) ''pipeline'' (JList qs)"
  have fields: "cfg_filters ?cfg = fd" "cfg_pipeline ?cfg = qs"
    by (simp_all add: cfg_filters_def cfg_pipeline_def dict_get_def)
  have "put_gain_entry (ch, v) cfg = Inr ?cfg"
    using wf f(1) p(1) by (simp add: put_gain_entry_def gains_wf_def Let_def)
  moreover have "gains_wf chans ?cfg"
    using wf p(2) f(2,3) unfolding gains_wf_def fields by (auto simp: dict_get_def)
  moreover have "gain_applied cfg ?cfg (ch, v)" using f p(3) by (simp add: gain_applied_def fields)
  ultimately show ?thesis using f(2) p(4) fields by (intro exI [of _ ?cfg]) simp
qed

lemma put_gain_entries_spec:
  assumes "gains_wf chans cfg" and "set (keys vals) \<subseteq> chans" and "distinct (keys vals)"
  shows "\<exists>cfg'. fold_result put_gain_entry vals cfg = Inr cfg' \<and> gains_wf chans cfg'
    \<and> (\<forall>cv \<in> set vals. gain_applied cfg cfg' cv)
    \<and> (\<forall>m. m \<notin> gain_name ` set (keys vals) \<longrightarrow> map_of (cfg_filters cfg') m = map_of (cfg_filters cfg) m)
    \<and> (\<forall>c m. m \<notin> gain_name ` set (keys vals) \<longrightarrow>
         (\<exists>f \<in> set (cfg_pipeline cfg'). serves f c m) = (\<exists>f \<in> set (cfg_pipeline cfg). serves f c m))"
  using assms
proof (induction vals rule: rev_induct)
  case (snoc cv vals)
  obtain ch v where cv: "cv = (ch, v)" by fastforce
  obtain cfg1 where one: "fold_result put_gain_entry vals cfg = Inr cfg1" "gains_wf chans cfg1"
    "\<forall>cv \<in> set vals. gain_applied cfg cfg1 cv"
    "\<forall>m. m \<notin> gain_name ` set (keys vals) \<longrightarrow> map_of (cfg_filters cfg1) m = map_of (cfg_filters cfg) m"
    "\<forall>c m. m \<notin> gain_name ` set (keys vals) \<longrightarrow>
         (\<exists>f \<in> set (cfg_pipeline cfg1). serves f c m) = (\<exists>f \<in> set (cfg_pipeline cfg). serves f c m)"
    using snoc.IH snoc.prems by auto
  have ch: "ch \<in> chans" "ch \<notin> set (keys vals)" using snoc.prems(2,3) cv by auto
  then have fresh: "gain_name ch \<notin> gain_name ` set (keys vals)" by (auto simp: image_iff)
  obtain cfg2 where two: "put_gain_entry (ch, v) cfg1 = Inr cfg2" "gains_wf chans cfg2" "gain_applied cfg1 cfg2 (ch, v)"
    "\<forall>m. m \<noteq> gain_name ch \<longrightarrow> map_of (cfg_filters cfg2) m = map_of (cfg_filters cfg1) m"
    "\<forall>c m. (c, m) \<noteq> (ch, gain_name ch) \<longrightarrow>
         (\<exists>f \<in> set (cfg_pipeline cfg2). serves f c m) = (\<exists>f \<in> set (cfg_pipeline cfg1). serves f c m)"
    using put_gain_entry_spec [OF one(2) ch(1), of v] by blast
  have "gain_applied cfg cfg2 (ch, v)" using two(3) one(4) fresh by (simp add: gain_applied_def)
  moreover have "gain_applied cfg cfg2 p" if p: "p \<in> set vals" for p
  proof -
    obtain c w where pc: "p = (c, w)" by fastforce
    then have "c \<noteq> ch" using p ch(2) by force
    then show ?thesis using one(3) p pc two(4,5) by (auto simp: gain_applied_def)
  qed
  ultimately show ?case
    using one(1,4,5) two(1,2,4,5) cv by (intro exI [of _ cfg2]) (auto simp: fold_result_append)
qed simp

text \<open>
  Claim C25. Changing gains succeeds on a configuration with a pipeline: every requested gain and mute is
  set, a value that was not requested keeps what the filter had, every changed channel passes its
  gain filter, and all other filters stay as they are, applied to the channels they were.
  A configuration without a pipeline is refused.
\<close>

theorem gains_config_complete:
  assumes "gains_wf chans cfg" and "set (keys vals) \<subseteq> chans" and "distinct (keys vals)"
  shows "(\<exists>cfg'. create_cfg_for_gains vals (JObj cfg) = Inr (JObj cfg')
      \<and> (\<forall>cv \<in> set vals. gain_applied cfg cfg' cv)
      \<and> (\<forall>m. m \<notin> gain_name ` set (keys vals) \<longrightarrow> map_of (cfg_filters cfg') m = map_of (cfg_filters cfg) m
           \<and> (\<forall>c. (\<exists>f \<in> set (cfg_pipeline cfg'). serves f c m) = (\<exists>f \<in> set (cfg_pipeline cfg). serves f c m))))
    \<and> (vals \<noteq> [] \<longrightarrow> (\<exists>e. create_cfg_for_gains vals (JObj (dict_pop cfg ''pipeline'')) = Inl e))"
proof (intro conjI impI)
  let ?cfg = "if ''filters'' \<in> set (keys cfg) then cfg else dict_set cfg ''filters'' (JObj [])"
  have no: "''filters'' \<notin> set (keys cfg) \<longleftrightarrow> map_of cfg ''filters'' = None" by (simp add: map_of_eq_None_iff)
  have fields: "cfg_filters ?cfg = cfg_filters cfg" "cfg_pipeline ?cfg = cfg_pipeline cfg"
    using no by (auto simp: cfg_filters_def cfg_pipeline_def dict_get_def)
  have wf: "gains_wf chans ?cfg"
    using assms(1) no unfolding gains_wf_def fields by (auto simp: dict_get_def)
  have app: "gain_applied ?cfg cfg' cv = gain_applied cfg cfg' cv" for cfg' cv
    by (simp only: gain_applied_def fields)
  show "\<exists>cfg'. create_cfg_for_gains vals (JObj cfg) = Inr (JObj cfg')
      \<and> (\<forall>cv \<in> set vals. gain_applied cfg cfg' cv)
      \<and> (\<forall>m. m \<notin> gain_name ` set (keys vals) \<longrightarrow> map_of (cfg_filters cfg') m = map_of (cfg_filters cfg) m
           \<and> (\<forall>c. (\<exists>f \<in> set (cfg_pipeline cfg'). serves f c m) = (\<exists>f \<in> set (cfg_pipeline cfg). serves f c m)))"
  proof -
    from put_gain_entries_spec [OF wf assms(2,3)] obtain cfg' where
      "fold_result put_gain_entry vals ?cfg = Inr cfg'" "\<forall>cv \<in> set vals. gain_applied cfg cfg' cv"
      "\<forall>m. m \<notin> gain_name ` set (keys vals) \<longrightarrow> map_of (cfg_filters cfg') m = map_of (cfg_filters cfg) m"
      "\<forall>c m. m \<notin> gain_name ` set (keys vals) \<longrightarrow>
         (\<exists>f \<in> set (cfg_pipeline cfg'). serves f c m) = (\<exists>f \<in> set (cfg_pipeline cfg). serves f c m)"
      unfolding app fields by blast
    then show ?thesis by (intro exI [of _ cfg']) (simp add: create_cfg_for_gains_def)
  qed
  assume "vals \<noteq> []"
  then obtain ch v vs where vs: "vals = (ch, v) # vs" by (metis neq_Nil_conv surj_pair)
  let ?pop = "dict_pop cfg ''pipeline''"
  let ?c = "if ''filters'' \<in> set (keys ?pop) then ?pop else dict_set ?pop ''filters'' (JObj [])"
  have "\<exists>e. put_gain_entry (ch, v) c = Inl e" if "map_of c ''pipeline'' = None" for c
    using that by (cases "put_gain_value ch v (dict_get c ''filters'' (JObj []))") (simp_all add: put_gain_entry_def Let_def)
  moreover have "map_of ?c ''pipeline'' = None" by simp
  ultimately obtain e where "put_gain_entry (ch, v) ?c = Inl e" by blast
  then have "fold_result put_gain_entry vals ?c = Inl e" by (simp only: vs fold_result.simps rbind_simps)
  then show "\<exists>e. create_cfg_for_gains vals (JObj ?pop) = Inl e"
    by (simp only: create_cfg_for_gains_def json.case rbind_simps) blast
qed

section \<open>An example\<close>

text \<open>A configuration with a mixer stage only, and one with a gain filter on channel 2.\<close>

definition mixer_cfg :: obj where
  "mixer_cfg =
     [(''devices'', JObj []),
      (''pipeline'', JList [JObj [(''type'', JStr ''Mixer''), (''name'', JStr ''m'')]])]"

definition gained_cfg :: obj where
  "gained_cfg =
     [(''filters'', JObj [(''BEQ_Gain_2'', JObj [(''type'', JStr ''Gain''),
        (''parameters'', JObj [(''gain'', JNum 3), (''mute'', JBool True)])])]),
      (''pipeline'', JList [filter_stage [2] [''BEQ_1'', ''other'']])]"

lemma mixer_cfg_wf: "cfg_wf chans n mixer_cfg"
  by (simp add: cfg_wf_def cfg_filters_def cfg_pipeline_def mixer_cfg_def dict_get_def stage_wf_def)

lemma required_none: "length (required_filters None) = 10"
  by (simp add: required_filters_def)

theorem entry_config_complete_witness:
  "\<exists>cfg'. create_cfg_for_entry None (JObj mixer_cfg) [2, 3] (-5) False = Inr (JObj cfg')
     \<and> fully_served [2, 3] 10 cfg' \<and> map_of cfg' ''devices'' = Some (JObj [])"
proof -
  have "map_of mixer_cfg ''devices'' = Some (JObj [])" by (simp add: mixer_cfg_def)
  moreover have "\<forall>e. None = Some e \<longrightarrow> (\<forall>b \<in> set (ce_filters e). complete_peq b)" by simp
  from entry_config_complete [OF mixer_cfg_wf this, of "[2, 3]" "-5" False] obtain cfg' where
    "create_cfg_for_entry None (JObj mixer_cfg) [2, 3] (-5) False = Inr (JObj cfg')"
    "fully_served [2, 3] 10 cfg'"
    "\<forall>k. k \<noteq> ''filters'' \<longrightarrow> k \<noteq> ''pipeline'' \<longrightarrow> map_of cfg' k = map_of mixer_cfg k"
    unfolding required_none by (elim exE conjE) (rule that; assumption)
  ultimately show ?thesis by (intro exI [of _ cfg']) simp
qed

theorem second_load_adds_no_stage_witness:
  "\<exists>cfg1 cfg2. create_cfg_for_entry None (JObj mixer_cfg) [2] 0 False = Inr (JObj cfg1)
     \<and> create_cfg_for_entry None (JObj cfg1) [2] 4 True = Inr (JObj cfg2) \<and> cfg_pipeline cfg2 = cfg_pipeline cfg1"
  using second_load_adds_no_stage [OF mixer_cfg_wf, of None None "[2]" 0 False 4 True] by simp

theorem gains_config_complete_witness:
  "\<exists>cfg' x. create_cfg_for_gains [(2, [(''gain'', JNum 7)])] (JObj gained_cfg) = Inr (JObj cfg')
     \<and> map_of (cfg_filters cfg') ''BEQ_Gain_2'' = Some x
     \<and> param_of x ''gain'' = Some (JNum 7) \<and> param_of x ''mute'' = Some (JBool True)"
proof -
  have name: "gain_name 2 = ''BEQ_Gain_2''" by (simp add: gain_name_def show_int_def digit_char_def show_nat.simps)
  have wf: "gains_wf {2} gained_cfg"
    by (simp add: gains_wf_def cfg_filters_def cfg_pipeline_def gained_cfg_def dict_get_def filter_stage_wf
        name has_params_def)
  have old: "map_of (cfg_filters gained_cfg) ''BEQ_Gain_2'' = Some (JObj [(''type'', JStr ''Gain''),
        (''parameters'', JObj [(''gain'', JNum 3), (''mute'', JBool True)])])"
    by (simp add: cfg_filters_def gained_cfg_def dict_get_def)
  from gains_config_complete [OF wf, of "[(2, [(''gain'', JNum 7)])]"] obtain cfg' where
    "create_cfg_for_gains [(2, [(''gain'', JNum 7)])] (JObj gained_cfg) = Inr (JObj cfg')"
    "gain_applied gained_cfg cfg' (2, [(''gain'', JNum 7)])" by auto
  then show ?thesis by (auto simp: gain_applied_def name old requested_def param_of_def)
qed

end
