(* ===== verification/Camilla_Correct.thy ===== *)
theory Camilla_Correct
  imports Camilla_Dsp Camilla_Config_Correct
begin

text \<open>
  What the CamillaDSP device of \<^theory_text>\<open>Camilla_Dsp\<close> promises: its state is saved after every operation
  and message, at most one configuration update is in flight, a load runs through the exchange of
  configurations to the loaded title, and a load that could not be sent is nevertheless applied when
  the DSP connects.
\<close>

section \<open>The device as a persistent device\<close>

text \<open>The one slot keeps its id and stays active.\<close>

definition cam_wf :: "cam_state \<Rightarrow> bool" where
  "cam_wf st \<longleftrightarrow> slot_id (cam_slot_of st) = CAM_SLOT_ID \<and> active (cam_slot_of st)"

lemma new_cam_state_wf [simp]: "cam_wf new_cam_state"
  by (simp add: cam_wf_def new_cam_state_def new_cam_slot_def)

lemma maintains_upd_slot [keeps_intros]:
  "(\<And>s. slot_id (f s) = slot_id s) \<Longrightarrow> (\<And>s. active s \<Longrightarrow> active (f s)) \<Longrightarrow> maintains cam_wf (modify (upd_slot f))"
  by (simp add: maintains_def modify_def cam_wf_def upd_slot_def)

lemma maintains_volume_mute [keeps_intros]:
  "maintains cam_wf (modify (\<lambda>st. st\<lparr>cam_volume := v\<rparr>))" "maintains cam_wf (modify (\<lambda>st. st\<lparr>cam_mute := v\<rparr>))"
  by (simp_all add: maintains_def modify_def cam_wf_def)

lemma take_if_maintains:
  "(\<And>v s. slot_id (f v s) = slot_id s) \<Longrightarrow> (\<And>v s. active s \<Longrightarrow> active (f v s)) \<Longrightarrow> maintains cam_wf (take_if key f slot)"
  unfolding take_if_def by (intro keeps_intros; simp)

lemma cam_merge_maintains [keeps_intros]: "maintains cam_wf (cam_merge_state j)"
  unfolding cam_merge_state_def cam_merge_slot_def
  by (intro keeps_intros take_if_maintains; simp)

lemma on_gains_maintains [keeps_intros]: "maintains cam_wf (on_gains f)" "maintains cam_wf (on_mutes f)"
  by (auto simp: maintains_def on_gains_def on_mutes_def cam_wf_def upd_slot_def split: prod.split)

lemma set_title_maintains [keeps_intros]: "maintains cam_wf (set_title t a)"
  unfolding set_title_def by (intro keeps_intros) simp_all

lemma job_completed_maintains [keeps_intros]: "maintains cam_wf (job_completed job success)"
  by (cases "(job, success)" rule: job_completed.cases)
    (auto simp: gain_completed_def intro!: keeps_intros split: option.split)

interpretation cam: persistent_device "cam_class cfg" cam_wf for cfg
proof unfold_locales
  show "load_initial_state (cam_class cfg) d = (Inr st, d') \<Longrightarrow> cam_wf st" for d st d'
    by (auto simp: cam_class_def ok_def)
  show "load_initial_state (cam_class cfg) d = (r, d') \<Longrightarrow> hydrated d' = hydrated d \<and> current d' = current d" for d r d'
    by (auto simp: cam_class_def ok_def)
  show "cam_wf st \<Longrightarrow> cam_wf (snd (merge_state (cam_class cfg) j st))" for st j
    using cam_merge_maintains by (simp add: cam_class_def maintains_def)
  show "cam_wf st \<Longrightarrow> \<exists>j. serialise (cam_class cfg) st = Inr j" for st
    by (simp add: cam_class_def)
qed

section \<open>What leaves the state alone\<close>

lemma dsp_send_frame [simp]:
  "current (snd (dsp_send msg d)) = current d" "hydrated (snd (dsp_send msg d)) = hydrated d"
  "cache (snd (dsp_send msg d)) = cache d"
  by (auto simp: dsp_send_def zoom_def split: prod.split)

lemma world_update_frame [simp]:
  "current (snd (modify (world_update f) d)) = current d" "hydrated (snd (modify (world_update f) d)) = hydrated d"
  "cache (snd (modify (world_update f) d)) = cache d"
  by (simp_all add: modify_def)

text \<open>
  The invariant of a device in service: well formed, and once hydrated its cache file holds the
  current state.
\<close>

definition saved :: "cam_cfg \<Rightarrow> cam_dev \<Rightarrow> bool" where
  "saved cfg d \<longleftrightarrow> (\<exists>st. current d = Some st \<and> cache d = Stored (cam_serialise (cam_name cfg) st))"

definition in_service :: "cam_cfg \<Rightarrow> cam_dev \<Rightarrow> bool" where
  "in_service cfg d \<longleftrightarrow> device_ok cam_wf d \<and> (hydrated d \<longrightarrow> saved cfg d)"

text \<open>A computation that touches neither the state, nor the cache, nor the hydration.\<close>

definition aside :: "(cam_dev, 'a) act \<Rightarrow> bool" where
  "aside m \<longleftrightarrow> (\<forall>d. current (snd (m d)) = current d \<and> hydrated (snd (m d)) = hydrated d \<and> cache (snd (m d)) = cache d)"

lemma aside_maintains:
  assumes "aside m" shows "maintains (in_service cfg) m" "maintains (ready cam_wf) m"
  using assms by (simp_all add: maintains_def in_service_def device_ok_def ready_def saved_def aside_def)

lemma aside_basic: "aside (dsp_send msg)" "aside (set_updater u)" "aside (modify (world_update f))"
  by (simp_all add: aside_def set_updater_def)

lemma aside_broadcast: "aside (modify (\<lambda>d. d\<lparr>broadcasts := f d\<rparr>))"
  by (simp add: aside_def modify_def)

lemmas aside_rules [keeps_intros] =
  aside_basic [THEN aside_maintains(1)] aside_basic [THEN aside_maintains(2)]
  aside_broadcast [THEN aside_maintains(1)]

lemma send_command_ready [keeps_intros]: "maintains (ready cam_wf) (send_command cmd v)"
  unfolding send_command_def by (intro keeps_intros)

lemma start_job_keeps [keeps_intros]:
  "maintains (ready cam_wf) (start_job job)" "maintains (in_service cfg) (start_job job)"
proof -
  have r: "maintains (ready cam_wf) (and_then (set_updater u) (\<lambda>_. dsp_send m))"
    and s: "maintains (in_service cfg) (and_then (set_updater u) (\<lambda>_. dsp_send m))" for u m
    by (intro keeps_intros)+
  show "maintains (ready cam_wf) (start_job job)" "maintains (in_service cfg) (start_job job)"
    using r s by (simp_all add: maintains_def start_job_def split: option.split)
qed

text \<open>Every wrapped body puts the device in service.\<close>

lemma hcb_in_service:
  assumes "maintains (ready cam_wf) f"
  shows "maintains (in_service cfg) (hydrate_cache_broadcast (cam_class cfg) f)"
  unfolding maintains_def
proof (intro allI impI)
  fix d assume "in_service cfg d"
  then have "device_ok cam_wf d" by (simp add: in_service_def)
  from cam.hcb_result [OF this assms, of cfg]
  show "in_service cfg (snd (hydrate_cache_broadcast (cam_class cfg) f d))"
    by (auto simp: in_service_def saved_def coherent_def cam_class_def)
qed

lemma do_load_filter_ready [keeps_intros]: "maintains (ready cam_wf) (do_load_filter entry mv)"
  unfolding do_load_filter_def set_slot_error_def
  by (intro keeps_intros maintains_on_current; simp)

lemma apply_gains_ready [keeps_intros]: "maintains (ready cam_wf) (apply_gains chans v)"
  unfolding apply_gains_def by (intro keeps_intros maintains_on_current; simp)

lemmas hcb_ready [keeps_intros] = cam.hcb_maintains

lemma wrapped_ops_keep [keeps_intros]:
  "maintains (in_service cfg) (cam_load_filter cfg e mv)" "maintains (in_service cfg) (cam_clear_filter cfg)"
  "maintains (in_service cfg) (cam_activate cfg)" "maintains (in_service cfg) (cam_mute_op cfg b)"
  "maintains (in_service cfg) (cam_set_gain cfg ch g)" "maintains (in_service cfg) (on_complete cfg job b)"
  "maintains (in_service cfg) (set_current_config cfg v)"
  unfolding cam_load_filter_def cam_clear_filter_def cam_activate_def cam_mute_op_def cam_set_gain_def
    on_complete_def set_current_config_def
  by (intro keeps_intros hcb_in_service maintains_on_current; simp)+

lemma wrapped_ops_ready [keeps_intros]:
  "maintains (ready cam_wf) (cam_load_filter cfg e mv)" "maintains (ready cam_wf) (cam_clear_filter cfg)"
  "maintains (ready cam_wf) (cam_mute_op cfg b)" "maintains (ready cam_wf) (cam_set_gain cfg ch g)"
  unfolding cam_load_filter_def cam_clear_filter_def cam_mute_op_def cam_set_gain_def
  by (intro keeps_intros)+

lemma cam_update_slot_ready [keeps_intros]: "maintains (ready cam_wf) (cam_update_slot cfg slot)"
  unfolding cam_update_slot_def by (intro keeps_intros)

lemma cam_update_slots_ready [keeps_intros]: "maintains (ready cam_wf) (cam_update_slots cfg ss acc)"
  by (induction ss arbitrary: acc) (auto intro!: keeps_intros)

lemma cam_update_keeps [keeps_intros]: "maintains (in_service cfg) (cam_update_params cfg params)"
  unfolding cam_update_params_def cam_slots_block_def cam_mute_block_def cam_volume_block_def
  by (intro hcb_in_service keeps_intros)

lemma maintains_lambda_case [keeps_intros]:
  "(\<And>x. maintains P (f x)) \<Longrightarrow> maintains P g \<Longrightarrow> maintains P (\<lambda>d. case h d of None \<Rightarrow> g d | Some x \<Rightarrow> f x d)"
  by (auto simp: maintains_def split: option.split)

lemma maintains_pure_step [keeps_intros]: "maintains P (\<lambda>d. (Inr x, d))"
  by (simp add: maintains_def)

lemma updater_steps_keep [keeps_intros]:
  "maintains (in_service cfg) (updater_on_get_config cfg u v)"
  "maintains (in_service cfg) (updater_failed cfg u stage payload)"
  unfolding updater_on_get_config_def updater_failed_def by (intro keeps_intros)+

lemma lambda_case_skip:
  "(\<And>x. maintains P (f x)) \<Longrightarrow> maintains P (\<lambda>d. case h d of None \<Rightarrow> (Inr (), d) | Some x \<Rightarrow> f x d)"
  by (auto simp: maintains_def split: option.split)

lemma cam_on_config_keeps [keeps_intros]:
  "maintains (in_service cfg) (cam_on_get_config cfg v)" "maintains (in_service cfg) (cam_on_set_config cfg v)"
proof -
  have "maintains (in_service cfg) (\<lambda>d. cam_on_set_config cfg v d)"
    unfolding cam_on_set_config_def by (intro lambda_case_skip keeps_intros)
  then show "maintains (in_service cfg) (cam_on_set_config cfg v)" by simp
  show "maintains (in_service cfg) (cam_on_get_config cfg v)"
    unfolding cam_on_get_config_def by (intro keeps_intros lambda_case_skip)
qed

lemma if_ok_keeps [keeps_intros]: "(\<And>m. maintains P (f m)) \<Longrightarrow> maintains P (if_ok msg f)"
  unfolding if_ok_def by (intro keeps_intros)

lemma cam_on_values_keep [keeps_intros]:
  "maintains (in_service cfg) (cam_on_get_volume cfg m)" "maintains (in_service cfg) (cam_on_get_mute cfg m)"
  "maintains (in_service cfg) (cam_on_get_rms cfg m)" "maintains (in_service cfg) (cam_on_get_peak m)"
  unfolding cam_on_get_volume_def cam_on_get_mute_def cam_on_get_rms_def cam_on_get_peak_def
  by (intro keeps_intros hcb_in_service maintains_on_current)+

lemma first_key_keeps:
  "list_all (\<lambda>p. \<forall>m. maintains P (snd p m)) ks \<Longrightarrow> maintains P (first_key ks msg)"
  by (induction ks) (auto intro!: keeps_intros)

lemma cam_on_message_keeps: "in_service cfg d \<Longrightarrow> in_service cfg (cam_on_message cfg msg d)"
proof -
  have "maintains (in_service cfg) (first_key (cam_handlers cfg) msg)"
    by (rule first_key_keeps) (auto simp: cam_handlers_def result_of_def intro!: keeps_intros)
  then show "in_service cfg d \<Longrightarrow> ?thesis" by (simp add: cam_on_message_def maintains_def)
qed

section \<open>Histories\<close>

datatype cam_op =
    CamActivate
  | CamLoad catalogue_entry rat
  | CamClear
  | CamMute bool
  | CamGain "int option" json
  | CamUpdate json
  | CamLevels

fun run_cam :: "cam_cfg \<Rightarrow> cam_op \<Rightarrow> (cam_dev, unit) act" where
  "run_cam cfg CamActivate = cam_activate cfg"
| "run_cam cfg (CamLoad e mv) = cam_load_filter cfg e mv"
| "run_cam cfg CamClear = cam_clear_filter cfg"
| "run_cam cfg (CamMute b) = cam_mute_op cfg b"
| "run_cam cfg (CamGain ch g) = cam_set_gain cfg ch g"
| "run_cam cfg (CamUpdate params) = and_then (cam_update_params cfg params) (\<lambda>_. ok ())"
| "run_cam cfg CamLevels = request_levels"

text \<open>
  What can happen: an operation is called, a connection opens or breaks, the DSP sends a message.
\<close>

inductive cam_history :: "cam_cfg \<Rightarrow> cam_dev \<Rightarrow> bool" for cfg where
  start: "cam_history cfg (new_device f new_cam_world)"
| operate: "cam_history cfg d \<Longrightarrow> cam_history cfg (snd (run_cam cfg op d))"
| connect: "cam_history cfg d \<Longrightarrow> cam_history cfg (snd (protocol_open cfg c d))"
| break: "cam_history cfg d \<Longrightarrow> cam_history cfg (d\<lparr>world := world d\<lparr>lost := c # lost (world d)\<rparr>\<rparr>)"
| message: "cam_history cfg d \<Longrightarrow> cam_history cfg (cam_on_message cfg msg d)"

lemma cam_history_in_service: "cam_history cfg d \<Longrightarrow> in_service cfg d"
proof (induction rule: cam_history.induct)
  case (start f)
  then show ?case by (simp add: in_service_def) (simp add: new_device_def)
next
  case (operate d op)
  have "maintains (in_service cfg) (run_cam cfg op)"
    by (cases op) (auto simp: request_levels_def intro!: keeps_intros)
  with operate show ?case by (simp add: maintains_def)
next
  case (connect d c)
  have "maintains (in_service cfg) (protocol_open cfg c)"
    unfolding protocol_open_def cam_on_open_def by (intro keeps_intros)
  with connect show ?case by (simp add: maintains_def)
next
  case (break d c)
  then show ?case by (simp add: in_service_def device_ok_def ready_def saved_def)
next
  case (message d msg)
  then show ?case by (simp add: cam_on_message_keeps)
qed


section \<open>The exchange, step by step\<close>

definition save :: "cam_cfg \<Rightarrow> cam_dev \<Rightarrow> cam_dev" where
  "save cfg d = (case current d of None \<Rightarrow> d
     | Some st \<Rightarrow> d\<lparr>cache := Stored (cam_serialise (cam_name cfg) st),
         broadcasts := broadcasts d @ [StateMsg (cam_serialise (cam_name cfg) st)]\<rparr>)"

lemma save_simps [simp]:
  "current (save cfg d) = current d" "hydrated (save cfg d) = hydrated d" "world (save cfg d) = world d"
  by (simp_all add: save_def split: option.split)

lemma cam_hcb_eq:
  assumes "hydrated d" and "current (snd (f d)) = Some st"
  shows "hydrate_cache_broadcast (cam_class cfg) f d = (fst (f d), save cfg (snd (f d)))"
proof -
  obtain r d' where f: "f d = (r, d')" by fastforce
  with assms show ?thesis
    by (simp add: hydrate_cache_broadcast_def act_simps hydrate_def persist_def broadcast_state_def cam_class_def save_def)
qed

lemma client_send_all_live:
  "lost w = [] \<Longrightarrow> client_send_each msg cs w = ([], w\<lparr>to_dsp := to_dsp w @ map (\<lambda>c. (c, msg)) cs\<rparr>)"
  by (induction cs arbitrary: w) simp_all

text \<open>A connection is up when there is one and none is broken.\<close>

definition link_up :: "cam_world \<Rightarrow> bool" where
  "link_up w \<longleftrightarrow> conns w \<noteq> [] \<and> lost w = []"

definition sent_all :: "json \<Rightarrow> cam_world \<Rightarrow> cam_world" where
  "sent_all msg w = w\<lparr>to_dsp := to_dsp w @ map (\<lambda>c. (c, msg)) (conns w)\<rparr>"

lemma sent_all_simps [simp]:
  "conns (sent_all msg w) = conns w" "lost (sent_all msg w) = lost w" "updater (sent_all msg w) = updater w"
  "link_up (sent_all msg w) = link_up w" "current_config (sent_all msg w) = current_config w"
  by (simp_all add: sent_all_def link_up_def)

lemma dsp_send_up: "link_up (world d) \<Longrightarrow> dsp_send msg d = (Inr (), d\<lparr>world := sent_all msg (world d)\<rparr>)"
  by (simp add: dsp_send_def zoom_def client_broadcast_def client_send_all_live link_up_def sent_all_def)

lemma dsp_send_down:
  "conns (world d) = [] \<Longrightarrow> dsp_send msg d = (Inl (ValueError ''No devices connected, ignoring''), d)"
  by (simp add: dsp_send_def zoom_def client_broadcast_def)

text \<open>What a load does to the state and the world of a hydrated device.\<close>

definition titled :: "json \<Rightarrow> json \<Rightarrow> cam_dev \<Rightarrow> cam_dev" where
  "titled t a d = d\<lparr>current := map_option (upd_slot (set_loaded t a)) (current d)\<rparr>"

lemma load_refused_eq:
  assumes "hydrated d" "current d = Some st" "updater (world d) = Some u"
  shows "cam_load_filter cfg e mv d =
    (Inl (ValueError (''Unable to load BEQ, config update already in progress for '' @ job_name (cu_job u))),
     save cfg (titled error_title JNull d))"
proof -
  have "do_load_filter (Some e) mv d =
      (Inl (ValueError (''Unable to load BEQ, config update already in progress for '' @ job_name (cu_job u))),
       titled error_title JNull d)"
    using assms(2,3)
    by (simp add: do_load_filter_def act_simps on_current_def set_title_def start_job_def set_slot_error_def
        titled_def upd_slot_def set_loaded_def)
  then show ?thesis
    unfolding cam_load_filter_def using assms cam_hcb_eq [of d "do_load_filter (Some e) mv"]
    by (simp add: titled_def)
qed

definition new_update :: "cam_job \<Rightarrow> cam_update" where
  "new_update job = \<lparr>cu_job = job, cu_config = None, cu_failed = False\<rparr>"

lemma load_started_eq:
  assumes "hydrated d" "current d = Some st" "updater (world d) = None" "link_up (world d)"
  shows "cam_load_filter cfg e mv d = (Inr (), save cfg ((titled (JStr ''Loading'') JNull d)
    \<lparr>world := sent_all (JStr ''GetConfigJson'') ((world d)\<lparr>updater := Some (new_update (LoadJob (Some e) mv))\<rparr>)\<rparr>))"
proof -
  have "do_load_filter (Some e) mv d = (Inr (), (titled (JStr ''Loading'') JNull d)
      \<lparr>world := sent_all (JStr ''GetConfigJson'') ((world d)\<lparr>updater := Some (new_update (LoadJob (Some e) mv))\<rparr>)\<rparr>)"
    using assms(2-4)
    by (simp add: do_load_filter_def act_simps on_current_def set_title_def start_job_def set_updater_def
        titled_def dsp_send_up link_up_def new_update_def)
  then show ?thesis
    unfolding cam_load_filter_def using assms cam_hcb_eq [of d "do_load_filter (Some e) mv"]
    by (simp add: titled_def)
qed

lemma load_offline_eq:
  assumes "hydrated d" "current d = Some st" "updater (world d) = None" "conns (world d) = []"
  shows "cam_load_filter cfg e mv d = (Inl (ValueError ''No devices connected, ignoring''),
    save cfg ((titled error_title JNull d)
      \<lparr>world := (world d)\<lparr>updater := Some (new_update (LoadJob (Some e) mv))\<rparr>\<rparr>))"
proof -
  have "do_load_filter (Some e) mv d = (Inl (ValueError ''No devices connected, ignoring''),
      (titled error_title JNull d)\<lparr>world := (world d)\<lparr>updater := Some (new_update (LoadJob (Some e) mv))\<rparr>\<rparr>)"
    using assms(2-4)
    by (simp add: do_load_filter_def act_simps on_current_def set_title_def start_job_def set_updater_def
        set_slot_error_def titled_def dsp_send_down new_update_def upd_slot_def set_loaded_def)
  then show ?thesis
    unfolding cam_load_filter_def using assms cam_hcb_eq [of d "do_load_filter (Some e) mv"]
    by (simp add: titled_def)
qed

definition with_gains :: "(json \<times> json) option \<Rightarrow> cam_state \<Rightarrow> cam_state" where
  "with_gains r st = (case r of None \<Rightarrow> st
     | Some (g, m) \<Rightarrow> upd_slot (\<lambda>s. s\<lparr>cam_gains := g, cam_mutes := m\<rparr>) st)"

lemma set_current_config_eq:
  assumes "hydrated d" "current d = Some st" "read_gains (beq_channels cfg) v = Inr r"
  shows "set_current_config cfg v d =
    (Inr (), save cfg (d\<lparr>current := Some (with_gains r st), world := (world d)\<lparr>current_config := v\<rparr>\<rparr>))"
proof -
  let ?d = "d\<lparr>world := (world d)\<lparr>current_config := v\<rparr>\<rparr>"
  have "apply_gains (beq_channels cfg) v ?d = (Inr (), ?d\<lparr>current := Some (with_gains r st)\<rparr>)"
    using assms(2,3) by (simp add: apply_gains_def act_simps on_current_def with_gains_def split: option.split)
  moreover have "?d\<lparr>current := Some (with_gains r st)\<rparr> =
      d\<lparr>current := Some (with_gains r st), world := (world d)\<lparr>current_config := v\<rparr>\<rparr>" by simp
  moreover have "world_update (\<lambda>w. w\<lparr>current_config := v\<rparr>) d = ?d" by (cases d) simp
  ultimately show ?thesis
    using assms cam_hcb_eq [of ?d "apply_gains (beq_channels cfg) v" "with_gains r st" cfg]
    unfolding set_current_config_def and_then_def modify_def by (simp only: prod.case sum.case) simp
qed

definition get_config_ok :: "json \<Rightarrow> json" where
  "get_config_ok txt = JObj [(''GetConfigJson'', JObj [(''result'', JStr ''Ok''), (''value'', txt)])]"

definition set_config_result :: "json \<Rightarrow> json" where
  "set_config_result r = JObj [(''SetConfigJson'', JObj [(''result'', r)])]"

lemma got_config_eq:
  assumes d: "hydrated d" "current d = Some st" and u: "updater (world d) = Some u" and up: "link_up (world d)"
    and v: "json_loads cfg txt = Inr v" "read_gains (beq_channels cfg) v = Inr r" "create_cfg cfg (cu_job u) v = Inr new"
  shows "cam_on_message cfg (get_config_ok txt) d =
    (save cfg (d\<lparr>current := Some (with_gains r st)\<rparr>))
      \<lparr>world := sent_all (JObj [(''SetConfigJson'', new)])
        ((world d)\<lparr>current_config := v, updater := Some (u\<lparr>cu_config := Some new\<rparr>)\<rparr>)\<rparr>"
proof -
  let ?d = "save cfg (d\<lparr>current := Some (with_gains r st), world := (world d)\<lparr>current_config := v\<rparr>\<rparr>)"
  have "updater_on_get_config cfg u v ?d = (Inr (), ?d\<lparr>world := sent_all (JObj [(''SetConfigJson'', new)])
        ((world d)\<lparr>current_config := v, updater := Some (u\<lparr>cu_config := Some new\<rparr>)\<rparr>)\<rparr>)"
    using up v(3) by (simp add: updater_on_get_config_def act_simps set_updater_def dsp_send_up link_up_def)
  then show ?thesis
    using u v(1) set_current_config_eq [OF d v(2)]
    by (simp add: cam_on_message_def cam_handlers_def get_config_ok_def cam_on_get_config_def act_simps save_def
        dict_get_def)
qed

text \<open>The gains read from a configuration are objects, so completing a load can set their values.\<close>

definition objs :: "json list \<Rightarrow> bool" where
  "objs xs \<longleftrightarrow> (\<forall>x \<in> set xs. is_obj x)"

lemma drop_channels_subset: "drop_channels chs gs = Inr gs' \<Longrightarrow> set gs' \<subseteq> set gs"
  by (induction gs arbitrary: gs') (auto simp: rbind_Inr_iff split: if_splits)

lemma read_gain_filter_objs:
  assumes "read_gain_filter filters chs n gm = Inr gm'" "objs (fst gm) \<and> objs (snd gm)"
  shows "objs (fst gm') \<and> objs (snd gm')"
proof -
  let ?step = "\<lambda>f c acc. rbind (gain_parameter f ''gain'') (\<lambda>g. rbind (gain_parameter f ''mute'') (\<lambda>m.
             Inr (fst acc @ [channel_value c g], snd acc @ [channel_value c m])))"
  obtain f t where ft: "jget filters n = Inr f" "jget f ''type'' = Inr t"
    using assms(1) by (auto simp: read_gain_filter_def rbind_Inr_iff)
  show ?thesis
  proof (cases "t = JStr ''Gain''")
    case False
    then show ?thesis using assms ft by (simp add: read_gain_filter_def)
  next
    case True
    then obtain gs ms cs where "drop_channels chs (fst gm) = Inr gs" "drop_channels chs (snd gm) = Inr ms"
      and fold: "fold_result (?step f) cs (gs, ms) = Inr gm'"
      using assms(1) ft by (auto simp: read_gain_filter_def rbind_Inr_iff)
    then have "objs (fst (gs, ms)) \<and> objs (snd (gs, ms))"
      using assms(2) drop_channels_subset unfolding objs_def by fastforce
    from fold this show ?thesis
      by (rule fold_result_invariant) (auto simp: rbind_Inr_iff objs_def channel_value_def)
  qed
qed

lemma read_gains_objs:
  assumes "read_gains chans v = Inr (Some (g, m))"
  shows "\<exists>gs ms. g = JList gs \<and> m = JList ms \<and> objs gs \<and> objs ms"
proof -
  obtain filters stages gm where gm: "g = JList (fst gm)" "m = JList (snd gm)"
    "fold_result (read_stage filters) stages (initial_values chans (JNum 0), initial_values chans (JBool False)) = Inr gm"
    using assms by (auto simp: read_gains_def rbind_Inr_iff split: if_splits)
  have "objs (fst gm) \<and> objs (snd gm)"
  proof (rule fold_result_invariant [OF gm(3)])
    show "objs (fst (initial_values chans (JNum 0), initial_values chans (JBool False)))
        \<and> objs (snd (initial_values chans (JNum 0), initial_values chans (JBool False)))"
      by (auto simp: objs_def initial_values_def channel_value_def)
  next
    fix s a b assume "objs (fst a) \<and> objs (snd a)" "read_stage filters s a = Inr b"
    then show "objs (fst b) \<and> objs (snd b)"
      by (auto simp: read_stage_def rbind_Inr_iff split: if_splits
          elim!: fold_result_invariant [where P = "\<lambda>x. objs (fst x) \<and> objs (snd x)"] dest: read_gain_filter_objs)
  qed
  with gm show ?thesis by blast
qed

definition all_values :: "json \<Rightarrow> json list \<Rightarrow> json list" where
  "all_values v xs = map (\<lambda>x. case x of JObj d \<Rightarrow> JObj (dict_set d ''value'' v) | _ \<Rightarrow> x) xs"

lemma assign_all_objs: "objs xs \<Longrightarrow> assign_all v (JList xs) = (Inr (), JList (all_values v xs))"
proof -
  assume "objs xs"
  then have "assign_each v xs = (Inr (), all_values v xs)"
  proof (induction xs)
    case (Cons x xs)
    then obtain d where "x = JObj d" by (cases x) (auto simp: objs_def)
    with Cons show ?case by (simp add: objs_def all_values_def)
  qed (simp add: all_values_def)
  then show ?thesis by (simp add: assign_all_def)
qed

lemma completed_eq:
  assumes "cam_gains (cam_slot_of st) = JList gs" "cam_mutes (cam_slot_of st) = JList ms" "objs gs" "objs ms"
  shows "job_completed (LoadJob (Some e) mv) True st =
    (Inr (), upd_slot (\<lambda>s. (set_loaded (JStr (ce_formatted_title e)) (JStr (ce_author e)) s)
       \<lparr>cam_gains := JList (all_values (JNum mv) gs), cam_mutes := JList (all_values (JBool False) ms)\<rparr>) st)"
  using assms
  by (simp add: act_simps set_title_def on_gains_def on_mutes_def upd_slot_def set_loaded_def assign_all_objs)

lemma set_config_eq:
  assumes d: "hydrated d" "current d = Some st" and u: "updater (world d) = Some u" "cu_job u = LoadJob (Some e) mv"
    "cu_config u = Some new" and r: "read_gains (beq_channels cfg) new = Inr r"
    and gs: "cam_gains (cam_slot_of st) = JList gs" "cam_mutes (cam_slot_of st) = JList ms" "objs gs" "objs ms"
  shows "\<exists>d'. cam_on_message cfg (set_config_result (JStr ''Ok'')) d = d' \<and> updater (world d') = None
    \<and> to_dsp (world d') = to_dsp (world d) \<and> current_config (world d') = new \<and> saved cfg d' \<and> hydrated d'
    \<and> current d' = Some (with_gains r (upd_slot (\<lambda>s. (set_loaded (JStr (ce_formatted_title e)) (JStr (ce_author e)) s)
       \<lparr>cam_gains := JList (all_values (JNum mv) gs), cam_mutes := JList (all_values (JBool False) ms)\<rparr>) st))"
proof -
  let ?st = "upd_slot (\<lambda>s. (set_loaded (JStr (ce_formatted_title e)) (JStr (ce_author e)) s)
       \<lparr>cam_gains := JList (all_values (JNum mv) gs), cam_mutes := JList (all_values (JBool False) ms)\<rparr>) st"
  let ?d1 = "save cfg (d\<lparr>current := Some ?st\<rparr>)"
  let ?d2 = "save cfg (?d1\<lparr>current := Some (with_gains r ?st), world := (world ?d1)\<lparr>current_config := new\<rparr>\<rparr>)"
  have "on_current (job_completed (LoadJob (Some e) mv) True) d = (Inr (), d\<lparr>current := Some ?st\<rparr>)"
    using d(2) completed_eq [OF gs] by (simp add: on_current_def del: job_completed.simps)
  then have one: "on_complete cfg (cu_job u) True d = (Inr (), ?d1)"
    using cam_hcb_eq [of d "on_current (job_completed (LoadJob (Some e) mv) True)" ?st cfg] d(1) u(2)
    by (simp add: on_complete_def del: job_completed.simps)
  have two: "set_current_config cfg new ?d1 = (Inr (), ?d2)"
    by (rule set_current_config_eq) (simp_all add: d(1) r)
  have "cam_on_message cfg (set_config_result (JStr ''Ok'')) d = snd (set_updater None ?d2)"
    using u one two
    by (simp add: cam_on_message_def cam_handlers_def set_config_result_def result_of_def cam_on_set_config_def
        act_simps del: job_completed.simps)
  then show ?thesis by (simp add: set_updater_def modify_def saved_def d(1)) (simp add: save_def)
qed

lemma set_config_failed_eq:
  assumes d: "hydrated d" "current d = Some st" and u: "updater (world d) = Some u" "cu_job u = LoadJob (Some e) mv"
    and r: "r \<noteq> JStr ''Ok''"
  shows "\<exists>d'. cam_on_message cfg (set_config_result r) d = d' \<and> updater (world d') = None
    \<and> to_dsp (world d') = to_dsp (world d) \<and> saved cfg d' \<and> hydrated d'
    \<and> current d' = Some (upd_slot (set_loaded error_title JNull) st)
    \<and> last (broadcasts d') = PlainError (''SetConfig failed : '' @ payload_text cfg r)"
proof -
  let ?d = "d\<lparr>world := (world d)\<lparr>updater := Some (u\<lparr>cu_failed := True\<rparr>)\<rparr>\<rparr>"
  let ?st = "upd_slot (set_loaded error_title JNull) st"
  let ?d1 = "save cfg (?d\<lparr>current := Some ?st\<rparr>)"
  have "on_current (job_completed (LoadJob (Some e) mv) False) ?d = (Inr (), ?d\<lparr>current := Some ?st\<rparr>)"
    using d(2) by (simp add: on_current_def set_title_def modify_def)
  then have "on_complete cfg (cu_job u) False ?d = (Inr (), ?d1)"
    using cam_hcb_eq [of ?d "on_current (job_completed (LoadJob (Some e) mv) False)" ?st cfg] d(1) u(2)
    by (simp add: on_complete_def del: job_completed.simps)
  moreover have "world_update (\<lambda>w. w\<lparr>updater := Some (u\<lparr>cu_failed := True\<rparr>)\<rparr>) d = ?d" by (cases d) simp
  ultimately have "updater_failed cfg u ''SetConfig'' r d
      = (Inr (), ?d1\<lparr>broadcasts := broadcasts ?d1 @ [PlainError (''SetConfig failed : '' @ payload_text cfg r)]\<rparr>)"
    unfolding updater_failed_def set_updater_def and_then_def modify_def by (simp only: prod.case sum.case) simp
  then have "cam_on_message cfg (set_config_result r) d = snd (set_updater None
      (?d1\<lparr>broadcasts := broadcasts ?d1 @ [PlainError (''SetConfig failed : '' @ payload_text cfg r)]\<rparr>))"
    using u r
    by (simp add: cam_on_message_def cam_handlers_def set_config_result_def result_of_def cam_on_set_config_def act_simps)
  then show ?thesis by (simp add: set_updater_def modify_def saved_def d(1)) (simp add: save_def)
qed

lemma in_service_current:
  assumes "cam_history cfg d" and "hydrated d" shows "\<exists>st. current d = Some st"
  using cam_history_in_service [OF assms(1)] assms(2) by (auto simp: in_service_def saved_def)

text \<open>
  Claim C9. One update at a time: while a configuration update is in flight a load is refused, names the
  update in its error, sends nothing, leaves the update alone and shows ERROR.
\<close>

theorem camilla_one_update_at_a_time:
  assumes "cam_history cfg d" "hydrated d" and u: "updater (world d) = Some u"
  shows "\<exists>d'. cam_load_filter cfg e mv d =
      (Inl (ValueError (''Unable to load BEQ, config update already in progress for '' @ job_name (cu_job u))), d')
    \<and> world d' = world d \<and> map_option (last_title \<circ> cam_slot_of) (current d') = Some error_title"
proof -
  obtain st where st: "current d = Some st" using in_service_current [OF assms(1,2)] by blast
  show ?thesis unfolding load_refused_eq [OF assms(2) st u] by (simp add: titled_def st upd_slot_def)
qed

text \<open>
  Claim C5. A load runs through the exchange with the DSP: it asks for the configuration, rewrites the one it
  gets and sends it back. If the DSP accepts, the slot shows the title and author and the update is
  over; if it refuses, the slot shows ERROR, the users are told why and the update is over too.
\<close>

theorem camilla_load_round:
  assumes h: "cam_history cfg d" "hydrated d" and idle: "updater (world d) = None" "link_up (world d)"
    and v: "json_loads cfg txt = Inr v" "read_gains (beq_channels cfg) v = Inr (Some (g, m))"
    and new: "create_cfg_for_entry (Some e) v (beq_channels cfg) mv False = Inr new"
      "read_gains (beq_channels cfg) new = Inr (Some (g', m'))"
  shows "let d1 = snd (cam_load_filter cfg e mv d);
      d2 = cam_on_message cfg (get_config_ok txt) d1; d3 = cam_on_message cfg (set_config_result r) d2
    in fst (cam_load_filter cfg e mv d) = Inr ()
      \<and> to_dsp (world d3) = to_dsp (world d) @ map (\<lambda>c. (c, JStr ''GetConfigJson'')) (conns (world d))
          @ map (\<lambda>c. (c, JObj [(''SetConfigJson'', new)])) (conns (world d))
      \<and> updater (world d3) = None \<and> saved cfg d3
      \<and> (\<exists>st. current d3 = Some st \<and>
          (if r = JStr ''Ok'' then
             last_title (cam_slot_of st) = JStr (ce_formatted_title e) \<and> last_author (cam_slot_of st) = JStr (ce_author e)
             \<and> cam_gains (cam_slot_of st) = g' \<and> cam_mutes (cam_slot_of st) = m' \<and> current_config (world d3) = new
           else last_title (cam_slot_of st) = error_title
             \<and> last (broadcasts d3) = PlainError (''SetConfig failed : '' @ payload_text cfg r)))"
proof -
  obtain st where st: "current d = Some st" using in_service_current [OF h] by blast
  note one = load_started_eq [OF h(2) st idle, of cfg e mv]
  let ?d1 = "snd (cam_load_filter cfg e mv d)"
  let ?u = "new_update (LoadJob (Some e) mv)" and ?st1 = "upd_slot (set_loaded (JStr ''Loading'') JNull) st"
  have d1: "hydrated ?d1" "current ?d1 = Some ?st1" "updater (world ?d1) = Some ?u" "link_up (world ?d1)"
    using h(2) idle(2) by (simp_all add: one titled_def st link_up_def)
  have mk: "create_cfg cfg (cu_job ?u) v = Inr new" using new(1) by (simp add: create_cfg_def new_update_def)
  note two = got_config_eq [OF d1 v mk]
  let ?d2 = "cam_on_message cfg (get_config_ok txt) ?d1"
  let ?u2 = "?u\<lparr>cu_config := Some new\<rparr>" and ?st2 = "with_gains (Some (g, m)) ?st1"
  obtain gs ms where gm: "g = JList gs" "m = JList ms" "objs gs" "objs ms" using read_gains_objs [OF v(2)] by blast
  have d2: "hydrated ?d2" "current ?d2 = Some ?st2" "updater (world ?d2) = Some ?u2"
    using d1(1) by (simp_all add: two)
  have sent: "to_dsp (world ?d2) = to_dsp (world d) @ map (\<lambda>c. (c, JStr ''GetConfigJson'')) (conns (world d))
          @ map (\<lambda>c. (c, JObj [(''SetConfigJson'', new)])) (conns (world d))"
    by (simp add: two) (simp add: one sent_all_def)
  have u2: "cu_job ?u2 = LoadJob (Some e) mv" "cu_config ?u2 = Some new" by (simp_all add: new_update_def)
  have gains: "cam_gains (cam_slot_of ?st2) = JList gs" "cam_mutes (cam_slot_of ?st2) = JList ms"
    by (simp_all add: with_gains_def upd_slot_def gm)
  show ?thesis
  proof (cases "r = JStr ''Ok''")
    case True
    obtain d3 where d3: "cam_on_message cfg (set_config_result (JStr ''Ok'')) ?d2 = d3" "updater (world d3) = None"
      "to_dsp (world d3) = to_dsp (world ?d2)" "current_config (world d3) = new" "saved cfg d3"
      "current d3 = Some (with_gains (Some (g', m')) (upd_slot (\<lambda>s. (set_loaded (JStr (ce_formatted_title e))
         (JStr (ce_author e)) s)\<lparr>cam_gains := JList (all_values (JNum mv) gs),
           cam_mutes := JList (all_values (JBool False) ms)\<rparr>) ?st2))"
      using set_config_eq [OF d2 u2 new(2) gains gm(3,4)] by blast
    then show ?thesis
      using True sent by (simp add: Let_def one) (simp add: with_gains_def upd_slot_def set_loaded_def)
  next
    case False
    obtain d3 where d3: "cam_on_message cfg (set_config_result r) ?d2 = d3" "updater (world d3) = None"
      "to_dsp (world d3) = to_dsp (world ?d2)" "saved cfg d3"
      "current d3 = Some (upd_slot (set_loaded error_title JNull) ?st2)"
      "last (broadcasts d3) = PlainError (''SetConfig failed : '' @ payload_text cfg r)"
      using set_config_failed_eq [OF d2 u2(1) False, of cfg] by blast
    then show ?thesis using False sent by (simp add: Let_def one) (simp add: upd_slot_def)
  qed
qed

text \<open>
  Claim C26. A load while no DSP is connected raises and shows ERROR, but stays in flight: when a DSP connects
  and sends its configuration, the filter that was reported as failed is sent to it, and until then
  every other load is refused.
\<close>

theorem camilla_failed_load_applied_later:
  assumes h: "cam_history cfg d" "hydrated d" and idle: "updater (world d) = None" "conns (world d) = []" "lost (world d) = []"
    and v: "json_loads cfg txt = Inr v" "read_gains (beq_channels cfg) v = Inr r"
    and new: "create_cfg_for_entry (Some e) v (beq_channels cfg) mv False = Inr new"
  shows "let (res, d1) = cam_load_filter cfg e mv d; d2 = snd (protocol_open cfg c d1);
      d3 = cam_on_message cfg (get_config_ok txt) d2
    in (\<exists>msg. res = Inl (ValueError msg)) \<and> map_option (last_title \<circ> cam_slot_of) (current d1) = Some error_title
      \<and> (\<exists>msg. fst (cam_load_filter cfg e' mv' d1) = Inl (ValueError msg))
      \<and> last (to_dsp (world d3)) = (c, JObj [(''SetConfigJson'', new)])"
proof -
  obtain st where st: "current d = Some st" using in_service_current [OF h] by blast
  note one = load_offline_eq [OF h(2) st idle(1,2), of cfg e mv]
  let ?d1 = "snd (cam_load_filter cfg e mv d)" and ?u = "new_update (LoadJob (Some e) mv)"
  have d1: "hydrated ?d1" "current ?d1 = Some (upd_slot (set_loaded error_title JNull) st)"
    "updater (world ?d1) = Some ?u"
    using h(2) by (simp_all add: one titled_def st)
  have refused: "\<exists>msg. fst (cam_load_filter cfg e' mv' ?d1) = Inl (ValueError msg)"
    using load_refused_eq [OF d1] by simp
  let ?d2 = "snd (protocol_open cfg c ?d1)"
  let ?w = "(world d)\<lparr>conns := [c], updater := Some ?u\<rparr>"
  have wu: "world_update f x = x\<lparr>world := f (world x)\<rparr>" for f and x :: cam_dev by (cases x) simp
  have cr: "client_register c (world ?d1) = ?w"
    using idle(2) by (simp add: one client_register_def titled_def st)
  have w: "world_update (client_register c) ?d1 = ?d1\<lparr>world := ?w\<rparr>"
    using wu [of "client_register c" "?d1"] unfolding cr .
  have "link_up ?w" by (simp add: link_up_def idle)
  then have d2: "?d2 = ?d1\<lparr>world := sent_all (JObj [(''SetUpdateInterval'', JNum (levels_interval cfg))])
      (sent_all (JStr ''GetMute'') (sent_all (JStr ''GetVolume'') (sent_all (JStr ''GetConfigJson'') ?w)))\<rparr>"
    by (simp add: protocol_open_def cam_on_open_def and_then_def modify_def w dsp_send_up)
  have up: "link_up (world ?d2)" "updater (world ?d2) = Some ?u" "conns (world ?d2) = [c]"
    using \<open>link_up ?w\<close> by (simp_all add: d2)
  have cur: "hydrated ?d2" "current ?d2 = Some (upd_slot (set_loaded error_title JNull) st)"
    using d1(1,2) by (simp_all add: d2)
  have mk: "create_cfg cfg (cu_job ?u) v = Inr new" using new by (simp add: create_cfg_def new_update_def)
  have "last (to_dsp (world (cam_on_message cfg (get_config_ok txt) ?d2))) = (c, JObj [(''SetConfigJson'', new)])"
    unfolding got_config_eq [OF cur up(2,1) v mk] using up(3) by (simp add: sent_all_def)
  then show ?thesis using refused d1(2) by (simp add: Let_def case_prod_unfold) (simp add: one upd_slot_def)
qed


section \<open>Examples\<close>

definition example_cfg :: cam_cfg where
  "example_cfg = \<lparr>cam_name = ''dsp'', beq_channels = [2], levels_interval = 100, cam_find = (\<lambda>_. Inr None),
     json_loads = Inr, payload_text = (\<lambda>_. ''NotFound''), cam_time = 0\<rparr>"

definition example_entry :: catalogue_entry where
  "example_entry = plain_entry ''film'' ''author'' []"

definition idle_dev :: cam_dev where
  "idle_dev = snd (run_cam example_cfg CamActivate (new_device NoFile new_cam_world))"

definition linked_dev :: cam_dev where
  "linked_dev = snd (protocol_open example_cfg 7 idle_dev)"

lemma idle_dev_history: "cam_history example_cfg idle_dev"
  unfolding idle_dev_def by (intro cam_history.intros)

lemma linked_dev_history: "cam_history example_cfg linked_dev"
  unfolding linked_dev_def by (intro cam_history.intros idle_dev_history)

lemma idle_dev_facts: "hydrated idle_dev" "world idle_dev = new_cam_world"
  by code_simp+

lemma linked_dev_facts: "hydrated linked_dev" "updater (world linked_dev) = None" "link_up (world linked_dev)"
  "conns (world linked_dev) = [7]"
  by code_simp+

lemma read_mixer: "read_gains [2] (JObj mixer_cfg) = Inr (Some (JList (initial_values [2] (JNum 0)), JList (initial_values [2] (JBool False))))"
  by code_simp

lemma example_new:
  "\<exists>new g m. create_cfg_for_entry (Some example_entry) (JObj mixer_cfg) [2] 5 False = Inr new
     \<and> read_gains [2] new = Inr (Some (g, m))"
proof -
  have "case create_cfg_for_entry (Some example_entry) (JObj mixer_cfg) [2] 5 False of
      Inl _ \<Rightarrow> False
    | Inr new \<Rightarrow> (case read_gains [2] new of Inr (Some _) \<Rightarrow> True | _ \<Rightarrow> False)" by code_simp
  then show ?thesis by (auto split: sum.splits option.splits)
qed

lemma read_mixer':
  "read_gains (beq_channels example_cfg) (JObj mixer_cfg)
     = Inr (Some (JList (initial_values [2] (JNum 0)), JList (initial_values [2] (JBool False))))"
  using read_mixer by (simp add: example_cfg_def)


definition busy_dev :: cam_dev where
  "busy_dev = snd (run_cam example_cfg (CamLoad example_entry 5) linked_dev)"

lemma busy_dev_history: "cam_history example_cfg busy_dev"
  unfolding busy_dev_def by (intro cam_history.intros linked_dev_history)

lemma busy_dev_facts:
  "hydrated busy_dev \<and> (\<exists>u. updater (world busy_dev) = Some u \<and> job_name (cu_job u) = ''film'')"
proof -
  have "hydrated busy_dev" "map_option (\<lambda>u. job_name (cu_job u)) (updater (world busy_dev)) = Some ''film''"
    by code_simp+
  then show ?thesis by auto
qed

theorem camilla_one_update_at_a_time_witness:
  "\<exists>d'. cam_load_filter example_cfg example_entry 0 busy_dev
     = (Inl (ValueError ''Unable to load BEQ, config update already in progress for film''), d')"
proof -
  obtain u where u: "updater (world busy_dev) = Some u" "job_name (cu_job u) = ''film''"
    using busy_dev_facts by blast
  from camilla_one_update_at_a_time [OF busy_dev_history _ u(1), of example_entry 0] u(2) busy_dev_facts
  show ?thesis by auto
qed

theorem camilla_load_round_witness:
  "\<exists>st d. current (cam_on_message example_cfg (set_config_result (JStr ''Ok''))
       (cam_on_message example_cfg (get_config_ok (JObj mixer_cfg)) d)) = Some st
     \<and> d = snd (cam_load_filter example_cfg example_entry 5 linked_dev)
     \<and> last_title (cam_slot_of st) = JStr ''film''"
proof -
  obtain new g m where new: "create_cfg_for_entry (Some example_entry) (JObj mixer_cfg) (beq_channels example_cfg) 5 False = Inr new"
    "read_gains (beq_channels example_cfg) new = Inr (Some (g, m))"
    using example_new by (auto simp: example_cfg_def)
  have load: "json_loads example_cfg (JObj mixer_cfg) = Inr (JObj mixer_cfg)" by (simp add: example_cfg_def)
  have "ce_formatted_title example_entry = ''film''" by (simp add: example_entry_def plain_entry_def)
  then show ?thesis
    using camilla_load_round [OF linked_dev_history linked_dev_facts(1-3) load read_mixer' new, of "JStr ''Ok''"]
    unfolding Let_def by (auto simp only: if_True simp_thms)
qed

theorem camilla_failed_load_applied_later_witness:
  "\<exists>msg d1. cam_load_filter example_cfg example_entry 5 idle_dev = (Inl (ValueError msg), d1)
     \<and> (\<exists>v. last (to_dsp (world (cam_on_message example_cfg (get_config_ok (JObj mixer_cfg))
            (snd (protocol_open example_cfg 7 d1))))) = (7, JObj [(''SetConfigJson'', v)]))"
proof -
  obtain new where new: "create_cfg_for_entry (Some example_entry) (JObj mixer_cfg) (beq_channels example_cfg) 5 False = Inr new"
    using example_new by (auto simp: example_cfg_def)
  have idle: "updater (world idle_dev) = None" "conns (world idle_dev) = []" "lost (world idle_dev) = []"
    by (simp_all add: idle_dev_facts new_cam_world_def)
  have load: "json_loads example_cfg (JObj mixer_cfg) = Inr (JObj mixer_cfg)" by (simp add: example_cfg_def)
  obtain res d1 where one: "cam_load_filter example_cfg example_entry 5 idle_dev = (res, d1)" by fastforce
  then show ?thesis
    using camilla_failed_load_applied_later [OF idle_dev_history idle_dev_facts(1) idle load read_mixer' new, of 7]
    unfolding Let_def one by auto
qed

end
