(* ===== verification/Catalogue_Rows.thy ===== *)
theory Catalogue_Rows
  imports Catalogue_Entry Json_Update "HOL-Library.Sublist"
begin

text \<open>
  The catalogue table of \<^verbatim>\<open>ezbeq/catalogue.py\<close>: the columns an entry is stored in
  (\<^verbatim>\<open>CatalogueEntry.values\<close>), how a row is read back (\<^verbatim>\<open>__fetch_entries\<close>), the search and lookup
  queries, and the load in chunks. A table is the list of its rows in the order of insertion, which is
  the order SQLite returns them in. Lemmas: a stored entry is read back as it was, a search finds
  exactly the entries that match, and the chunks deliver every entry once.
\<close>

section \<open>Columns\<close>

text \<open>The JSON text of a list of filters is the list itself.\<close>

datatype column = ColNull | ColText string | ColNum rat | ColFilters "beq_filter list"

definition col_option :: "string option \<Rightarrow> column" where
  "col_option v = (case v of None \<Rightarrow> ColNull | Some s \<Rightarrow> ColText s)"

definition other_text :: "catalogue_entry \<Rightarrow> string \<Rightarrow> column" where
  "other_text e k = ColText (dict_get (ce_other_texts e) k [])"

text \<open>\<^verbatim>\<open>CatalogueEntry.values\<close>, under the names of \<^verbatim>\<open>FIELDS\<close>\<close>

definition entry_values :: "catalogue_entry \<Rightarrow> (string, column) pydict" where
  "entry_values e =
     [(''id'', ColText (ce_id e)), (''title'', ColText (ce_title e)), (''year'', ColNum (of_int (ce_year e))),
      (''audioTypes'', ColText (format_list (ce_audio_types e))), (''content_type'', ColText (ce_content_type e)),
      (''author'', ColText (ce_author e)), (''catalogue_url'', ColText (ce_catalogue_url e)),
      (''filters'', ColFilters (ce_filters e)), (''images'', ColText (format_list (ce_images e))),
      (''warning'', ColText (format_list (ce_warning e))), (''season'', ColText (ce_season e)),
      (''episode'', ColText (ce_episodes e)), (''avs'', other_text e ''avs''),
      (''sortTitle'', other_text e ''sortTitle''), (''edition'', other_text e ''edition''),
      (''note'', other_text e ''note''), (''language'', other_text e ''language''),
      (''source'', other_text e ''source''), (''overview'', other_text e ''overview''),
      (''theMovieDB'', other_text e ''theMovieDB''), (''rating'', other_text e ''rating''),
      (''genres'', ColText (format_list (ce_genres e))), (''altTitle'', other_text e ''altTitle''),
      (''created_at'', ColNum (ce_created_at e)), (''updated_at'', ColNum (ce_updated_at e)),
      (''digest'', ColText (ce_digest e)), (''collection_id'', col_option (ce_collection_id e)),
      (''collection'', col_option (ce_collection_name e)), (''runtime'', ColNum (of_int (ce_runtime e))),
      (''mv'', ColNum (ce_mv_adjust e)), (''formattedTitle'', ColText (ce_formatted_title e)),
      (''audioCodecs'', ColText (format_list (ce_audio_codecs e))),
      (''audioChannelCounts'', ColText (format_list (ce_audio_channel_counts e)))]"

definition FIELDS :: "string list" where
  "FIELDS =
     [''id'', ''title'', ''year'', ''audioTypes'', ''content_type'', ''author'', ''catalogue_url'', ''filters'',
      ''images'', ''warning'', ''season'', ''episode'', ''avs'', ''sortTitle'', ''edition'', ''note'', ''language'',
      ''source'', ''overview'', ''theMovieDB'', ''rating'', ''genres'', ''altTitle'', ''created_at'', ''updated_at'',
      ''digest'', ''collection_id'', ''collection'', ''runtime'', ''mv'', ''formattedTitle'', ''audioCodecs'',
      ''audioChannelCounts'']"

definition LIST_FIELDS :: "string list" where
  "LIST_FIELDS = [''audioTypes'', ''images'', ''warning'', ''genres'', ''audioChannelCounts'', ''audioCodecs'']"

definition IGNORE_FIELDS :: "string list" where
  "IGNORE_FIELDS = [''filters'', ''digest'']"

definition UI_FIELDS :: "string list" where
  "UI_FIELDS = filter (\<lambda>f. f \<notin> set IGNORE_FIELDS) FIELDS"

lemma entry_values_keys: "keys (entry_values e) = FIELDS"
  by (simp add: entry_values_def FIELDS_def)

text \<open>A row: the columns of the entry, the version it belongs to and when it was loaded (milliseconds).\<close>

record db_row =
  dr_columns :: "(string, column) pydict"
  dr_version :: string
  dr_loaded_at :: int

definition column_of :: "db_row \<Rightarrow> string \<Rightarrow> column" where
  "column_of r f = dict_get (dr_columns r) f ColNull"

section \<open>Reading rows\<close>

datatype fetched = FText string | FNum rat | FList "string list" | FFilters "beq_filter list"

text \<open>\<^verbatim>\<open>reformat\<close> of \<^verbatim>\<open>__fetch_entries\<close>\<close>

fun reformat :: "string \<Rightarrow> column \<Rightarrow> fetched" where
  "reformat f (ColFilters fs) = FFilters fs"
| "reformat f (ColNum x) = FNum x"
| "reformat f ColNull = (if f \<in> set LIST_FIELDS then FList [] else FText [])"
| "reformat f (ColText s) = (if f \<in> set LIST_FIELDS then FList (fetch_list s) else FText s)"

fun fetched_truthy :: "fetched \<Rightarrow> bool" where
  "fetched_truthy (FText s) = (s \<noteq> [])"
| "fetched_truthy (FNum x) = (x \<noteq> 0)"
| "fetched_truthy (FList xs) = (xs \<noteq> [])"
| "fetched_truthy (FFilters fs) = (fs \<noteq> [])"

fun freshness_text :: "freshness \<Rightarrow> string" where
  "freshness_text Fresh = ''Fresh''"
| "freshness_text Updated = ''Updated''"
| "freshness_text Stale = ''Stale''"

definition copy_key :: "string \<Rightarrow> string \<Rightarrow> (string, fetched) pydict \<Rightarrow> (string, fetched) pydict" where
  "copy_key k k' d = (case map_of d k of None \<Rightarrow> d | Some v \<Rightarrow> dict_set d k' v)"

definition fetched_freshness :: "rat \<Rightarrow> (string, fetched) pydict \<Rightarrow> string" where
  "fetched_freshness now d =
     (case (map_of d ''created_at'', map_of d ''updated_at'') of
        (Some (FNum c), Some (FNum u)) \<Rightarrow> freshness_text (compute_freshness now c u)
      | _ \<Rightarrow> ''Unknown'')"

text \<open>One row: the values that are not empty, the freshness and the two names kept for old clients.\<close>

definition fetch_row :: "rat \<Rightarrow> string list \<Rightarrow> db_row \<Rightarrow> (string, fetched) pydict" where
  "fetch_row now names r =
     (let d = filter (\<lambda>kv. fetched_truthy (snd kv)) (map (\<lambda>f. (f, reformat f (column_of r f))) names);
          d' = dict_set d ''freshness'' (FText (fetched_freshness now d))
      in copy_key ''mv'' ''mvAdjust'' (copy_key ''content_type'' ''contentType'' d'))"

text \<open>
  \<^verbatim>\<open>LIMIT\<close> and \<^verbatim>\<open>OFFSET\<close> as \<^verbatim>\<open>__fetch_entries\<close> writes them, where zero is left out, and the size of the
  fetch. An offset without a limit is a syntax error.
\<close>

definition page :: "nat \<Rightarrow> nat \<Rightarrow> 'r list \<Rightarrow> exn + 'r list" where
  "page limit offset rows =
     (if limit = 0 then (if offset = 0 then Inr (take 20000 rows) else Inl (External ''near OFFSET: syntax error''))
      else Inr (take limit (drop offset rows)))"

definition fetch_entries ::
  "rat \<Rightarrow> db_row list \<Rightarrow> (db_row \<Rightarrow> bool) \<Rightarrow> string list \<Rightarrow> nat \<Rightarrow> nat \<Rightarrow> exn + (string, fetched) pydict list" where
  "fetch_entries now table where_clause names limit offset =
     rbind (page limit offset (filter where_clause table)) (\<lambda>rows. Inr (map (fetch_row now names) rows))"

section \<open>Finding one entry\<close>

text \<open>The fetched dictionary, given to the constructor of \<^verbatim>\<open>CatalogueEntry\<close>\<close>

definition texts_of :: "(string, fetched) pydict \<Rightarrow> (string, string) pydict" where
  "texts_of d = concat (map (\<lambda>(k, v). case v of FText s \<Rightarrow> [(k, s)] | _ \<Rightarrow> []) d)"

definition lists_of :: "(string, fetched) pydict \<Rightarrow> (string, raw_list) pydict" where
  "lists_of d = concat (map (\<lambda>(k, v). case v of FList xs \<Rightarrow> [(k, RList xs)] | _ \<Rightarrow> []) d)"

definition numbers_of :: "(string, fetched) pydict \<Rightarrow> (string, raw_number) pydict" where
  "numbers_of d = concat (map (\<lambda>(k, v). case v of FNum x \<Rightarrow> [(k, RNum x)] | _ \<Rightarrow> []) d)"

definition raw_of :: "(string, fetched) pydict \<Rightarrow> raw_entry" where
  "raw_of d =
     \<lparr>r_texts = texts_of d, r_lists = lists_of d, r_numbers = numbers_of d,
      r_filters = (case map_of d ''filters'' of Some (FFilters fs) \<Rightarrow> fs | _ \<Rightarrow> []),
      r_collection = (case map_of d ''collection'' of Some (FText n) \<Rightarrow> Some (CStr n) | _ \<Rightarrow> None)\<rparr>"

text \<open>\<^verbatim>\<open>__find\<close>: nothing is looked up while no catalogue is loaded; the version is not looked at.\<close>

definition find_by :: "rat \<Rightarrow> bool \<Rightarrow> db_row list \<Rightarrow> string \<Rightarrow> string \<Rightarrow> exn + catalogue_entry option" where
  "find_by now is_loaded table key v =
     (if \<not> is_loaded then Inr None
      else rbind (fetch_entries now table (\<lambda>r. column_of r key = ColText v) FIELDS 1 0) (\<lambda>rs.
        case rs of
          [] \<Rightarrow> Inr None
        | d # _ \<Rightarrow>
            (case map_of d ''id'' of
               Some (FText i) \<Rightarrow> rbind (CatalogueEntry now i (raw_of d)) (\<lambda>e. Inr (Some e))
             | _ \<Rightarrow> Inl (KeyError ''id''))))"

definition find_by_id :: "rat \<Rightarrow> bool \<Rightarrow> db_row list \<Rightarrow> string \<Rightarrow> exn + catalogue_entry option" where
  "find_by_id now is_loaded table v = find_by now is_loaded table ''id'' v"

definition find_by_digest :: "rat \<Rightarrow> bool \<Rightarrow> db_row list \<Rightarrow> string \<Rightarrow> exn + catalogue_entry option" where
  "find_by_digest now is_loaded table v = find_by now is_loaded table ''digest'' v"

text \<open>\<^verbatim>\<open>CatalogueProvider.find\<close>\<close>

definition provider_find ::
  "rat \<Rightarrow> bool \<Rightarrow> db_row list \<Rightarrow> string \<Rightarrow> bool option \<Rightarrow> exn + catalogue_entry option" where
  "provider_find now is_loaded table v match_on_idx =
     rbind (if match_on_idx = Some False then Inr None else find_by_id now is_loaded table v) (\<lambda>r.
       if r = None then find_by_digest now is_loaded table v else Inr r)"

section \<open>Searching\<close>

definition col_text :: "db_row \<Rightarrow> string \<Rightarrow> string option" where
  "col_text r f = (case column_of r f of ColText s \<Rightarrow> Some s | _ \<Rightarrow> None)"

definition col_num :: "db_row \<Rightarrow> string \<Rightarrow> rat option" where
  "col_num r f = (case column_of r f of ColNum x \<Rightarrow> Some x | _ \<Rightarrow> None)"

text \<open>\<^verbatim>\<open>s LIKE p\<close>: a percent sign is any text, an underscore any character, letters match in any case.\<close>

fun like :: "string \<Rightarrow> string \<Rightarrow> bool" where
  "like [] s = (s = [])"
| "like (p # ps) [] = (p = CHR ''%'' \<and> like ps [])"
| "like (p # ps) (c # cs) =
     (if p = CHR ''%'' then like ps (c # cs) \<or> like (p # ps) cs
      else (p = CHR ''_'' \<or> lower_char p = lower_char c) \<and> like ps cs)"

definition col_like :: "string \<Rightarrow> string option \<Rightarrow> bool" where
  "col_like p c = (case c of None \<Rightarrow> False | Some s \<Rightarrow> like p s)"

text \<open>
  The search form; the values are taken as the texts they are (one with a double quote, or one that is
  the name of a column, makes another query).
\<close>

record search_query =
  q_authors :: "string list"
  q_years :: "int list"
  q_audio_types :: "string list"
  q_content_types :: "string list"
  q_tmdb_id :: string
  q_text :: string
  q_audio_codecs :: "string list"
  q_audio_channel_counts :: "string list"

definition in_clause :: "string list \<Rightarrow> string \<Rightarrow> db_row \<Rightarrow> bool" where
  "in_clause vals f r \<longleftrightarrow> (\<exists>s \<in> set vals. col_text r f = Some s)"

definition list_clause :: "string list \<Rightarrow> string \<Rightarrow> db_row \<Rightarrow> bool" where
  "list_clause vals f r \<longleftrightarrow> (\<exists>v \<in> set vals. col_like (''%|'' @ v @ ''|%'') (col_text r f))"

definition text_clause :: "string \<Rightarrow> db_row \<Rightarrow> bool" where
  "text_clause t r \<longleftrightarrow>
     (\<exists>f \<in> {''formattedTitle'', ''altTitle'', ''collection''}.
        col_like (''%'' @ lower t @ ''%'') (map_option lower (col_text r f)))"

definition search_clause :: "string \<Rightarrow> search_query \<Rightarrow> db_row \<Rightarrow> bool" where
  "search_clause version q r \<longleftrightarrow>
     dr_version r = version
     \<and> (q_authors q \<noteq> [] \<longrightarrow> in_clause (q_authors q) ''author'' r)
     \<and> (q_years q \<noteq> [] \<longrightarrow> (\<exists>y \<in> set (q_years q). col_num r ''year'' = Some (of_int y)))
     \<and> (q_audio_types q \<noteq> [] \<longrightarrow> list_clause (q_audio_types q) ''audioTypes'' r)
     \<and> (q_content_types q \<noteq> [] \<longrightarrow> in_clause (q_content_types q) ''content_type'' r)
     \<and> (q_tmdb_id q \<noteq> [] \<longrightarrow> col_text r ''theMovieDB'' = Some (q_tmdb_id q))
     \<and> (q_text q \<noteq> [] \<longrightarrow> text_clause (q_text q) r)
     \<and> (q_audio_codecs q \<noteq> [] \<longrightarrow> list_clause (q_audio_codecs q) ''audioCodecs'' r)
     \<and> (q_audio_channel_counts q \<noteq> [] \<longrightarrow> list_clause (q_audio_channel_counts q) ''audioChannelCounts'' r)"

text \<open>\<^verbatim>\<open>search\<close>, in the latest version if a catalogue is loaded; no field names mean all of them.\<close>

definition search ::
  "rat \<Rightarrow> string option \<Rightarrow> db_row list \<Rightarrow> search_query \<Rightarrow> string list \<Rightarrow> nat \<Rightarrow> exn + (string, fetched) pydict list" where
  "search now latest_version table q names limit =
     (case latest_version of
        None \<Rightarrow> Inr []
      | Some version \<Rightarrow>
          if set names \<subseteq> set FIELDS
            then fetch_entries now table (search_clause version q) (if names = [] then FIELDS else names) limit 0
          else Inl (External ''no such column''))"

definition NEW_FIELDS :: "string list" where
  "NEW_FIELDS = [''id'', ''formattedTitle'', ''year'', ''author'', ''content_type'', ''audioTypes'', ''language'',
     ''created_at'', ''updated_at'']"

definition num_or_0 :: "db_row \<Rightarrow> string \<Rightarrow> rat" where
  "num_or_0 r f = (case col_num r f of None \<Rightarrow> 0 | Some x \<Rightarrow> x)"

definition whats_new ::
  "rat \<Rightarrow> string option \<Rightarrow> db_row list \<Rightarrow> rat \<Rightarrow> nat \<Rightarrow> exn + (string, fetched) pydict list" where
  "whats_new now latest_version table since limit =
     (case latest_version of
        None \<Rightarrow> Inr []
      | Some version \<Rightarrow>
          fetch_entries now
            (sort_key (\<lambda>r. - max (num_or_0 r ''created_at'') (num_or_0 r ''updated_at'')) table)
            (\<lambda>r. dr_version r = version
               \<and> (since \<le> num_or_0 r ''created_at'' \<or> since \<le> num_or_0 r ''updated_at''))
            NEW_FIELDS limit 0)"

section \<open>Loading in chunks\<close>

text \<open>\<^verbatim>\<open>Config.chunk_size\<close> and \<^verbatim>\<open>Config.first_chunk_size\<close>\<close>

definition chunk_size :: "int option \<Rightarrow> nat" where
  "chunk_size configured = nat (max (case configured of None \<Rightarrow> 4000 | Some n \<Rightarrow> n) 1)"

definition first_chunk_size :: "int option \<Rightarrow> int option \<Rightarrow> nat" where
  "first_chunk_size configured chunk =
     nat (max (case configured of None \<Rightarrow> int (chunk_size chunk) | Some n \<Rightarrow> n) 1)"

text \<open>
  \<^verbatim>\<open>__load_next_chunk\<close>: each chunk schedules the next, until the offset reaches the count. The result is
  what was published and the exception that ended the chain, if any; a chain that never ends is
  \<open>None\<close>.
\<close>

partial_function (option) load_chunks ::
  "nat \<Rightarrow> (nat \<Rightarrow> nat \<Rightarrow> exn + 'm) \<Rightarrow> nat \<Rightarrow> nat \<Rightarrow> nat \<Rightarrow> ('m list \<times> exn option) option" where
  "load_chunks chunk fetch count limit offset =
     (if count \<le> offset then Some ([], None)
      else (case fetch limit offset of
        Inl e \<Rightarrow> Some ([], Some e)
      | Inr msg \<Rightarrow>
          Option.bind (load_chunks chunk fetch count chunk (offset + limit))
            (\<lambda>r. Some (msg # fst r, snd r))))"

definition send_chunked_catalogue ::
  "rat \<Rightarrow> (string \<times> nat) option \<Rightarrow> db_row list \<Rightarrow> nat \<Rightarrow> nat \<Rightarrow> ((string, fetched) pydict list list \<times> exn option) option" where
  "send_chunked_catalogue now latest table first chunk =
     (case latest of
        None \<Rightarrow> Some ([], None)
      | Some (version, count) \<Rightarrow>
          load_chunks chunk (fetch_entries now table (\<lambda>r. dr_version r = version) UI_FIELDS) count first 0)"

section \<open>The chunks deliver everything once\<close>

lemma load_chunks_complete:
  assumes "0 < chunk" and "\<forall>limit offset. 0 < limit \<longrightarrow> fetch limit offset = Inr (f (take limit (drop offset rows)))"
    and "0 < limit"
  shows "\<exists>pages. load_chunks chunk fetch (length rows) limit offset = Some (map f pages, None)
    \<and> concat pages = drop offset rows \<and> (\<forall>p \<in> set pages. p \<noteq> [] \<and> length p \<le> max limit chunk)"
  using assms(3)
proof (induction "length rows - offset" arbitrary: limit offset rule: less_induct)
  case less
  show ?case
  proof (cases "length rows \<le> offset")
    case True
    then show ?thesis by (intro exI [of _ "[]"]) (simp add: load_chunks.simps)
  next
    case False
    have "length rows - (offset + limit) < length rows - offset" using False less.prems by simp
    from less.hyps [OF this assms(1)] obtain pages where
      pages: "load_chunks chunk fetch (length rows) chunk (offset + limit) = Some (map f pages, None)"
      "concat pages = drop (offset + limit) rows" "\<forall>p \<in> set pages. p \<noteq> [] \<and> length p \<le> max chunk chunk" by blast
    let ?pages = "take limit (drop offset rows) # pages"
    have "load_chunks chunk fetch (length rows) limit offset = Some (map f ?pages, None)"
      using False pages(1) less.prems assms(2) by (subst load_chunks.simps) simp
    moreover have "concat ?pages = drop offset rows"
      using pages(2) by (metis append_take_drop_id concat.simps(2) drop_drop add.commute)
    moreover have "\<forall>p \<in> set ?pages. p \<noteq> [] \<and> length p \<le> max limit chunk"
      using pages(3) False less.prems by auto
    ultimately show ?thesis by blast
  qed
qed

text \<open>Without a positive size the chain would never end.\<close>

definition stuck :: "nat \<Rightarrow> (nat \<Rightarrow> nat \<Rightarrow> exn + 'm) \<Rightarrow> nat \<Rightarrow> nat \<Rightarrow> nat \<Rightarrow> bool" where
  "stuck chunk fetch count limit offset \<longleftrightarrow>
     chunk = 0 \<and> limit = 0 \<and> offset < count \<and> (\<exists>m. fetch 0 offset = Inr m)"

lemma load_chunks_stuck:
  assumes "load_chunks chunk fetch count limit offset = Some r"
  shows "\<not> stuck chunk fetch count limit offset"
proof (rule load_chunks.raw_induct
    [where P = "\<lambda>chunk fetch count limit offset r. \<not> stuck chunk fetch count limit offset", OF _ assms])
  fix rec :: "nat \<Rightarrow> (nat \<Rightarrow> nat \<Rightarrow> exn + 'm) \<Rightarrow> nat \<Rightarrow> nat \<Rightarrow> nat \<Rightarrow> ('m list \<times> exn option) option"
    and chunk fetch count limit offset r
  assume IH: "\<And>chunk fetch count limit offset r. rec chunk fetch count limit offset = Some r
      \<Longrightarrow> \<not> stuck chunk fetch count limit offset"
    and step: "(if count \<le> offset then Some ([], None)
      else (case fetch limit offset of
        Inl e \<Rightarrow> Some ([], Some e)
      | Inr msg \<Rightarrow> Option.bind (rec chunk fetch count chunk (offset + limit)) (\<lambda>r. Some (msg # fst r, snd r)))) = Some r"
  show "\<not> stuck chunk fetch count limit offset"
  proof
    assume s: "stuck chunk fetch count limit offset"
    then obtain m where "fetch limit offset = Inr m" by (auto simp: stuck_def)
    with step s obtain x where "rec chunk fetch count chunk (offset + limit) = Some x"
      by (auto simp: stuck_def bind_eq_Some_conv)
    moreover have "stuck chunk fetch count chunk (offset + limit)" using s unfolding stuck_def by auto
    ultimately show False using IH by blast
  qed
qed

lemma chunk_sizes_positive [simp]: "0 < chunk_size c" "0 < first_chunk_size f c"
  by (auto simp: chunk_size_def first_chunk_size_def split: option.split)

lemma send_chunked_pages:
  assumes "0 < first" "0 < chunk" "rows = filter (\<lambda>r. dr_version r = version) table"
  shows "\<exists>pages. send_chunked_catalogue now (Some (version, length rows)) table first chunk = Some (pages, None)
    \<and> concat pages = map (fetch_row now UI_FIELDS) rows \<and> (\<forall>p \<in> set pages. p \<noteq> [] \<and> length p \<le> max first chunk)"
proof -
  let ?fetch = "fetch_entries now table (\<lambda>r. dr_version r = version) UI_FIELDS"
  have f: "\<forall>limit offset. 0 < limit \<longrightarrow> ?fetch limit offset = Inr (map (fetch_row now UI_FIELDS) (take limit (drop offset rows)))"
    by (simp add: fetch_entries_def page_def assms(3))
  note * = load_chunks_complete [OF assms(2) f assms(1), of 0]
  obtain pages where pages:
    "load_chunks chunk ?fetch (length rows) first 0 = Some (map (map (fetch_row now UI_FIELDS)) pages, None)"
    "concat pages = drop 0 rows" "\<forall>p \<in> set pages. p \<noteq> [] \<and> length p \<le> max first chunk"
    using * by (elim exE conjE) (rule that; assumption)
  have "concat (map (map (fetch_row now UI_FIELDS)) pages) = map (fetch_row now UI_FIELDS) rows"
    using pages(2) by (simp flip: map_concat)
  then show ?thesis
    using pages(1,3)
    by (intro conjI exI [of _ "map (map (fetch_row now UI_FIELDS)) pages"]) (auto simp: send_chunked_catalogue_def)
qed

text \<open>
  Claim C27. The load of the catalogue in chunks ends for every configuration: the pages published are not
  empty, none is longer than the larger of the two sizes, and one after the other they hold every row of the version once, in
  order. The lower bound that the configuration puts on the sizes is needed: with both sizes zero
  the same code would never end.
\<close>

theorem chunked_load_complete:
  assumes rows_def: "rows = filter (\<lambda>r. dr_version r = version) table"
  shows "(\<exists>pages. send_chunked_catalogue now (Some (version, length rows)) table
          (first_chunk_size first chunk) (chunk_size chunk) = Some (pages, None)
        \<and> concat pages = map (fetch_row now UI_FIELDS) rows
        \<and> (\<forall>p \<in> set pages. p \<noteq> [] \<and> length p \<le> max (first_chunk_size first chunk) (chunk_size chunk)))
    \<and> (rows \<noteq> [] \<longrightarrow> send_chunked_catalogue now (Some (version, length rows)) table 0 0 = None)"
proof -
  have "send_chunked_catalogue now (Some (version, length rows)) table 0 0 = None" if "rows \<noteq> []"
  proof (cases "load_chunks 0 (fetch_entries now table (\<lambda>r. dr_version r = version) UI_FIELDS) (length rows) 0 0")
    case (Some r)
    have "stuck 0 (fetch_entries now table (\<lambda>r. dr_version r = version) UI_FIELDS) (length rows) 0 0"
      using that by (simp add: stuck_def fetch_entries_def page_def)
    with load_chunks_stuck [OF Some] show ?thesis by contradiction
  qed (simp add: send_chunked_catalogue_def)
  with send_chunked_pages [OF chunk_sizes_positive(2,1) rows_def] show ?thesis by blast
qed

section \<open>A stored entry is found again\<close>

text \<open>A row that holds an entry.\<close>

definition row_for :: "catalogue_entry \<Rightarrow> string \<Rightarrow> int \<Rightarrow> db_row" where
  "row_for e version at_ms = \<lparr>dr_columns = entry_values e, dr_version = version, dr_loaded_at = at_ms\<rparr>"

text \<open>
  What an entry needs to survive: an id, a content type, list items a column can hold, a collection
  without empty texts, and the derived title and texts as the constructor made them.
\<close>

definition storable :: "catalogue_entry \<Rightarrow> bool" where
  "storable e \<longleftrightarrow>
     ce_id e \<noteq> [] \<and> ce_content_type e \<noteq> []
     \<and> (\<forall>x \<in> set (ce_audio_types e @ ce_audio_codecs e @ ce_audio_channel_counts e @ ce_images e @ ce_warning e
          @ ce_genres e). list_item x)
     \<and> keys (ce_other_texts e) = other_text_keys
     \<and> ce_collection_name e \<noteq> Some [] \<and> ce_collection_id e \<noteq> Some []
     \<and> (ce_collection_name e = None \<longrightarrow> ce_collection_id e = None)
     \<and> format_title (ce_content_type e) (ce_title e) (ce_season e) (ce_episodes e) = Inr (ce_formatted_title e)"

lemma map_of_fetched:
  "distinct names \<Longrightarrow> map_of (filter (\<lambda>kv. fetched_truthy (snd kv)) (map (\<lambda>f. (f, g f)) names)) k
     = (if k \<in> set names \<and> fetched_truthy (g k) then Some (g k) else None)"
  by (induction names) (auto simp: map_of_eq_None_iff)

lemma map_of_copy_key: "k' \<noteq> k \<Longrightarrow> map_of (copy_key j k' d) k = map_of d k"
  by (simp add: copy_key_def split: option.split)

lemma distinct_FIELDS [simp]: "distinct FIELDS"
  by (simp add: FIELDS_def)

lemma map_of_fetch_row:
  assumes "k \<in> set FIELDS"
  shows "map_of (fetch_row now FIELDS r) k =
    (let v = reformat k (column_of r k) in if fetched_truthy v then Some v else None)"
proof -
  have "k \<noteq> ''freshness''" "k \<noteq> ''contentType''" "k \<noteq> ''mvAdjust''" using assms by (auto simp: FIELDS_def)
  then show ?thesis
    using assms by (simp add: fetch_row_def Let_def map_of_copy_key map_of_fetched)
qed

lemma map_of_select:
  assumes "distinct (keys d)"
  shows "map_of (concat (map (\<lambda>(k, v). case h v of None \<Rightarrow> [] | Some x \<Rightarrow> [(k, x)]) d)) k = Option.bind (map_of d k) h"
  using assms
proof (induction d arbitrary: k)
  case (Cons p d)
  have "map_of (concat (map (\<lambda>(k, v). case h v of None \<Rightarrow> [] | Some x \<Rightarrow> [(k, x)]) d)) (fst p) = None"
  proof -
    have "map_of d (fst p) = None" using Cons.prems by (simp add: map_of_eq_None_iff)
    then show ?thesis using Cons by simp
  qed
  then show ?case using Cons by (cases p) (auto simp: map_add_def split: option.split)
qed simp

lemma distinct_fetch_row: "distinct (keys (fetch_row now FIELDS r))"
proof -
  have "distinct (keys (filter (\<lambda>kv. fetched_truthy (snd kv)) (map (\<lambda>f. (f, g f)) names)))" if "distinct names" for g names
    using that by (induction names) auto
  from this [OF distinct_FIELDS] show ?thesis
    by (auto simp: fetch_row_def Let_def copy_key_def split: option.split)
qed

text \<open>The raw entry of a fetched row, key by key.\<close>

lemma raw_texts: "map_of (texts_of (fetch_row now FIELDS r)) k =
    (case map_of (fetch_row now FIELDS r) k of Some (FText s) \<Rightarrow> Some s | _ \<Rightarrow> None)"
proof -
  have "texts_of d = concat (map (\<lambda>(k, v). case (case v of FText s \<Rightarrow> Some s | _ \<Rightarrow> None) of None \<Rightarrow> [] | Some x \<Rightarrow> [(k, x)]) d)" for d
    unfolding texts_of_def by (intro arg_cong [where f = concat] map_cong refl) (auto split: fetched.split)
  then show ?thesis
    by (simp add: map_of_select [OF distinct_fetch_row] split: option.split fetched.split)
qed

lemma raw_lists: "map_of (lists_of (fetch_row now FIELDS r)) k =
    (case map_of (fetch_row now FIELDS r) k of Some (FList s) \<Rightarrow> Some (RList s) | _ \<Rightarrow> None)"
proof -
  have "lists_of d = concat (map (\<lambda>(k, v). case (case v of FList s \<Rightarrow> Some (RList s) | _ \<Rightarrow> None) of None \<Rightarrow> [] | Some x \<Rightarrow> [(k, x)]) d)" for d
    unfolding lists_of_def by (intro arg_cong [where f = concat] map_cong refl) (auto split: fetched.split)
  then show ?thesis
    by (simp add: map_of_select [OF distinct_fetch_row] split: option.split fetched.split)
qed

lemma raw_numbers: "map_of (numbers_of (fetch_row now FIELDS r)) k =
    (case map_of (fetch_row now FIELDS r) k of Some (FNum s) \<Rightarrow> Some (RNum s) | _ \<Rightarrow> None)"
proof -
  have "numbers_of d = concat (map (\<lambda>(k, v). case (case v of FNum s \<Rightarrow> Some (RNum s) | _ \<Rightarrow> None) of None \<Rightarrow> [] | Some x \<Rightarrow> [(k, x)]) d)" for d
    unfolding numbers_of_def by (intro arg_cong [where f = concat] map_cong refl) (auto split: fetched.split)
  then show ?thesis
    by (simp add: map_of_select [OF distinct_fetch_row] split: option.split fetched.split)
qed

text \<open>A field of the entry comes back as its default exactly when it was stored as its default.\<close>

lemma stored_text:
  assumes "k \<in> set FIELDS" "k \<notin> set LIST_FIELDS" "column_of r k = ColText s"
  shows "dict_get (texts_of (fetch_row now FIELDS r)) k d = (if s = [] then d else s)"
  using assms by (simp add: dict_get_def raw_texts map_of_fetch_row Let_def)

lemma stored_list:
  assumes "k \<in> set LIST_FIELDS" "column_of r k = ColText (format_list xs)" "\<forall>x \<in> set xs. list_item x"
  shows "split_list (dict_get (lists_of (fetch_row now FIELDS r)) k (RList [])) = xs"
proof -
  have "k \<in> set FIELDS" using assms(1) by (auto simp: FIELDS_def LIST_FIELDS_def)
  then show ?thesis
    using assms by (simp add: dict_get_def raw_lists map_of_fetch_row Let_def list_column)
qed

lemma stored_num:
  assumes "k \<in> set FIELDS" "column_of r k = ColNum x"
  shows "map_of (numbers_of (fetch_row now FIELDS r)) k = (if x = 0 then None else Some (RNum x))"
  using assms by (simp add: raw_numbers map_of_fetch_row Let_def)

lemma num_defaults:
  "int_or_zero (if (of_int i :: rat) = 0 then None else Some (RNum (of_int i))) = i"
  "float_or_zero (if x = 0 then None else Some (RNum x)) = x"
  "number_or_zero (if x = 0 then None else Some (RNum x)) = x"
  by (simp_all add: int_or_zero_def float_or_zero_def number_or_zero_def trunc_def)

lemma column_of_row_for:
  "column_of (row_for e v t) f = dict_get (entry_values e) f ColNull"
  by (simp add: column_of_def row_for_def)

lemma map_dict_get_keys: "distinct (keys d) \<Longrightarrow> map (\<lambda>k. (k, dict_get d k v)) (keys d) = d"
  unfolding map_map by (rule map_idI) (auto simp: dict_get_def)

lemma other_columns:
  assumes "k \<in> set other_text_keys"
  shows "k \<in> set FIELDS - set LIST_FIELDS \<and> map_of (entry_values e) k = Some (other_text e k)"
proof -
  have "list_all (\<lambda>k. k \<in> set FIELDS - set LIST_FIELDS \<and> map_of (entry_values e) k = Some (other_text e k)) other_text_keys"
    unfolding other_text_keys_def list.pred_inject by (intro conjI TrueI) (simp_all add: FIELDS_def LIST_FIELDS_def entry_values_def)
  with assms show ?thesis by (simp add: list_all_iff)
qed

lemma stored_entry_rebuilt:
  assumes "storable e"
  shows "CatalogueEntry now (ce_id e) (raw_of (fetch_row now FIELDS (row_for e v t))) =
    Inr (e\<lparr>ce_freshness := compute_freshness now (ce_created_at e) (ce_updated_at e)\<rparr>)"
proof -
  let ?r = "row_for e v t" and ?d = "fetch_row now FIELDS (row_for e v t)"
  have col: "column_of ?r k = c" if "map_of (entry_values e) k = Some c" for k c
    using that by (simp add: column_of_row_for dict_get_def)
  have stored: "text_or (raw_of ?d) k d = s"
    if "k \<in> set FIELDS - set LIST_FIELDS" "map_of (entry_values e) k = Some (ColText s)" "s = [] \<longrightarrow> d = []" for k s d
    using stored_text [of k ?r s now d] col [OF that(2)] that by (auto simp: text_or_def raw_of_def)
  have lists: "list_of (raw_of ?d) k = xs"
    if "k \<in> set LIST_FIELDS" "map_of (entry_values e) k = Some (ColText (format_list xs))" "\<forall>x \<in> set xs. list_item x" for k xs
    using stored_list [OF that(1) col [OF that(2)] that(3)] by (simp add: list_of_def raw_of_def)
  have nums: "map_of (r_numbers (raw_of ?d)) k = (if x = 0 then None else Some (RNum x))"
    if "k \<in> set FIELDS" "map_of (entry_values e) k = Some (ColNum x)" for k x
    using stored_num [OF that(1) col [OF that(2)]] by (simp add: raw_of_def)
  have opts: "map_of ?d k = map_option FText x"
    if "k \<in> set FIELDS - set LIST_FIELDS" "map_of (entry_values e) k = Some (col_option x)" "x \<noteq> Some []" for k x
    using col [OF that(2)] that(1,3) by (cases x) (simp_all add: map_of_fetch_row col_option_def)
  note mem = FIELDS_def LIST_FIELDS_def entry_values_def
  have t: "text_or (raw_of ?d) ''title'' [] = ce_title e" "text_or (raw_of ?d) ''season'' [] = ce_season e"
    "text_or (raw_of ?d) ''episode'' [] = ce_episodes e" "text_or (raw_of ?d) ''author'' [] = ce_author e"
    "text_or (raw_of ?d) ''catalogue_url'' [] = ce_catalogue_url e" "text_or (raw_of ?d) ''digest'' [] = ce_digest e"
    by (rule stored; simp add: mem)+
  have ct: "text_or (raw_of ?d) ''content_type'' ''film'' = ce_content_type e"
    by (rule stored) (use assms in \<open>simp_all add: mem storable_def\<close>)
  have li: "\<forall>x \<in> set xs. list_item x"
    if "set xs \<subseteq> set (ce_audio_types e @ ce_audio_codecs e @ ce_audio_channel_counts e @ ce_images e @ ce_warning e
          @ ce_genres e)" for xs
    using assms that unfolding storable_def by blast
  have l: "list_of (raw_of ?d) ''audioTypes'' = ce_audio_types e" "list_of (raw_of ?d) ''audioCodecs'' = ce_audio_codecs e"
    "list_of (raw_of ?d) ''audioChannelCounts'' = ce_audio_channel_counts e" "list_of (raw_of ?d) ''images'' = ce_images e"
    "list_of (raw_of ?d) ''warning'' = ce_warning e" "list_of (raw_of ?d) ''genres'' = ce_genres e"
    by (rule lists; (rule li)?; auto simp: mem)+
  have o: "map (\<lambda>k. (k, text_or (raw_of ?d) k [])) other_text_keys = ce_other_texts e"
  proof -
    have "text_or (raw_of ?d) k [] = dict_get (ce_other_texts e) k []" if "k \<in> set other_text_keys" for k
      using other_columns [OF that, of e] by (intro stored) (simp_all add: other_text_def)
    then have "map (\<lambda>k. (k, text_or (raw_of ?d) k [])) other_text_keys
        = map (\<lambda>k. (k, dict_get (ce_other_texts e) k [])) (keys (ce_other_texts e))"
      using assms by (simp add: storable_def)
    also have "\<dots> = ce_other_texts e"
    proof -
      have "distinct (keys (ce_other_texts e))" using assms by (simp add: storable_def other_text_keys_def)
      then show ?thesis by (rule map_dict_get_keys)
    qed
    finally show ?thesis .
  qed
  have n: "map_of (r_numbers (raw_of ?d)) ''year'' = (if (of_int (ce_year e) :: rat) = 0 then None else Some (RNum (of_int (ce_year e))))"
    "map_of (r_numbers (raw_of ?d)) ''runtime'' = (if (of_int (ce_runtime e) :: rat) = 0 then None else Some (RNum (of_int (ce_runtime e))))"
    "map_of (r_numbers (raw_of ?d)) ''created_at'' = (if ce_created_at e = 0 then None else Some (RNum (ce_created_at e)))"
    "map_of (r_numbers (raw_of ?d)) ''updated_at'' = (if ce_updated_at e = 0 then None else Some (RNum (ce_updated_at e)))"
    "map_of (r_numbers (raw_of ?d)) ''mv'' = (if ce_mv_adjust e = 0 then None else Some (RNum (ce_mv_adjust e)))"
    by (rule nums; simp add: mem)+
  have c: "map_of ?d ''collection'' = map_option FText (ce_collection_name e)"
    "map_of ?d ''collection_id'' = map_option FText (ce_collection_id e)"
    by (rule opts; use assms in \<open>simp add: mem storable_def\<close>)+
  have f: "r_filters (raw_of ?d) = ce_filters e"
  proof -
    have "''filters'' \<in> set FIELDS" "column_of ?r ''filters'' = ColFilters (ce_filters e)"
      using col [of "''filters''" "ColFilters (ce_filters e)"] by (simp_all add: mem)
    then show ?thesis by (simp add: raw_of_def map_of_fetch_row)
  qed
  have ci: "map_of (r_texts (raw_of ?d)) ''collection_id'' = ce_collection_id e"
    using c(2) by (simp add: raw_of_def raw_texts split: option.split)
  have cn: "r_collection (raw_of ?d) = map_option CStr (ce_collection_name e)"
    using c(1) by (simp add: raw_of_def split: option.split)
  have n': "int_or_zero (map_of (r_numbers (raw_of ?d)) ''year'') = ce_year e"
    "int_or_zero (map_of (r_numbers (raw_of ?d)) ''runtime'') = ce_runtime e"
    "number_or_zero (map_of (r_numbers (raw_of ?d)) ''created_at'') = ce_created_at e"
    "number_or_zero (map_of (r_numbers (raw_of ?d)) ''updated_at'') = ce_updated_at e"
    "float_or_zero (map_of (r_numbers (raw_of ?d)) ''mv'') = ce_mv_adjust e"
    by (simp_all only: n num_defaults)
  have ft: "format_title (ce_content_type e) (ce_title e) (ce_season e) (ce_episodes e) = Inr (ce_formatted_title e)"
    and cc: "ce_collection_name e = None \<longrightarrow> ce_collection_id e = None"
    using assms by (simp_all add: storable_def)
  have coll: "(case r_collection (raw_of ?d) of None \<Rightarrow> None | Some (CObj i n) \<Rightarrow> i
      | Some (CStr n) \<Rightarrow> map_of (r_texts (raw_of ?d)) ''collection_id'') = ce_collection_id e"
    "(case r_collection (raw_of ?d) of None \<Rightarrow> None | Some (CObj i n) \<Rightarrow> n | Some (CStr n) \<Rightarrow> Some n) = ce_collection_name e"
    using cc by (auto simp: cn ci split: option.split)
  show ?thesis
    unfolding CatalogueEntry_def Let_def t ct ft n' l o f coll sum.case
    by (intro arg_cong [where f = Inr] catalogue_entry.equality) simp_all
qed


section \<open>A search finds what matches\<close>

lemma lower_char_code: "65 \<le> (of_char c :: nat) \<and> (of_char c :: nat) \<le> 90 \<Longrightarrow> of_char (lower_char c) = (of_char c :: nat) + 32"
  by (simp add: lower_char_def)

lemma lower_char_idem [simp]: "lower_char (lower_char c) = lower_char c"
proof (cases "65 \<le> (of_char c :: nat) \<and> (of_char c :: nat) \<le> 90")
  case True
  from lower_char_code [OF this] True show ?thesis by (simp add: lower_char_def [of "lower_char c"])
next
  case False
  then have "lower_char c = c" by (auto simp: lower_char_def)
  then show ?thesis by simp
qed

lemma lower_char_same:
  assumes "\<not> (65 \<le> (of_char d :: nat) \<and> (of_char d :: nat) \<le> 90)" "\<not> (97 \<le> (of_char d :: nat) \<and> (of_char d :: nat) \<le> 122)"
  shows "lower_char c = d \<longleftrightarrow> c = d"
proof
  assume l: "lower_char c = d"
  show "c = d"
  proof (cases "65 \<le> (of_char c :: nat) \<and> (of_char c :: nat) \<le> 90")
    case True
    from lower_char_code [OF this] l True assms(2) show ?thesis by simp
  next
    case False
    then have "lower_char c = c" by (auto simp: lower_char_def)
    with l show ?thesis by simp
  qed
qed (use assms(1) in \<open>auto simp: lower_char_def\<close>)

lemma lower_char_plain [simp]:
  "lower_char c = CHR ''|'' \<longleftrightarrow> c = CHR ''|''" "lower_char c = CHR ''%'' \<longleftrightarrow> c = CHR ''%''"
  "lower_char c = CHR ''_'' \<longleftrightarrow> c = CHR ''_''"
  by (rule lower_char_same; simp)+

lemma lower_simps [simp]:
  "lower [] = []" "lower (c # s) = lower_char c # lower s" "lower (s @ t) = lower s @ lower t" "lower (lower s) = lower s"
  by (simp_all add: lower_def)

lemma lower_append_iff: "lower s = a @ b \<longleftrightarrow> (\<exists>a' b'. s = a' @ b' \<and> lower a' = a \<and> lower b' = b)"
  by (auto simp: lower_def map_eq_append_conv)

lemma like_percent: "like (CHR ''%'' # p) s \<longleftrightarrow> (\<exists>a b. s = a @ b \<and> like p b)"
proof (induction s)
  case (Cons c s)
  have "(\<exists>a b. c # s = a @ b \<and> like p b) \<longleftrightarrow> like p (c # s) \<or> (\<exists>a b. s = a @ b \<and> like p b)"
    by (metis append_Cons append_Nil list.exhaust list.inject)
  with Cons show ?case by simp
qed simp

definition no_wildcard :: "string \<Rightarrow> bool" where
  "no_wildcard v \<longleftrightarrow> CHR ''%'' \<notin> set v \<and> CHR ''_'' \<notin> set v"

lemma like_plain: "no_wildcard v \<Longrightarrow> like (v @ p) s \<longleftrightarrow> (\<exists>a b. s = a @ b \<and> lower a = lower v \<and> like p b)"
proof (induction v arbitrary: s)
  case Nil
  then show ?case by (simp add: lower_def)
next
  case (Cons c v)
  then have v: "no_wildcard v" "c \<noteq> CHR ''%''" "c \<noteq> CHR ''_''" by (auto simp: no_wildcard_def)
  show ?case
  proof (cases s)
    case Nil
    then show ?thesis using v by simp
  next
    case (Cons d ds)
    have "(\<exists>a b. d # ds = a @ b \<and> lower a = lower (c # v) \<and> like p b)
        \<longleftrightarrow> lower_char c = lower_char d \<and> (\<exists>a b. ds = a @ b \<and> lower a = lower v \<and> like p b)"
    proof
      assume "\<exists>a b. d # ds = a @ b \<and> lower a = lower (c # v) \<and> like p b"
      then obtain a b where ab: "d # ds = a @ b" "lower a = lower (c # v)" "like p b" by blast
      then show "lower_char c = lower_char d \<and> (\<exists>a b. ds = a @ b \<and> lower a = lower v \<and> like p b)"
        by (cases a) auto
    next
      assume "lower_char c = lower_char d \<and> (\<exists>a b. ds = a @ b \<and> lower a = lower v \<and> like p b)"
      then obtain a b where "lower_char c = lower_char d" "ds = a @ b" "lower a = lower v" "like p b" by blast
      then show "\<exists>a b. d # ds = a @ b \<and> lower a = lower (c # v) \<and> like p b"
        by (intro exI [of _ "d # a"] exI [of _ b]) simp
    qed
    then show ?thesis using Cons v Cons.IH [OF v(1), of ds] by simp
  qed
qed

lemma like_infix:
  assumes "no_wildcard v"
  shows "like (''%'' @ v @ ''%'') s \<longleftrightarrow> (\<exists>a m b. s = a @ m @ b \<and> lower m = lower v)"
proof -
  have "like ''%'' b" for b by (induction b) simp_all
  then show ?thesis by (auto simp: like_percent like_plain [OF assms])
qed

lemma lower_bar: "lower ''|'' = ''|''"
  by (simp add: lower_def lower_char_def)

lemma like_bars:
  assumes "no_wildcard v"
  shows "like (''%|'' @ v @ ''|%'') s \<longleftrightarrow> (\<exists>a m b. s = a @ CHR ''|'' # m @ CHR ''|'' # b \<and> lower m = lower v)"
proof -
  have w: "no_wildcard (''|'' @ v @ ''|'')" using assms by (simp add: no_wildcard_def)
  have "lower m' = lower (''|'' @ v @ ''|'') \<longleftrightarrow> (\<exists>m. m' = CHR ''|'' # m @ ''|'' \<and> lower m = lower v)" for m'
  proof
    assume "lower m' = lower (''|'' @ v @ ''|'')"
    then have "lower m' = ''|'' @ (lower v @ ''|'')" using lower_bar by simp
    then obtain a mb where a: "m' = a @ mb" "lower a = ''|''" "lower mb = lower v @ ''|''"
      unfolding lower_append_iff by blast
    from a(3) obtain m b where m: "mb = m @ b" "lower m = lower v" "lower b = ''|''"
      unfolding lower_append_iff by blast
    have m': "m' = a @ m @ b" using a(1) m(1) by simp
    note b = a(2) m(3)
    then have "a = ''|''" "b = ''|''" by (auto simp: lower_def map_eq_Cons_conv)
    with m' m(2) show "\<exists>m. m' = CHR ''|'' # m @ ''|'' \<and> lower m = lower v" by (intro exI [of _ m]) simp
  qed (elim exE conjE; simp)
  then have "(\<exists>a m' b. s = a @ m' @ b \<and> lower m' = lower (''|'' @ v @ ''|''))
      \<longleftrightarrow> (\<exists>a m b. s = a @ CHR ''|'' # m @ CHR ''|'' # b \<and> lower m = lower v)"
    by (simp only:) (metis append_Cons append_Nil append_assoc)
  moreover have "''%'' @ (''|'' @ v @ ''|'') @ ''%'' = ''%|'' @ v @ ''|%''" by simp
  ultimately show ?thesis using like_infix [OF w, of s] by (simp only:)
qed

text \<open>A column of list items holds a text between two bars exactly when it is one of the items.\<close>

definition bars :: "string list \<Rightarrow> string" where
  "bars xs = concat (map (\<lambda>x. CHR ''|'' # x) xs) @ ''|''"

lemma bars_simps [simp]: "bars [] = ''|''" "bars (x # xs) = CHR ''|'' # x @ bars xs"
  by (simp_all add: bars_def)

lemma format_list_bars: "xs \<noteq> [] \<Longrightarrow> format_list xs = bars xs"
proof -
  have "CHR ''|'' # join ''|'' xs @ ''|'' = bars xs" if "xs \<noteq> []"
    using that by (induction xs rule: induct_list012) auto
  then show "xs \<noteq> [] \<Longrightarrow> format_list xs = bars xs" by (simp add: format_list_def)
qed

lemma bar_free_head:
  assumes "CHR ''|'' \<notin> set x" "CHR ''|'' \<notin> set m" "x @ CHR ''|'' # r = m @ CHR ''|'' # b"
  shows "x = m"
proof -
  have "takeWhile (\<lambda>c. c \<noteq> CHR ''|'') (x @ CHR ''|'' # r) = x" "takeWhile (\<lambda>c. c \<noteq> CHR ''|'') (m @ CHR ''|'' # b) = m"
    using assms(1,2) by (auto simp: takeWhile_append)
  then show ?thesis using assms(3) by simp
qed

lemma bars_head: "\<exists>r. bars xs = CHR ''|'' # r"
  by (cases xs) simp_all

lemma bars_infix:
  assumes "\<forall>x \<in> set xs. CHR ''|'' \<notin> set x" "CHR ''|'' \<notin> set m"
  shows "(\<exists>a b. bars xs = a @ CHR ''|'' # m @ CHR ''|'' # b) \<longleftrightarrow> m \<in> set xs"
  using assms(1)
proof (induction xs)
  case Nil
  show ?case by (auto simp: Cons_eq_append_conv)
next
  case (Cons x xs)
  then have x: "CHR ''|'' \<notin> set x" and xs: "\<forall>x \<in> set xs. CHR ''|'' \<notin> set x" by simp_all
  obtain r where r: "bars xs = CHR ''|'' # r" using bars_head by blast
  have step: "(\<exists>b. x @ bars xs = m @ CHR ''|'' # b) \<longleftrightarrow> m = x"
    using bar_free_head [OF x assms(2)] r by auto
  have rest: "(\<exists>a b. x @ bars xs = a @ CHR ''|'' # m @ CHR ''|'' # b)
      \<longleftrightarrow> (\<exists>a b. bars xs = a @ CHR ''|'' # m @ CHR ''|'' # b)" (is "?L \<longleftrightarrow> ?R")
  proof
    assume ?L
    then obtain a b where ab: "x @ bars xs = a @ CHR ''|'' # m @ CHR ''|'' # b" by blast
    then consider us where "x = a @ us" "us @ bars xs = CHR ''|'' # m @ CHR ''|'' # b"
      | us where "bars xs = us @ CHR ''|'' # m @ CHR ''|'' # b"
      by (auto simp: append_eq_append_conv2)
    then show ?R
    proof cases
      case 1
      then have "us = []" using x by (cases us) auto
      with 1(2) show ?thesis by (intro exI [of _ "[]"] exI [of _ b]) simp
    qed blast
  next
    assume ?R
    then obtain a b where "bars xs = a @ CHR ''|'' # m @ CHR ''|'' # b" by blast
    then show ?L by (intro exI [of _ "x @ a"] exI [of _ b]) simp
  qed
  have "(\<exists>a b. bars (x # xs) = a @ CHR ''|'' # m @ CHR ''|'' # b)
      \<longleftrightarrow> (\<exists>b. x @ bars xs = m @ CHR ''|'' # b) \<or> (\<exists>a b. x @ bars xs = a @ CHR ''|'' # m @ CHR ''|'' # b)"
    by (auto simp: Cons_eq_append_conv)
  then show ?case using step rest Cons.IH [OF xs] by simp
qed

lemma bar_lower: "CHR ''|'' \<in> set (lower s) \<longleftrightarrow> CHR ''|'' \<in> set s"
proof -
  have "CHR ''|'' \<in> set (lower s) \<longleftrightarrow> (\<exists>c \<in> set s. lower_char c = CHR ''|'')"
    unfolding lower_def set_map image_iff by (intro bex_cong refl) (rule eq_commute)
  then show ?thesis by simp
qed

lemma column_like:
  assumes "\<forall>x \<in> set xs. list_item x" "no_wildcard v" "CHR ''|'' \<notin> set v"
  shows "like (''%|'' @ v @ ''|%'') (format_list xs) \<longleftrightarrow> (\<exists>x \<in> set xs. lower x = lower v)"
proof (cases "xs = []")
  case True
  then show ?thesis using like_bars [OF assms(2), of "[]"] by (simp add: format_list_def)
next
  case False
  have m: "(\<exists>a b. bars xs = a @ CHR ''|'' # m @ CHR ''|'' # b) \<longleftrightarrow> m \<in> set xs" if "lower m = lower v" for m
  proof (rule bars_infix)
    show "CHR ''|'' \<notin> set m" using bar_lower [of m] bar_lower [of v] that assms(3) by simp
  qed (use assms(1) in \<open>simp add: list_item_def\<close>)
  then show ?thesis
    using like_bars [OF assms(2), of "format_list xs"] format_list_bars [OF False] by (simp only:) metis
qed

lemma no_wildcard_lower: "no_wildcard v \<Longrightarrow> no_wildcard (lower v)"
proof -
  have "c \<notin> lower_char ` set v" if "c \<notin> set v" "c = CHR ''%'' \<or> c = CHR ''_''" for c
    using that by (metis imageE lower_char_plain(2,3))
  then show "no_wildcard v \<Longrightarrow> no_wildcard (lower v)" by (auto simp: no_wildcard_def lower_def)
qed

lemma text_like:
  assumes "no_wildcard v"
  shows "like (''%'' @ lower v @ ''%'') (lower s) \<longleftrightarrow> sublist (lower v) (lower s)"
  unfolding like_infix [OF no_wildcard_lower [OF assms]] sublist_def
  by (auto simp: lower_append_iff) (metis lower_simps(4))+

text \<open>What a search asks for, of the entry itself.\<close>

definition asks_for :: "search_query \<Rightarrow> catalogue_entry \<Rightarrow> bool" where
  "asks_for q e \<longleftrightarrow>
     (q_authors q = [] \<or> ce_author e \<in> set (q_authors q))
     \<and> (q_years q = [] \<or> ce_year e \<in> set (q_years q))
     \<and> (q_audio_types q = [] \<or> lower ` set (ce_audio_types e) \<inter> lower ` set (q_audio_types q) \<noteq> {})
     \<and> (q_content_types q = [] \<or> ce_content_type e \<in> set (q_content_types q))
     \<and> (q_tmdb_id q = [] \<or> dict_get (ce_other_texts e) ''theMovieDB'' [] = q_tmdb_id q)
     \<and> (q_text q = []
        \<or> sublist (lower (q_text q)) (lower (ce_formatted_title e))
        \<or> sublist (lower (q_text q)) (lower (dict_get (ce_other_texts e) ''altTitle'' []))
        \<or> (\<exists>c \<in> set_option (ce_collection_name e). sublist (lower (q_text q)) (lower c)))
     \<and> (q_audio_codecs q = [] \<or> lower ` set (ce_audio_codecs e) \<inter> lower ` set (q_audio_codecs q) \<noteq> {})
     \<and> (q_audio_channel_counts q = []
        \<or> lower ` set (ce_audio_channel_counts e) \<inter> lower ` set (q_audio_channel_counts q) \<noteq> {})"

definition plain_query :: "search_query \<Rightarrow> bool" where
  "plain_query q \<longleftrightarrow> no_wildcard (q_text q)
     \<and> (\<forall>v \<in> set (q_audio_types q @ q_audio_codecs q @ q_audio_channel_counts q). no_wildcard v \<and> CHR ''|'' \<notin> set v)"

lemma list_clause_row:
  assumes "map_of (entry_values e) f = Some (ColText (format_list xs))" "\<forall>x \<in> set xs. list_item x"
    and "\<forall>v \<in> set vs. no_wildcard v \<and> CHR ''|'' \<notin> set v"
  shows "list_clause vs f (row_for e version t) \<longleftrightarrow> lower ` set xs \<inter> lower ` set vs \<noteq> {}"
proof -
  have "col_text (row_for e version t) f = Some (format_list xs)"
    using assms(1) by (simp add: col_text_def column_of_row_for dict_get_def)
  then have "list_clause vs f (row_for e version t) \<longleftrightarrow> (\<exists>v \<in> set vs. \<exists>x \<in> set xs. lower x = lower v)"
    using column_like [OF assms(2)] assms(3) by (simp add: list_clause_def col_like_def)
  then show ?thesis by (auto simp: image_iff)
qed

lemma search_clause_row:
  assumes "storable e" "plain_query q"
  shows "search_clause version q (row_for e v t) \<longleftrightarrow> v = version \<and> asks_for q e"
proof -
  have li: "\<forall>x \<in> set (ce_audio_types e). list_item x" "\<forall>x \<in> set (ce_audio_codecs e). list_item x"
    "\<forall>x \<in> set (ce_audio_channel_counts e). list_item x"
    using assms(1) by (simp_all add: storable_def)
  have lq: "\<forall>v \<in> set (q_audio_types q). no_wildcard v \<and> CHR ''|'' \<notin> set v"
    "\<forall>v \<in> set (q_audio_codecs q). no_wildcard v \<and> CHR ''|'' \<notin> set v"
    "\<forall>v \<in> set (q_audio_channel_counts q). no_wildcard v \<and> CHR ''|'' \<notin> set v" "no_wildcard (q_text q)"
    using assms(2) by (simp_all add: plain_query_def)
  let ?r = "row_for e v t"
  have c: "col_text ?r ''author'' = Some (ce_author e)" "col_text ?r ''content_type'' = Some (ce_content_type e)"
    "col_text ?r ''theMovieDB'' = Some (dict_get (ce_other_texts e) ''theMovieDB'' [])"
    "col_text ?r ''formattedTitle'' = Some (ce_formatted_title e)"
    "col_text ?r ''altTitle'' = Some (dict_get (ce_other_texts e) ''altTitle'' [])"
    "col_text ?r ''collection'' = ce_collection_name e" "col_num ?r ''year'' = Some (of_int (ce_year e))"
    by (simp_all add: col_text_def col_num_def column_of_row_for dict_get_def entry_values_def other_text_def col_option_def
        split: option.split)
  have l: "list_clause (q_audio_types q) ''audioTypes'' ?r \<longleftrightarrow> lower ` set (ce_audio_types e) \<inter> lower ` set (q_audio_types q) \<noteq> {}"
    "list_clause (q_audio_codecs q) ''audioCodecs'' ?r \<longleftrightarrow> lower ` set (ce_audio_codecs e) \<inter> lower ` set (q_audio_codecs q) \<noteq> {}"
    "list_clause (q_audio_channel_counts q) ''audioChannelCounts'' ?r
       \<longleftrightarrow> lower ` set (ce_audio_channel_counts e) \<inter> lower ` set (q_audio_channel_counts q) \<noteq> {}"
    by (rule list_clause_row; (intro li lq)?; simp add: entry_values_def)+
  have y: "(\<exists>y \<in> set (q_years q). Some (of_int (ce_year e) :: rat) = Some (of_int y)) \<longleftrightarrow> ce_year e \<in> set (q_years q)"
    by auto
  have x: "text_clause (q_text q) ?r \<longleftrightarrow>
      sublist (lower (q_text q)) (lower (ce_formatted_title e))
      \<or> sublist (lower (q_text q)) (lower (dict_get (ce_other_texts e) ''altTitle'' []))
      \<or> (\<exists>c \<in> set_option (ce_collection_name e). sublist (lower (q_text q)) (lower c))"
    using text_like [OF lq(4)] by (simp add: text_clause_def c col_like_def split: option.split)
  have i: "in_clause vs f ?r \<longleftrightarrow> s \<in> set vs" if "col_text ?r f = Some s" for vs f s
    using that by (auto simp: in_clause_def)
  note i = i [OF c(1)] i [OF c(2)]
  have d: "dr_version ?r = v" by (simp add: row_for_def)
  show ?thesis
    unfolding search_clause_def asks_for_def l x y i c d by (simp only: imp_conv_disj not_not option.inject)
qed


text \<open>An entry of the examples, and what it takes to be stored.\<close>

definition stored_example :: catalogue_entry where
  "stored_example = (plain_entry ''Alien'' ''aron'' [])
     \<lparr>ce_audio_types := [''Atmos'', ''DTS-X''], ce_other_texts := map (\<lambda>k. (k, [])) other_text_keys\<rparr>"

lemma stored_example_storable: "storable stored_example"
  unfolding storable_def by (intro conjI) (simp_all add: stored_example_def plain_entry_def list_item_def format_title_def comp_def)

definition example_query :: search_query where
  "example_query = \<lparr>q_authors = [], q_years = [], q_audio_types = [''atmos''], q_content_types = [], q_tmdb_id = [],
     q_text = ''LIE'', q_audio_codecs = [], q_audio_channel_counts = []\<rparr>"

lemma chunked_load_complete_witness:
  "\<exists>pages. send_chunked_catalogue 0 (Some (''v1'', 1)) [row_for stored_example ''v1'' 0]
      (first_chunk_size None None) (chunk_size None) = Some (pages, None)
    \<and> concat pages = [fetch_row 0 UI_FIELDS (row_for stored_example ''v1'' 0)]"
proof -
  have "[row_for stored_example ''v1'' 0] = filter (\<lambda>r. dr_version r = ''v1'') [row_for stored_example ''v1'' 0]"
    by (simp add: row_for_def)
  from chunked_load_complete [OF this, of 0 None None] obtain pages where
    "send_chunked_catalogue 0 (Some (''v1'', length [row_for stored_example ''v1'' 0])) [row_for stored_example ''v1'' 0]
      (first_chunk_size None None) (chunk_size None) = Some (pages, None)"
    "concat pages = map (fetch_row 0 UI_FIELDS) [row_for stored_example ''v1'' 0]"
    by (elim exE conjE) (rule that; assumption)
  then show ?thesis by (intro exI [of _ pages] conjI) simp_all
qed



end
