(* ===== verification/Catalogue_Life.thy ===== *)
theory Catalogue_Life
  imports Catalogue_Rows
begin

text \<open>
  The life of the catalogue, \<^verbatim>\<open>Catalogues\<close> and \<^verbatim>\<open>DatabaseDownloader\<close> in \<^verbatim>\<open>ezbeq/catalogue.py\<close>: the
  import of the downloaded file in batches, the catalogues in memory, the download, the reload and its
  throttle, and the removal of old versions. Lemmas: what an import leaves in the database when it
  succeeds and when it fails, the latest catalogue keeps its entries through every reload and prune,
  and reloads are checked at most once a minute.
\<close>

section \<open>State\<close>

text \<open>
  The items of \<^verbatim>\<open>database.json\<close>, an error where it cannot be read on. A value of the meta table is text, so
  the years are kept as text.
\<close>

type_synonym contents = "(exn + raw_entry) list"

record catalogue =
  cat_count :: nat
  cat_version :: string
  cat_meta :: "(string, string list) pydict"
  cat_loaded_at :: int

record database =
  db_rows :: "db_row list"
  db_metas :: "(string \<times> string \<times> string) list"

text \<open>
  The object with its two files, the prunes that wait in the pool and the messages broadcast. Times are seconds,
  stored times milliseconds.
\<close>

record catalogues =
  c_db :: database
  c_catalogues :: "catalogue list"
  c_database_file :: "contents option"
  c_version_file :: "string option"
  c_last_check :: rat
  c_prunes :: "string list"
  c_sent :: "(string \<times> nat \<times> int) list"

definition META_FIELDS :: "string list" where
  "META_FIELDS = [''audioTypes'', ''author'', ''content_type'', ''language'', ''year'']"

definition millis :: "rat \<Rightarrow> int" where
  "millis now = \<lfloor>now * 1000\<rfloor>"

definition day_millis :: int where
  "day_millis = 24 * 60 * 60 * 1000"

definition loaded :: "catalogues \<Rightarrow> bool" where
  "loaded c \<longleftrightarrow> c_catalogues c \<noteq> [] \<and> cat_version (last (c_catalogues c)) \<noteq> [] \<and> 0 < cat_count (last (c_catalogues c))"

definition latest :: "catalogues \<Rightarrow> catalogue option" where
  "latest c = (if loaded c then Some (last (c_catalogues c)) else None)"

definition find_version :: "catalogues \<Rightarrow> string \<Rightarrow> catalogue option" where
  "find_version c v = find (\<lambda>i. cat_version i = v) (c_catalogues c)"

definition stale :: "rat \<Rightarrow> catalogue \<Rightarrow> bool" where
  "stale now cat \<longleftrightarrow> of_int (cat_loaded_at cat) / 1000 + 5 * 60 < now"

definition meta_msg :: "catalogue \<Rightarrow> string \<times> nat \<times> int" where
  "meta_msg cat = (cat_version cat, cat_count cat, cat_loaded_at cat div 1000)"

section \<open>Import\<close>

text \<open>
  The locals of \<^verbatim>\<open>__insert_catalogue\<close>: the rows committed so far, the batch, the count and the sets of
  meta values, whose iteration order the code leaves open.
\<close>

record import =
  im_rows :: "db_row list"
  im_values :: "db_row list"
  im_count :: nat
  im_audio_types :: "string list"
  im_authors :: "string list"
  im_content_types :: "string list"
  im_languages :: "string list"
  im_years :: "int list"

definition new_import :: "db_row list \<Rightarrow> import" where
  "new_import rows = \<lparr>im_rows = rows, im_values = [], im_count = 0, im_audio_types = [], im_authors = [],
     im_content_types = [], im_languages = [], im_years = []\<rparr>"

definition add_to :: "'a list \<Rightarrow> 'a \<Rightarrow> 'a list" where
  "add_to xs v = (if v \<in> set xs then xs else xs @ [v])"

definition note_meta :: "catalogue_entry \<Rightarrow> import \<Rightarrow> import" where
  "note_meta e im =
     (let language = dict_get (ce_other_texts e) ''language'' []
      in im\<lparr>im_audio_types := foldl add_to (im_audio_types im) (ce_audio_types e),
            im_authors := (if ce_author e \<noteq> [] then add_to (im_authors im) (ce_author e) else im_authors im),
            im_content_types := (if ce_content_type e \<noteq> [] then add_to (im_content_types im) (ce_content_type e) else im_content_types im),
            im_languages := (if language \<noteq> [] then add_to (im_languages im) language else im_languages im),
            im_years := (if ce_year e \<noteq> 0 then add_to (im_years im) (ce_year e) else im_years im)\<rparr>)"

text \<open>
  The id is the primary key and the version must not be null. An \<^verbatim>\<open>executemany\<close> that fails is rolled back,
  what was committed before stays.
\<close>

definition row_id :: "db_row \<Rightarrow> column" where
  "row_id r = column_of r ''id''"

definition insert_commit :: "string option \<Rightarrow> db_row list \<Rightarrow> db_row list \<Rightarrow> exn + db_row list" where
  "insert_commit version rows vals =
     (if version = None \<or> \<not> distinct (map row_id vals) \<or> list_ex (\<lambda>r. row_id r \<in> set (map row_id rows)) vals
      then Inl (External ''IntegrityError'') else Inr (rows @ vals))"

definition version_text :: "string option \<Rightarrow> string" where
  "version_text version = (case version of None \<Rightarrow> ''None'' | Some v \<Rightarrow> v)"

definition entry_id :: "string \<Rightarrow> nat \<Rightarrow> string" where
  "entry_id v idx = v @ ''_'' @ show_nat idx"

text \<open>
  One entry. After a full batch a log line reads the loop variable of the audio types, which is unbound
  when no entry had one.
\<close>

definition import_item :: "rat \<Rightarrow> string option \<Rightarrow> bool \<Rightarrow> nat \<Rightarrow> raw_entry \<Rightarrow> (import, unit) act" where
  "import_item now version meta_only idx raw im =
     (let im0 = im\<lparr>im_count := im_count im + 1\<rparr>
      in case CatalogueEntry now (entry_id (version_text version) idx) raw of
           Inl e \<Rightarrow> (Inl e, im0)
         | Inr e \<Rightarrow>
             (let im1 = note_meta e im0;
                  im2 = im1\<lparr>im_values := im_values im1 @ [row_for e (version_text version) (millis now)]\<rparr>
              in if length (im_values im2) mod 1000 = 0 \<and> \<not> meta_only then
                   (if im_audio_types im2 = [] then (Inl (External ''UnboundLocalError''), im2)
                    else case insert_commit version (im_rows im2) (im_values im2) of
                           Inl x \<Rightarrow> (Inl x, im2)
                         | Inr rows \<Rightarrow> (Inr (), im2\<lparr>im_rows := rows, im_values := []\<rparr>))
                 else (Inr (), im2)))"

fun import_items :: "rat \<Rightarrow> string option \<Rightarrow> bool \<Rightarrow> nat \<Rightarrow> contents \<Rightarrow> (import, unit) act" where
  "import_items now version meta_only idx [] = ok ()"
| "import_items now version meta_only idx (Inl e # cs) = raise e"
| "import_items now version meta_only idx (Inr raw # cs) =
     and_then (import_item now version meta_only idx raw)
       (\<lambda>_. import_items now version meta_only (Suc idx) cs)"

definition import_meta :: "import \<Rightarrow> (string, string list) pydict" where
  "import_meta im =
     [(''audioTypes'', im_audio_types im), (''author'', im_authors im), (''content_type'', im_content_types im),
      (''language'', im_languages im), (''year'', map show_int (im_years im))]"

definition meta_rows :: "string \<Rightarrow> (string, string list) pydict \<Rightarrow> (string \<times> string \<times> string) list" where
  "meta_rows version meta = concat (map (\<lambda>(t, vs). map (\<lambda>v. (t, v, version)) vs) meta)"

definition insert_catalogue ::
  "rat \<Rightarrow> string option \<Rightarrow> bool \<Rightarrow> contents \<Rightarrow> (database, catalogue option) act" where
  "insert_catalogue now version meta_only items db =
     (case import_items now version meta_only 0 items (new_import (db_rows db)) of
        (Inl e, im) \<Rightarrow> (Inl e, db\<lparr>db_rows := im_rows im\<rparr>)
      | (Inr _, im) \<Rightarrow>
          (case (if im_values im \<noteq> [] \<and> \<not> meta_only then insert_commit version (im_rows im) (im_values im)
                 else Inr (im_rows im)) of
             Inl e \<Rightarrow> (Inl e, db\<lparr>db_rows := im_rows im\<rparr>)
           | Inr rows \<Rightarrow>
               (Inr (if im_count im = 0 then None
                     else Some \<lparr>cat_count = im_count im, cat_version = version_text version,
                                cat_meta = import_meta im, cat_loaded_at = millis now\<rparr>),
                \<lparr>db_rows = rows, db_metas = db_metas db @ meta_rows (version_text version) (import_meta im)\<rparr>)))"

section \<open>Start\<close>

definition rows_of :: "string \<Rightarrow> db_row list \<Rightarrow> db_row list" where
  "rows_of v rows = filter (\<lambda>r. dr_version r = v) rows"

definition unique :: "'a list \<Rightarrow> 'a list" where
  "unique xs = foldl add_to [] xs"

text \<open>
  The versions in the database, the one loaded last at the end. Versions loaded in the same millisecond are taken in
  the order of the table; SQL leaves it open.
\<close>

definition stored_catalogues :: "db_row list \<Rightarrow> catalogue list" where
  "stored_catalogues rows =
     sort_key cat_loaded_at
       (map (\<lambda>v. \<lparr>cat_count = length (rows_of v rows), cat_version = v, cat_meta = [],
                   cat_loaded_at = Max (set (map dr_loaded_at (rows_of v rows)))\<rparr>)
          (unique (map dr_version rows)))"

definition load_meta :: "database \<Rightarrow> string \<Rightarrow> string \<Rightarrow> string list" where
  "load_meta db v t = take 1000 (unique (map (\<lambda>(_, x, _). x) (filter (\<lambda>(t', _, v'). v' = v \<and> t' = t) (db_metas db))))"

definition schedule_prune :: "string \<Rightarrow> catalogues \<Rightarrow> catalogues" where
  "schedule_prune keep c = c\<lparr>c_prunes := c_prunes c @ [keep]\<rparr>"

text \<open>
  \<^verbatim>\<open>__load_catalogues\<close>: without a catalogue the file on disk is imported; when the latest one lacks meta values
  only the meta values are imported, from the file and under the version of the file. An exception is logged.
\<close>

definition with_meta :: "database \<Rightarrow> catalogue list \<Rightarrow> catalogue list" where
  "with_meta db cats =
     (if cats = [] then []
      else butlast cats @ [(last cats)\<lparr>cat_meta := map (\<lambda>t. (t, load_meta db (cat_version (last cats)) t)) META_FIELDS\<rparr>])"

definition lacks_meta :: "catalogue list \<Rightarrow> bool" where
  "lacks_meta cats \<longleftrightarrow> cats \<noteq> [] \<and> list_ex (\<lambda>(t, vs). vs = []) (cat_meta (last cats))"

definition load_catalogues :: "rat \<Rightarrow> catalogues \<Rightarrow> catalogues" where
  "load_catalogues now c =
     (let cats = with_meta (c_db c) (stored_catalogues (db_rows (c_db c)));
          c1 = (if 1 < length cats then schedule_prune (cat_version (last cats)) c else c);
          c2 = c1\<lparr>c_catalogues := cats\<rparr>
      in if cats = [] \<or> lacks_meta cats then
           (case (c_database_file c, c_version_file c) of
              (Some items, Some v) \<Rightarrow>
                (case insert_catalogue now (Some (strip v)) (lacks_meta cats) items (c_db c) of
                   (Inr (Some cat), db) \<Rightarrow> c2\<lparr>c_db := db, c_catalogues := cats @ [cat]\<rparr>
                 | (_, db) \<Rightarrow> c2\<lparr>c_db := db\<rparr>)
            | _ \<Rightarrow> c2)
         else c2)"

section \<open>Download\<close>

text \<open>What the server answers for \<^verbatim>\<open>version.txt\<close> and \<^verbatim>\<open>database.json\<close>: a failed request, or a status and a body\<close>

record remote =
  rm_version :: "exn + (nat \<times> string)"
  rm_database :: "exn + (nat \<times> contents)"

definition remote_version :: "remote \<Rightarrow> string option" where
  "remote_version rm =
     (case rm_version rm of
        Inl _ \<Rightarrow> None
      | Inr (status, body) \<Rightarrow> if status = 200 then Some (strip body) else None)"

definition cached_version :: "catalogues \<Rightarrow> string" where
  "cached_version c = (case (c_version_file c, c_database_file c) of (Some v, Some _) \<Rightarrow> v | _ \<Rightarrow> [])"

definition rstrip_newline :: "string \<Rightarrow> string" where
  "rstrip_newline s = rev (dropWhile (\<lambda>ch. ch = CHR 0x0A) (rev s))"

text \<open>\<^verbatim>\<open>DatabaseDownloader.run\<close>, whether to reload and the version then known\<close>

definition download :: "remote \<Rightarrow> catalogues \<Rightarrow> (bool \<times> string option) \<times> catalogues" where
  "download rm c =
     (let rv = remote_version rm; keep = ((False, Some (rstrip_newline (cached_version c))), c)
      in if rv = None \<or> rv \<noteq> Some (cached_version c) then
           (case rm_database rm of
              Inl _ \<Rightarrow> keep
            | Inr (status, items) \<Rightarrow>
                if status = 200 then
                  ((True, map_option rstrip_newline rv),
                   c\<lparr>c_database_file := Some items,
                     c_version_file := (case rv of None \<Rightarrow> c_version_file c
                       | Some v \<Rightarrow> if v = [] then c_version_file c else Some v)\<rparr>)
                else keep)
         else keep)"

section \<open>Reload and prune\<close>

definition on_catalogue_update :: "rat \<Rightarrow> catalogue \<Rightarrow> (catalogues, unit) act" where
  "on_catalogue_update now cat c =
     (let cats = c_catalogues c @ [cat];
          old_versions = map cat_version (filter (\<lambda>i. cat_loaded_at i < millis now - day_millis) cats);
          kept = filter (\<lambda>i. cat_version i \<notin> set old_versions) cats;
          c1 = c\<lparr>c_catalogues := kept, c_sent := c_sent c @ [meta_msg cat]\<rparr>
      in if 1 < length cats then
           (if kept = [] then (Inl IndexError, c1) else (Inr (), schedule_prune (cat_version (last kept)) c1))
         else (Inr (), c1))"

text \<open>\<^verbatim>\<open>__do_reload\<close>; an exception of the import ends in the unhandled deferred of its thread.\<close>

definition do_reload :: "rat \<Rightarrow> remote \<Rightarrow> (catalogues, unit) act" where
  "do_reload now rm c =
     (case download rm c of
        ((reload_required, version), c1) \<Rightarrow>
          if reload_required \<or> \<not> loaded c then
            (case c_database_file c1 of
               None \<Rightarrow> (Inl (ValueError ''No catalogue available''), c1)
             | Some items \<Rightarrow>
                 (case insert_catalogue now version False items (c_db c1) of
                    (Inl _, db) \<Rightarrow> (Inr (), c1\<lparr>c_db := db\<rparr>)
                  | (Inr None, db) \<Rightarrow> (Inr (), c1\<lparr>c_db := db\<rparr>)
                  | (Inr (Some cat), db) \<Rightarrow> on_catalogue_update now cat (c1\<lparr>c_db := db\<rparr>)))
          else (Inr (), c1))"

definition reload_due :: "rat \<Rightarrow> catalogues \<Rightarrow> bool" where
  "reload_due now c \<longleftrightarrow> 60 \<le> now - c_last_check c"

definition reload :: "rat \<Rightarrow> remote \<Rightarrow> (catalogues, unit) act" where
  "reload now rm c =
     (if \<not> reload_due now c then (Inr (), c) else do_reload now rm (c\<lparr>c_last_check := now\<rparr>))"

definition refresh_if_stale :: "rat \<Rightarrow> remote \<Rightarrow> catalogues \<Rightarrow> catalogues" where
  "refresh_if_stale now rm c =
     (if (case latest c of None \<Rightarrow> True | Some cat \<Rightarrow> stale now cat) then snd (reload now rm c) else c)"

definition prune_entries :: "rat \<Rightarrow> string \<Rightarrow> database \<Rightarrow> database" where
  "prune_entries now keep db =
     (let min_loaded_at = millis now - day_millis
      in \<lparr>db_rows = filter (\<lambda>r. \<not> (dr_loaded_at r \<le> min_loaded_at \<and> dr_version r \<noteq> keep)) (db_rows db),
          db_metas = filter (\<lambda>(_, _, v). v = keep) (db_metas db)\<rparr>)"

text \<open>The pool takes the next prune.\<close>

definition run_prune :: "rat \<Rightarrow> catalogues \<Rightarrow> catalogues" where
  "run_prune now c =
     (case c_prunes c of
        [] \<Rightarrow> c
      | keep # ks \<Rightarrow> c\<lparr>c_prunes := ks, c_db := prune_entries now keep (c_db c)\<rparr>)"

text \<open>
  \<^verbatim>\<open>Catalogues.__init__\<close>: load, and announce the catalogue, if any. With \<^verbatim>\<open>sync_load\<close> the files are downloaded
  first and the reload at start is throttled away; then the first reload runs.
\<close>

definition start_catalogues :: "rat \<Rightarrow> bool \<Rightarrow> remote \<Rightarrow> remote \<Rightarrow> catalogues \<Rightarrow> catalogues" where
  "start_catalogues now sync_load rm0 rm c =
     (let c1 = (if sync_load then (snd (download rm0 c))\<lparr>c_last_check := now\<rparr> else c\<lparr>c_last_check := 0\<rparr>);
          c2 = load_catalogues now c1;
          c3 = (if c_catalogues c2 = [] then c2 else c2\<lparr>c_sent := c_sent c2 @ [meta_msg (last (c_catalogues c2))]\<rparr>)
      in snd (reload now rm c3))"

section \<open>What an import leaves\<close>

text \<open>The entries up to the first one that cannot be read, and its error.\<close>

fun parsed :: "rat \<Rightarrow> string \<Rightarrow> nat \<Rightarrow> contents \<Rightarrow> catalogue_entry list \<times> exn option" where
  "parsed now v idx [] = ([], None)"
| "parsed now v idx (Inl e # cs) = ([], Some e)"
| "parsed now v idx (Inr raw # cs) =
     (case CatalogueEntry now (entry_id v idx) raw of
        Inl e \<Rightarrow> ([], Some e)
      | Inr en \<Rightarrow> (case parsed now v (Suc idx) cs of (es, x) \<Rightarrow> (en # es, x)))"

text \<open>The meta values of a list of entries\<close>

definition meta_values :: "string \<Rightarrow> catalogue_entry list \<Rightarrow> string set" where
  "meta_values t es =
     (if t = ''audioTypes'' then (\<Union>e \<in> set es. set (ce_audio_types e))
      else if t = ''author'' then ce_author ` set es - {[]}
      else if t = ''content_type'' then ce_content_type ` set es - {[]}
      else if t = ''language'' then (\<lambda>e. dict_get (ce_other_texts e) ''language'' []) ` set es - {[]}
      else show_int ` (ce_year ` set es - {0}))"

definition noted :: "catalogue_entry list \<Rightarrow> import \<Rightarrow> bool" where
  "noted es im \<longleftrightarrow> (\<forall>t \<in> set META_FIELDS. set (dict_get (import_meta im) t []) = meta_values t es)"

lemma set_add_to [simp]: "set (add_to xs v) = insert v (set xs)"
  by (auto simp: add_to_def)

lemma set_foldl_add_to [simp]: "set (foldl add_to xs vs) = set xs \<union> set vs"
  by (induction vs arbitrary: xs) auto

lemma noted_iff:
  "noted es im \<longleftrightarrow>
     set (im_audio_types im) = (\<Union>e \<in> set es. set (ce_audio_types e))
     \<and> set (im_authors im) = ce_author ` set es - {[]}
     \<and> set (im_content_types im) = ce_content_type ` set es - {[]}
     \<and> set (im_languages im) = (\<lambda>e. dict_get (ce_other_texts e) ''language'' []) ` set es - {[]}
     \<and> set (im_years im) = ce_year ` set es - {0}"
proof -
  have "show_int ` A = show_int ` B \<longleftrightarrow> A = B" for A B
    by (rule inj_image_eq_iff) (simp add: inj_def)
  then show ?thesis
    by (simp add: noted_def META_FIELDS_def import_meta_def dict_get_def meta_values_def)
qed

lemma noted_step: "noted es im \<Longrightarrow> noted (es @ [e]) (note_meta e im)"
  unfolding noted_iff note_meta_def Let_def by auto

lemma noted_frame [simp]:
  "noted es (im\<lparr>im_values := x\<rparr>) = noted es im" "noted es (im\<lparr>im_rows := y\<rparr>) = noted es im"
  "noted es (im\<lparr>im_count := n\<rparr>) = noted es im"
  by (simp_all add: noted_iff)

lemma note_meta_frame [simp]:
  "im_values (note_meta e im) = im_values im" "im_rows (note_meta e im) = im_rows im"
  "im_count (note_meta e im) = im_count im"
  by (simp_all add: note_meta_def Let_def)

lemma batch_arith:
  fixes n k :: nat
  shows "(n mod k + 1) mod k = 0 \<Longrightarrow> (n + 1) div k * k = n + 1"
    and "(n mod k + 1) mod k \<noteq> 0 \<Longrightarrow> (n + 1) div k = n div k"
proof -
  have m: "(n mod k + 1) mod k = (n + 1) mod k" by (rule mod_add_left_eq)
  show "(n mod k + 1) mod k = 0 \<Longrightarrow> (n + 1) div k * k = n + 1"
    using div_mult_mod_eq [of "n + 1" k] by (simp only: m)
  show "(n mod k + 1) mod k \<noteq> 0 \<Longrightarrow> (n + 1) div k = n div k"
    unfolding m using div_Suc [of n k] by simp
qed

text \<open>Whole batches are in the table, the rest waits.\<close>

definition batched :: "db_row list \<Rightarrow> db_row list \<Rightarrow> import \<Rightarrow> bool" where
  "batched old rows im \<longleftrightarrow>
     im_rows im = old @ take (length rows div 1000 * 1000) rows \<and> im_values im = drop (length rows div 1000 * 1000) rows"

lemma batched_add:
  assumes "batched old rows im"
  shows "(length (im_values im) + 1) mod 1000 = 0 \<Longrightarrow> batched old (rows @ [r]) (im\<lparr>im_rows := im_rows im @ im_values im @ [r], im_values := []\<rparr>)"
    and "(length (im_values im) + 1) mod 1000 \<noteq> 0 \<Longrightarrow> batched old (rows @ [r]) (im\<lparr>im_values := im_values im @ [r]\<rparr>)"
proof -
  let ?n = "length rows"
  have len: "length (im_values im) = ?n mod 1000"
    using assms by (simp add: batched_def minus_div_mult_eq_mod)
  have split: "im_rows im @ im_values im = old @ rows" using assms by (simp add: batched_def)
  show "batched old (rows @ [r]) (im\<lparr>im_rows := im_rows im @ im_values im @ [r], im_values := []\<rparr>)"
    if "(length (im_values im) + 1) mod 1000 = 0"
  proof -
    have "(?n + 1) div 1000 * 1000 = ?n + 1" using that unfolding len by (rule batch_arith)
    then show ?thesis using split by (simp add: batched_def)
  qed
  show "batched old (rows @ [r]) (im\<lparr>im_values := im_values im @ [r]\<rparr>)"
    if "(length (im_values im) + 1) mod 1000 \<noteq> 0"
  proof -
    have "(?n + 1) div 1000 = ?n div 1000" using that unfolding len by (rule batch_arith)
    then show ?thesis using assms by (simp add: batched_def)
  qed
qed

lemma CatalogueEntry_id: "CatalogueEntry now idx raw = Inr e \<Longrightarrow> ce_id e = idx"
  by (auto simp: CatalogueEntry_def Let_def split: sum.splits)

lemma row_id_row_for [simp]: "row_id (row_for e v t) = ColText (ce_id e)"
  by (simp add: row_id_def column_of_row_for dict_get_def entry_values_def)

lemma entry_id_inject [simp]: "entry_id v i = entry_id v j \<longleftrightarrow> i = j"
  by (simp add: entry_id_def)

definition numbered :: "string \<Rightarrow> catalogue_entry list \<Rightarrow> bool" where
  "numbered v es \<longleftrightarrow> map ce_id es = map (entry_id v) [0..<length es]"

definition unused :: "string \<Rightarrow> db_row list \<Rightarrow> bool" where
  "unused v rows \<longleftrightarrow> (\<forall>i. ColText (entry_id v i) \<notin> row_id ` set rows)"

lemma numbered_Nil [simp]: "numbered v []"
  by (simp add: numbered_def)

lemma numbered_snoc: "numbered v es \<Longrightarrow> ce_id e = entry_id v (length es) \<Longrightarrow> numbered v (es @ [e])"
  by (simp add: numbered_def)

lemma insert_commit_fresh:
  assumes "numbered v es" "unused v old" "map (\<lambda>e. row_for e v t) es = a @ b"
  shows "insert_commit (Some v) (old @ a) b = Inr (old @ a @ b)"
proof -
  have ids: "map row_id (a @ b) = map (ColText \<circ> entry_id v) [0..<length es]"
  proof -
    have "map row_id (a @ b) = map ColText (map ce_id es)" by (simp add: assms(3) [symmetric])
    then show ?thesis unfolding assms(1) [unfolded numbered_def] by simp
  qed
  have "distinct (map row_id (a @ b))" unfolding ids by (simp add: distinct_map inj_on_def)
  moreover have "row_id r \<notin> row_id ` set old" if "r \<in> set b" for r
  proof -
    have "row_id r \<in> set (map row_id (a @ b))" using that by simp
    then obtain i where "row_id r = ColText (entry_id v i)" unfolding ids by auto
    then show ?thesis using assms(2) by (simp add: unused_def)
  qed
  ultimately show ?thesis by (auto simp: insert_commit_def list_ex_iff)
qed

text \<open>Enough audio types for the log line of a full batch\<close>

definition loggable :: "catalogue_entry list \<Rightarrow> bool" where
  "loggable es \<longleftrightarrow> (1000 \<le> length es \<longrightarrow> (\<exists>e \<in> set (take 1000 es). ce_audio_types e \<noteq> []))"

lemma import_item_step:
  assumes "batched old (map (\<lambda>e. row_for e v (millis now)) es) im" "noted es im" "numbered v es" "unused v old"
    and "loggable (es @ [e])" "CatalogueEntry now (entry_id v (length es)) raw = Inr e" "im_count im = length es"
  shows "\<exists>im'. import_item now (Some v) False (length es) raw im = (Inr (), im')
    \<and> batched old (map (\<lambda>e. row_for e v (millis now)) (es @ [e])) im' \<and> noted (es @ [e]) im'
    \<and> im_count im' = length (es @ [e])"
proof -
  let ?row = "\<lambda>e. row_for e v (millis now)"
  let ?im = "note_meta e (im\<lparr>im_count := im_count im + 1\<rparr>)"
  have n: "noted (es @ [e]) ?im" using assms(2) noted_step by simp
  have b: "batched old (map ?row es) ?im" using assms(1) by (simp add: batched_def)
  show ?thesis
  proof (cases "(length (im_values im) + 1) mod 1000 = 0")
    case True
    have m: "length (im_values im) = length es mod 1000" using assms(1) by (simp add: batched_def minus_div_mult_eq_mod)
    have "1000 \<le> length es + 1"
    proof -
      have "(length es + 1) div 1000 * 1000 = length es + 1" using True unfolding m by (rule batch_arith)
      then show ?thesis by (cases "(length es + 1) div 1000") simp_all
    qed
    with assms(5) obtain x where "x \<in> set (es @ [e])" "ce_audio_types x \<noteq> []"
      unfolding loggable_def by (metis in_set_takeD length_append_singleton Suc_eq_plus1)
    then have "im_audio_types ?im \<noteq> []" using n unfolding noted_iff by force
    moreover have "insert_commit (Some v) (im_rows im) (im_values im @ [?row e]) = Inr (im_rows im @ im_values im @ [?row e])"
    proof -
      have "numbered v (es @ [e])" using assms(3) CatalogueEntry_id [OF assms(6)] by (rule numbered_snoc)
      moreover have "map ?row (es @ [e]) = take (length es div 1000 * 1000) (map ?row es) @ (im_values im @ [?row e])"
        using assms(1) by (simp add: batched_def)
      from insert_commit_fresh [OF calculation assms(4) this] show ?thesis
        using assms(1) by (simp add: batched_def)
    qed
    ultimately show ?thesis
      using batched_add(1) [OF b, of "?row e"] True n assms(6,7)
      by (simp add: import_item_def Let_def version_text_def)
  next
    case False
    then show ?thesis
      using batched_add(2) [OF b, of "?row e"] n assms(6,7)
      by (simp add: import_item_def Let_def version_text_def)
  qed
qed

lemma loggable_prefix: "loggable (es @ es') \<Longrightarrow> loggable es"
  by (auto simp: loggable_def)

lemma import_items_parsed:
  assumes "batched old (map (\<lambda>e. row_for e v (millis now)) es) im" "noted es im" "numbered v es" "unused v old"
    and "parsed now v (length es) items = (es', x)" "loggable (es @ es')" "im_count im = length es"
  shows "\<exists>im'. import_items now (Some v) False (length es) items im
      = ((case x of None \<Rightarrow> Inr () | Some e \<Rightarrow> Inl e), im')
    \<and> batched old (map (\<lambda>e. row_for e v (millis now)) (es @ es')) im' \<and> noted (es @ es') im'
    \<and> (x = None \<longrightarrow> im_count im' = length (es @ es')) \<and> numbered v (es @ es')"
  using assms
proof (induction items arbitrary: es im es')
  case Nil
  then show ?case by (simp add: act_simps)
next
  case (Cons item items)
  show ?case
  proof (cases item)
    case (Inl e)
    then have "es' = []" "x = Some e" using Cons.prems(5) by simp_all
    then show ?thesis using Inl Cons.prems by (simp add: act_simps)
  next
    case (Inr raw)
    show ?thesis
    proof (cases "CatalogueEntry now (entry_id v (length es)) raw")
      case (Inl e)
      then have "es' = []" "x = Some e" using Inr Cons.prems(5) by simp_all
      moreover have "import_items now (Some v) False (length es) (item # items) im = (Inl e, im\<lparr>im_count := im_count im + 1\<rparr>)"
        using Inl Inr by (simp add: act_simps import_item_def version_text_def)
      ultimately show ?thesis using Cons.prems by (simp add: batched_def)
    next
      fix en assume en: "CatalogueEntry now (entry_id v (length es)) raw = Inr en"
      then obtain es1 where es1: "parsed now v (Suc (length es)) items = (es1, x)" "es' = en # es1"
        using Inr Cons.prems(5) by (auto split: prod.splits)
      have l: "loggable ((es @ [en]) @ es1)" using Cons.prems(6) es1(2) by simp
      from import_item_step [OF Cons.prems(1-4) loggable_prefix [OF l] en Cons.prems(7)] obtain im1 where
        im1: "import_item now (Some v) False (length es) raw im = (Inr (), im1)"
        "batched old (map (\<lambda>e. row_for e v (millis now)) (es @ [en])) im1" "noted (es @ [en]) im1"
        "im_count im1 = length (es @ [en])" by blast
      have "numbered v (es @ [en])" using Cons.prems(3) CatalogueEntry_id [OF en] by (rule numbered_snoc)
      from Cons.IH [OF im1(2,3) this Cons.prems(4) _ l im1(4)] es1 show ?thesis
        using Inr im1(1) by (simp add: act_simps)
    qed
  qed
qed

lemma insert_catalogue_parsed:
  assumes "parsed now v 0 items = (es, x)" "unused v (db_rows db)" "loggable es"
  obtains im where "noted es im"
    "x = None \<longrightarrow> insert_catalogue now (Some v) False items db =
       (Inr (if es = [] then None else Some \<lparr>cat_count = length es, cat_version = v, cat_meta = import_meta im, cat_loaded_at = millis now\<rparr>),
        \<lparr>db_rows = db_rows db @ map (\<lambda>e. row_for e v (millis now)) es, db_metas = db_metas db @ meta_rows v (import_meta im)\<rparr>)"
    "\<forall>e. x = Some e \<longrightarrow> insert_catalogue now (Some v) False items db =
        (Inl e, db\<lparr>db_rows := db_rows db @ map (\<lambda>e. row_for e v (millis now)) (take (length es div 1000 * 1000) es)\<rparr>)"
proof -
  let ?row = "\<lambda>e. row_for e v (millis now)"
  have "batched (db_rows db) (map ?row []) (new_import (db_rows db))" "noted [] (new_import (db_rows db))"
    by (simp_all add: batched_def new_import_def noted_iff)
  from import_items_parsed [OF this numbered_Nil assms(2), of items es x] assms obtain im where
    im: "import_items now (Some v) False 0 items (new_import (db_rows db)) = ((case x of None \<Rightarrow> Inr () | Some e \<Rightarrow> Inl e), im)"
    "batched (db_rows db) (map ?row es) im" "noted es im" "x = None \<longrightarrow> im_count im = length es" "numbered v es"
    by (auto simp: new_import_def)
  have rest: "(if im_values im \<noteq> [] then insert_commit (Some v) (im_rows im) (im_values im) else Inr (im_rows im))
      = Inr (db_rows db @ map ?row es)"
    using insert_commit_fresh [OF im(5) assms(2) append_take_drop_id [symmetric]] im(2) by (auto simp: batched_def)
  show ?thesis
  proof (rule that [OF im(3)])
    show "x = None \<longrightarrow> insert_catalogue now (Some v) False items db =
       (Inr (if es = [] then None else Some \<lparr>cat_count = length es, cat_version = v, cat_meta = import_meta im, cat_loaded_at = millis now\<rparr>),
        \<lparr>db_rows = db_rows db @ map ?row es, db_metas = db_metas db @ meta_rows v (import_meta im)\<rparr>)"
      using im(1,4) rest by (simp add: insert_catalogue_def version_text_def)
    show "\<forall>e. x = Some e \<longrightarrow> insert_catalogue now (Some v) False items db =
        (Inl e, db\<lparr>db_rows := db_rows db @ map ?row (take (length es div 1000 * 1000) es)\<rparr>)"
      using im(1,2) by (simp add: insert_catalogue_def batched_def take_map)
  qed
qed


section \<open>The latest catalogue keeps its entries\<close>

text \<open>What any import adds, whether it succeeds or not: rows of its version, numbered from zero and new.\<close>

definition adds :: "rat \<Rightarrow> string \<Rightarrow> db_row list \<Rightarrow> db_row list \<Rightarrow> bool" where
  "adds now v old new \<longleftrightarrow>
     (\<forall>r \<in> set new. dr_version r = v \<and> dr_loaded_at r = millis now)
     \<and> row_id ` set new \<inter> row_id ` set old = {}
     \<and> (new \<noteq> [] \<longrightarrow> ColText (entry_id v 0) \<in> row_id ` set new)"

definition importing :: "rat \<Rightarrow> string option \<Rightarrow> db_row list \<Rightarrow> nat \<Rightarrow> import \<Rightarrow> bool" where
  "importing now version old idx im \<longleftrightarrow>
     (\<exists>new. im_rows im = old @ new \<and> adds now (version_text version) old new \<and> (version = None \<longrightarrow> new = [])
        \<and> length new + length (im_values im) = idx
        \<and> (\<forall>r \<in> set (im_values im). dr_version r = version_text version \<and> dr_loaded_at r = millis now)
        \<and> map row_id (new @ im_values im) = map (\<lambda>i. ColText (entry_id (version_text version) i)) [0..<idx])"

lemma row_for_simps [simp]: "dr_version (row_for e v t) = v" "dr_loaded_at (row_for e v t) = t"
  by (simp_all add: row_for_def)

lemma importing_commit:
  assumes "importing now version old idx im" "insert_commit version (im_rows im) (im_values im) = Inr rows"
  shows "importing now version old idx (im\<lparr>im_rows := rows, im_values := []\<rparr>)"
proof -
  let ?v = "version_text version"
  from assms(1) obtain new where new: "im_rows im = old @ new" "adds now ?v old new"
    "length new + length (im_values im) = idx" "\<forall>r \<in> set (im_values im). dr_version r = ?v \<and> dr_loaded_at r = millis now"
    "map row_id (new @ im_values im) = map (\<lambda>i. ColText (entry_id ?v i)) [0..<idx]"
    unfolding importing_def by blast
  have n: "version \<noteq> None" using assms(2) by (cases version) (simp_all add: insert_commit_def)
  from assms(2) have c: "rows = im_rows im @ im_values im"
    "\<forall>r \<in> set (im_values im). row_id r \<notin> row_id ` set (im_rows im)"
    by (auto simp: insert_commit_def list_ex_iff split: if_splits)
  have "ColText (entry_id ?v 0) \<in> row_id ` set (new @ im_values im)" if "new @ im_values im \<noteq> []"
  proof -
    have "0 < idx" using that new(3) by (cases new; cases "im_values im") auto
    then have "ColText (entry_id ?v 0) \<in> set (map row_id (new @ im_values im))" unfolding new(5) by auto
    then show ?thesis by (simp only: set_map)
  qed
  then have "adds now ?v old (new @ im_values im)"
    using new(1,2,4) c(2) by (auto simp: adds_def)
  then show ?thesis
    using new(3,4,5) c(1) new(1) n unfolding importing_def by (intro exI [of _ "new @ im_values im"]) auto
qed

lemma importing_item:
  assumes "importing now version old idx im" "im_count im = idx"
    and "import_item now version False idx raw im = (r, im')"
  shows "(\<exists>idx'. importing now version old idx' im')
    \<and> (r = Inr () \<longrightarrow> importing now version old (Suc idx) im' \<and> im_count im' = Suc idx)"
proof (cases "CatalogueEntry now (entry_id (version_text version) idx) raw")
  case (Inl e)
  then show ?thesis using assms by (auto simp: import_item_def importing_def)
next
  fix e assume e: "CatalogueEntry now (entry_id (version_text version) idx) raw = Inr e"
  let ?im = "(note_meta e (im\<lparr>im_count := im_count im + 1\<rparr>))
     \<lparr>im_values := im_values im @ [row_for e (version_text version) (millis now)]\<rparr>"
  have im: "importing now version old (Suc idx) ?im"
    using assms(1) CatalogueEntry_id [OF e] by (auto simp: importing_def)
  have c: "im_count ?im = Suc idx" using assms(2) by simp
  show ?thesis
    using assms(3) e im c importing_commit [OF im]
    by (auto simp: import_item_def Let_def split: if_splits sum.splits)
qed

lemma importing_items:
  assumes "importing now version old idx im" "im_count im = idx"
    and "import_items now version False idx items im = (r, im')"
  shows "\<exists>idx'. importing now version old idx' im' \<and> (r = Inr () \<longrightarrow> im_count im' = idx')"
  using assms
proof (induction items arbitrary: idx im)
  case Nil
  then show ?case by (auto simp: act_simps)
next
  case (Cons item items)
  show ?case
  proof (cases item)
    case (Inl e)
    then show ?thesis using Cons.prems by (auto simp: act_simps)
  next
    case (Inr raw)
    obtain r1 im1 where s: "import_item now version False idx raw im = (r1, im1)" by (cases "import_item now version False idx raw im")
    note step = importing_item [OF Cons.prems(1,2) s]
    show ?thesis
    proof (cases r1)
      case (Inl e)
      then show ?thesis using step Cons.prems(3) Inr s by (auto simp: act_simps)
    next
      case r1: (Inr u)
      then have "importing now version old (Suc idx) im1" "im_count im1 = Suc idx" using step by auto
      from Cons.IH [OF this] show ?thesis using Cons.prems(3) Inr s r1 by (auto simp: act_simps)
    qed
  qed
qed

lemma insert_catalogue_adds:
  assumes "insert_catalogue now version False items db = (r, db')"
  obtains new where "db_rows db' = db_rows db @ new" "adds now (version_text version) (db_rows db) new"
    "r = Inr None \<or> version = None \<longrightarrow> new = []"
    "\<forall>cat. r = Inr (Some cat) \<longrightarrow> new \<noteq> [] \<and> cat_version cat = version_text version \<and> cat_count cat = length new
       \<and> cat_loaded_at cat = millis now"
proof -
  obtain r1 im where im: "import_items now version False 0 items (new_import (db_rows db)) = (r1, im)"
    by (cases "import_items now version False 0 items (new_import (db_rows db))")
  have "importing now version (db_rows db) 0 (new_import (db_rows db))"
    by (simp add: importing_def new_import_def adds_def)
  from importing_items [OF this _ im] obtain idx where
    idx: "importing now version (db_rows db) idx im" "r1 = Inr () \<longrightarrow> im_count im = idx"
    by (auto simp: new_import_def)
  then obtain new where new: "im_rows im = db_rows db @ new" "adds now (version_text version) (db_rows db) new"
    "version = None \<longrightarrow> new = []" "length new + length (im_values im) = idx" unfolding importing_def by blast
  show thesis
  proof (cases r1)
    case (Inl e)
    then show ?thesis using assms im new(1,2,3) by (intro that [of new]) (auto simp: insert_catalogue_def)
  next
    case (Inr u)
    show ?thesis
    proof (cases "im_values im = []")
      case True
      then show ?thesis
        using assms im new Inr idx(2) by (intro that [of new]) (auto simp: insert_catalogue_def split: if_splits)
    next
      case False
      show ?thesis
      proof (cases "insert_commit version (im_rows im) (im_values im)")
        case (Inl e)
        then show ?thesis using assms im new(1,2,3) Inr False by (intro that [of new]) (auto simp: insert_catalogue_def)
      next
        fix rows assume rows: "insert_commit version (im_rows im) (im_values im) = Inr rows"
        from importing_commit [OF idx(1) this] obtain new' where
          new': "rows = db_rows db @ new'" "adds now (version_text version) (db_rows db) new'"
          "version = None \<longrightarrow> new' = []" "length new' = idx"
          unfolding importing_def by auto
        have "new' \<noteq> []" using new(4) new'(4) False by auto
        then show ?thesis
          using assms im rows new' Inr False idx(2) by (intro that [of new']) (auto simp: insert_catalogue_def split: if_splits)
      qed
    qed
  qed
qed

text \<open>
  What the database keeps of every version: its first row, and one time of loading. The latest catalogue
  is served when its rows are all there.
\<close>

definition well_kept :: "db_row list \<Rightarrow> bool" where
  "well_kept rows \<longleftrightarrow>
     (\<forall>r \<in> set rows. (\<exists>f \<in> set rows. row_id f = ColText (entry_id (dr_version r) 0) \<and> dr_version f = dr_version r)
       \<and> (\<forall>r' \<in> set rows. dr_version r' = dr_version r \<longrightarrow> dr_loaded_at r' = dr_loaded_at r))"

definition held :: "db_row list \<Rightarrow> catalogue \<Rightarrow> bool" where
  "held rows cat \<longleftrightarrow> length (rows_of (cat_version cat) rows) = cat_count cat
     \<and> (\<forall>r \<in> set (rows_of (cat_version cat) rows). dr_loaded_at r = cat_loaded_at cat)"

definition served :: "catalogues \<Rightarrow> bool" where
  "served c \<longleftrightarrow> well_kept (db_rows (c_db c)) \<and> (\<forall>cat. latest c = Some cat \<longrightarrow> held (db_rows (c_db c)) cat)"

lemma new_version:
  assumes "well_kept old" "adds now v old new" "new \<noteq> []"
  shows "\<forall>r \<in> set old. dr_version r \<noteq> v"
proof
  fix r assume r: "r \<in> set old"
  show "dr_version r \<noteq> v"
  proof
    assume "dr_version r = v"
    with assms(1) r obtain f where "f \<in> set old" "row_id f = ColText (entry_id v 0)" unfolding well_kept_def by blast
    moreover have "ColText (entry_id v 0) \<in> row_id ` set new" "row_id ` set new \<inter> row_id ` set old = {}"
      using assms(2,3) by (auto simp: adds_def)
    ultimately show False by (metis disjoint_iff imageI)
  qed
qed

lemma well_kept_adds:
  assumes "well_kept old" "adds now v old new"
  shows "well_kept (old @ new)"
proof (cases "new = []")
  case False
  note o = new_version [OF assms False]
  have n: "\<forall>r \<in> set new. dr_version r = v \<and> dr_loaded_at r = millis now" using assms(2) by (simp add: adds_def)
  obtain f where f: "f \<in> set new" "row_id f = ColText (entry_id v 0)" using assms(2) False by (auto simp: adds_def)
  show ?thesis
    unfolding well_kept_def
  proof (intro ballI conjI impI)
    fix r assume r: "r \<in> set (old @ new)"
    show "\<exists>f \<in> set (old @ new). row_id f = ColText (entry_id (dr_version r) 0) \<and> dr_version f = dr_version r"
    proof (cases "r \<in> set old")
      case True
      then show ?thesis using assms(1) unfolding well_kept_def by (metis Un_iff set_append)
    next
      case False
      then have "dr_version r = v" using r n by auto
      with f n show ?thesis by (intro bexI [of _ f]) auto
    qed
    fix r' assume "r' \<in> set (old @ new)" "dr_version r' = dr_version r"
    then show "dr_loaded_at r' = dr_loaded_at r"
      using r o n assms(1) unfolding well_kept_def by (metis Un_iff set_append)
  qed
qed (use assms(1) in simp)

lemma held_adds:
  assumes "well_kept old" "adds now v old new" "held old cat" "new \<noteq> [] \<longrightarrow> cat_version cat \<noteq> v"
  shows "held (old @ new) cat"
proof -
  have "rows_of (cat_version cat) new = []" if "new \<noteq> []"
    using assms(2,4) that by (auto simp: rows_of_def adds_def filter_empty_conv)
  then have "rows_of (cat_version cat) (old @ new) = rows_of (cat_version cat) old"
    by (cases "new = []") (simp_all add: rows_of_def)
  then show ?thesis using assms(3) by (simp add: held_def)
qed

lemma held_new:
  assumes "well_kept old" "adds now v old new" "new \<noteq> []" "cat_version cat = v" "cat_count cat = length new"
    and "cat_loaded_at cat = millis now"
  shows "held (old @ new) cat"
proof -
  have "rows_of v old = []" using new_version [OF assms(1-3)] by (simp add: rows_of_def)
  moreover have "rows_of v new = new" using assms(2) by (simp add: rows_of_def adds_def filter_id_conv)
  ultimately show ?thesis using assms(2,4-6) by (simp add: held_def rows_of_def adds_def)
qed

lemma loaded_version_known:
  assumes "served c" "latest c = Some cat"
  shows "\<exists>r \<in> set (db_rows (c_db c)). dr_version r = cat_version cat"
proof -
  have "0 < cat_count cat" using assms(2) by (auto simp: latest_def loaded_def split: if_splits)
  moreover have "length (rows_of (cat_version cat) (db_rows (c_db c))) = cat_count cat"
    using assms by (simp add: served_def held_def)
  ultimately have "rows_of (cat_version cat) (db_rows (c_db c)) \<noteq> []" by auto
  then show ?thesis by (auto simp: rows_of_def filter_empty_conv)
qed

lemma download_frame [simp]:
  "c_db (snd (download rm c)) = c_db c" "c_catalogues (snd (download rm c)) = c_catalogues c"
  by (auto simp: download_def Let_def split: sum.split)

text \<open>
  The steps: a reload, whose version is not that of an older catalogue still in memory, and the next
  prune of the pool, which runs while the latest catalogue is younger than a day unless it is the one kept.
\<close>

definition goes_back :: "remote \<Rightarrow> catalogues \<Rightarrow> bool" where
  "goes_back rm c \<longleftrightarrow>
     (\<exists>cat \<in> set (if loaded c then butlast (c_catalogues c) else c_catalogues c).
        snd (fst (download rm c)) = Some (cat_version cat))"

definition prune_in_time :: "rat \<Rightarrow> catalogues \<Rightarrow> bool" where
  "prune_in_time now c \<longleftrightarrow>
     (case (c_prunes c, latest c) of
        (keep # ks, Some cat) \<Rightarrow> cat_version cat = keep \<or> millis now - day_millis < cat_loaded_at cat
      | _ \<Rightarrow> True)"

lemma update_serves:
  assumes "well_kept (db_rows (c_db c))" "held (db_rows (c_db c)) cat"
    and "\<forall>i \<in> set (c_catalogues c). cat_version i \<noteq> cat_version cat" "cat_loaded_at cat = millis now"
  shows "served (snd (on_catalogue_update now cat c))"
proof -
  let ?kept = "\<lambda>old. filter (\<lambda>i. cat_version i \<notin> set old) (c_catalogues c @ [cat])"
  have "cat_version cat \<notin> set (map cat_version (filter (\<lambda>i. cat_loaded_at i < millis now - day_millis) (c_catalogues c @ [cat])))"
    using assms(3,4) by (auto simp: day_millis_def)
  then have "c_catalogues (snd (on_catalogue_update now cat c)) \<noteq> []"
    "last (c_catalogues (snd (on_catalogue_update now cat c))) = cat" "c_db (snd (on_catalogue_update now cat c)) = c_db c"
    by (simp_all add: on_catalogue_update_def Let_def schedule_prune_def)
  then show ?thesis using assms(1,2) by (auto simp: served_def latest_def split: if_splits)
qed

lemma served_cong:
  "c_db c = c_db d \<Longrightarrow> c_catalogues c = c_catalogues d \<Longrightarrow> served c = served d"
  by (simp add: served_def latest_def loaded_def)

lemma insert_serves:
  assumes "served c" "insert_catalogue now version False items (c_db c) = (r, db)"
    and "\<forall>i \<in> set (if loaded c then butlast (c_catalogues c) else c_catalogues c). version \<noteq> Some (cat_version i)"
  shows "served (case r of Inr (Some cat) \<Rightarrow> snd (on_catalogue_update now cat (c\<lparr>c_db := db\<rparr>)) | _ \<Rightarrow> c\<lparr>c_db := db\<rparr>)"
proof -
  obtain new where new: "db_rows db = db_rows (c_db c) @ new" "adds now (version_text version) (db_rows (c_db c)) new"
    "r = Inr None \<or> version = None \<longrightarrow> new = []"
    "\<forall>cat. r = Inr (Some cat) \<longrightarrow> new \<noteq> [] \<and> cat_version cat = version_text version \<and> cat_count cat = length new
       \<and> cat_loaded_at cat = millis now"
    using assms(2) by (rule insert_catalogue_adds)
  have w: "well_kept (db_rows (c_db c))" using assms(1) by (simp add: served_def)
  have w': "well_kept (db_rows db)" using well_kept_adds [OF w new(2)] new(1) by simp
  have other: "cat_version L \<noteq> version_text version" if "latest c = Some L" "new \<noteq> []" for L
    using new_version [OF w new(2) that(2)] loaded_version_known [OF assms(1) that(1)] by auto
  have keep: "served (c\<lparr>c_db := db\<rparr>)"
    using w' held_adds [OF w new(2)] other assms(1) new(1) by (auto simp: served_def latest_def loaded_def)
  show ?thesis
  proof (cases "\<exists>cat. r = Inr (Some cat)")
    case True
    then obtain cat where r: "r = Inr (Some cat)" by blast
    have v: "version = Some (cat_version cat)"
    proof (cases version)
      case None
      then show ?thesis using r new(3,4) by simp
    qed (use new(4) r in \<open>simp add: version_text_def\<close>)
    have "\<forall>i \<in> set (c_catalogues c). cat_version i \<noteq> cat_version cat"
    proof (cases "loaded c")
      case True
      then have "latest c = Some (last (c_catalogues c))" by (simp add: latest_def)
      from other [OF this] have "cat_version (last (c_catalogues c)) \<noteq> cat_version cat" using new(4) r by simp
      moreover have "\<forall>i \<in> set (butlast (c_catalogues c)). cat_version i \<noteq> cat_version cat"
        using assms(3) True unfolding v by auto
      moreover have "set (c_catalogues c) \<subseteq> insert (last (c_catalogues c)) (set (butlast (c_catalogues c)))"
        using append_butlast_last_id [of "c_catalogues c"] True
        by (metis Un_insert_right empty_set list.simps(15) loaded_def order_refl set_append sup_bot_right)
      ultimately show ?thesis by blast
    next
      case False
      then show ?thesis using assms(3) unfolding v by auto
    qed
    moreover have n: "new \<noteq> []" "cat_version cat = version_text version" "cat_count cat = length new"
      "cat_loaded_at cat = millis now" using new(4) r by simp_all
    moreover have "held (db_rows db) cat" using held_new [OF w new(2) n] unfolding new(1) .
    ultimately have "served (snd (on_catalogue_update now cat (c\<lparr>c_db := db\<rparr>)))"
      using w' by (intro update_serves) simp_all
    then show ?thesis by (simp add: r)
  next
    case False
    then show ?thesis using keep by (auto split: sum.split option.split)
  qed
qed

lemma reload_serves:
  assumes "served c" "\<not> goes_back rm c"
  shows "served (snd (reload now rm c))"
proof (cases "reload_due now c")
  case True
  let ?c = "c\<lparr>c_last_check := now\<rparr>"
  have dl: "fst (download rm ?c) = fst (download rm c)"
    by (auto simp: download_def Let_def cached_version_def split: sum.split)
  obtain rr version c1 where d: "download rm ?c = ((rr, version), c1)" by (cases "download rm ?c") auto
  have c1: "c_db c1 = c_db c" "c_catalogues c1 = c_catalogues c"
    using download_frame [of rm ?c] d by simp_all
  have l: "loaded c1 = loaded c" "loaded ?c = loaded c" using c1 by (simp_all add: loaded_def)
  have s: "served c1" using assms(1) served_cong [of c1 c] c1 by simp
  have v: "snd (fst (download rm c)) = version" using d dl [symmetric] by simp
  then have nb: "\<forall>i \<in> set (if loaded c1 then butlast (c_catalogues c1) else c_catalogues c1). version \<noteq> Some (cat_version i)"
    using assms(2) l(1) c1(2) by (auto simp: goes_back_def)
  show ?thesis
  proof (cases "rr \<or> \<not> loaded c")
    case reload: True
    show ?thesis
    proof (cases "c_database_file c1")
      case None
      then show ?thesis using True d reload s l by (simp add: reload_def do_reload_def)
    next
      case (Some items)
      obtain r db where "insert_catalogue now version False items (c_db c1) = (r, db)"
        by (cases "insert_catalogue now version False items (c_db c1)")
      with insert_serves [OF s this nb] show ?thesis
        using True d reload l Some by (auto simp: reload_def do_reload_def split: sum.splits option.splits)
    qed
  next
    case False
    then show ?thesis using True d s l by (simp add: reload_def do_reload_def)
  qed
qed (use assms(1) in \<open>simp add: reload_def\<close>)

lemma prune_serves:
  assumes "served c" "prune_in_time now c"
  shows "served (run_prune now c)"
proof (cases "c_prunes c")
  case (Cons keep ks)
  let ?rows = "db_rows (c_db c)" and ?p = "\<lambda>r. \<not> (dr_loaded_at r \<le> millis now - day_millis \<and> dr_version r \<noteq> keep)"
  have w: "well_kept ?rows" using assms(1) by (simp add: served_def)
  have "well_kept (filter ?p ?rows)"
    unfolding well_kept_def
  proof (intro ballI conjI impI)
    fix r assume r: "r \<in> set (filter ?p ?rows)"
    then have rr: "r \<in> set ?rows" by simp
    with w obtain f where f: "f \<in> set ?rows" "row_id f = ColText (entry_id (dr_version r) 0)" "dr_version f = dr_version r"
      "dr_loaded_at f = dr_loaded_at r" unfolding well_kept_def by metis
    then show "\<exists>f \<in> set (filter ?p ?rows). row_id f = ColText (entry_id (dr_version r) 0) \<and> dr_version f = dr_version r"
      using r by (intro bexI [of _ f]) auto
    fix r' assume "r' \<in> set (filter ?p ?rows)" "dr_version r' = dr_version r"
    moreover from this have "r' \<in> set ?rows" by simp
    ultimately show "dr_loaded_at r' = dr_loaded_at r" using w rr unfolding well_kept_def by metis
  qed
  moreover have "held (filter ?p ?rows) cat" if L: "latest c = Some cat" for cat
  proof -
    have h: "held ?rows cat" using assms(1) L by (simp add: served_def)
    have "rows_of (cat_version cat) (filter ?p ?rows) = rows_of (cat_version cat) ?rows"
      unfolding rows_of_def filter_filter
    proof (rule filter_cong [OF refl])
      fix r assume "r \<in> set ?rows"
      then show "(?p r \<and> dr_version r = cat_version cat) = (dr_version r = cat_version cat)"
        using h assms(2) L Cons by (auto simp: held_def rows_of_def prune_in_time_def)
    qed
    with h show ?thesis by (simp add: held_def)
  qed
  ultimately show ?thesis
    using Cons by (auto simp: served_def run_prune_def prune_entries_def Let_def latest_def loaded_def)
qed (use assms(1) in \<open>simp add: run_prune_def\<close>)

lemma set_unique [simp]: "set (unique xs) = set xs"
  by (simp add: unique_def)

lemma stored_held:
  assumes "well_kept rows" "cat \<in> set (stored_catalogues rows)"
  shows "held rows cat"
proof -
  from assms(2) obtain v where v: "v \<in> dr_version ` set rows" "cat_version cat = v" "cat_count cat = length (rows_of v rows)"
    "cat_loaded_at cat = Max (dr_loaded_at ` set (rows_of v rows))"
  proof -
    from assms(2) obtain r where r: "r \<in> set rows" "cat = \<lparr>cat_count = length (rows_of (dr_version r) rows),
      cat_version = dr_version r, cat_meta = [], cat_loaded_at = Max (dr_loaded_at ` set (rows_of (dr_version r) rows))\<rparr>"
      by (auto simp: stored_catalogues_def)
    then show thesis by (intro that [of "dr_version r"]) simp_all
  qed
  have "dr_loaded_at ` set (rows_of v rows) = {dr_loaded_at r}" if "r \<in> set (rows_of v rows)" for r
    using that assms(1) unfolding well_kept_def rows_of_def by (auto simp: image_iff)
  then show ?thesis using v by (simp add: held_def)
qed

lemma start_serves:
  assumes "well_kept (db_rows (c_db c))" "\<not> lacks_meta (with_meta (c_db c) (stored_catalogues (db_rows (c_db c))))"
  shows "served (load_catalogues now c)"
proof (cases "stored_catalogues (db_rows (c_db c)) = []")
  case True
  have none: "served (c\<lparr>c_catalogues := [], c_db := db\<rparr>)" if "well_kept (db_rows db)" for db
    using that by (simp add: served_def latest_def loaded_def)
  have e: "with_meta (c_db c) (stored_catalogues (db_rows (c_db c))) = []" using True by (simp add: with_meta_def)
  show ?thesis
  proof (cases "\<exists>items v. c_database_file c = Some items \<and> c_version_file c = Some v")
    case True
    then obtain items v where f: "c_database_file c = Some items" "c_version_file c = Some v" by blast
    obtain r db where i: "insert_catalogue now (Some (strip v)) False items (c_db c) = (r, db)"
      by (cases "insert_catalogue now (Some (strip v)) False items (c_db c)")
    obtain new where new': "db_rows db = db_rows (c_db c) @ new" "adds now (version_text (Some (strip v))) (db_rows (c_db c)) new"
      "\<forall>cat. r = Inr (Some cat) \<longrightarrow> new \<noteq> [] \<and> cat_version cat = version_text (Some (strip v)) \<and> cat_count cat = length new
         \<and> cat_loaded_at cat = millis now"
      using i by (rule insert_catalogue_adds)
    note new = new' [unfolded version_text_def option.case]
    have w: "well_kept (db_rows db)" using well_kept_adds [OF assms(1) new(2)] new(1) by simp
    have "served (c\<lparr>c_db := db, c_catalogues := [cat]\<rparr>)" if "r = Inr (Some cat)" for cat
      using held_new [OF assms(1) new(2), of cat] new(1,3) that w by (auto simp: served_def latest_def loaded_def)
    then show ?thesis
      using e f i none [OF w] by (auto simp: load_catalogues_def Let_def lacks_meta_def split: sum.split option.split)
  next
    case False
    then show ?thesis
      using e none [OF assms(1)]
      by (auto simp: load_catalogues_def Let_def lacks_meta_def served_def latest_def loaded_def split: option.split)
  qed
next
  case False
  let ?cats = "stored_catalogues (db_rows (c_db c))"
  have "held (db_rows (c_db c)) (last ?cats)" using stored_held [OF assms(1)] False by simp
  then have "held (db_rows (c_db c)) (last (with_meta (c_db c) ?cats))" using False by (simp add: with_meta_def held_def)
  moreover have "with_meta (c_db c) ?cats \<noteq> []" using False by (simp add: with_meta_def)
  ultimately show ?thesis
    using assms by (auto simp: load_catalogues_def Let_def served_def latest_def schedule_prune_def split: if_splits)
qed

inductive catalogue_history :: "catalogues \<Rightarrow> bool" where
  start: "well_kept (db_rows (c_db c)) \<Longrightarrow> \<not> lacks_meta (with_meta (c_db c) (stored_catalogues (db_rows (c_db c))))
    \<Longrightarrow> catalogue_history (load_catalogues now c)"
| reload: "catalogue_history c \<Longrightarrow> \<not> goes_back rm c \<Longrightarrow> catalogue_history (snd (reload now rm c))"
| prune: "catalogue_history c \<Longrightarrow> prune_in_time now c \<Longrightarrow> catalogue_history (run_prune now c)"

lemma history_served: "catalogue_history c \<Longrightarrow> served c"
  by (induction rule: catalogue_history.induct) (rule start_serves reload_serves prune_serves; assumption)+


section \<open>The throttle\<close>

lemma do_reload_last_check [simp]: "c_last_check (snd (do_reload now rm c)) = c_last_check c"
proof -
  have d: "c_last_check (snd (download rm c)) = c_last_check c" by (auto simp: download_def Let_def split: sum.split)
  have "c_last_check (snd (on_catalogue_update now cat d)) = c_last_check d" for cat d
    by (simp add: on_catalogue_update_def Let_def schedule_prune_def)
  with d show ?thesis
    by (cases "download rm c") (auto simp: do_reload_def split: option.split sum.split prod.split)
qed

text \<open>The times at which a sequence of calls really checks\<close>

fun checks :: "(rat \<times> remote) list \<Rightarrow> catalogues \<Rightarrow> rat list" where
  "checks [] c = []"
| "checks ((now, rm) # calls) c = (if reload_due now c then [now] else []) @ checks calls (snd (reload now rm c))"

lemma checks_spaced:
  "sorted_wrt (\<lambda>a b. a + 60 \<le> b) (checks calls c) \<and> (\<forall>t \<in> set (checks calls c). c_last_check c + 60 \<le> t)"
proof (induction calls arbitrary: c)
  case (Cons call calls)
  obtain now rm where call: "call = (now, rm)" by (cases call)
  note IH = Cons.IH [of "snd (reload now rm c)"]
  show ?case
  proof (cases "reload_due now c")
    case True
    then have "c_last_check (snd (reload now rm c)) = now" "c_last_check c + 60 \<le> now"
      by (simp_all add: reload_def reload_due_def)
    then show ?thesis using IH True call by fastforce
  next
    case False
    then show ?thesis using IH call by (simp add: reload_def)
  qed
qed simp

lemma checks_cover:
  assumes "sorted (map fst calls)" "\<forall>call \<in> set calls. c_last_check c \<le> fst call" "call \<in> set calls"
  shows "\<exists>s \<in> insert (c_last_check c) (set (checks calls c)). fst call - 60 < s \<and> s \<le> fst call"
  using assms
proof (induction calls arbitrary: c)
  case (Cons first calls)
  obtain now rm where first: "first = (now, rm)" by (cases first)
  let ?c = "snd (reload now rm c)"
  have l: "c_last_check ?c = (if reload_due now c then now else c_last_check c)" by (simp add: reload_def)
  have now: "c_last_check c \<le> now" using Cons.prems(2) first by simp
  show ?case
  proof (cases "call = first")
    case True
    then show ?thesis
      using first now by (cases "reload_due now c") (auto simp: reload_due_def)
  next
    case False
    have "\<forall>call \<in> set calls. c_last_check ?c \<le> fst call" using Cons.prems(1,2) first l by auto
    from Cons.IH [OF _ this] False Cons.prems(1,3) obtain s where
      "s \<in> insert (c_last_check ?c) (set (checks calls ?c))" "fst call - 60 < s \<and> s \<le> fst call" by auto
    then show ?thesis using l first by (intro bexI [of _ s]) (auto split: if_splits)
  qed
qed simp

text \<open>
  Claim C32. The throttle of the reload, for calls at any times: two checks of the server are at least a minute apart,
  and every call is covered: it checks itself, or there was a check less than a minute before it.
\<close>

theorem reload_throttled:
  assumes "sorted (map fst calls)" and "\<forall>call \<in> set calls. c_last_check c \<le> fst call"
  shows "sorted_wrt (\<lambda>a b. a + 60 \<le> b) (checks calls c)
    \<and> (\<forall>call \<in> set calls. \<exists>s \<in> insert (c_last_check c) (set (checks calls c)). fst call - 60 < s \<and> s \<le> fst call)"
  using checks_spaced [of calls c] checks_cover [OF assms] by blast

section \<open>Examples\<close>

definition no_server :: remote where
  "no_server = \<lparr>rm_version = Inl (External ''down''), rm_database = Inl (External ''down'')\<rparr>"

definition empty_catalogues :: catalogues where
  "empty_catalogues = \<lparr>c_db = \<lparr>db_rows = [], db_metas = []\<rparr>, c_catalogues = [], c_database_file = None,
     c_version_file = None, c_last_check = 0, c_prunes = [], c_sent = []\<rparr>"

definition raw_film :: "string \<Rightarrow> raw_entry" where
  "raw_film t = \<lparr>r_texts = [(''title'', t), (''author'', ''aron''), (''language'', ''en'')], r_lists = [(''audioTypes'', RList [''Atmos''])],
     r_numbers = [(''year'', RNum 2020)], r_filters = [], r_collection = None\<rparr>"

definition server_with :: "string \<Rightarrow> contents \<Rightarrow> remote" where
  "server_with v items = \<lparr>rm_version = Inr (200, v), rm_database = Inr (200, items)\<rparr>"

lemma reload_throttled_witness:
  "checks [(100, no_server), (130, no_server), (170, no_server)] empty_catalogues = [100, 170]
   \<and> sorted_wrt (\<lambda>a b. a + 60 \<le> b) (checks [(100, no_server), (130, no_server), (170, no_server)] empty_catalogues)"
proof -
  have "sorted (map fst [(100 :: rat, no_server), (130, no_server), (170, no_server)])"
    "\<forall>call \<in> set [(100 :: rat, no_server), (130, no_server), (170, no_server)]. c_last_check empty_catalogues \<le> fst call"
    by (simp_all add: empty_catalogues_def)
  from reload_throttled [OF this] show ?thesis by (intro conjI) (code_simp, blast)
qed



text \<open>
  When the newest catalogue of the database lacks a kind of meta value and the file on disk is of another version,
  the start takes the meta values, the count and the version from the file but not its entries: the latest catalogue
  has none in the table.
\<close>

lemma meta_reload_hides_entries:
  "let c = load_catalogues 5000 (empty_catalogues\<lparr>c_db := \<lparr>db_rows = [row_for stored_example ''v1'' 0], db_metas = []\<rparr>,
       c_database_file := Some [Inr (raw_film ''Heat'')], c_version_file := Some ''v2''\<rparr>)
   in map_option cat_version (latest c) = Some ''v2'' \<and> map_option cat_count (latest c) = Some 1
      \<and> rows_of ''v2'' (db_rows (c_db c)) = []"
  by code_simp

text \<open>A version that is published again while an older catalogue of it is in memory is dropped as soon as it is loaded.\<close>

lemma republished_version_dropped:
  "let old = \<lparr>cat_count = 1, cat_version = ''v1'', cat_meta = [], cat_loaded_at = 0\<rparr>;
       newer = old\<lparr>cat_version := ''v2'', cat_loaded_at := 100000000\<rparr>;
       c = snd (on_catalogue_update 200000 (old\<lparr>cat_loaded_at := 200000000\<rparr>) (empty_catalogues\<lparr>c_catalogues := [old, newer]\<rparr>))
   in c_catalogues c = []"
  by code_simp

end
