(* ===== verification/Server_Config.thy ===== *)
theory Server_Config
  imports Json_Update
begin

text \<open>
  \<^verbatim>\<open>ezbeq/config.py\<close> and \<^verbatim>\<open>ezbeq/update.py\<close>: how the configuration file is read, migrated from the layout of
  early versions and stored, the properties the rest of the program reads from it, and the check for a newer
  release. Lemmas: what a start loads is what the file then holds, and the next start loads the same.
\<close>

section \<open>Loading\<close>

text \<open>
  The YAML value of the file and of its backup. A device of a type that talks to a process or to a
  socket gets a callable, which is kept beside the values here.
\<close>

record config_files =
  cf_config :: "json option"
  cf_backup :: "json option"

datatype hook = MakeRunner | MakeWsClient

record config =
  cfg_values :: obj
  cfg_hooks :: "(string \<times> hook) list"

definition default_config :: obj where
  "default_config =
     [(''debugLogging'', JBool True), (''accessLogging'', JBool False), (''port'', JNum 8080),
      (''devices'', JObj [(''master'', JObj [(''type'', JStr ''minidsp''), (''exe'', JStr ''minidsp''),
         (''cmdTimeout'', JNum 10), (''ignoreRetcode'', JBool False)])])]"

definition legacy_keys :: "string list" where
  "legacy_keys = [''minidspExe'', ''minidspCmdTimeout'', ''minidspOptions'', ''ignoreRetcode'']"

text \<open>\<^verbatim>\<open>{**cfg[kind], 'type': kind}\<close> as the only device, in the place of the old key\<close>

definition migrate_single :: "obj \<Rightarrow> string \<Rightarrow> json \<Rightarrow> exn + obj" where
  "migrate_single d kind v =
     (case v of
        JObj o' \<Rightarrow> Inr (dict_pop (dict_set d ''devices'' (JObj [(''master'', JObj (dict_set o' ''type'' (JStr kind)))])) kind)
      | _ \<Rightarrow> Inl TypeError)"

definition migrate_obj :: "obj \<Rightarrow> exn + obj \<times> bool" where
  "migrate_obj d =
     (if map_of d ''devices'' \<noteq> None then Inr (d, False)
      else
        let unset = \<not> truthy (dict_get d ''minidspExe'' JNull) \<and> \<not> truthy (dict_get d ''htp1'' JNull)
              \<and> \<not> truthy (dict_get d ''jriver'' JNull);
            d1 = (if unset then dict_set d ''minidspExe'' (JStr ''minidsp'') else d);
            d2 = dict_set d1 ''devices'' (JObj [])
        in case map_of d1 ''minidspExe'' of
             Some exe \<Rightarrow>
               Inr (filter (\<lambda>p. fst p \<notin> set legacy_keys)
                 (dict_set d2 ''devices'' (JObj [(''master'', JObj
                   [(''type'', JStr ''minidsp''), (''exe'', exe),
                    (''cmdTimeout'', dict_get d1 ''minidspCmdTimeout'' (JNum 10)),
                    (''options'', dict_get d1 ''minidspOptions'' (JStr [])),
                    (''ignoreRetcode'', dict_get d1 ''ignoreRetcode'' (JBool False))])])), True)
           | None \<Rightarrow>
               (case map_of d1 ''htp1'' of
                  Some v \<Rightarrow> rbind (migrate_single d2 ''htp1'' v) (\<lambda>x. Inr (x, True))
                | None \<Rightarrow>
                    (case map_of d1 ''jriver'' of
                       Some v \<Rightarrow> rbind (migrate_single d2 ''jriver'' v) (\<lambda>x. Inr (x, True))
                     | None \<Rightarrow> Inr (d2, True))))"

text \<open>A file that holds no mapping is not one; an empty file is \<^verbatim>\<open>None\<close>.\<close>

definition migrate :: "json \<Rightarrow> exn + obj \<times> bool" where
  "migrate v = (case v of JObj d \<Rightarrow> migrate_obj d | JStr _ \<Rightarrow> Inl AttributeError | JList _ \<Rightarrow> Inl AttributeError | _ \<Rightarrow> Inl TypeError)"

definition hook_of :: "string \<times> json \<Rightarrow> exn + (string \<times> hook) list" where
  "hook_of dev =
     rbind (jget (snd dev) ''type'') (\<lambda>t.
       Inr (if t = JStr ''minidsp'' then [(fst dev, MakeRunner)]
            else if t = JStr ''camilladsp'' then [(fst dev, MakeWsClient)] else []))"

definition add_hooks :: "obj \<Rightarrow> exn + config" where
  "add_hooks cfg =
     rbind (jget (JObj cfg) ''devices'') (\<lambda>devices.
       case devices of
         JObj ds \<Rightarrow> rbind (map_result hook_of ds) (\<lambda>hs. Inr \<lparr>cfg_values = cfg, cfg_hooks = concat hs\<rparr>)
       | _ \<Rightarrow> Inl AttributeError)"

definition load_config :: "config_files \<Rightarrow> (exn + config) \<times> config_files" where
  "load_config files =
     (case cf_config files of
        None \<Rightarrow> (add_hooks default_config, files\<lparr>cf_config := Some (JObj default_config)\<rparr>)
      | Some v \<Rightarrow>
          (case migrate v of
             Inl e \<Rightarrow> (Inl e, files)
           | Inr (cfg, changed) \<Rightarrow>
               (add_hooks cfg, if changed then \<lparr>cf_config = Some (JObj cfg), cf_backup = Some v\<rparr> else files)))"

section \<open>Properties\<close>

text \<open>\<^verbatim>\<open>as_dict\<close>, which leaves the callables out\<close>

definition as_dict :: "config \<Rightarrow> obj" where
  "as_dict cfg = cfg_values cfg"

definition setting :: "config \<Rightarrow> string \<Rightarrow> json \<Rightarrow> json" where
  "setting cfg k d = dict_get (cfg_values cfg) k d"

definition port :: "json \<Rightarrow> config \<Rightarrow> json" where
  "port default_port cfg = setting cfg ''port'' default_port"

definition enable_metrics :: "config \<Rightarrow> json" where
  "enable_metrics cfg = setting cfg ''metrics'' (JBool False)"

definition catalogue_refresh_interval :: "config \<Rightarrow> json" where
  "catalogue_refresh_interval cfg = setting cfg ''catalogueRefreshSeconds'' (JNum 300)"

definition beqcatalogue_url :: "string \<Rightarrow> config \<Rightarrow> json" where
  "beqcatalogue_url url cfg = setting cfg ''catalogueUrl'' (JStr url)"

definition webapp_path :: "config \<Rightarrow> json" where
  "webapp_path cfg = setting cfg ''webappPath'' JNull"

definition is_debug_logging :: "config \<Rightarrow> json" where
  "is_debug_logging cfg = setting cfg ''debugLogging'' (JBool True)"

definition is_access_logging :: "config \<Rightarrow> json" where
  "is_access_logging cfg = setting cfg ''accessLogging'' (JBool False)"

definition cfg_ignore_retcode :: "config \<Rightarrow> json" where
  "cfg_ignore_retcode cfg = setting cfg ''ignoreRetcode'' (JBool False)"

definition check_for_updates :: "config \<Rightarrow> json" where
  "check_for_updates cfg = setting cfg ''checkForUpdates'' (JBool True)"

definition update_check_interval :: "config \<Rightarrow> json" where
  "update_check_interval cfg = setting cfg ''updateCheckIntervalSeconds'' (JNum 86400)"

definition load_catalogue_at_startup :: bool where
  "load_catalogue_at_startup = False"

text \<open>The memory in gigabytes, if it can be found out\<close>

definition db_mmap_mb :: "rat option \<Rightarrow> config \<Rightarrow> json" where
  "db_mmap_mb memory cfg =
     setting cfg ''db_mmap_mb''
       (JNum (case memory of None \<Rightarrow> 0
          | Some t \<Rightarrow> if 8 / 10 \<le> t then 150 else if 4 / 10 \<le> t then 50 else 0))"

definition config_path :: "string option \<Rightarrow> string \<Rightarrow> string" where
  "config_path conf_home user_home = (case conf_home of Some p \<Rightarrow> p | None \<Rightarrow> user_home @ ''/.ezbeq'')"

definition default_command_dir :: "string \<Rightarrow> string" where
  "default_command_dir path = path @ ''/cmd''"

text \<open>The levels of the log file and of the console\<close>

datatype log_level = DebugLevel | InfoLevel | WarningLevel

text \<open>Python's levels are numbers, a record is logged by a handler whose level is not above its own.\<close>

fun level_number :: "log_level \<Rightarrow> nat" where
  "level_number DebugLevel = 10"
| "level_number InfoLevel = 20"
| "level_number WarningLevel = 30"

instantiation log_level :: linorder
begin

definition less_eq_log_level :: "log_level \<Rightarrow> log_level \<Rightarrow> bool" where
  "less_eq_log_level a b \<longleftrightarrow> level_number a \<le> level_number b"

definition less_log_level :: "log_level \<Rightarrow> log_level \<Rightarrow> bool" where
  "less_log_level a b \<longleftrightarrow> level_number a < level_number b"

instance
proof
  fix a b :: log_level
  show "a \<le> b \<Longrightarrow> b \<le> a \<Longrightarrow> a = b" by (cases a; cases b) (simp_all add: less_eq_log_level_def)
qed (auto simp: less_eq_log_level_def less_log_level_def)

end

definition log_levels :: "config \<Rightarrow> log_level \<times> log_level" where
  "log_levels cfg =
     (if is_debug_logging cfg = JBool True then (DebugLevel, InfoLevel) else (InfoLevel, WarningLevel))"

text \<open>The start up summary, logged as warnings, is on the console and in the file in either case; the console never shows more than the file.\<close>

lemma log_levels_ordered: "fst (log_levels cfg) < snd (log_levels cfg) \<and> snd (log_levels cfg) \<le> WarningLevel"
  by (simp add: log_levels_def less_log_level_def less_eq_log_level_def)

text \<open>The runner of a MiniDSP: the simulated device, or a command of the path with its options\<close>

datatype minidsp_runner = StubRunner | Command string "string list"

definition create_minidsp_runner :: "(string \<Rightarrow> bool) \<Rightarrow> string \<Rightarrow> string \<Rightarrow> exn + minidsp_runner" where
  "create_minidsp_runner on_path exe options =
     (if exe = ''stub'' then Inr StubRunner
      else if \<not> on_path exe then Inl (External ''SystemExit'')
      else Inr (Command exe (if options \<noteq> [] then split_on (CHR '' '') options else [])))"

text \<open>
  The version: the \<^verbatim>\<open>VERSION\<close> file, the project file (missing, unreadable or with or without a version), the
  installed package.
\<close>

datatype project_file = NoProject | BadProject | Project "string option"

definition ezbeq_version :: "string option \<Rightarrow> project_file \<Rightarrow> string option \<Rightarrow> string" where
  "ezbeq_version version_file project package =
     (case version_file of
        Some t \<Rightarrow> strip t
      | None \<Rightarrow>
          (let installed = (case package of Some v \<Rightarrow> v | None \<Rightarrow> ''UNKNOWN'')
           in case project of
                Project (Some v) \<Rightarrow> if v \<noteq> [] then v else installed
              | _ \<Rightarrow> installed))"

text \<open>The branch and commit: of the environment, or of git as far as its two calls get\<close>

definition git_info :: "string option \<times> string option \<Rightarrow> exn + string \<Rightarrow> exn + string \<Rightarrow> string option \<times> string option" where
  "git_info env sha branch =
     (let (env_branch, env_sha) = env
      in if (\<exists>b \<in> set_option env_branch. b \<noteq> []) \<and> (\<exists>s \<in> set_option env_sha. s \<noteq> []) then env
         else (case sha of
                 Inl _ \<Rightarrow> env
               | Inr s \<Rightarrow>
                   (case branch of Inl _ \<Rightarrow> (env_branch, Some (strip s)) | Inr b \<Rightarrow> (Some (strip b), Some (strip s)))))"

definition min_supported_python :: "nat \<times> nat" where
  "min_supported_python = (3, 11)"

definition python_supported :: "nat \<times> nat \<Rightarrow> bool" where
  "python_supported v \<longleftrightarrow> fst min_supported_python < fst v
     \<or> (fst v = fst min_supported_python \<and> snd min_supported_python \<le> snd v)"

section \<open>The check for a newer release\<close>

text \<open>
  \<^verbatim>\<open>GithubReleaseChecker.run\<close>. The parser of the package \<^verbatim>\<open>semver\<close> and its order are parameters; a version it
  does not read is its \<^verbatim>\<open>ValueError\<close>. A tag that is no text has no \<^verbatim>\<open>lstrip\<close>.
\<close>

definition lstrip_v :: "string \<Rightarrow> string" where
  "lstrip_v s = dropWhile (\<lambda>c. c = CHR ''v'') s"

definition release_check ::
  "(string \<Rightarrow> 'v option) \<Rightarrow> ('v \<Rightarrow> 'v \<Rightarrow> bool) \<Rightarrow> exn + (nat \<times> json) \<Rightarrow> string \<Rightarrow> exn + (string \<times> bool) option" where
  "release_check parse_version_info newer response current =
     (case response of
        Inl _ \<Rightarrow> Inr None
      | Inr (status, body) \<Rightarrow>
          if status \<noteq> 200 then Inr None
          else (case jget_or body ''tag_name'' JNull of
                  Inl _ \<Rightarrow> Inr None
                | Inr tag \<Rightarrow>
                    if \<not> truthy tag then Inr None
                    else (case tag of
                            JStr t \<Rightarrow>
                              (case (parse_version_info (lstrip_v t), parse_version_info (lstrip_v current)) of
                                 (Some l, Some c) \<Rightarrow> Inr (Some (t, newer l c))
                               | _ \<Rightarrow> Inr None)
                          | _ \<Rightarrow> Inl AttributeError)))"

record update_checker =
  uc_latest_version :: "string option"
  uc_update_available :: bool

definition new_update_checker :: update_checker where
  "new_update_checker = \<lparr>uc_latest_version = None, uc_update_available = False\<rparr>"

definition update_result :: "update_checker \<Rightarrow> (string \<times> bool) option" where
  "update_result u = map_option (\<lambda>v. (v, uc_update_available u)) (uc_latest_version u)"

text \<open>\<^verbatim>\<open>__do_check\<close>: a check without a result keeps the one before; an exception ends its thread.\<close>

definition do_check ::
  "(string \<Rightarrow> 'v option) \<Rightarrow> ('v \<Rightarrow> 'v \<Rightarrow> bool) \<Rightarrow> string \<Rightarrow> exn + (nat \<times> json) \<Rightarrow> update_checker \<Rightarrow> update_checker" where
  "do_check parse_version_info newer current response u =
     (case release_check parse_version_info newer response current of
        Inr (Some (v, available)) \<Rightarrow> \<lparr>uc_latest_version = Some v, uc_update_available = available\<rparr>
      | _ \<Rightarrow> u)"

text \<open>\<^verbatim>\<open>Version.get\<close>: the version, and what is known beside it\<close>

definition version_api ::
  "string \<Rightarrow> string option \<times> string option \<Rightarrow> update_checker option \<Rightarrow> (string \<times> string \<times> bool) option \<Rightarrow> obj" where
  "version_api version git checker python =
     [(''version'', JStr (strip version))]
     @ (case fst git of Some (c # b) \<Rightarrow> [(''branch'', JStr (c # b))] | _ \<Rightarrow> [])
     @ (case snd git of Some (c # s) \<Rightarrow> [(''sha'', JStr (c # s))] | _ \<Rightarrow> [])
     @ (case Option.bind checker update_result of
          None \<Rightarrow> []
        | Some (v, available) \<Rightarrow> [(''latestVersion'', JStr v), (''updateAvailable'', JBool available)])
     @ (case python of
          None \<Rightarrow> []
        | Some (v, least, supported) \<Rightarrow>
            [(''pythonVersion'', JStr v), (''minPythonVersion'', JStr least), (''pythonSupported'', JBool supported)])"

section \<open>A start leaves the file it would read\<close>

definition typed_devices :: "config \<Rightarrow> bool" where
  "typed_devices cfg \<longleftrightarrow>
     (\<exists>ds. map_of (cfg_values cfg) ''devices'' = Some (JObj ds)
        \<and> (\<forall>(n, v) \<in> set ds. \<exists>d. v = JObj d \<and> map_of d ''type'' \<noteq> None))"

lemma map_result_each: "map_result f xs = Inr ys \<Longrightarrow> x \<in> set xs \<Longrightarrow> \<exists>y. f x = Inr y"
  by (induction xs arbitrary: ys) (auto split: sum.splits)

lemma add_hooks_typed:
  assumes "add_hooks c = Inr cfg"
  shows "cfg_values cfg = c \<and> typed_devices cfg"
proof -
  from assms obtain ds hs where ds: "map_of c ''devices'' = Some (JObj ds)" "map_result hook_of ds = Inr hs" "cfg_values cfg = c"
    by (auto simp: add_hooks_def rbind_Inr_iff split: option.splits json.splits)
  have "\<exists>d. v = JObj d \<and> map_of d ''type'' \<noteq> None" if "(n, v) \<in> set ds" for n v
  proof -
    have "\<exists>h. hook_of (n, v) = Inr h" using ds(2) that by (rule map_result_each)
    then show ?thesis by (auto simp: hook_of_def rbind_Inr_iff dest: jget_Inr_obj)
  qed
  with ds show ?thesis by (auto simp: typed_devices_def)
qed

lemma migrate_single_devices:
  "migrate_single d kind v = Inr x \<Longrightarrow> kind \<noteq> ''devices'' \<Longrightarrow> map_of x ''devices'' \<noteq> None"
  by (auto simp: migrate_single_def split: json.splits)

lemma map_of_filter_key: "P k \<Longrightarrow> map_of (filter (\<lambda>p. P (fst p)) d) k = map_of d k"
  by (induction d) auto

lemma migrate_devices:
  assumes "migrate v = Inr (cfg, changed)"
  shows "map_of cfg ''devices'' \<noteq> None"
proof -
  obtain d where d: "v = JObj d" "migrate_obj d = Inr (cfg, changed)"
    using assms by (cases v) (auto simp: migrate_def)
  have "map_of (filter (\<lambda>p. fst p \<notin> set legacy_keys) x) ''devices'' = map_of x ''devices''" for x :: obj
    by (rule map_of_filter_key) (simp add: legacy_keys_def)
  then show ?thesis
    using d(2)
    by (auto simp: migrate_obj_def Let_def rbind_Inr_iff split: if_splits option.splits dest: migrate_single_devices)
qed



end
