(* ===== verification/Level_Broadcast.thy ===== *)
theory Level_Broadcast
  imports Ws_Server Minidsp_Stub Camilla_Dsp
begin

text \<open>
  How levels reach the web socket clients: the client of \<^verbatim>\<open>minidsp-rs\<close> in \<^verbatim>\<open>ezbeq/minidsp.py\<close>, \<^verbatim>\<open>start_broadcast_levels\<close>
  of the MiniDSP and CamillaDSP devices, which send on a timer, and the web socket server of \<^theory_text>\<open>Ws_Server\<close> around them.
  A timer that was set is a count of the calls the reactor still has to make. Lemmas: as long as no subscriber is lost the
  timer never stops and every subscriber is sent the levels at every tick; when half of the subscribers are lost it stops for the others; a
  subscription starts a timer of its own, so the ticks multiply; without a DSP the timer of a CamillaDSP stops.
\<close>

section \<open>The client of minidsp-rs\<close>

text \<open>
  \<^verbatim>\<open>MinidspRsClientFactory\<close>: the open connections, those on which a send raises \<^verbatim>\<open>Disconnected\<close>, and what was sent. The factory
  connects again by itself, which opens a new connection.
\<close>

record rs_client =
  rs_url :: string
  rs_conns :: "nat list"
  rs_lost :: "nat list"
  rs_sent :: "(nat \<times> string) list"

definition MinidspRsClient :: "string \<Rightarrow> string \<Rightarrow> rs_client" where
  "MinidspRsClient ip device_id =
     \<lparr>rs_url = ''ws://'' @ ip @ ''/devices/'' @ device_id @ ''?levels=true&poll=true'', rs_conns = [], rs_lost = [], rs_sent = []\<rparr>"

text \<open>The client a configuration asks for\<close>

definition ws_client_of :: "(json \<Rightarrow> string) \<Rightarrow> json \<Rightarrow> exn + rs_client option" where
  "ws_client_of str cfg =
     rbind (jget_or cfg ''wsDeviceId'' JNull) (\<lambda>device_id.
     rbind (jget_or cfg ''wsIp'' (JStr ''127.0.0.1:5380'')) (\<lambda>ip.
       Inr (if device_id \<noteq> JNull \<and> truthy ip then Some (MinidspRsClient (str ip) (str device_id)) else None)))"

definition rs_register :: "nat \<Rightarrow> rs_client \<Rightarrow> rs_client" where
  "rs_register c w = (if c \<notin> set (rs_conns w) then w\<lparr>rs_conns := rs_conns w @ [c]\<rparr> else w)"

definition rs_unregister :: "nat \<Rightarrow> rs_client \<Rightarrow> rs_client" where
  "rs_unregister c w = (if c \<in> set (rs_conns w) then w\<lparr>rs_conns := remove1 c (rs_conns w)\<rparr> else w)"

fun rs_send_each :: "string \<Rightarrow> nat list \<Rightarrow> rs_client \<Rightarrow> nat list \<times> rs_client" where
  "rs_send_each msg [] w = ([], w)"
| "rs_send_each msg (c # cs) w =
     (if c \<in> set (rs_lost w) then (case rs_send_each msg cs w of (bad, w') \<Rightarrow> (c # bad, w'))
      else rs_send_each msg cs (w\<lparr>rs_sent := rs_sent w @ [(c, msg)]\<rparr>))"

definition rs_broadcast :: "string \<Rightarrow> (rs_client, unit) act" where
  "rs_broadcast msg w =
     (if rs_conns w = [] then (Inl (ValueError (''No devices connected, ignoring '' @ msg)), w)
      else (case rs_send_each msg (rs_conns w) w of (bad, w') \<Rightarrow> (Inr (), fold rs_unregister bad w')))"

section \<open>The devices and their timers\<close>

text \<open>The device, the timers it has running and its client, as the rest of the program around the web socket server\<close>

record 'w level_source =
  ls_device :: "'w minidsp_dev"
  ls_timers :: nat
  ls_client :: "rs_client option"

text \<open>\<^verbatim>\<open>Minidsp.start_broadcast_levels\<close>: with a client the levels come from its messages instead.\<close>

definition start_broadcast_levels :: "('w level_source, unit) act" where
  "start_broadcast_levels w =
     (Inr (), if ls_client w = None then w\<lparr>ls_timers := Suc (ls_timers w)\<rparr> else w)"

text \<open>The call of one timer: the levels are read and sent, and the next call is scheduled if that succeeds.\<close>

definition levels_tick :: "'w minidsp_cfg \<Rightarrow> ('c, 'w level_source) ws_factory \<Rightarrow> ('c, 'w level_source) ws_factory" where
  "levels_tick cfg s =
     (case levels cfg (ls_device (rest s)) of
        (lv, d) \<Rightarrow>
          (case ws_levels (m_name cfg) lv (s\<lparr>rest := (rest s)\<lparr>ls_device := d, ls_timers := ls_timers (rest s) - 1\<rparr>\<rparr>) of
             (again, s') \<Rightarrow>
               (if again then s'\<lparr>rest := (rest s')\<lparr>ls_timers := Suc (ls_timers (rest s'))\<rparr>\<rparr> else s')))"

text \<open>
  \<^verbatim>\<open>MinidspRsProtocol.onMessage\<close>. \<open>BadUtf8\<close> is a text that is not valid UTF-8, whose exception goes to the library; every other failure is
  logged, and what the handler did before it stays.
\<close>

datatype rs_payload = Binary nat | BadUtf8 | Utf8 string

definition rs_on_message ::
  "'w minidsp_cfg \<Rightarrow> (string \<Rightarrow> exn + json) \<Rightarrow> rs_payload \<Rightarrow> (('c, 'w level_source) ws_factory, unit) act" where
  "rs_on_message cfg json_text payload s =
     (case payload of
        Binary n \<Rightarrow> (Inr (), s)
      | BadUtf8 \<Rightarrow> (Inl (ValueError ''invalid utf-8''), s)
      | Utf8 t \<Rightarrow>
          (case json_text t of
             Inl e \<Rightarrow> (Inr (), s)
           | Inr msg \<Rightarrow>
               (case on_ws_message cfg msg (ls_device (rest s)) of
                  (r, d) \<Rightarrow>
                    (let s' = s\<lparr>rest := (rest s)\<lparr>ls_device := d\<rparr>\<rparr> in
                     (Inr (), case r of Inr (Some lv) \<Rightarrow> snd (ws_levels (m_name cfg) lv s') | _ \<Rightarrow> s')))))"

text \<open>The timer of a CamillaDSP: a request that raises is reported by the reactor, and nothing is scheduled.\<close>

record cam_level_source =
  cl_device :: cam_dev
  cl_timers :: nat

definition cam_start_broadcast_levels :: "(cam_level_source, unit) act" where
  "cam_start_broadcast_levels w = (Inr (), w\<lparr>cl_timers := Suc (cl_timers w)\<rparr>)"

definition cam_levels_tick ::
  "cam_cfg \<Rightarrow> ('c, cam_level_source) ws_factory \<Rightarrow> ('c, cam_level_source) ws_factory" where
  "cam_levels_tick cfg s =
     (case request_levels (cl_device (rest s)) of
        (r, d) \<Rightarrow>
          (let s' = s\<lparr>rest := \<lparr>cl_device = d, cl_timers = cl_timers (rest s) - 1\<rparr>\<rparr> in
           if r = Inr () \<and> has_levels_client (cam_name cfg) s'
           then s'\<lparr>rest := (rest s')\<lparr>cl_timers := Suc (cl_timers (rest s'))\<rparr>\<rparr> else s'))"

section \<open>Runs in which no subscriber is lost\<close>

definition levels_received :: "'c \<Rightarrow> ('c, 'w) ws_factory \<Rightarrow> nat" where
  "levels_received c s =
     length (filter (\<lambda>(b, m). b = c \<and> jget m ''message'' = Inr (JStr ''Levels'')) (sent s))"

text \<open>Every client in a list of the server, and the state in which none of them is lost\<close>

definition listed :: "('c, 'w) ws_factory \<Rightarrow> 'c set" where
  "listed s = set (clients s) \<union> set (concat (level_lists s))"

definition calm :: "('c, 'w) ws_factory \<Rightarrow> bool" where
  "calm s \<longleftrightarrow> listed s \<inter> set (down s) = {}"

text \<open>No levels provider, of this device or of another, stops a timer.\<close>

definition keeps_timers :: "('c, 'w level_source) ws_factory \<Rightarrow> bool" where
  "keeps_timers s \<longleftrightarrow> (\<forall>f \<in> snd ` set (levels_provider s). \<forall>w. ls_timers w \<le> ls_timers (snd (f w)))"

text \<open>
  What can happen around a client \<open>c\<close> of the levels while no client is lost without closing: the timer is due, clients come, send messages and
  close, the program broadcasts, sends the levels of any device or works on the device. \<open>k\<close> counts the calls of the timer.
\<close>

inductive level_run ::
  "'w minidsp_cfg \<Rightarrow> 'c \<Rightarrow> 'c set \<Rightarrow> ('c, 'w level_source) ws_factory \<Rightarrow> 'c set \<Rightarrow> ('c, 'w level_source) ws_factory \<Rightarrow> nat \<Rightarrow> bool"
  for cfg c opened0 s0 where
  start: "level_run cfg c opened0 s0 opened0 s0 0"
| tick: "level_run cfg c opened0 s0 opened s k \<Longrightarrow> 0 < ls_timers (rest s) \<Longrightarrow>
    level_run cfg c opened0 s0 opened (levels_tick cfg s) (Suc k)"
| opens: "level_run cfg c opened0 s0 opened s k \<Longrightarrow> b \<notin> opened \<Longrightarrow> b \<notin> set (down s) \<Longrightarrow>
    level_run cfg c opened0 s0 (insert b opened) (snd (register b s)) k"
| message: "level_run cfg c opened0 s0 opened s k \<Longrightarrow> b \<in> opened \<Longrightarrow> b \<notin> set (down s) \<Longrightarrow>
    level_run cfg c opened0 s0 opened (on_message b t s) k"
| closes: "level_run cfg c opened0 s0 opened s k \<Longrightarrow> b \<noteq> c \<Longrightarrow>
    level_run cfg c opened0 s0 opened ((unregister b s)\<lparr>down := b # down s\<rparr>) k"
| broadcast: "level_run cfg c opened0 s0 opened s k \<Longrightarrow> level_run cfg c opened0 s0 opened (ws_broadcast msg s) k"
| levels: "level_run cfg c opened0 s0 opened s k \<Longrightarrow> level_run cfg c opened0 s0 opened (snd (ws_levels d lv s)) k"
| device: "level_run cfg c opened0 s0 opened s k \<Longrightarrow>
    level_run cfg c opened0 s0 opened (s\<lparr>rest := (rest s)\<lparr>ls_device := dev\<rparr>\<rparr>) k"

text \<open>The invariant: \<open>c\<close> is a subscriber, nobody is lost and a timer is running.\<close>

definition serving :: "string \<Rightarrow> 'c \<Rightarrow> 'c set \<Rightarrow> ('c, 'w level_source) ws_factory \<Rightarrow> bool" where
  "serving name c opened s \<longleftrightarrow> ws_ok opened s \<and> c \<in> set (dict_get (levels_client s) name []) \<and> calm s
     \<and> 0 < ls_timers (rest s) \<and> keeps_timers s"

section \<open>Lemmas\<close>

lemma listed_subscribers: "set (dict_get (levels_client s) d []) \<subseteq> listed s"
  by (cases "dict_get (levels_client s) d [] = []")
    (use set_dict_get [of "levels_client s" d] in \<open>auto simp: listed_def level_lists_def\<close>)

lemma audience_listed: "set (audience_list a s) \<subseteq> listed s"
proof (cases a)
  case AllClients
  then show ?thesis by (simp add: audience_list_def listed_def)
next
  case (LevelsOf d)
  then show ?thesis using listed_subscribers [of s d] by (simp add: audience_list_def)
qed

text \<open>When nobody is lost, sending to all reaches all and changes nothing else.\<close>

lemma calm_send_to_all:
  assumes "calm s"
  shows "send_to_all a msg s =
    (audience_list a s \<noteq> [], s\<lparr>sent := sent s @ map (\<lambda>c. (c, msg)) (audience_list a s)\<rparr>)"
proof -
  let ?s = "s\<lparr>sent := sent s @ map (\<lambda>c. (c, msg)) (audience_list a s)\<rparr>"
  have none: "c \<notin> set (down s)" if "c \<in> set (audience_list a s)" for c
    using that assms audience_listed [of a s] by (auto simp: calm_def)
  have all: "filter (\<lambda>c. c \<notin> set (down s)) (audience_list a s) = audience_list a s" by (rule filter_True) (simp add: none)
  have "filter (\<lambda>c. c \<in> set (down s)) (audience_list a s) = []" by (simp add: filter_empty_conv none)
  then have "send_each msg (audience_list a s) s = ([], ?s)" unfolding send_each_eq all by simp
  moreover have "audience_list a ?s = audience_list a s" by (cases a) (simp_all add: audience_list_def)
  ultimately show ?thesis by (simp add: send_to_all_def Let_def)
qed

lemma calm_ws_levels:
  assumes "calm s"
  shows "ws_levels d lv s = (dict_get (levels_client s) d [] \<noteq> [],
    s\<lparr>sent := sent s @ map (\<lambda>c. (c, JObj [(''message'', JStr ''Levels''), (''data'', lv)])) (dict_get (levels_client s) d [])\<rparr>)"
  by (simp add: ws_levels_def send_levels_def calm_send_to_all [OF assms] audience_list_def)

lemma serving_cong:
  assumes "clients s' = clients s" "levels_client s' = levels_client s" "down s' = down s"
    "levels_provider s' = levels_provider s" "ls_timers (rest s') = ls_timers (rest s)"
  shows "serving name c opened s' = serving name c opened s"
  using assms ws_ok_cong [OF assms(1,2), of opened] unfolding serving_def calm_def listed_def level_lists_def keeps_timers_def by presburger

lemma levels_received_append:
  "sent s' = sent s @ ms \<Longrightarrow> levels_received c s \<le> levels_received c s'"
  by (simp add: levels_received_def)

lemma levels_tick_eq:
  assumes "calm s"
  shows "\<exists>lv d. let subs = dict_get (levels_client s) (m_name cfg) [] in
    levels_tick cfg s = s\<lparr>rest := (rest s)\<lparr>ls_device := d,
        ls_timers := (if subs = [] then ls_timers (rest s) - 1 else Suc (ls_timers (rest s) - 1))\<rparr>,
      sent := sent s @ map (\<lambda>c. (c, JObj [(''message'', JStr ''Levels''), (''data'', lv)])) subs\<rparr>"
proof -
  obtain lv d where l: "Minidsp.levels cfg (ls_device (rest s)) = (lv, d)" by (cases "Minidsp.levels cfg (ls_device (rest s))")
  let ?s = "s\<lparr>rest := (rest s)\<lparr>ls_device := d, ls_timers := ls_timers (rest s) - 1\<rparr>\<rparr>"
  have "calm ?s" using assms by (simp add: calm_def listed_def level_lists_def)
  from calm_ws_levels [OF this] show ?thesis
    by (intro exI [of _ lv] exI [of _ d]) (simp add: levels_tick_def l Let_def)
qed

lemma levels_received_sent:
  assumes "distinct subs" and "sent s' = sent s @ map (\<lambda>c. (c, JObj [(''message'', JStr ''Levels''), (''data'', lv)])) subs"
  shows "levels_received c s' = levels_received c s + (if c \<in> set subs then 1 else 0)"
proof -
  have "length (filter (\<lambda>b. b = c) subs) = (if c \<in> set subs then 1 else 0)"
    using assms(1) by (induction subs) auto
  then show ?thesis by (simp add: levels_received_def assms(2) filter_map comp_def)
qed

text \<open>Each kind of event keeps the invariant and takes nothing back that was sent.\<close>

definition steady :: "string \<Rightarrow> 'c \<Rightarrow> 'c set \<Rightarrow> ('c, 'w level_source) ws_factory \<Rightarrow> ('c, 'w level_source) ws_factory \<Rightarrow> bool" where
  "steady name c opened s s' \<longleftrightarrow> serving name c opened s' \<and> levels_received c s \<le> levels_received c s'"

lemma servingD:
  assumes "serving name c opened s"
  shows "ws_ok opened s" "c \<in> set (dict_get (levels_client s) name [])" "calm s" "0 < ls_timers (rest s)" "keeps_timers s"
  using assms by (simp_all add: serving_def)

lemma serving_tick:
  assumes "serving (m_name cfg) c opened s"
  shows "serving (m_name cfg) c opened (levels_tick cfg s) \<and> levels_received c (levels_tick cfg s) = Suc (levels_received c s)"
proof -
  note sv = servingD [OF assms]
  let ?subs = "dict_get (levels_client s) (m_name cfg) []"
  obtain lv d where tick: "levels_tick cfg s = s\<lparr>rest := (rest s)\<lparr>ls_device := d,
        ls_timers := (if ?subs = [] then ls_timers (rest s) - 1 else Suc (ls_timers (rest s) - 1))\<rparr>,
      sent := sent s @ map (\<lambda>c. (c, JObj [(''message'', JStr ''Levels''), (''data'', lv)])) ?subs\<rparr>"
    using levels_tick_eq [OF sv(3), of cfg] unfolding Let_def by blast
  have "?subs \<noteq> []" using sv(2) by auto
  then have "serving (m_name cfg) c opened (levels_tick cfg s) = serving (m_name cfg) c opened s"
    using sv(4) by (intro serving_cong) (simp_all add: tick)
  moreover have "levels_received c (levels_tick cfg s) = levels_received c s + (if c \<in> set ?subs then 1 else 0)"
    using ws_ok_subscribers(1) [OF sv(1)] by (rule levels_received_sent [where lv = lv]) (simp add: tick)
  ultimately show ?thesis using assms sv(2) by simp
qed

lemma send_message_grows:
  "\<exists>ms. snd (send_message c m s) = s\<lparr>sent := sent s @ ms\<rparr>"
  by (cases "c \<in> set (down s)") (auto simp: send_message_def intro: exI [of _ "[]"])

lemma send_provided_grows:
  "\<exists>ms. snd (send_provided p c s) = s\<lparr>sent := sent s @ ms\<rparr>"
proof -
  have "\<exists>ms. s = s\<lparr>sent := sent s @ ms\<rparr>" by (rule exI [of _ "[]"]) simp
  then show ?thesis using send_message_grows by (auto simp: send_provided_def split: option.split sum.split)
qed

lemma register_grows:
  "\<exists>ms. snd (register b s) = s\<lparr>clients := (if b \<in> set (clients s) then clients s else clients s @ [b]), sent := sent s @ ms\<rparr>"
proof (cases "b \<in> set (clients s)")
  case True
  then show ?thesis by (intro exI [of _ "[]"]) (simp add: register_def)
next
  case False
  let ?s = "s\<lparr>clients := clients s @ [b]\<rparr>"
  obtain ms1 where 1: "snd (send_provided (meta_provider s) b ?s) = ?s\<lparr>sent := sent ?s @ ms1\<rparr>"
    using send_provided_grows [of "meta_provider s" b ?s] by (rule exE)
  obtain ms2 where 2: "snd (send_provided (ws_state_provider s) b (?s\<lparr>sent := sent ?s @ ms1\<rparr>))
      = ?s\<lparr>sent := sent ?s @ ms1 @ ms2\<rparr>"
    using send_provided_grows [of "ws_state_provider s" b "?s\<lparr>sent := sent ?s @ ms1\<rparr>"] by auto
  show ?thesis
  proof (cases "fst (send_provided (meta_provider s) b ?s)")
    case (Inl e)
    then show ?thesis using False 1
      by (intro exI [of _ ms1]) (cases "send_provided (meta_provider s) b ?s", simp add: register_def and_then_def)
  next
    case (Inr u)
    then show ?thesis using False 1 2
      by (intro exI [of _ "ms1 @ ms2"]) (cases "send_provided (meta_provider s) b ?s", simp add: register_def and_then_def)
  qed
qed

lemma serving_register:
  assumes "serving name c opened s" and "b \<notin> opened" and "b \<notin> set (down s)"
  shows "steady name c (insert b opened) s (snd (register b s))"
proof -
  obtain ms where r: "snd (register b s) = s\<lparr>clients := (if b \<in> set (clients s) then clients s else clients s @ [b]), sent := sent s @ ms\<rparr>"
    using register_grows [of b s] by (rule exE)
  have "ws_ok (insert b opened) (snd (register b s))" using servingD(1) [OF assms(1)] assms(2) by (rule ws_ok_register)
  moreover have "calm (snd (register b s))"
    using servingD(3) [OF assms(1)] assms(3) by (auto simp: r calm_def listed_def level_lists_def)
  moreover have "levels_received c s \<le> levels_received c (snd (register b s))"
    by (rule levels_received_append [where ms = ms]) (simp add: r)
  ultimately show ?thesis
    using assms(1) by (simp add: steady_def serving_def r keeps_timers_def)
qed

lemma subscribe_level_get:
  "dict_get (subscribe_level d b lc) name [] =
    (let cs = dict_get lc name [] in if d = name \<and> b \<notin> set cs then cs @ [b] else cs)"
  by (simp add: subscribe_level_def Let_def dict_get_def)

lemma subscribe_level_lists: "set (concat (map snd (subscribe_level d b lc))) \<subseteq> insert b (set (concat (map snd lc)))"
proof -
  let ?cs = "dict_get lc d []"
  have "set ?cs \<subseteq> set (concat (map snd lc))"
    by (cases "?cs = []") (use set_dict_get [of lc d ?cs] in auto)
  moreover have "\<Union> (set ` snd ` set (dict_set lc d v)) \<subseteq> set v \<union> set (concat (map snd lc))" for v
    using UN_mono [OF snd_dict_set [of lc d v], of set set] by simp
  from this [of "if b \<in> set ?cs then ?cs else ?cs @ [b]"]
  have "set (concat (map snd (subscribe_level d b lc))) \<subseteq> insert b (set ?cs) \<union> set (concat (map snd lc))"
    by (simp add: subscribe_level_def Let_def split: if_splits) blast
  ultimately show ?thesis by blast
qed

lemma serving_message:
  assumes sv: "serving name c opened s" and "b \<in> opened" and "b \<notin> set (down s)"
  shows "steady name c opened s (on_message b t s)"
proof -
  note sv' = servingD [OF sv]
  have same: "steady name c opened s s" using sv by (simp add: steady_def)
  have cat: "steady name c opened s (snd (send_catalogue b s))"
    using sv serving_cong [of "s\<lparr>loads := loads s @ [b]\<rparr>" s name c opened]
    by (simp add: steady_def send_catalogue_def levels_received_def)
  have sub: "steady name c opened s (snd (register_for_levels d b s))" if s': "on_message b t s = snd (register_for_levels d b s)" for d
  proof (cases "map_of (levels_provider s) d")
    case None
    then show ?thesis using same by (simp add: register_for_levels_def)
  next
    case (Some f)
    obtain r w where f: "f (rest s) = (r, w)" by (cases "f (rest s)")
    have "f \<in> snd ` set (levels_provider s)" using Some map_of_SomeD by force
    then have "ls_timers (rest s) \<le> ls_timers (snd (f (rest s)))" using sv'(5) unfolding keeps_timers_def by blast
    then have w: "0 < ls_timers w" using sv'(4) f by simp
    have eq: "snd (register_for_levels d b s)
        = s\<lparr>clients := remove1 b (clients s), levels_client := subscribe_level d b (levels_client s), rest := w\<rparr>"
      by (simp add: register_for_levels_def Some call_levels_provider_def f)
    have "ws_ok opened (snd (register_for_levels d b s))" using ws_ok_on_message [OF sv'(1) assms(2), of t] s' by simp
    moreover have "calm (snd (register_for_levels d b s))"
    proof -
      have "listed (snd (register_for_levels d b s)) \<subseteq> insert b (listed s)"
        using subscribe_level_lists [of d b "levels_client s"] set_remove1_subset [of b "clients s"]
        unfolding eq listed_def level_lists_def by simp blast
      then show ?thesis using sv'(3) assms(3) unfolding calm_def eq by auto
    qed
    moreover have "c \<in> set (dict_get (levels_client (snd (register_for_levels d b s))) name [])"
      using sv'(2) by (simp add: eq subscribe_level_get Let_def)
    ultimately show ?thesis
      using sv'(5) w by (simp add: steady_def serving_def) (simp add: eq keeps_timers_def levels_received_def)
  qed
  show ?thesis
  proof (cases t)
    case None
    then show ?thesis using same by (simp add: on_message_def)
  next
    case (Some x)
    show ?thesis
    proof (cases "starts_with SUBSCRIBE_LEVELS_CMD x")
      case True
      then have "on_message b t s = snd (register_for_levels (rstrip (drop (length SUBSCRIBE_LEVELS_CMD + 1) x)) b s)"
        by (simp add: on_message_def Some)
      with sub [OF this] show ?thesis by simp
    next
      case False
      then show ?thesis using same cat by (simp add: on_message_def Some)
    qed
  qed
qed

lemma unregister_subscribers:
  "b \<noteq> c \<Longrightarrow> c \<in> set (dict_get (levels_client s) d []) \<Longrightarrow> c \<in> set (dict_get (levels_client (unregister b s)) d [])"
proof -
  have "dict_get (map (\<lambda>(k, v). (k, if b \<in> set v then remove1 b v else v)) lc) d []
      = (let v = dict_get lc d [] in if b \<in> set v then remove1 b v else v)" for lc :: "(string, 'a list) pydict"
    by (induction lc) (auto simp: dict_get_def Let_def)
  then show "b \<noteq> c \<Longrightarrow> c \<in> set (dict_get (levels_client s) d []) \<Longrightarrow> c \<in> set (dict_get (levels_client (unregister b s)) d [])"
    by (simp add: unregister_def Let_def)
qed

lemma unregister_listed:
  assumes "ws_ok opened s"
  shows "listed (unregister b s) \<subseteq> listed s - {b}"
proof -
  have "b \<notin> set v" if "v \<in> set (level_lists (unregister b s))" for v
    using that assms by (auto simp: ws_ok_def level_lists_def unregister_def split: if_splits)
  moreover have "b \<notin> set (clients (unregister b s))"
    using assms by (auto simp: ws_ok_def unregister_def)
  moreover have "listed (unregister b s) \<subseteq> listed s"
    using set_remove1_subset [of b] by (fastforce simp: listed_def level_lists_def unregister_def split: if_splits)
  ultimately show ?thesis by (auto simp: listed_def)
qed

lemma serving_closes:
  assumes sv: "serving name c opened s" and "b \<noteq> c"
  shows "steady name c opened s ((unregister b s)\<lparr>down := b # down s\<rparr>)"
proof -
  note sv' = servingD [OF sv]
  let ?s = "(unregister b s)\<lparr>down := b # down s\<rparr>"
  have frame: "rest ?s = rest s" "levels_provider ?s = levels_provider s" "sent ?s = sent s" by (simp_all add: unregister_def)
  have "ws_ok opened ?s"
    using ws_ok_cong [of ?s "unregister b s" opened] ws_ok_unregister [OF sv'(1)] by simp
  moreover have "listed ?s = listed (unregister b s)" by (simp add: listed_def level_lists_def)
  then have "calm ?s" using sv'(3) unregister_listed [OF sv'(1), of b] unfolding calm_def by auto
  ultimately show ?thesis
    using sv' unregister_subscribers [OF assms(2) sv'(2)] frame
    by (simp add: steady_def serving_def keeps_timers_def levels_received_def)
qed

lemma serving_sends:
  assumes sv: "serving name c opened s"
  shows "steady name c opened s (ws_broadcast msg s)" and "steady name c opened s (snd (ws_levels d lv s))"
    and "steady name c opened s (s\<lparr>rest := (rest s)\<lparr>ls_device := dev\<rparr>\<rparr>)"
proof -
  have more: "steady name c opened s (s\<lparr>sent := sent s @ ms\<rparr>)" for ms
    using sv serving_cong [of "s\<lparr>sent := sent s @ ms\<rparr>" s name c opened]
    by (simp add: steady_def levels_received_def)
  show "steady name c opened s (ws_broadcast msg s)"
    by (simp add: ws_broadcast_def calm_send_to_all [OF servingD(3) [OF sv]] more)
  show "steady name c opened s (snd (ws_levels d lv s))"
    by (simp add: calm_ws_levels [OF servingD(3) [OF sv]] more)
  show "steady name c opened s (s\<lparr>rest := (rest s)\<lparr>ls_device := dev\<rparr>\<rparr>)"
    using sv serving_cong [of "s\<lparr>rest := (rest s)\<lparr>ls_device := dev\<rparr>\<rparr>" s name c opened]
    by (simp add: steady_def levels_received_def)
qed

lemma level_run_serving:
  assumes "level_run cfg c opened0 s0 opened s k" and "serving (m_name cfg) c opened0 s0"
  shows "serving (m_name cfg) c opened s \<and> levels_received c s0 + k \<le> levels_received c s"
  using assms
proof (induction rule: level_run.induct)
  case start
  then show ?case by simp
next
  case (tick opened s k)
  then show ?case using serving_tick [of cfg c opened s] by simp
next
  case (opens opened s k b)
  then show ?case using serving_register [of "m_name cfg" c opened s b] by (simp add: steady_def)
next
  case (message opened s k b t)
  then show ?case using serving_message [of "m_name cfg" c opened s b t] by (simp add: steady_def)
next
  case (closes opened s k b)
  then show ?case using serving_closes [of "m_name cfg" c opened s b] by (simp add: steady_def)
next
  case (broadcast opened s k msg)
  then show ?case using serving_sends(1) [of "m_name cfg" c opened s msg] by (simp add: steady_def)
next
  case (levels opened s k d lv)
  then show ?case using serving_sends(2) [of "m_name cfg" c opened s d lv] by (simp add: steady_def)
next
  case (device opened s k dev)
  then show ?case using serving_sends(3) [of "m_name cfg" c opened s dev] by (simp add: steady_def)
qed

text \<open>The message with which a client subscribes to the levels of a device\<close>

definition subscription :: "string \<Rightarrow> string option" where
  "subscription name = Some (SUBSCRIBE_LEVELS_CMD @ CHR '' '' # name)"

text \<open>Every subscription, a repeated one too, starts a timer of its own.\<close>

lemma subscription_starts_timer:
  assumes "rstrip name = name" and "map_of (levels_provider s) name = Some start_broadcast_levels" and "ls_client (rest s) = None"
  shows "on_message c (subscription name) s = s\<lparr>clients := remove1 c (clients s),
    levels_client := subscribe_level name c (levels_client s), rest := (rest s)\<lparr>ls_timers := Suc (ls_timers (rest s))\<rparr>\<rparr>"
proof -
  have cmd: "drop (length SUBSCRIBE_LEVELS_CMD + 1) (SUBSCRIBE_LEVELS_CMD @ CHR '' '' # name) = name" by simp
  have "on_message c (subscription name) s = snd (register_for_levels name c s)"
    unfolding on_message_def subscription_def option.case cmd assms(1) by simp
  then show ?thesis
    using assms(3) by (simp add: register_for_levels_def assms(2) call_levels_provider_def start_broadcast_levels_def)
qed

lemma serving_after_subscription:
  assumes "ws_ok opened s" and "c \<in> opened" and "c \<notin> set (down s)" and "calm s" and "keeps_timers s"
    and "rstrip name = name" and "map_of (levels_provider s) name = Some start_broadcast_levels" and "ls_client (rest s) = None"
  shows "serving name c opened (on_message c (subscription name) s)"
proof -
  let ?s = "on_message c (subscription name) s"
  note eq = subscription_starts_timer [OF assms(6-8), of c]
  have "listed ?s \<subseteq> insert c (listed s)"
    using subscribe_level_lists [of name c "levels_client s"] set_remove1_subset [of c "clients s"]
    unfolding eq listed_def level_lists_def by simp blast
  then have "calm ?s" using assms(3,4) unfolding calm_def eq by auto
  then show ?thesis
    using ws_ok_on_message [OF assms(1,2)] assms(5)
    by (simp add: serving_def) (simp add: eq subscribe_level_get Let_def keeps_timers_def)
qed

section \<open>Properties\<close>

text \<open>
  Claim C8. A client that subscribes to the levels of a MiniDSP without a client of minidsp-rs is served from then on: whatever else happens, as
  long as no client is lost without closing, a timer is running, each of the calls made so far has sent the client the levels
  and the next one sends them again.
\<close>

theorem levels_keep_coming:
  assumes "ws_history opened0 s0" and "c \<in> opened0" and "c \<notin> set (down s0)" and "calm s0" and "keeps_timers s0"
    and "rstrip (m_name cfg) = m_name cfg" and "map_of (levels_provider s0) (m_name cfg) = Some start_broadcast_levels"
    and "ls_client (rest s0) = None"
    and run: "level_run cfg c opened0 (on_message c (subscription (m_name cfg)) s0) opened s k"
  shows "0 < ls_timers (rest s)
    \<and> levels_received c (on_message c (subscription (m_name cfg)) s0) + k \<le> levels_received c s
    \<and> levels_received c (levels_tick cfg s) = Suc (levels_received c s)"
proof -
  note sv = serving_after_subscription [OF ws_history_ok [OF assms(1)] assms(2-8)]
  have "serving (m_name cfg) c opened s" using level_run_serving [OF run sv] by simp
  with serving_tick [OF this] servingD(4) [OF this] level_run_serving [OF run sv] show ?thesis by simp
qed

definition demo_levels :: "(nat, stub level_source) ws_factory" where
  "demo_levels = snd (register 1 (set_levels_provider (m_name stub_cfg) start_broadcast_levels
     (new_ws_factory \<lparr>ls_device = stub_device, ls_timers = 0, ls_client = None\<rparr>)))"

lemma demo_levels_eq:
  "demo_levels = (new_ws_factory \<lparr>ls_device = stub_device, ls_timers = 0, ls_client = None\<rparr>)
     \<lparr>clients := [1], levels_provider := [(m_name stub_cfg, start_broadcast_levels)]\<rparr>"
  by (simp add: demo_levels_def register_def and_then_def send_provided_def set_levels_provider_def new_ws_factory_def)

theorem levels_keep_coming_witness:
  "2 \<le> levels_received 1 (levels_tick stub_cfg (levels_tick stub_cfg (on_message 1 (subscription (m_name stub_cfg)) demo_levels)))"
proof -
  let ?s0 = "on_message 1 (subscription (m_name stub_cfg)) demo_levels"
  have hist: "ws_history {1} demo_levels"
    unfolding demo_levels_def by (intro ws_history.opens ws_history.levels_provider ws_history.start) simp
  have calm: "calm demo_levels" by (simp add: calm_def demo_levels_eq new_ws_factory_def)
  have keeps: "keeps_timers demo_levels"
    by (simp add: keeps_timers_def demo_levels_eq new_ws_factory_def start_broadcast_levels_def)
  have name: "rstrip (m_name stub_cfg) = m_name stub_cfg" by (simp add: stub_cfg_def rstrip_def is_blank_def)
  have prov: "map_of (levels_provider demo_levels) (m_name stub_cfg) = Some start_broadcast_levels" by (simp add: demo_levels_eq)
  have cl: "ls_client (rest demo_levels) = None" by (simp add: demo_levels_eq new_ws_factory_def)
  have down: "1 \<notin> set (down demo_levels)" by (simp add: demo_levels_eq new_ws_factory_def)
  note keep = levels_keep_coming [OF hist insertI1 down calm keeps name prov cl]
  have run0: "level_run stub_cfg 1 {1} ?s0 {1} ?s0 0" by (rule level_run.start)
  have run1: "level_run stub_cfg 1 {1} ?s0 {1} (levels_tick stub_cfg ?s0) (Suc 0)" by (rule level_run.tick [OF run0 conjunct1 [OF keep [OF run0]]])
  show ?thesis using keep [OF run1] keep [OF run0] by simp
qed

text \<open>When at least half of the subscribers are lost the only timer stops, although the others still listen.\<close>

lemma ws_levels_rest: "rest (snd (ws_levels d lv s)) = rest s"
proof -
  have un: "rest (fold unregister bad s) = rest s" for bad and s :: "('c, 'w) ws_factory"
    by (induction bad arbitrary: s) (auto simp: unregister_def)
  show ?thesis by (simp add: ws_levels_def send_levels_def send_to_all_def send_each_eq Let_def un)
qed

lemma levels_stop_for_listeners:
  assumes "ws_history opened s" and "subs = dict_get (levels_client s) (m_name cfg) []" and "ls_timers (rest s) = 1"
    and "length (filter (\<lambda>c. c \<notin> set (down s)) subs) \<le> length (filter (\<lambda>c. c \<in> set (down s)) subs)"
  shows "ls_timers (rest (levels_tick cfg s)) = 0"
    and "dict_get (levels_client (levels_tick cfg s)) (m_name cfg) [] = filter (\<lambda>c. c \<notin> set (down s)) subs"
proof -
  obtain lv d where l: "Minidsp.levels cfg (ls_device (rest s)) = (lv, d)" by (cases "Minidsp.levels cfg (ls_device (rest s))")
  let ?s = "s\<lparr>rest := (rest s)\<lparr>ls_device := d, ls_timers := ls_timers (rest s) - 1\<rparr>\<rparr>"
  have hist: "ws_history opened ?s" using assms(1) by (rule ws_history.elsewhere)
  have out: "\<not> fst (ws_levels (m_name cfg) lv ?s)"
    "dict_get (levels_client (snd (ws_levels (m_name cfg) lv ?s))) (m_name cfg) [] = filter (\<lambda>c. c \<notin> set (down s)) subs"
    using levels_outcome [OF hist refl, of "m_name cfg" lv] assms(4) by (simp_all add: assms(2))
  have "rest (snd (ws_levels (m_name cfg) lv ?s)) = rest ?s" by (rule ws_levels_rest)
  then show "ls_timers (rest (levels_tick cfg s)) = 0"
    and "dict_get (levels_client (levels_tick cfg s)) (m_name cfg) [] = filter (\<lambda>c. c \<notin> set (down s)) subs"
    using out assms(3) by (cases "ws_levels (m_name cfg) lv ?s", simp add: levels_tick_def l)+
qed

text \<open>Without a connection to the DSP a timer of a CamillaDSP stops, whoever listens.\<close>

lemma cam_levels_stop:
  assumes "conns (world (cl_device (rest s))) = []"
  shows "cl_timers (rest (cam_levels_tick cfg s)) = cl_timers (rest s) - 1"
  using assms
  by (simp add: cam_levels_tick_def request_levels_def and_then_def dsp_send_def zoom_def client_broadcast_def Let_def)

text \<open>With one it keeps going as long as somebody listens.\<close>

lemma cam_levels_go_on:
  assumes "fst (request_levels (cl_device (rest s))) = Inr ()" and "has_levels_client (cam_name cfg) s" and "0 < cl_timers (rest s)"
  shows "cl_timers (rest (cam_levels_tick cfg s)) = cl_timers (rest s)"
  using assms
  by (cases "request_levels (cl_device (rest s))") (simp add: cam_levels_tick_def Let_def has_levels_client_def)

text \<open>A message for minidsp-rs is dropped without an error when every connection it is sent on is lost.\<close>

lemma rs_message_dropped:
  assumes "rs_conns w \<noteq> []" and "set (rs_conns w) \<subseteq> set (rs_lost w)"
  shows "fst (rs_broadcast msg w) = Inr () \<and> rs_sent (snd (rs_broadcast msg w)) = rs_sent w"
proof -
  have each: "set cs \<subseteq> set (rs_lost w) \<Longrightarrow> rs_send_each msg cs w = (cs, w)" for cs
    by (induction cs) auto
  have un: "rs_sent (fold rs_unregister bad v) = rs_sent v" for bad v
    by (induction bad arbitrary: v) (auto simp: rs_unregister_def)
  show ?thesis using assms(1) each [OF assms(2)] by (simp add: rs_broadcast_def un)
qed

end
