(* ===== verification/Single_Slot.thy ===== *)
theory Single_Slot
  imports Catalogue_Entry Requests Json_Update
begin

text \<open>
  What the devices with one fixed slot share (\<^verbatim>\<open>htp1.py\<close>, \<^verbatim>\<open>stormaudio.py\<close>, \<^verbatim>\<open>qsys.py\<close>, \<^verbatim>\<open>reaper.py\<close>): their
  state, the two ways they read a cached state, a send that shows its title or \<^verbatim>\<open>ERROR\<close>, and the update from
  a request. The contract of such a device type is the locale \<open>single_slot_device\<close>, which gives the one of
  \<^theory_text>\<open>Persistence\<close>; each device interprets it.
\<close>

definition single_slot :: "string \<Rightarrow> slot_state" where
  "single_slot sid = (new_slot sid)\<lparr>active := True\<rparr>"

definition single_serialise :: "string \<Rightarrow> string \<Rightarrow> slot_state \<Rightarrow> json" where
  "single_serialise typ name s =
     JObj [(''type'', JStr typ), (''name'', JStr name), (''slots'', JList [JObj (slot_as_dict s)])]"

section \<open>Cached state\<close>

text \<open>\<^verbatim>\<open>if slot[key]: loaded.slot.x = slot[key]\<close>, with a subscript or with \<^verbatim>\<open>get\<close>\<close>

definition take_truthy :: "(json \<Rightarrow> exn + json) \<Rightarrow> (json \<Rightarrow> slot_state \<Rightarrow> slot_state) \<Rightarrow> json \<Rightarrow> (slot_state, unit) act" where
  "take_truthy reader f slot = and_then (lift_result (reader slot)) (\<lambda>v. if truthy v then modify (f v) else ok ())"

definition getter :: "string \<Rightarrow> json \<Rightarrow> exn + json" where
  "getter k v = jget_or v k JNull"

definition subscript :: "string \<Rightarrow> json \<Rightarrow> exn + json" where
  "subscript k v = jget v k"

definition set_last :: "json \<Rightarrow> slot_state \<Rightarrow> slot_state" where
  "set_last v s = s\<lparr>last_title := v\<rparr>"

definition set_author :: "json \<Rightarrow> slot_state \<Rightarrow> slot_state" where
  "set_author v s = s\<lparr>last_author := v\<rparr>"

text \<open>\<^verbatim>\<open>if 'slots' in cached: for slot in cached['slots']\<close>\<close>

definition merge_slots :: "(json \<Rightarrow> (slot_state, unit) act) \<Rightarrow> json \<Rightarrow> (slot_state, unit) act" where
  "merge_slots body cached =
     and_then (on_key ''slots'' cached (\<lambda>v. and_then (lift_result (jiter v)) (for_each body))) (\<lambda>_. ok ())"

definition when_id :: "string \<Rightarrow> (slot_state, unit) act \<Rightarrow> json \<Rightarrow> (slot_state, unit) act" where
  "when_id sid m slot =
     and_then (lift_result (jcontains ''id'' slot)) (\<lambda>present.
       if present then and_then (lift_result (jget slot ''id'')) (\<lambda>i. if i = JStr sid then m else ok ()) else ok ())"

definition when_got_id :: "string \<Rightarrow> (slot_state, unit) act \<Rightarrow> json \<Rightarrow> (slot_state, unit) act" where
  "when_got_id sid m slot = and_then (lift_result (getter ''id'' slot)) (\<lambda>i. if i = JStr sid then m else ok ())"

section \<open>Sending\<close>

text \<open>
  The \<^verbatim>\<open>__do_it\<close> of the devices: what is sent changes the device's world only; the title and author are shown when
  it returns, \<^verbatim>\<open>ERROR\<close> when it raises.
\<close>

definition titled :: "('w, unit) act \<Rightarrow> json \<Rightarrow> json \<Rightarrow> ((slot_state, 'w) device, unit) act" where
  "titled send t a =
     try_except
       (and_then (zoom world world_update send) (\<lambda>_. on_current (modify (set_loaded t a))))
       (\<lambda>e. and_then (on_current (modify (set_loaded error_title JNull))) (\<lambda>_. raise e))"

definition single_activate :: "(slot_state, 'w) device_class \<Rightarrow> ((slot_state, 'w) device, unit) act" where
  "single_activate c = hydrate_cache_broadcast c (on_current (modify (\<lambda>s. s\<lparr>active := True\<rparr>)))"

section \<open>Updates from a request\<close>

text \<open>
  \<open>strict\<close>: an unknown entry is an error, otherwise it is passed over. \<open>read_id\<close> is \<open>subscript\<close> or
  \<open>getter\<close>.
\<close>

definition single_update_slot ::
  "(json \<Rightarrow> exn + json) \<Rightarrow> string \<Rightarrow> (json \<Rightarrow> exn + catalogue_entry option) \<Rightarrow> bool
   \<Rightarrow> (catalogue_entry \<Rightarrow> ('s, unit) act) \<Rightarrow> ('s, unit) act \<Rightarrow> json \<Rightarrow> ('s, bool) act" where
  "single_update_slot read_id sid find_entry strict load clear slot =
     and_then (lift_result (read_id slot)) (\<lambda>i.
     if i \<noteq> JStr sid then ok False
     else and_then (lift_result (jcontains ''entry'' slot)) (\<lambda>present.
       if \<not> present then ok False
       else and_then (lift_result (jget slot ''entry'')) (\<lambda>v.
         if truthy v then
           and_then (lift_result (find_entry v)) (\<lambda>m.
             case m of
               None \<Rightarrow>
                 if strict then raise (UnableToPatchDeviceError (PatchText (''Unknown catalogue entry '' @ id_text v)) True)
                 else ok False
             | Some e \<Rightarrow> and_then (load e) (\<lambda>_. ok True))
         else and_then clear (\<lambda>_. ok True))))"

fun single_update_slots :: "(json \<Rightarrow> ('s, bool) act) \<Rightarrow> json list \<Rightarrow> bool \<Rightarrow> ('s, bool) act" where
  "single_update_slots body [] acc = ok acc"
| "single_update_slots body (s # ss) acc = and_then (body s) (\<lambda>u. single_update_slots body ss (acc \<or> u))"

definition single_update :: "(json \<Rightarrow> ('s, bool) act) \<Rightarrow> json \<Rightarrow> ('s, bool) act" where
  "single_update body params =
     and_then (lift_result (jcontains ''slots'' params)) (\<lambda>present.
       if present then
         and_then (lift_result (jget params ''slots'')) (\<lambda>v.
         and_then (lift_result (jiter v)) (\<lambda>ss. single_update_slots body ss False))
       else ok False)"

lemma single_update_slots_maintains [keeps_intros]:
  "(\<And>s. maintains P (body s)) \<Longrightarrow> maintains P (single_update_slots body ss acc)"
  by (induction ss arbitrary: acc) (auto intro!: keeps_intros)

lemma single_update_maintains [keeps_intros]:
  assumes "\<And>e. maintains P (load e)" and "maintains P clear"
  shows "maintains P (single_update (single_update_slot read_id sid find_entry strict load clear) params)"
  unfolding single_update_def single_update_slot_def by (intro keeps_intros assms)

section \<open>The contract\<close>

definition keeps_id :: "(slot_state, unit) act \<Rightarrow> bool" where
  "keeps_id m \<longleftrightarrow> (\<forall>s. slot_id (snd (m s)) = slot_id s)"

lemma keeps_id_iff: "keeps_id m \<longleftrightarrow> (\<forall>sid. maintains (\<lambda>s. slot_id s = sid) m)"
  by (auto simp: keeps_id_def maintains_def)

lemma maintains_modify [keeps_intros]: "(\<And>s. P s \<Longrightarrow> P (f s)) \<Longrightarrow> maintains P (modify f)"
  by (simp add: maintains_def modify_def)

lemma set_last_author_id [simp]: "slot_id (set_last v s) = slot_id s" "slot_id (set_author v s) = slot_id s"
  by (simp_all add: set_last_def set_author_def)

lemma take_truthy_id [keeps_intros]:
  "(\<And>v s. slot_id (f v s) = slot_id s) \<Longrightarrow> maintains (\<lambda>s. slot_id s = sid) (take_truthy r f slot)"
  unfolding take_truthy_def by (intro keeps_intros) simp

lemma merge_slots_id [keeps_intros]:
  "(\<And>slot. maintains P (body slot)) \<Longrightarrow> maintains P (merge_slots body cached)"
  "maintains P m \<Longrightarrow> maintains P (when_id sid m slot)"
  "maintains P m \<Longrightarrow> maintains P (when_got_id sid m slot)"
  unfolding merge_slots_def when_id_def when_got_id_def by (intro keeps_intros; assumption)+

locale single_slot_device =
  fixes c :: "(slot_state, 'w) device_class" and sid :: string and device_name :: string and device_kind :: string
  assumes loads: "load_initial_state c = ok (single_slot sid)"
    and merges: "keeps_id (merge_state c j)"
    and writes: "serialise c = (\<lambda>s. Inr (single_serialise device_kind device_name s))"

sublocale single_slot_device < persistent_device c "\<lambda>s. slot_id s = sid"
proof unfold_locales
  show "load_initial_state c d = (Inr st, d') \<Longrightarrow> slot_id st = sid" for d st d'
    by (auto simp: loads ok_def single_slot_def new_slot_def)
  show "load_initial_state c d = (r, d') \<Longrightarrow> hydrated d' = hydrated d \<and> current d' = current d" for d r d'
    by (auto simp: loads ok_def)
  show "slot_id st = sid \<Longrightarrow> slot_id (snd (merge_state c j st)) = sid" for st j
    using merges by (simp add: keeps_id_def)
  show "slot_id st = sid \<Longrightarrow> \<exists>j. serialise c st = Inr j" for st
    by (simp add: writes)
qed

lemma titled_run:
  assumes "current d = Some st"
  shows "titled send t a d =
    (case send (world d) of
       (Inr _, w) \<Rightarrow> (Inr (), d\<lparr>world := w, current := Some (set_loaded t a st)\<rparr>)
     | (Inl e, w) \<Rightarrow> (Inl e, d\<lparr>world := w, current := Some (set_loaded error_title JNull st)\<rparr>))"
  using assms by (auto simp: titled_def zoom_def on_current_def act_simps split: prod.split sum.split)

lemma titled_maintains [keeps_intros]: "maintains (ready (\<lambda>s. slot_id s = sid)) (titled send t a)"
proof -
  have "maintains (ready (\<lambda>s. slot_id s = sid)) (zoom world world_update send)"
    by (auto simp: maintains_def ready_def zoom_def split: prod.split)
  then show ?thesis unfolding titled_def by (intro keeps_intros) simp_all
qed

text \<open>A property of the device's world\<close>

definition of_world :: "('w \<Rightarrow> bool) \<Rightarrow> ('st, 'w) device \<Rightarrow> bool" where
  "of_world Q d \<longleftrightarrow> Q (world d)"

lemma of_world_on_current [keeps_intros]: "maintains (of_world Q) (on_current m)"
  by (auto simp: maintains_def of_world_def)

lemma of_world_titled: "maintains Q send \<Longrightarrow> maintains (of_world Q) (titled send t a)"
proof -
  assume "maintains Q send"
  then have "maintains (of_world Q) (zoom world world_update send)"
    by (auto simp: maintains_def zoom_def of_world_def split: prod.split)
  then show ?thesis unfolding titled_def by (intro keeps_intros)
qed

context single_slot_device
begin

lemma hydrates: "\<exists>b d1. hydrate c False d = (Inr b, d1) \<and> world d1 = world d"
  by (auto simp: hydrate_def loads ok_def Let_def)

text \<open>
  A send under the wrapper: the result is the send's, the slot shows the title or \<^verbatim>\<open>ERROR\<close>, and the cache
  file and the last broadcast hold it.
\<close>

lemma titled_outcome:
  assumes "device_ok (\<lambda>s. slot_id s = sid) d"
  shows "(case hydrate_cache_broadcast c (titled send t a) d of (r, d') \<Rightarrow>
    r = fst (send (world d)) \<and> world d' = snd (send (world d)) \<and> coherent c d'
    \<and> device_ok (\<lambda>s. slot_id s = sid) d'
    \<and> (\<exists>st. current d' = Some st \<and> slot_id st = sid
        \<and> (last_title st, last_author st) = (case r of Inr _ \<Rightarrow> (t, a) | Inl _ \<Rightarrow> (error_title, JNull))))"
proof -
  from hydrates [of d] obtain b d1 where hyd: "hydrate c False d = (Inr b, d1)" "world d1 = world d" by blast
  from hydrate_ok(1) [OF assms hyd(1)] obtain st where st: "current d1 = Some st" "slot_id st = sid"
    by (auto simp: ready_def)
  have "ready (\<lambda>s. slot_id s = sid) (snd (titled send t a d1))" if "ready (\<lambda>s. slot_id s = sid) d1"
    using titled_maintains that by (rule maintainsD)
  note h = hcb_coherent [of d b d1 "titled send t a", OF assms hyd(1) this]
  obtain r w where s: "send (world d) = (r, w)" by (cases "send (world d)")
  have t: "titled send t a d1 = (case r of Inr _ \<Rightarrow> (Inr (), d1\<lparr>world := w, current := Some (set_loaded t a st)\<rparr>)
     | Inl e \<Rightarrow> (Inl e, d1\<lparr>world := w, current := Some (set_loaded error_title JNull st)\<rparr>))"
    using titled_run [OF st(1), of send t a] hyd(2) s by simp
  show ?thesis
    using h s t st(2) ready_device_ok [OF h(5)] by (cases r) (auto split: prod.split)
qed

text \<open>What holds of the world holds on, when the body keeps it.\<close>

lemma of_world_wrapped:
  assumes "maintains (of_world Q) f"
  shows "maintains (of_world Q) (hydrate_cache_broadcast c f)"
proof -
  have "maintains (of_world Q) (hydrate c False)"
    by (auto simp: maintains_def hydrate_def loads ok_def Let_def of_world_def)
  moreover have "maintains (of_world Q) (and_then (persist c) (\<lambda>_. broadcast_state c))"
    by (rule maintains_and_then) (auto simp: maintains_def persist_def broadcast_state_def of_world_def split: option.split sum.split)
  ultimately show ?thesis
    unfolding hydrate_cache_broadcast_def using assms
    by (intro maintains_and_then) (auto simp: maintains_def try_finally_def split: prod.split sum.split)
qed

lemma operations_coherent:
  assumes "device_ok (\<lambda>s. slot_id s = sid) d"
  shows "coherent c (snd (hydrate_cache_broadcast c (titled send t a) d))" "coherent c (snd (single_activate c d))"
proof -
  show "coherent c (snd (hydrate_cache_broadcast c (titled send t a) d))"
    using titled_outcome [OF assms, of send t a] by (auto split: prod.splits)
  from hydrates [of d] obtain b d1 where hyd: "hydrate c False d = (Inr b, d1)" by blast
  have "ready (\<lambda>s. slot_id s = sid) e \<Longrightarrow> ready (\<lambda>s. slot_id s = sid) (snd (on_current (modify (active_update (\<lambda>_. True))) e))"
    for e :: "(slot_state, 'w) device" by (auto simp: ready_def on_current_def modify_def)
  from hcb_coherent(2) [OF assms hyd this] show "coherent c (snd (single_activate c d))"
    by (simp add: single_activate_def)
qed

end

end
