(* ===== verification/Htp1.thy ===== *)
theory Htp1
  imports Single_Slot
begin

text \<open>
  The Monoprice HTP-1 of \<^verbatim>\<open>ezbeq/htp1.py\<close>: its filters as operations on the device's state document, the
  connections of \<^verbatim>\<open>Htp1ClientFactory\<close>, the loads, and the messages the device sends. Lemmas: a load sends
  the operations of every filter on every channel the device has reported, to every live connection; before
  the device has reported its channels it sends nothing and still shows the title.
\<close>

section \<open>Filters\<close>

text \<open>
  \<^verbatim>\<open>PEQ\<close>, from the parameters the device reports or from the values of an entry. The values are JSON.
\<close>

record peq =
  peq_slot :: nat
  peq_fc :: json
  peq_q :: json
  peq_gain :: json
  peq_type :: json
  peq_type_name :: string

definition peq_of_params :: "nat \<Rightarrow> json \<Rightarrow> exn + peq" where
  "peq_of_params slot params =
     rbind (jget params ''Fc'') (\<lambda>fc. rbind (jget params ''Q'') (\<lambda>q. rbind (jget params ''gaindB'') (\<lambda>g.
     rbind (jget_or params ''FilterType'' (JNum 0)) (\<lambda>t.
       Inr \<lparr>peq_slot = slot, peq_fc = fc, peq_q = q, peq_gain = g, peq_type = t,
            peq_type_name = (if json_eq t (JNum 0) then ''PeakingEQ'' else if json_eq t (JNum 1) then ''LowShelf''
              else ''HighShelf'')\<rparr>))))"

definition peq_of_values :: "nat \<Rightarrow> rat \<Rightarrow> rat \<Rightarrow> rat \<Rightarrow> string \<Rightarrow> peq" where
  "peq_of_values slot fc q gain name =
     \<lparr>peq_slot = slot, peq_fc = JNum fc, peq_q = JNum q, peq_gain = JNum gain,
      peq_type = JNum (if name = ''PeakingEQ'' then 0 else if name = ''LowShelf'' then 1 else 2),
      peq_type_name = name\<rparr>"

definition replace_op :: "string \<Rightarrow> json \<Rightarrow> json" where
  "replace_op path v = JObj [(''op'', JStr ''replace''), (''path'', JStr path), (''value'', v)]"

definition as_ops :: "bool \<Rightarrow> string \<Rightarrow> peq \<Rightarrow> json list" where
  "as_ops use_shelf channel p =
     (if json_eq (peq_type p) (JNum 0) \<or> use_shelf then
        let prefix = ''/peq/slots/'' @ show_nat (peq_slot p) @ ''/channels/'' @ channel
        in [replace_op (prefix @ ''/Fc'') (peq_fc p), replace_op (prefix @ ''/Q'') (peq_q p),
            replace_op (prefix @ ''/gaindB'') (peq_gain p)]
           @ (if use_shelf then [replace_op (prefix @ ''/FilterType'') (peq_type p)] else [])
      else [])"

section \<open>The device\<close>

text \<open>
  The messages are \<^verbatim>\<open>getmso\<close> and \<^verbatim>\<open>changemso\<close> with a JSON text, which is the value itself. \<open>h_lost\<close> are the
  connections on which a send raises \<^verbatim>\<open>Disconnected\<close>; \<open>h_peq\<close> the filters the device reported on its configured
  channels.
\<close>

datatype htp1_msg = GetMso | ChangeMso json

record htp1_world =
  h_clients :: "nat list"
  h_lost :: "nat list"
  h_sent :: "(nat \<times> htp1_msg) list"
  h_peq :: "(string, peq list) pydict"
  h_supports_shelf :: bool
  h_powered_on :: json
  h_active_input :: json

record htp1_cfg =
  h_name :: string
  h_channels :: "string list"
  h_autoclear :: json
  h_find :: "json \<Rightarrow> exn + catalogue_entry option"
  h_newer_than_140 :: "string \<Rightarrow> bool option"

type_synonym htp1_dev = "(slot_state, htp1_world) device"

definition new_htp1_world :: htp1_world where
  "new_htp1_world = \<lparr>h_clients = [], h_lost = [], h_sent = [], h_peq = [], h_supports_shelf = True,
     h_powered_on = JBool False, h_active_input = JNull\<rparr>"

text \<open>The constructor reads its configuration and refuses a device without channels.\<close>

definition Htp1 :: "htp1_cfg \<Rightarrow> exn + htp1_world" where
  "Htp1 cfg = (if h_channels cfg = [] then Inl (ValueError ''No channels supplied for HTP-1'') else Inr new_htp1_world)"

definition htp1_merge :: "json \<Rightarrow> (slot_state, unit) act" where
  "htp1_merge cached = merge_slots (\<lambda>slot. when_id ''HTP1''
     (and_then (take_truthy (subscript ''last'') set_last slot) (\<lambda>_. take_truthy (subscript ''author'') set_author slot)) slot) cached"

definition htp1_class :: "htp1_cfg \<Rightarrow> (slot_state, htp1_world) device_class" where
  "htp1_class cfg =
     \<lparr>load_initial_state = ok (single_slot ''HTP1''), merge_state = htp1_merge,
      serialise = (\<lambda>s. Inr (single_serialise ''htp1'' (h_name cfg) s))\<rparr>"

section \<open>Connections\<close>

definition h_register :: "nat \<Rightarrow> htp1_world \<Rightarrow> htp1_world" where
  "h_register c w = (if c \<notin> set (h_clients w) then w\<lparr>h_clients := h_clients w @ [c]\<rparr> else w)"

definition h_unregister :: "nat \<Rightarrow> htp1_world \<Rightarrow> htp1_world" where
  "h_unregister c w = (if c \<in> set (h_clients w) then w\<lparr>h_clients := remove1 c (h_clients w)\<rparr> else w)"

fun h_send_each :: "htp1_msg \<Rightarrow> nat list \<Rightarrow> htp1_world \<Rightarrow> nat list \<times> htp1_world" where
  "h_send_each msg [] w = ([], w)"
| "h_send_each msg (c # cs) w =
     (if c \<in> set (h_lost w) then (case h_send_each msg cs w of (bad, w') \<Rightarrow> (c # bad, w'))
      else h_send_each msg cs (w\<lparr>h_sent := h_sent w @ [(c, msg)]\<rparr>))"

text \<open>The error of \<^verbatim>\<open>broadcast\<close> also repeats the message; its text is left out.\<close>

definition h_broadcast :: "htp1_msg \<Rightarrow> (htp1_world, unit) act" where
  "h_broadcast msg w =
     (if h_clients w = [] then (Inl (ValueError ''No devices connected, ignoring''), w)
      else (case h_send_each msg (h_clients w) w of (bad, w') \<Rightarrow> (Inr (), fold h_unregister bad w')))"

section \<open>Operations\<close>

text \<open>\<^verbatim>\<open>__send\<close>: filled up with flat filters to ten\<close>

definition pad_peqs :: "peq list \<Rightarrow> peq list" where
  "pad_peqs ps = ps @ map (\<lambda>i. peq_of_values i 100 1 0 ''PeakingEQ'') [length ps..<10]"

definition htp1_ops :: "peq list \<Rightarrow> htp1_world \<Rightarrow> json list" where
  "htp1_ops ps w = concat (map (\<lambda>p. concat (map (\<lambda>c. as_ops (h_supports_shelf w) c p) (keys (h_peq w)))) ps)"

definition peqs_on :: htp1_msg where
  "peqs_on = ChangeMso (JList [replace_op ''/peq/peqsw'' (JBool True)])"

definition htp1_send :: "peq list \<Rightarrow> (htp1_world, unit) act" where
  "htp1_send to_load w =
     (let ops = htp1_ops (pad_peqs to_load) w
      in if ops \<noteq> [] then and_then (h_broadcast peqs_on) (\<lambda>_. h_broadcast (ChangeMso (JList ops))) w
         else (Inr (), w))"

definition peq_of_filter :: "nat \<times> beq_filter \<Rightarrow> exn + peq" where
  "peq_of_filter p =
     (let (idx, f) = p in
      rbind (need ''freq'' (f_freq f)) (\<lambda>fc. rbind (need ''q'' (f_q f)) (\<lambda>q.
      rbind (need ''gain'' (f_gain f)) (\<lambda>g. rbind (need ''type'' (f_type f)) (\<lambda>t.
        Inr (peq_of_values idx fc q g t))))))"

definition htp1_load_filter :: "htp1_cfg \<Rightarrow> catalogue_entry \<Rightarrow> (htp1_dev, unit) act" where
  "htp1_load_filter cfg entry =
     and_then (lift_result (map_result peq_of_filter (zip [0..<length (ce_filters entry)] (ce_filters entry)))) (\<lambda>to_load.
       hydrate_cache_broadcast (htp1_class cfg)
         (titled (htp1_send to_load) (JStr (ce_formatted_title entry)) (JStr (ce_author entry))))"

definition htp1_clear_filter :: "htp1_cfg \<Rightarrow> (htp1_dev, unit) act" where
  "htp1_clear_filter cfg = hydrate_cache_broadcast (htp1_class cfg) (titled (htp1_send []) empty_title JNull)"

definition htp1_activate :: "htp1_cfg \<Rightarrow> (htp1_dev, unit) act" where
  "htp1_activate cfg = single_activate (htp1_class cfg)"

definition htp1_unsupported :: "(htp1_dev, unit) act" where
  "htp1_unsupported = raise NotImplementedError"

definition htp1_update :: "htp1_cfg \<Rightarrow> json \<Rightarrow> (htp1_dev, bool) act" where
  "htp1_update cfg params =
     single_update (single_update_slot (subscript ''id'') ''HTP1'' (h_find cfg) False (htp1_load_filter cfg)
       (htp1_clear_filter cfg)) params"

section \<open>Messages from the device\<close>

definition set_world :: "('w \<Rightarrow> 'w) \<Rightarrow> ((slot_state, 'w) device, unit) act" where
  "set_world f = modify (world_update f)"

text \<open>The channels of the speaker groups that are present, after the front ones\<close>

definition group_present :: "json \<Rightarrow> bool" where
  "group_present v = (case v of JObj d \<Rightarrow> map_of d ''present'' = Some (JBool True) | _ \<Rightarrow> False)"

definition htp1_group_channels :: "string \<Rightarrow> string list" where
  "htp1_group_channels g =
     (if take 2 g = ''lr'' \<and> 2 < length g then [''l'' @ drop 2 g, ''r'' @ drop 2 g] else [g])"

definition mso_channels :: "json \<Rightarrow> exn + string list" where
  "mso_channels mso =
     rbind (jget mso ''speakers'') (\<lambda>s. rbind (jget s ''groups'') (\<lambda>groups.
       case groups of
         JObj d \<Rightarrow> Inr ([''lf'', ''rf''] @ concat (map (\<lambda>(g, v). if group_present v then htp1_group_channels g else []) d))
       | _ \<Rightarrow> Inl AttributeError))"

text \<open>The filters of each channel over the slots, and whether some slot does not know some channel\<close>

definition read_channel :: "nat \<Rightarrow> json \<Rightarrow> string \<Rightarrow> (string, peq list) pydict \<times> bool \<Rightarrow> exn + (string, peq list) pydict \<times> bool" where
  "read_channel idx channels c acc =
     rbind (jcontains c channels) (\<lambda>known.
       if known then
         rbind (jget channels c) (\<lambda>params. rbind (peq_of_params idx params) (\<lambda>p.
           Inr (dict_set (fst acc) c (dict_get (fst acc) c [] @ [p]), snd acc)))
       else Inr (fst acc, True))"

definition read_slot ::
  "string list \<Rightarrow> nat \<times> json \<Rightarrow> (string, peq list) pydict \<times> bool \<Rightarrow> exn + (string, peq list) pydict \<times> bool" where
  "read_slot channels s acc =
     fold_result (\<lambda>c a. rbind (jget (snd s) ''channels'') (\<lambda>cs. read_channel (fst s) cs c a)) channels acc"

definition mso_filters :: "string list \<Rightarrow> json \<Rightarrow> exn + (string, peq list) pydict" where
  "mso_filters channels mso =
     rbind (jget mso ''peq'') (\<lambda>p. rbind (jget p ''slots'') (\<lambda>v. rbind (jiter v) (\<lambda>slots.
     rbind (fold_result (read_slot channels) (zip [0..<length slots] slots) (foldl (\<lambda>d c. dict_set d c []) [] channels, False)) (\<lambda>(filters, unknown).
       if unknown then
         rbind (jget (hd slots) ''channels'') (\<lambda>cs. if is_obj cs then Inr filters else Inl AttributeError)
       else Inr filters))))"

definition strip_v :: "string \<Rightarrow> exn + string" where
  "strip_v v = (if v = [] then Inl IndexError else Inr (if hd v = CHR ''v'' \<or> hd v = CHR ''V'' then tl v else v))"

definition mso_version :: "json \<Rightarrow> exn + string" where
  "mso_version mso =
     rbind (jget mso ''versions'') (\<lambda>vs. rbind (jget vs ''swVer'') (\<lambda>v.
       case v of JStr s \<Rightarrow> strip_v s | _ \<Rightarrow> Inl TypeError))"

text \<open>What was assigned before a part that cannot be read stays assigned.\<close>

definition on_mso :: "htp1_cfg \<Rightarrow> json \<Rightarrow> (htp1_dev, unit) act" where
  "on_mso cfg mso =
     and_then (lift_result (jget mso ''powerIsOn'')) (\<lambda>on.
     and_then (set_world (\<lambda>w. w\<lparr>h_powered_on := on\<rparr>)) (\<lambda>_.
     and_then (lift_result (jget mso ''input'')) (\<lambda>input.
     and_then (set_world (\<lambda>w. w\<lparr>h_active_input := input\<rparr>)) (\<lambda>_.
     and_then (lift_result (mso_version mso)) (\<lambda>version.
     and_then (set_world (\<lambda>w. w\<lparr>h_supports_shelf := (h_newer_than_140 cfg version = Some True)\<rparr>)) (\<lambda>_.
     and_then (lift_result (mso_channels mso)) (\<lambda>channels.
     and_then (lift_result (mso_filters channels mso)) (\<lambda>filters.
       set_world (\<lambda>w. w\<lparr>h_peq := dict_update (h_peq w) (filter (\<lambda>p. fst p \<in> set (h_channels cfg)) filters)\<rparr>)))))))))"

definition clear_beq :: "htp1_cfg \<Rightarrow> (htp1_dev, unit) act" where
  "clear_beq cfg = (if truthy (h_autoclear cfg) then htp1_clear_filter cfg else ok ())"

definition on_power_state :: "htp1_cfg \<Rightarrow> json \<Rightarrow> (htp1_dev, unit) act" where
  "on_power_state cfg v d =
     (if json_eq (h_powered_on (world d)) v then (Inr (), d)
      else and_then (set_world (\<lambda>w. w\<lparr>h_powered_on := v\<rparr>)) (\<lambda>_. clear_beq cfg) d)"

definition on_active_input :: "htp1_cfg \<Rightarrow> json \<Rightarrow> (htp1_dev, unit) act" where
  "on_active_input cfg v d =
     (if json_eq (h_active_input (world d)) v then (Inr (), d)
      else and_then (set_world (\<lambda>w. w\<lparr>h_active_input := v\<rparr>)) (\<lambda>_. clear_beq cfg) d)"

definition on_upd :: "htp1_cfg \<Rightarrow> json \<Rightarrow> (htp1_dev, unit) act" where
  "on_upd cfg upd =
     and_then (lift_result (jget upd ''path'')) (\<lambda>p.
       if p = JStr ''/powerIsOn'' then and_then (lift_result (jget upd ''value'')) (on_power_state cfg)
       else if p = JStr ''/input'' then and_then (lift_result (jget upd ''value'')) (on_active_input cfg)
       else ok ())"

text \<open>\<^verbatim>\<open>onMessage\<close>: the two messages with the value of their text, which may not be JSON; others are ignored.\<close>

datatype htp1_payload = Mso "exn + json" | MsoUpdate "exn + json" | OtherPayload

definition h_on_message :: "htp1_cfg \<Rightarrow> htp1_payload \<Rightarrow> (htp1_dev, unit) act" where
  "h_on_message cfg msg =
     (case msg of
        Mso r \<Rightarrow> and_then (lift_result r) (on_mso cfg)
      | MsoUpdate r \<Rightarrow>
          and_then (lift_result r) (\<lambda>v.
          and_then (lift_result (if is_obj v then Inr [v] else jiter v)) (for_each (on_upd cfg)))
      | OtherPayload \<Rightarrow> ok ())"

text \<open>\<^verbatim>\<open>onConnect\<close> and \<^verbatim>\<open>onOpen\<close>; \<^verbatim>\<open>onClose\<close> leaves the connection registered.\<close>

definition h_on_connect :: "nat \<Rightarrow> (htp1_dev, unit) act" where
  "h_on_connect c = set_world (\<lambda>w. w\<lparr>h_sent := h_sent w @ [(c, GetMso)]\<rparr>)"

definition h_on_open :: "nat \<Rightarrow> (htp1_dev, unit) act" where
  "h_on_open c = set_world (h_register c)"

definition h_on_close :: "nat \<Rightarrow> (htp1_dev, unit) act" where
  "h_on_close c = set_world (\<lambda>w. w\<lparr>h_lost := c # h_lost w\<rparr>)"

section \<open>The contract of a single slot device\<close>

interpretation htp1: single_slot_device "htp1_class cfg" "''HTP1''" "h_name cfg" "''htp1''" for cfg
proof unfold_locales
  show "load_initial_state (htp1_class cfg) = ok (single_slot ''HTP1'')"
    "serialise (htp1_class cfg) = (\<lambda>s. Inr (single_serialise ''htp1'' (h_name cfg) s))"
    by (simp_all add: htp1_class_def)
  show "keeps_id (merge_state (htp1_class cfg) j)" for j
    unfolding keeps_id_iff htp1_class_def device_class.select_convs htp1_merge_def by (intro allI keeps_intros) simp_all
qed

section \<open>What a load programs\<close>

text \<open>The state document of the device, as paths and values, and the effect of \<^verbatim>\<open>replace\<close> on it\<close>

fun apply_op :: "json \<Rightarrow> (string \<rightharpoonup> json) \<Rightarrow> (string \<rightharpoonup> json)" where
  "apply_op (JObj d) doc =
     (case (map_of d ''path'', map_of d ''value'') of (Some (JStr p), Some v) \<Rightarrow> doc(p \<mapsto> v) | _ \<Rightarrow> doc)"
| "apply_op _ doc = doc"

definition apply_ops :: "json list \<Rightarrow> (string \<rightharpoonup> json) \<Rightarrow> (string \<rightharpoonup> json)" where
  "apply_ops ops doc = fold apply_op ops doc"

definition peq_path :: "nat \<Rightarrow> string \<Rightarrow> string \<Rightarrow> string" where
  "peq_path i c k = ''/peq/slots/'' @ show_nat i @ ''/channels/'' @ c @ k"

definition peq_keys :: "string list" where
  "peq_keys = [''/Fc'', ''/Q'', ''/gaindB'', ''/FilterType'']"

lemma slash_show_nat: "CHR ''/'' \<notin> set (show_nat i)"
  using show_nat_digits [of "CHR ''/''" i] by (auto simp: is_digit_def digit_val_def)

lemma peq_path_inject:
  assumes "k \<in> set peq_keys" "k' \<in> set peq_keys"
  shows "peq_path i c k = peq_path j c' k' \<longleftrightarrow> i = j \<and> c = c' \<and> k = k'"
proof
  assume "peq_path i c k = peq_path j c' k'"
  then have e: "show_nat i @ CHR ''/'' # (''channels/'' @ c @ k) = show_nat j @ CHR ''/'' # (''channels/'' @ c' @ k')"
    by (simp add: peq_path_def)
  then have "takeWhile (\<lambda>ch. ch \<noteq> CHR ''/'') (show_nat i @ CHR ''/'' # (''channels/'' @ c @ k))
      = takeWhile (\<lambda>ch. ch \<noteq> CHR ''/'') (show_nat j @ CHR ''/'' # (''channels/'' @ c' @ k'))" by (rule arg_cong)
  moreover have "takeWhile (\<lambda>ch. ch \<noteq> CHR ''/'') (show_nat n @ CHR ''/'' # r) = show_nat n" for n r
    using slash_show_nat [of n] by (subst takeWhile_append2) auto
  ultimately have i: "i = j" by simp
  with e have ck: "c @ k = c' @ k'" by simp
  have "last (c @ k) = last k" "last (c' @ k') = last k'" using assms by (auto simp: peq_keys_def)
  then have "last k = last k'" using ck by simp
  then have k: "k = k'" using assms by (auto simp: peq_keys_def)
  with ck i show "i = j \<and> c = c' \<and> k = k'" by simp
qed simp

text \<open>The operations of a filter on a channel as paths and values\<close>

definition peq_pairs :: "bool \<Rightarrow> string \<Rightarrow> peq \<Rightarrow> (string \<times> json) list" where
  "peq_pairs shelf c p =
     (if json_eq (peq_type p) (JNum 0) \<or> shelf then
        [(peq_path (peq_slot p) c ''/Fc'', peq_fc p), (peq_path (peq_slot p) c ''/Q'', peq_q p),
         (peq_path (peq_slot p) c ''/gaindB'', peq_gain p)]
        @ (if shelf then [(peq_path (peq_slot p) c ''/FilterType'', peq_type p)] else [])
      else [])"

definition all_pairs :: "bool \<Rightarrow> string list \<Rightarrow> peq list \<Rightarrow> (string \<times> json) list" where
  "all_pairs shelf cs ps = concat (map (\<lambda>p. concat (map (\<lambda>c. peq_pairs shelf c p) cs)) ps)"

lemma as_ops_pairs: "as_ops shelf c p = map (\<lambda>(k, v). replace_op k v) (peq_pairs shelf c p)"
  by (simp add: as_ops_def peq_pairs_def peq_path_def Let_def)

lemma htp1_ops_pairs: "htp1_ops ps w = map (\<lambda>(k, v). replace_op k v) (all_pairs (h_supports_shelf w) (keys (h_peq w)) ps)"
  by (simp add: htp1_ops_def all_pairs_def as_ops_pairs map_concat comp_def)

lemma apply_ops_pairs: "apply_ops (map (\<lambda>(k, v). replace_op k v) kvs) doc = doc ++ map_of (rev kvs)"
proof (induction kvs arbitrary: doc)
  case (Cons kv kvs)
  obtain k v where kv: "kv = (k, v)" by (cases kv)
  have op: "apply_op (replace_op k v) doc = doc(k \<mapsto> v)" by (simp add: replace_op_def)
  have "apply_ops (map (\<lambda>(k, v). replace_op k v) (kv # kvs)) doc
      = apply_ops (map (\<lambda>(k, v). replace_op k v) kvs) (apply_op (replace_op k v) doc)"
    by (simp add: apply_ops_def kv)
  also have "\<dots> = doc(k \<mapsto> v) ++ map_of (rev kvs)" unfolding op by (rule Cons.IH)
  also have "\<dots> = doc ++ map_of (rev (kv # kvs))" by (simp add: kv)
  finally show ?case .
qed (simp add: apply_ops_def)

lemma peq_pairs_paths: "fst ` set (peq_pairs shelf c p) \<subseteq> peq_path (peq_slot p) c ` set peq_keys"
  by (auto simp: peq_pairs_def peq_keys_def)

lemma disjoint_mono: "A \<subseteq> A' \<Longrightarrow> B \<subseteq> B' \<Longrightarrow> A' \<inter> B' = {} \<Longrightarrow> A \<inter> B = {}"
  by blast

lemma paths_disjoint:
  "(i, c) \<noteq> (j, c') \<Longrightarrow> peq_path i c ` set peq_keys \<inter> peq_path j c' ` set peq_keys = {}"
  by (auto simp: peq_path_inject)

lemma distinct_peq_pairs: "distinct (map fst (peq_pairs shelf c p))"
  by (simp add: peq_pairs_def peq_path_inject peq_keys_def)

lemma distinct_all_pairs:
  assumes "distinct cs" "distinct (map peq_slot ps)"
  shows "distinct (map fst (all_pairs shelf cs ps))"
proof -
  have sub: "fst ` set (concat (map (\<lambda>c. peq_pairs shelf c p) cs)) \<subseteq> (\<Union>c \<in> set cs. peq_path (peq_slot p) c ` set peq_keys)" for p
    using peq_pairs_paths by fastforce
  have one: "distinct (map fst (concat (map (\<lambda>c. peq_pairs shelf c p) cs)))" for p
    unfolding map_concat map_map
  proof (rule distinct_concat_map [OF assms(1)])
    show "distinct ((map fst \<circ> (\<lambda>c. peq_pairs shelf c p)) c)" for c by (simp add: distinct_peq_pairs)
    show "set ((map fst \<circ> (\<lambda>c. peq_pairs shelf c p)) c) \<inter> set ((map fst \<circ> (\<lambda>c. peq_pairs shelf c p)) c') = {}"
      if "c \<noteq> c'" for c c'
    proof -
      have "(peq_slot p, c) \<noteq> (peq_slot p, c')" using that by simp
      from paths_disjoint [OF this] show ?thesis
        unfolding comp_def set_map using peq_pairs_paths [of shelf c p] peq_pairs_paths [of shelf c' p] by blast
    qed
  qed
  have "distinct ps" using assms(2) by (rule distinct_map [THEN iffD1, THEN conjunct1])
  then show ?thesis
    unfolding all_pairs_def map_concat map_map
  proof (rule distinct_concat_map)
    fix p show "distinct ((map fst \<circ> (\<lambda>p. concat (map (\<lambda>c. peq_pairs shelf c p) cs))) p)" using one by simp
  next
    fix p p' assume p: "p \<in> set ps" "p' \<in> set ps" "p \<noteq> p'"
    then have "peq_slot p \<noteq> peq_slot p'" using assms(2) by (auto simp: distinct_map inj_on_def)
    then show "set ((map fst \<circ> (\<lambda>p. concat (map (\<lambda>c. peq_pairs shelf c p) cs))) p)
        \<inter> set ((map fst \<circ> (\<lambda>p. concat (map (\<lambda>c. peq_pairs shelf c p) cs))) p') = {}"
    proof -
      have "peq_path (peq_slot p) c ` set peq_keys \<inter> peq_path (peq_slot p') c' ` set peq_keys = {}" for c c'
        using \<open>peq_slot p \<noteq> peq_slot p'\<close> by (intro paths_disjoint) simp
      then have "(\<Union>c \<in> set cs. peq_path (peq_slot p) c ` set peq_keys) \<inter> (\<Union>c \<in> set cs. peq_path (peq_slot p') c ` set peq_keys) = {}"
        by (simp add: Int_UN_distrib2)
      from disjoint_mono [OF sub [of p] sub [of p'] this] show ?thesis unfolding comp_def set_map .
    qed
  qed
qed

lemma apply_all_pairs:
  assumes "distinct cs" "distinct (map peq_slot ps)" "p \<in> set ps" "c \<in> set cs" "(k, v) \<in> set (peq_pairs shelf c p)"
  shows "apply_ops (map (\<lambda>(k, v). replace_op k v) (all_pairs shelf cs ps)) doc k = Some v"
proof -
  have d: "distinct (map fst (rev (all_pairs shelf cs ps)))"
    using distinct_all_pairs [OF assms(1,2)] by (simp flip: rev_map)
  have "(k, v) \<in> set (rev (all_pairs shelf cs ps))" using assms(3-5) by (auto simp: all_pairs_def)
  then have "map_of (rev (all_pairs shelf cs ps)) k = Some v" using d by simp
  then show ?thesis by (simp add: apply_ops_pairs map_add_def)
qed

lemma h_send_each_live:
  "\<forall>c \<in> set cs. c \<notin> set (h_lost w) \<Longrightarrow> h_send_each msg cs w = ([], w\<lparr>h_sent := h_sent w @ map (\<lambda>c. (c, msg)) cs\<rparr>)"
  by (induction cs arbitrary: w) simp_all

lemma htp1_send_live:
  assumes "h_clients w \<noteq> []" "\<forall>c \<in> set (h_clients w). c \<notin> set (h_lost w)" "htp1_ops (pad_peqs ps) w \<noteq> []"
  shows "htp1_send ps w = (Inr (), w\<lparr>h_sent := h_sent w @ map (\<lambda>c. (c, peqs_on)) (h_clients w)
    @ map (\<lambda>c. (c, ChangeMso (JList (htp1_ops (pad_peqs ps) w)))) (h_clients w)\<rparr>)"
  using assms by (simp add: htp1_send_def Let_def and_then_def h_broadcast_def h_send_each_live)

text \<open>The filters of an entry as their four values, and the filter of a slot: one of the entry or a flat one\<close>

type_synonym filter_values = "rat \<times> rat \<times> rat \<times> string"

definition filter_with :: "filter_values \<Rightarrow> beq_filter" where
  "filter_with v = (case v of (fc, q, g, t) \<Rightarrow>
     \<lparr>f_type = Some t, f_freq = Some fc, f_gain = Some g, f_q = Some q, f_biquads = None\<rparr>)"

definition slot_values :: "filter_values list \<Rightarrow> nat \<Rightarrow> filter_values" where
  "slot_values vals i = (if i < length vals then vals ! i else (100, 1, 0, ''PeakingEQ''))"

definition peq_at :: "filter_values list \<Rightarrow> nat \<Rightarrow> peq" where
  "peq_at vals i = (case slot_values vals i of (fc, q, g, t) \<Rightarrow> peq_of_values i fc q g t)"

lemma peq_of_filters:
  "map_result peq_of_filter (zip [0..<length vals] (map filter_with vals)) = Inr (map (peq_at vals) [0..<length vals])"
  unfolding map_result_Inr_iff
  by (rule list_all2_all_nthI)
    (auto simp: peq_of_filter_def filter_with_def need_def peq_at_def slot_values_def split: prod.split)

lemma pad_peqs_at: "pad_peqs (map (peq_at vals) [0..<length vals]) = map (peq_at vals) [0..<max 10 (length vals)]"
proof -
  have flat: "map (\<lambda>i. peq_of_values i 100 1 0 ''PeakingEQ'') [length vals..<10] = map (peq_at vals) [length vals..<10]"
    by (simp add: peq_at_def slot_values_def)
  have "[0..<max 10 (length vals)] = [0..<length vals] @ [length vals..<10]"
  proof (cases "length vals \<le> 10")
    case True
    then have n: "length vals + (10 - length vals) = 10" "max 10 (length vals) = 10" by simp_all
    show ?thesis using upt_add_eq_append [of 0 "length vals" "10 - length vals"] unfolding n by simp
  next
    case False
    then have "max 10 (length vals) = length vals" "[length vals..<10] = []" by simp_all
    then show ?thesis by (simp only: append_Nil2)
  qed
  then show ?thesis using flat by (simp add: pad_peqs_def)
qed

lemma peq_at_simps [simp]: "peq_slot (peq_at vals i) = i"
  by (simp add: peq_at_def peq_of_values_def split: prod.split)

lemma peaking_type: "json_eq (peq_type (peq_of_values i fc q g t)) (JNum 0) \<longleftrightarrow> t = ''PeakingEQ''"
  by (simp add: peq_of_values_def json_eq_def)

text \<open>A slot of a channel has the values of its filter, or is left alone.\<close>

definition slot_programmed :: "json list \<Rightarrow> bool \<Rightarrow> filter_values list \<Rightarrow> string \<Rightarrow> nat \<Rightarrow> (string \<rightharpoonup> json) \<Rightarrow> bool" where
  "slot_programmed ops shelf vals c i doc \<longleftrightarrow>
     (case slot_values vals i of (fc, q, g, t) \<Rightarrow>
        (t = ''PeakingEQ'' \<or> shelf \<longrightarrow>
          apply_ops ops doc (peq_path i c ''/Fc'') = Some (JNum fc) \<and> apply_ops ops doc (peq_path i c ''/Q'') = Some (JNum q)
          \<and> apply_ops ops doc (peq_path i c ''/gaindB'') = Some (JNum g)
          \<and> (shelf \<longrightarrow> apply_ops ops doc (peq_path i c ''/FilterType'')
                = Some (JNum (if t = ''PeakingEQ'' then 0 else if t = ''LowShelf'' then 1 else 2))))
        \<and> (t \<noteq> ''PeakingEQ'' \<and> \<not> shelf \<longrightarrow>
          (\<forall>k \<in> set peq_keys. apply_ops ops doc (peq_path i c k) = doc (peq_path i c k))))"

lemma htp1_ops_at:
  assumes "distinct (keys (h_peq w))" "c \<in> set (keys (h_peq w))" "i < max 10 (length vals)"
    and "slot_values vals i = (fc, q, g, t)" "ops = htp1_ops (map (peq_at vals) [0..<max 10 (length vals)]) w"
  shows "slot_programmed ops (h_supports_shelf w) vals c i doc"
proof -
  let ?ps = "map (peq_at vals) [0..<max 10 (length vals)]" and ?s = "h_supports_shelf w"
  have p: "peq_at vals i = peq_of_values i fc q g t" using assms(4) by (simp add: peq_at_def)
  have ops: "ops = map (\<lambda>(k, v). replace_op k v) (all_pairs ?s (keys (h_peq w)) ?ps)"
    using assms(5) by (simp add: htp1_ops_pairs)
  have d: "distinct (map peq_slot ?ps)" by (simp add: comp_def)
  have m: "peq_at vals i \<in> set ?ps" using assms(3) by auto
  have at: "apply_ops ops doc k = Some v" if "(k, v) \<in> set (peq_pairs ?s c (peq_at vals i))" for k v
    unfolding ops by (rule apply_all_pairs [OF assms(1) d m assms(2) that])
  have "apply_ops ops doc (peq_path i c ''/Fc'') = Some (JNum fc) \<and> apply_ops ops doc (peq_path i c ''/Q'') = Some (JNum q)
      \<and> apply_ops ops doc (peq_path i c ''/gaindB'') = Some (JNum g)
      \<and> (?s \<longrightarrow> apply_ops ops doc (peq_path i c ''/FilterType'')
            = Some (JNum (if t = ''PeakingEQ'' then 0 else if t = ''LowShelf'' then 1 else 2)))"
    if "t = ''PeakingEQ'' \<or> ?s"
    using that peaking_type [of i fc q g t]
    by (intro conjI impI; intro at) (auto simp: peq_pairs_def p peq_of_values_def)
  moreover have "apply_ops ops doc (peq_path i c k) = doc (peq_path i c k)"
    if t: "t \<noteq> ''PeakingEQ''" "\<not> ?s" and k: "k \<in> set peq_keys" for k
  proof -
    have "peq_path i c k \<notin> fst ` set (all_pairs ?s (keys (h_peq w)) ?ps)"
    proof
      assume "peq_path i c k \<in> fst ` set (all_pairs ?s (keys (h_peq w)) ?ps)"
      then obtain j c' where j: "peq_path i c k \<in> fst ` set (peq_pairs ?s c' (peq_at vals j))"
        unfolding all_pairs_def by auto
      then have "peq_path i c k \<in> peq_path j c' ` set peq_keys" using peq_pairs_paths [of ?s c' "peq_at vals j"] by auto
      then have "i = j" using k peq_path_inject by auto
      then show False using j t peaking_type [of i fc q g t] p by (simp add: peq_pairs_def)
    qed
    then have "map_of (rev (all_pairs ?s (keys (h_peq w)) ?ps)) (peq_path i c k) = None"
      by (simp add: map_of_eq_None_iff)
    then show ?thesis by (simp add: ops apply_ops_pairs map_add_def)
  qed
  ultimately show ?thesis unfolding slot_programmed_def assms(4) prod.case by blast
qed

lemma htp1_ops_ne:
  assumes "h_peq w \<noteq> []" "i < max 10 (length vals)" "slot_values vals i = (fc, q, g, t)"
    and "t = ''PeakingEQ'' \<or> h_supports_shelf w"
  shows "htp1_ops (map (peq_at vals) [0..<max 10 (length vals)]) w \<noteq> []"
proof -
  obtain c cs where c: "keys (h_peq w) = c # cs" using assms(1) by (cases "h_peq w") auto
  have "peq_pairs (h_supports_shelf w) c (peq_at vals i) \<noteq> []"
    using assms(3,4) peaking_type by (simp add: peq_pairs_def peq_at_def)
  moreover have "i \<in> set [0..<max 10 (length vals)]" using assms(2) by simp
  ultimately have "all_pairs (h_supports_shelf w) (keys (h_peq w)) (map (peq_at vals) [0..<max 10 (length vals)]) \<noteq> []"
    unfolding all_pairs_def c by auto
  then show ?thesis by (simp add: htp1_ops_pairs)
qed


text \<open>Before the device has reported its channels a load sends nothing, and yet shows the title as loaded.\<close>

lemma htp1_load_unreported:
  assumes "device_ok (\<lambda>s. slot_id s = ''HTP1'') d" and "ce_filters e = map filter_with vals" and "h_peq (world d) = []"
  shows "\<exists>d' st. htp1_load_filter cfg e d = (Inr (), d') \<and> h_sent (world d') = h_sent (world d)
    \<and> current d' = Some st \<and> last_title st = JStr (ce_formatted_title e)"
proof -
  let ?ps = "map (peq_at vals) [0..<length vals]"
  have send: "htp1_send ?ps (world d) = (Inr (), world d)"
    by (simp add: htp1_send_def Let_def htp1_ops_def assms(3))
  have "htp1_load_filter cfg e d = hydrate_cache_broadcast (htp1_class cfg)
      (titled (htp1_send ?ps) (JStr (ce_formatted_title e)) (JStr (ce_author e))) d"
    using peq_of_filters [of vals] by (simp add: htp1_load_filter_def assms(2) act_simps)
  then show ?thesis
    using htp1.titled_outcome [OF assms(1), where cfg = cfg and send = "htp1_send ?ps" and t = "JStr (ce_formatted_title e)"
        and a = "JStr (ce_author e)"] send
    by (cases "htp1_load_filter cfg e d") auto
qed

section \<open>Examples\<close>

definition htp1_example :: htp1_dev where
  "htp1_example = new_device NoFile (new_htp1_world\<lparr>h_clients := [7], h_peq := [(''sub1'', [])]\<rparr>)"


end
