(* ===== verification/Stormaudio.thy ===== *)
theory Stormaudio
  imports Single_Slot
begin

text \<open>
  The StormAudio processors of \<^verbatim>\<open>ezbeq/stormaudio.py\<close>: the ratios of the configuration, the import payload and
  its limits, the answer of the web interface, and the operations. Lemmas: whatever is posted respects the
  limits of the processor, and an entry beyond them is refused before anything happens.
\<close>

definition STORM_SLOT :: string where
  "STORM_SLOT = ''StormAudio''"

definition FILTER_TYPE_MAP :: "(string, string) pydict" where
  "FILTER_TYPE_MAP = [(''PeakingEQ'', ''Bell''), (''LowShelf'', ''Low Shelf''), (''HighShelf'', ''High Shelf'')]"

definition STORM_MAX_FILTERS :: nat where
  "STORM_MAX_FILTERS = 20"

section \<open>Ratios\<close>

record ratio_config =
  rc_gain :: rat
  rc_q :: rat
  rc_by_type :: "(string, rat \<times> rat) pydict"

definition validate_ratio :: "json \<Rightarrow> string \<Rightarrow> bool \<Rightarrow> exn + rat" where
  "validate_ratio v label strict_positive =
     rbind (jfloat v) (\<lambda>x.
       if strict_positive \<and> x \<le> 0 then Inl (ValueError (''StormAudio ratio '' @ label @ '' must be greater than 0''))
       else if \<not> strict_positive \<and> x < 0 then
         Inl (ValueError (''StormAudio ratio '' @ label @ '' must be greater than or equal to 0''))
       else Inr x)"

definition type_ratio :: "rat \<Rightarrow> rat \<Rightarrow> string \<times> json \<Rightarrow> (string, rat \<times> rat) pydict \<Rightarrow> exn + (string, rat \<times> rat) pydict" where
  "type_ratio default_gain default_q tv by_type =
     (let (t, v) = tv in
      if t \<notin> set (keys FILTER_TYPE_MAP) then Inl (ValueError (''Unknown StormAudio ratio filter type '' @ t))
      else
        rbind (rbind (jget_or v ''gain'' (JNum default_gain)) (\<lambda>g. validate_ratio g (t @ '' gain'') False)) (\<lambda>g.
        rbind (rbind (jget_or v ''q'' (JNum default_q)) (\<lambda>q. validate_ratio q (t @ '' q'') True)) (\<lambda>q.
          Inr (dict_set by_type t (g, q)))))"

definition RatioConfig :: "json \<Rightarrow> exn + ratio_config" where
  "RatioConfig cfg0 =
     (let cfg = (if truthy cfg0 then cfg0 else JObj []) in
      rbind (jget_or cfg ''default'' (JObj [])) (\<lambda>d.
      rbind (rbind (jget_or d ''gain'' (JNum 1)) (\<lambda>g. validate_ratio g ''default gain'' False)) (\<lambda>g.
      rbind (rbind (jget_or d ''q'' (JNum 1)) (\<lambda>q. validate_ratio q ''default q'' True)) (\<lambda>q.
      rbind (jget_or cfg ''byType'' (JObj [])) (\<lambda>bt.
        case bt of
          JObj items \<Rightarrow>
            rbind (fold_result (type_ratio g q) items []) (\<lambda>by_type.
              Inr \<lparr>rc_gain = g, rc_q = q, rc_by_type = by_type\<rparr>)
        | _ \<Rightarrow> Inl AttributeError)))))"

definition for_type :: "ratio_config \<Rightarrow> string \<Rightarrow> rat \<times> rat" where
  "for_type r t = dict_get (rc_by_type r) t (rc_gain r, rc_q r)"

definition ratio_as_dict :: "ratio_config \<Rightarrow> json" where
  "ratio_as_dict r =
     JObj [(''default'', JObj [(''gain'', JNum (rc_gain r)), (''q'', JNum (rc_q r))]),
       (''byType'', JObj (map (\<lambda>(t, (g, q)). (t, JObj [(''gain'', JNum g), (''q'', JNum q)])) (rc_by_type r)))]"

section \<open>The payload\<close>

record storm_filter =
  sf_type :: string
  sf_f :: rat
  sf_g :: rat
  sf_q :: rat

text \<open>The text of the value out of range is left out of the messages.\<close>

definition validate_filter :: "nat \<Rightarrow> storm_filter \<Rightarrow> exn + storm_filter" where
  "validate_filter idx f =
     (if \<not> (1 \<le> sf_f f \<and> sf_f f \<le> 20000) then
        Inl (InvalidRequestError (''StormAudio filter '' @ show_nat idx @ '' frequency is out of range''))
      else if \<not> (-96 \<le> sf_g f \<and> sf_g f \<le> 48) then
        Inl (InvalidRequestError (''StormAudio filter '' @ show_nat idx @ '' gain is out of range''))
      else if \<not> (5 / 100 \<le> sf_q f \<and> sf_q f \<le> 32) then
        Inl (InvalidRequestError (''StormAudio filter '' @ show_nat idx @ '' q is out of range''))
      else Inr f)"

definition convert_filter :: "ratio_config \<Rightarrow> nat \<times> beq_filter \<Rightarrow> exn + storm_filter" where
  "convert_filter ratio p =
     (let (idx, f) = p in
      case Option.bind (f_type f) (map_of FILTER_TYPE_MAP) of
        None \<Rightarrow> Inl (InvalidRequestError (''StormAudio does not support filter type ''
          @ (case f_type f of None \<Rightarrow> ''None'' | Some t \<Rightarrow> t) @ '' at index '' @ show_nat idx))
      | Some t' \<Rightarrow>
          (let (gain_ratio, q_ratio) = for_type ratio (case f_type f of None \<Rightarrow> [] | Some t \<Rightarrow> t) in
           case (f_freq f, f_gain f, f_q f) of
             (Some freq, Some gain, Some q) \<Rightarrow>
               validate_filter idx \<lparr>sf_type = t', sf_f = freq, sf_g = gain * gain_ratio, sf_q = q * q_ratio\<rparr>
           | _ \<Rightarrow> Inl (InvalidRequestError (''StormAudio filter '' @ show_nat idx @ '' has invalid values''))))"

definition filter_json :: "storm_filter \<Rightarrow> json" where
  "filter_json f =
     JObj [(''ftype'', JStr (sf_type f)), (''f'', JNum (sf_f f)), (''g'', JNum (sf_g f)), (''q'', JNum (sf_q f))]"

definition make_mso_payload :: "catalogue_entry \<Rightarrow> json \<Rightarrow> int \<Rightarrow> ratio_config \<Rightarrow> rat \<Rightarrow> exn + json" where
  "make_mso_payload e profile_name sub_count ratio mv =
     rbind (map_result (convert_filter ratio) (zip [0..<length (ce_filters e)] (ce_filters e))) (\<lambda>eq.
       if STORM_MAX_FILTERS < length eq then
         Inl (InvalidRequestError (''StormAudio supports at most '' @ show_nat STORM_MAX_FILTERS @ '' MSO filters''))
       else Inr (JObj
         [(''global'', JObj
            [(''profile_name'', profile_name), (''beq_title'', JStr (ce_formatted_title e)),
             (''beq_year'', JNum (of_int (ce_year e))), (''beq_audioTypes'', JList (map JStr (ce_audio_types e))),
             (''beq_author'', JStr (ce_author e)), (''beq_digest'', JStr (ce_digest e)),
             (''beq_mv'', JNum (ce_mv_adjust e + mv)), (''beq_catalogue_url'', JStr (ce_catalogue_url e)),
             (''beq_ratio'', ratio_as_dict ratio)]),
          (''Sub'', JList (replicate (nat sub_count) (JObj [(''eq'', JList (map filter_json eq))])))]))"

section \<open>The answer\<close>

text \<open>
  \<^verbatim>\<open>IMPORT_SUCCESS_PATTERN\<close>, in any case: the word modification or modifications, perhaps \<^verbatim>\<open>have been\<close>, and one of the
  words for committed, with blanks between and no word character before or after.
\<close>

definition word_char :: "char \<Rightarrow> bool" where
  "word_char c \<longleftrightarrow> (let n = of_char c :: nat in
     (48 \<le> n \<and> n \<le> 57) \<or> (65 \<le> n \<and> n \<le> 90) \<or> (97 \<le> n \<and> n \<le> 122) \<or> c = CHR ''_'' \<or> 192 \<le> n)"

definition after_word :: "string \<Rightarrow> string \<Rightarrow> string option" where
  "after_word w s = (if lower (take (length w) s) = w then Some (drop (length w) s) else None)"

definition after_blanks :: "string \<Rightarrow> string option" where
  "after_blanks s = (if s \<noteq> [] \<and> is_blank (hd s) then Some (dropWhile is_blank s) else None)"

definition skip_have_been :: "string \<Rightarrow> string" where
  "skip_have_been s =
     (case Option.bind (Option.bind (Option.bind (after_word ''have'' s) after_blanks) (after_word ''been'')) after_blanks of
        None \<Rightarrow> s | Some r \<Rightarrow> r)"

definition success_words :: "string list" where
  "success_words = [''committed'', ''commitees'', ''commit'' @ CHR 0xE9 # ''es'']"

definition success_here :: "string \<Rightarrow> bool" where
  "success_here s =
     (case after_word ''modification'' s of
        None \<Rightarrow> False
      | Some r \<Rightarrow>
          (case after_blanks (case after_word ''s'' r of None \<Rightarrow> r | Some r' \<Rightarrow> r') of
             None \<Rightarrow> False
           | Some r' \<Rightarrow>
               list_ex (\<lambda>w. case after_word w (skip_have_been r') of
                   None \<Rightarrow> False | Some e \<Rightarrow> e = [] \<or> \<not> word_char (hd e)) success_words))"

fun import_succeeded :: "bool \<Rightarrow> string \<Rightarrow> bool" where
  "import_succeeded in_word [] = False"
| "import_succeeded in_word (c # s) = ((\<not> in_word \<and> success_here (c # s)) \<or> import_succeeded (word_char c) s)"

text \<open>A response: whether its status is below 400, the status, and its body or the \<^verbatim>\<open>ValueError\<close> of reading it\<close>

record storm_response =
  sr_ok :: bool
  sr_status :: int
  sr_body :: "json option"

text \<open>
  The text of a \<^verbatim>\<open>stdout\<close> that is not a text is a parameter, as are the responses of the processor, which may
  depend on everything posted before.
\<close>

record storm_cfg =
  st_name :: string
  st_profile_name :: json
  st_sub_count :: int
  st_ratio :: ratio_config
  st_find :: "json \<Rightarrow> exn + catalogue_entry option"
  st_respond :: "json list \<Rightarrow> json \<Rightarrow> exn + storm_response"
  st_str :: "json \<Rightarrow> string"

text \<open>\<^verbatim>\<open>__resolve_url\<close>\<close>

definition rstrip_slash :: "string \<Rightarrow> string" where
  "rstrip_slash s = rev (dropWhile (\<lambda>c. c = CHR ''/'') (rev s))"

definition resolve_url :: "(json \<Rightarrow> string) \<Rightarrow> json \<Rightarrow> exn + json" where
  "resolve_url str cfg =
     rbind (jcontains ''url'' cfg) (\<lambda>has_url.
       if has_url then jget cfg ''url''
       else rbind (jget_or cfg ''ip'' JNull) (\<lambda>ip.
         if \<not> truthy ip then Inl (ValueError ''StormAudio requires either url or ip'')
         else let a = rstrip_slash (str ip)
              in Inr (JStr ((if starts_with ''http://'' a \<or> starts_with ''https://'' a then a else ''http://'' @ a)
                   @ ''/mso.php''))))"

text \<open>The constructor; the address is kept by the caller of the responses.\<close>

definition StormAudio ::
  "string \<Rightarrow> (json \<Rightarrow> exn + catalogue_entry option) \<Rightarrow> (json list \<Rightarrow> json \<Rightarrow> exn + storm_response) \<Rightarrow> (json \<Rightarrow> string)
   \<Rightarrow> json \<Rightarrow> exn + storm_cfg" where
  "StormAudio name find_entry respond str cfg =
     rbind (resolve_url str cfg) (\<lambda>url.
     rbind (rbind (jget_or cfg ''timeout'' (JNum 30)) jfloat) (\<lambda>timeout.
     rbind (jget_or cfg ''profileName'' (JStr ''ezBEQ'')) (\<lambda>profile.
     rbind (rbind (jget_or cfg ''subCount'' (JNum 1)) jint) (\<lambda>subs.
     rbind (rbind (jget_or cfg ''ratio'' (JObj [])) RatioConfig) (\<lambda>ratio.
       if subs < 1 then Inl (ValueError ''StormAudio subCount must be at least 1'')
       else Inr \<lparr>st_name = name, st_profile_name = profile, st_sub_count = subs, st_ratio = ratio,
                 st_find = find_entry, st_respond = respond, st_str = str\<rparr>)))))"

definition accept_body :: "(json \<Rightarrow> string) \<Rightarrow> json \<Rightarrow> exn + unit" where
  "accept_body str body =
     rbind (jget_or body ''ok'' JNull) (\<lambda>k.
       if k = JBool True then Inr ()
       else rbind (jget_or body ''parser'' (JObj [])) (\<lambda>parser.
         rbind (jget_or parser ''stdout'' (JStr [])) (\<lambda>out.
           if import_succeeded False (case out of JStr s \<Rightarrow> s | _ \<Rightarrow> str out) then Inr ()
           else Inl (External ''StormAudio rejected MSO payload''))))"

text \<open>\<^verbatim>\<open>__post\<close>; the world is what was posted.\<close>

definition storm_post :: "storm_cfg \<Rightarrow> json \<Rightarrow> (json list, unit) act" where
  "storm_post cfg payload posted =
     (case st_respond cfg posted payload of
        Inl e \<Rightarrow> Inl e
      | Inr rsp \<Rightarrow>
          (if \<not> sr_ok rsp then Inl (External (''StormAudio returned HTTP '' @ show_int (sr_status rsp)))
           else case sr_body rsp of
                  None \<Rightarrow> Inl (External ''StormAudio returned non-JSON response'')
                | Some body \<Rightarrow> accept_body (st_str cfg) body),
      posted @ [payload])"

section \<open>Operations\<close>

type_synonym storm_dev = "(slot_state, json list) device"

definition storm_merge :: "json \<Rightarrow> (slot_state, unit) act" where
  "storm_merge cached =
     and_then (merge_slots (\<lambda>slot. when_got_id STORM_SLOT
       (modify (slot_merge_with (case slot of JObj d \<Rightarrow> d | _ \<Rightarrow> []))) slot) cached)
       (\<lambda>_. modify (\<lambda>s. s\<lparr>active := True\<rparr>))"

definition storm_class :: "storm_cfg \<Rightarrow> (slot_state, json list) device_class" where
  "storm_class cfg =
     \<lparr>load_initial_state = ok (single_slot STORM_SLOT), merge_state = storm_merge,
      serialise = (\<lambda>s. Inr (single_serialise ''stormaudio'' (st_name cfg) s))\<rparr>"

definition check_slot :: "string \<Rightarrow> (storm_dev, unit) act" where
  "check_slot slot =
     (if slot \<noteq> STORM_SLOT then raise (InvalidRequestError (''Unknown StormAudio slot '' @ slot)) else ok ())"

definition storm_activate :: "storm_cfg \<Rightarrow> string \<Rightarrow> (storm_dev, unit) act" where
  "storm_activate cfg slot = and_then (check_slot slot) (\<lambda>_. single_activate (storm_class cfg))"

definition storm_load_filter :: "storm_cfg \<Rightarrow> string \<Rightarrow> catalogue_entry \<Rightarrow> rat \<Rightarrow> (storm_dev, unit) act" where
  "storm_load_filter cfg slot e mv =
     and_then (check_slot slot) (\<lambda>_.
     and_then (lift_result (make_mso_payload e (st_profile_name cfg) (st_sub_count cfg) (st_ratio cfg) mv)) (\<lambda>payload.
       hydrate_cache_broadcast (storm_class cfg)
         (titled (storm_post cfg payload) (JStr (ce_formatted_title e)) (JStr (ce_author e)))))"

text \<open>Clearing is local: nothing is sent.\<close>

definition storm_clear_filter :: "storm_cfg \<Rightarrow> string \<Rightarrow> (storm_dev, unit) act" where
  "storm_clear_filter cfg slot =
     and_then (check_slot slot) (\<lambda>_.
       hydrate_cache_broadcast (storm_class cfg) (on_current (modify (\<lambda>s. (slot_clear s)\<lparr>active := True\<rparr>))))"

definition storm_update :: "storm_cfg \<Rightarrow> json \<Rightarrow> (storm_dev, bool) act" where
  "storm_update cfg params =
     single_update (single_update_slot (getter ''id'') STORM_SLOT (st_find cfg) True
       (\<lambda>e. storm_load_filter cfg STORM_SLOT e 0) (storm_clear_filter cfg STORM_SLOT)) params"

definition storm_unsupported :: "(storm_dev, unit) act" where
  "storm_unsupported = raise NotImplementedError"

section \<open>The contract of a single slot device\<close>

interpretation storm: single_slot_device "storm_class cfg" STORM_SLOT "st_name cfg" "''stormaudio''" for cfg
proof unfold_locales
  show "load_initial_state (storm_class cfg) = ok (single_slot STORM_SLOT)"
    "serialise (storm_class cfg) = (\<lambda>s. Inr (single_serialise ''stormaudio'' (st_name cfg) s))"
    by (simp_all add: storm_class_def)
  show "keeps_id (merge_state (storm_class cfg) j)" for j
    unfolding keeps_id_iff storm_class_def device_class.select_convs storm_merge_def by (intro allI keeps_intros) simp_all
qed

section \<open>The limits\<close>

definition filter_in_limits :: "storm_filter \<Rightarrow> bool" where
  "filter_in_limits f \<longleftrightarrow> sf_type f \<in> set (map snd FILTER_TYPE_MAP)
     \<and> 1 \<le> sf_f f \<and> sf_f f \<le> 20000 \<and> -96 \<le> sf_g f \<and> sf_g f \<le> 48 \<and> 5 / 100 \<le> sf_q f \<and> sf_q f \<le> 32"

text \<open>A payload with the same filters, at most twenty and all within the limits, for each of the subwoofers\<close>

definition payload_in_limits :: "int \<Rightarrow> json \<Rightarrow> bool" where
  "payload_in_limits subs payload \<longleftrightarrow>
     (\<exists>global eq. payload = JObj [(''global'', global), (''Sub'', JList (replicate (nat subs) (JObj [(''eq'', JList (map filter_json eq))])))]
        \<and> length eq \<le> 20 \<and> (\<forall>f \<in> set eq. filter_in_limits f))"

lemma convert_filter_limits: "convert_filter ratio p = Inr f \<Longrightarrow> filter_in_limits f"
  by (auto simp: convert_filter_def validate_filter_def filter_in_limits_def split: prod.splits option.splits if_splits)
    (auto simp: FILTER_TYPE_MAP_def bind_eq_Some_conv split: if_splits)

lemma make_mso_payload_limits:
  assumes "make_mso_payload e profile subs ratio mv = Inr payload"
  shows "payload_in_limits subs payload"
proof -
  from assms obtain eq where eq: "map_result (convert_filter ratio) (zip [0..<length (ce_filters e)] (ce_filters e)) = Inr eq"
    "length eq \<le> 20" "\<exists>g. payload = JObj [(''global'', g), (''Sub'', JList (replicate (nat subs) (JObj [(''eq'', JList (map filter_json eq))])))]"
    by (auto simp: make_mso_payload_def rbind_Inr_iff STORM_MAX_FILTERS_def split: if_splits)
  have "filter_in_limits f" if "f \<in> set eq" for f
    using map_result_InrD [OF eq(1)] that convert_filter_limits by (auto simp: list_all2_conv_all_nth in_set_conv_nth)
  with eq(2,3) show ?thesis unfolding payload_in_limits_def by blast
qed

text \<open>What the processor takes of a filter, given the ratios\<close>

definition storm_filter_ok :: "ratio_config \<Rightarrow> beq_filter \<Rightarrow> bool" where
  "storm_filter_ok ratio f \<longleftrightarrow>
     (case (f_type f, f_freq f, f_gain f, f_q f) of
        (Some t, Some fc, Some g, Some q) \<Rightarrow>
          t \<in> set (keys FILTER_TYPE_MAP) \<and> 1 \<le> fc \<and> fc \<le> 20000
          \<and> -96 \<le> g * fst (for_type ratio t) \<and> g * fst (for_type ratio t) \<le> 48
          \<and> 5 / 100 \<le> q * snd (for_type ratio t) \<and> q * snd (for_type ratio t) \<le> 32
      | _ \<Rightarrow> False)"

lemma convert_filter_total:
  "(\<exists>sf. convert_filter ratio (i, f) = Inr sf) \<and> storm_filter_ok ratio f
   \<or> (\<exists>m. convert_filter ratio (i, f) = Inl (InvalidRequestError m)) \<and> \<not> storm_filter_ok ratio f"
proof (cases "Option.bind (f_type f) (map_of FILTER_TYPE_MAP)")
  case None
  then have "\<not> storm_filter_ok ratio f"
    by (cases "f_type f") (auto simp: storm_filter_ok_def map_of_eq_None_iff split: option.splits)
  then show ?thesis using None by (simp add: convert_filter_def)
next
  case (Some t')
  then obtain t where t: "f_type f = Some t" "map_of FILTER_TYPE_MAP t = Some t'" by (auto simp: bind_eq_Some_conv)
  then have "t \<in> fst ` set FILTER_TYPE_MAP" by (metis map_of_eq_None_iff option.distinct(1))
  then show ?thesis
    using t by (cases "for_type ratio t") (auto simp: convert_filter_def storm_filter_ok_def validate_filter_def split: option.split)
qed

lemma make_mso_payload_total:
  "(\<exists>p. make_mso_payload e profile subs ratio mv = Inr p)
      \<and> length (ce_filters e) \<le> 20 \<and> (\<forall>f \<in> set (ce_filters e). storm_filter_ok ratio f)
   \<or> (\<exists>m. make_mso_payload e profile subs ratio mv = Inl (InvalidRequestError m))
      \<and> \<not> (length (ce_filters e) \<le> 20 \<and> (\<forall>f \<in> set (ce_filters e). storm_filter_ok ratio f))"
proof (cases "\<forall>f \<in> set (ce_filters e). storm_filter_ok ratio f")
  case True
  let ?fs = "zip [0..<length (ce_filters e)] (ce_filters e)"
  have "\<forall>p \<in> set ?fs. \<exists>sf. convert_filter ratio p = Inr sf"
  proof
    fix p assume "p \<in> set ?fs"
    moreover obtain i f where p: "p = (i, f)" by (cases p)
    ultimately have "f \<in> set (ce_filters e)" using set_zip_rightD [of i f] by blast
    then have "storm_filter_ok ratio (snd p)" using True p by simp
    then show "\<exists>sf. convert_filter ratio p = Inr sf" using convert_filter_total [of ratio "fst p" "snd p"] by simp
  qed
  then obtain eq where eq: "map_result (convert_filter ratio) ?fs = Inr eq" using map_result_total by blast
  have "length eq = length (ce_filters e)" using map_result_length [OF eq] by simp
  then show ?thesis using eq True by (auto simp: make_mso_payload_def STORM_MAX_FILTERS_def)
next
  case False
  then obtain i where i: "i < length (ce_filters e)" "\<not> storm_filter_ok ratio (ce_filters e ! i)"
    by (metis in_set_conv_nth)
  let ?fs = "zip [0..<length (ce_filters e)] (ce_filters e)"
  have "(i, ce_filters e ! i) \<in> set ?fs" using i(1) by (auto simp: in_set_zip intro!: exI [of _ i])
  moreover have "\<nexists>sf. convert_filter ratio (i, ce_filters e ! i) = Inr sf"
    using convert_filter_total [of ratio i "ce_filters e ! i"] i(2) by auto
  ultimately have "\<nexists>eq. map_result (convert_filter ratio) ?fs = Inr eq"
    using map_result_InrD by (fastforce simp: list_all2_conv_all_nth in_set_conv_nth)
  then obtain x where x: "map_result (convert_filter ratio) ?fs = Inl x" by (cases "map_result (convert_filter ratio) ?fs") auto
  from map_result_Inl [OF this] obtain p where "convert_filter ratio p = Inl x" by blast
  then have "\<exists>m. x = InvalidRequestError m" using convert_filter_total [of ratio "fst p" "snd p"] by auto
  then show ?thesis using x False by (auto simp: make_mso_payload_def)
qed

section \<open>Histories\<close>

datatype storm_op = SActivate string | SLoad string catalogue_entry rat | SClear string | SUpdate json

definition storm_step :: "storm_cfg \<Rightarrow> storm_op \<Rightarrow> storm_dev \<Rightarrow> storm_dev" where
  "storm_step cfg op d =
     (case op of
        SActivate s \<Rightarrow> snd (storm_activate cfg s d)
      | SLoad s e mv \<Rightarrow> snd (storm_load_filter cfg s e mv d)
      | SClear s \<Rightarrow> snd (storm_clear_filter cfg s d)
      | SUpdate params \<Rightarrow> snd (storm_update cfg params d))"

definition storm_run :: "storm_cfg \<Rightarrow> storm_op list \<Rightarrow> storm_dev \<Rightarrow> storm_dev" where
  "storm_run cfg ops d = fold (storm_step cfg) ops d"

definition posts_ok :: "storm_cfg \<Rightarrow> json list \<Rightarrow> bool" where
  "posts_ok cfg posted \<longleftrightarrow> (\<forall>p \<in> set posted. payload_in_limits (st_sub_count cfg) p)"

lemma check_slot_maintains [keeps_intros]: "maintains P (check_slot s)"
  by (simp add: check_slot_def maintains_def act_simps)

lemma storm_post_ok: "payload_in_limits (st_sub_count cfg) p \<Longrightarrow> maintains (posts_ok cfg) (storm_post cfg p)"
  by (auto simp: maintains_def storm_post_def posts_ok_def)

lemma storm_load_posts [keeps_intros]: "maintains (of_world (posts_ok cfg)) (storm_load_filter cfg s e mv)"
proof -
  let ?r = "make_mso_payload e (st_profile_name cfg) (st_sub_count cfg) (st_ratio cfg) mv"
  let ?body = "\<lambda>p. hydrate_cache_broadcast (storm_class cfg)
      (titled (storm_post cfg p) (JStr (ce_formatted_title e)) (JStr (ce_author e)))"
  have "maintains (of_world (posts_ok cfg)) (and_then (lift_result ?r) ?body)"
  proof (cases ?r)
    case (Inl x)
    then show ?thesis by (simp add: maintains_def act_simps)
  next
    case (Inr p)
    have "maintains (of_world (posts_ok cfg)) (?body p)"
      by (intro storm.of_world_wrapped of_world_titled storm_post_ok make_mso_payload_limits [OF Inr])
    then show ?thesis using Inr by (simp add: maintains_def act_simps)
  qed
  then show ?thesis unfolding storm_load_filter_def by (rule maintains_and_then [OF check_slot_maintains])
qed

lemma storm_clear_posts [keeps_intros]: "maintains (of_world (posts_ok cfg)) (storm_clear_filter cfg s)"
  unfolding storm_clear_filter_def by (intro maintains_and_then check_slot_maintains storm.of_world_wrapped of_world_on_current)

lemma storm_step_posts: "of_world (posts_ok cfg) d \<Longrightarrow> of_world (posts_ok cfg) (storm_step cfg op d)"
proof (cases op)
  case (SActivate s)
  have "maintains (of_world (posts_ok cfg)) (storm_activate cfg s)"
    unfolding storm_activate_def single_activate_def
    by (intro maintains_and_then check_slot_maintains storm.of_world_wrapped of_world_on_current)
  then show "of_world (posts_ok cfg) d \<Longrightarrow> of_world (posts_ok cfg) (storm_step cfg op d)"
    using SActivate by (simp add: storm_step_def maintains_def)
next
  case (SUpdate params)
  have "maintains (of_world (posts_ok cfg)) (storm_update cfg params)"
    unfolding storm_update_def by (intro single_update_maintains storm_load_posts storm_clear_posts)
  then show "of_world (posts_ok cfg) d \<Longrightarrow> of_world (posts_ok cfg) (storm_step cfg op d)"
    using SUpdate by (simp add: storm_step_def maintains_def)
next
  case (SLoad s e mv)
  then show "of_world (posts_ok cfg) d \<Longrightarrow> of_world (posts_ok cfg) (storm_step cfg op d)"
    using maintainsD [OF storm_load_posts] by (simp add: storm_step_def)
next
  case (SClear s)
  then show "of_world (posts_ok cfg) d \<Longrightarrow> of_world (posts_ok cfg) (storm_step cfg op d)"
    using maintainsD [OF storm_clear_posts] by (simp add: storm_step_def)
qed

lemma storm_run_posts: "of_world (posts_ok cfg) d \<Longrightarrow> of_world (posts_ok cfg) (storm_run cfg ops d)"
  by (induction ops arbitrary: d) (simp_all add: storm_run_def storm_step_posts)

text \<open>
  Claim C36. Whatever the operations, every payload posted to the processor respects its limits: at most twenty
  filters of known types, frequency, gain and Q after the ratios within range, the same for each subwoofer. An
  entry with a filter beyond them, or with too many, is refused as an invalid request and changes nothing.
\<close>

theorem storm_posts_in_limits:
  "(\<forall>p \<in> set (world (storm_run cfg ops (new_device f []))). payload_in_limits (st_sub_count cfg) p)
   \<and> (\<not> (length (ce_filters e) \<le> 20 \<and> (\<forall>f \<in> set (ce_filters e). storm_filter_ok (st_ratio cfg) f)) \<longrightarrow>
       (\<exists>m. storm_load_filter cfg STORM_SLOT e mv d = (Inl (InvalidRequestError m), d)))"
proof (intro conjI impI)
  have "of_world (posts_ok cfg) (new_device f [])" by (simp add: of_world_def posts_ok_def new_device_def)
  from storm_run_posts [OF this, of ops]
  show "\<forall>p \<in> set (world (storm_run cfg ops (new_device f []))). payload_in_limits (st_sub_count cfg) p"
    by (simp add: of_world_def posts_ok_def)
  assume "\<not> (length (ce_filters e) \<le> 20 \<and> (\<forall>f \<in> set (ce_filters e). storm_filter_ok (st_ratio cfg) f))"
  then obtain m where "make_mso_payload e (st_profile_name cfg) (st_sub_count cfg) (st_ratio cfg) mv = Inl (InvalidRequestError m)"
    using make_mso_payload_total [of e "st_profile_name cfg" "st_sub_count cfg" "st_ratio cfg" mv] by blast
  then show "\<exists>m. storm_load_filter cfg STORM_SLOT e mv d = (Inl (InvalidRequestError m), d)"
    by (simp add: storm_load_filter_def check_slot_def act_simps)
qed

definition storm_example :: storm_cfg where
  "storm_example = \<lparr>st_name = ''storm'', st_profile_name = JStr ''ezBEQ'', st_sub_count = 2,
     st_ratio = \<lparr>rc_gain = 1, rc_q = 1, rc_by_type = []\<rparr>, st_find = (\<lambda>_. Inr None),
     st_respond = (\<lambda>_ _. Inr \<lparr>sr_ok = True, sr_status = 200, sr_body = Some (JObj [(''ok'', JBool True)])\<rparr>), st_str = (\<lambda>_. [])\<rparr>"

lemma storm_posts_in_limits_witness:
  "\<exists>m. storm_load_filter storm_example STORM_SLOT
      (plain_entry ''Alien'' ''aron'' [\<lparr>f_type = Some ''PeakingEQ'', f_freq = Some 20, f_gain = Some 60, f_q = Some 1, f_biquads = None\<rparr>]) 0
      (new_device NoFile []) = (Inl (InvalidRequestError m), new_device NoFile [])"
proof -
  let ?e = "plain_entry ''Alien'' ''aron'' [\<lparr>f_type = Some ''PeakingEQ'', f_freq = Some 20, f_gain = Some 60, f_q = Some 1, f_biquads = None\<rparr>]"
  have "\<not> (length (ce_filters ?e) \<le> 20 \<and> (\<forall>f \<in> set (ce_filters ?e). storm_filter_ok (st_ratio storm_example) f))"
    by (simp add: plain_entry_def storm_filter_ok_def storm_example_def for_type_def dict_get_def)
  then show ?thesis using storm_posts_in_limits [of storm_example "[]" NoFile ?e 0 "new_device NoFile []"] by blast
qed

lemma import_success_texts:
  "import_succeeded False ''12 modifications have been committed.''" "import_succeeded False ''Modification committed''"
  "\<not> import_succeeded False ''0 modifications rejected''" "\<not> import_succeeded False ''modifications committedly''"
  by code_simp+

end
