(* ===== verification/Reaper.thy ===== *)
theory Reaper
  imports Single_Slot
begin

text \<open>
  The REAPER device of \<^verbatim>\<open>ezbeq/reaper.py\<close>: the text payload of a load, its version taken from the clock, the
  percent encoding of the request, the operations; and the reader of the payload in
  \<^verbatim>\<open>docs/proq4_apply_filters.lua\<close>. Lemmas: the encoding is undone by decoding and leaves no separator, and
  the script reads back of every load the version, the volume adjustment and the filters that were sent.
\<close>

definition REAPER_SLOT :: string where
  "REAPER_SLOT = ''REAPER''"

section \<open>Percent encoding\<close>

text \<open>\<^verbatim>\<open>urllib.parse.quote(s, safe='')\<close>: the bytes of the UTF-8 encoding, unreserved characters as they are\<close>

definition utf8 :: "char \<Rightarrow> nat list" where
  "utf8 c = (let n = of_char c :: nat in if n < 128 then [n] else [192 + n div 64, 128 + n mod 64])"

definition is_alpha :: "char \<Rightarrow> bool" where
  "is_alpha c \<longleftrightarrow> (let n = of_char c :: nat in (65 \<le> n \<and> n \<le> 90) \<or> (97 \<le> n \<and> n \<le> 122))"

definition unreserved :: "char \<Rightarrow> bool" where
  "unreserved c \<longleftrightarrow> is_alpha c \<or> is_digit c \<or> c \<in> set ''_.-~''"

definition hex_char :: "nat \<Rightarrow> char" where
  "hex_char n = ''0123456789ABCDEF'' ! n"

definition percent :: "nat \<Rightarrow> string" where
  "percent b = [CHR ''%'', hex_char (b div 16), hex_char (b mod 16)]"

definition quote_char :: "char \<Rightarrow> string" where
  "quote_char c = (if unreserved c then [c] else concat (map percent (utf8 c)))"

definition quote :: "string \<Rightarrow> string" where
  "quote s = concat (map quote_char s)"

text \<open>Decoding, as the receiver does\<close>

definition hex_val :: "char \<Rightarrow> nat option" where
  "hex_val c = map_of (zip ''0123456789ABCDEF'' [0..<16]) c"

fun unquote_bytes :: "string \<Rightarrow> nat list" where
  "unquote_bytes [] = []"
| "unquote_bytes (c # s) =
     (if c = CHR ''%'' then
        (case s of
           a # b # r \<Rightarrow>
             (case (hex_val a, hex_val b) of
                (Some x, Some y) \<Rightarrow> (16 * x + y) # unquote_bytes r
              | _ \<Rightarrow> of_char c # unquote_bytes s)
         | _ \<Rightarrow> of_char c # unquote_bytes s)
      else of_char c # unquote_bytes s)"

fun utf8_decode :: "nat list \<Rightarrow> string" where
  "utf8_decode [] = []"
| "utf8_decode [b] = [char_of b]"
| "utf8_decode (b # b' # r) =
     (if b < 128 then char_of b # utf8_decode (b' # r) else char_of ((b - 192) * 64 + (b' - 128)) # utf8_decode r)"

definition unquote :: "string \<Rightarrow> string" where
  "unquote s = utf8_decode (unquote_bytes s)"

lemma of_char_bound: "of_char c < (256 :: nat)"
  using nat_of_char_less_256 [of c] by simp

lemma hex_digits: "\<forall>n \<in> set [0..<16]. hex_val (hex_char n) = Some n \<and> unreserved (hex_char n)"
  by code_simp

lemma hex_val_char [simp]: "n < 16 \<Longrightarrow> hex_val (hex_char n) = Some n"
  using hex_digits by simp

lemma hex_char_unreserved: "n < 16 \<Longrightarrow> unreserved (hex_char n)"
  using hex_digits by simp

lemma is_digit_iff: "is_digit c \<longleftrightarrow> c \<in> set ''0123456789''"
  by (simp add: is_digit_def digit_val_def)

lemma unquote_percent [simp]: "b < 256 \<Longrightarrow> unquote_bytes (percent b @ r) = b # unquote_bytes r"
  by (simp add: percent_def mult_div_mod_eq)

lemma utf8_bytes: "b \<in> set (utf8 c) \<Longrightarrow> b < 256"
proof -
  have "of_char c < (256 :: nat)" by (rule of_char_bound)
  moreover from this have "of_char c div 64 < (64 :: nat)"
    by (intro less_mult_imp_div_less order.strict_trans [OF of_char_bound]) simp
  ultimately show "b \<in> set (utf8 c) \<Longrightarrow> b < 256" by (auto simp: utf8_def Let_def split: if_splits)
qed

lemma unquote_percents: "\<forall>b \<in> set bs. b < 256 \<Longrightarrow> unquote_bytes (concat (map percent bs) @ r) = bs @ unquote_bytes r"
  by (induction bs) simp_all

lemma unreserved_utf8: "unreserved c \<Longrightarrow> c \<noteq> CHR ''%'' \<and> utf8 c = [of_char c]"
  unfolding unreserved_def is_alpha_def utf8_def Let_def is_digit_iff by (elim disjE) (auto simp del: One_nat_def)

lemma unquote_quote_char: "unquote_bytes (quote_char c @ r) = utf8 c @ unquote_bytes r"
proof (cases "unreserved c")
  case True
  then show ?thesis using unreserved_utf8 by (simp add: quote_char_def)
next
  case False
  then show ?thesis using unquote_percents [of "utf8 c" r] utf8_bytes by (simp add: quote_char_def)
qed

lemma utf8_decode_utf8: "utf8_decode (utf8 c @ r) = c # utf8_decode r"
proof -
  have "of_char c < (256 :: nat)" by (rule of_char_bound)
  then show ?thesis by (cases r) (simp_all add: utf8_def Let_def mult_div_mod_eq)
qed

lemma unquote_quote: "unquote (quote s) = s"
proof -
  have "unquote_bytes (quote s) = concat (map utf8 s)"
    by (induction s) (simp_all add: quote_def unquote_quote_char)
  moreover have "utf8_decode (concat (map utf8 s)) = s" by (induction s) (simp_all add: utf8_decode_utf8)
  ultimately show ?thesis by (simp add: unquote_def)
qed

lemma quote_no_separator: "x \<in> set (quote s) \<Longrightarrow> unreserved x \<or> x = CHR ''%''"
proof -
  have "x \<in> set (percent b) \<Longrightarrow> b < 256 \<Longrightarrow> unreserved x \<or> x = CHR ''%''" for b
    using hex_char_unreserved by (auto simp: percent_def)
  then show "x \<in> set (quote s) \<Longrightarrow> unreserved x \<or> x = CHR ''%''"
    using utf8_bytes by (auto simp: quote_def quote_char_def split: if_splits)
qed

section \<open>The payload\<close>

text \<open>
  \<open>rp_text\<close> is the text of a number in an f-string, \<open>rp_clock\<close> the clock at each of its readings and \<open>rp_get\<close> what
  the session answers to a request, after its retries, given those before it: a status, or an exception.
\<close>

record reaper_cfg =
  rp_name :: string
  rp_ip :: string
  rp_section :: string
  rp_key :: string
  rp_find :: "json \<Rightarrow> exn + catalogue_entry option"
  rp_text :: "rat \<Rightarrow> string"
  rp_clock :: "nat \<Rightarrow> rat"
  rp_get :: "string list \<Rightarrow> string \<Rightarrow> exn + nat"

record reaper_world =
  rw_readings :: nat
  rw_urls :: "string list"

text \<open>The constructor; \<open>str\<close> is the text of a configured value.\<close>

definition Reaper ::
  "string \<Rightarrow> (json \<Rightarrow> exn + catalogue_entry option) \<Rightarrow> (json \<Rightarrow> string) \<Rightarrow> (rat \<Rightarrow> string) \<Rightarrow> (nat \<Rightarrow> rat)
   \<Rightarrow> (string list \<Rightarrow> string \<Rightarrow> exn + nat) \<Rightarrow> json \<Rightarrow> exn + reaper_cfg" where
  "Reaper name find_entry str number_text clock get cfg =
     rbind (jget cfg ''ip'') (\<lambda>ip.
     rbind (jget_or cfg ''extstate_section'' (JStr ''beqbridge'')) (\<lambda>sec.
     rbind (jget_or cfg ''extstate_key'' (JStr ''filters'')) (\<lambda>k.
     rbind (jget_or cfg ''timeout'' (JNum 3)) (\<lambda>_.
       Inr \<lparr>rp_name = name, rp_ip = str ip, rp_section = str sec, rp_key = str k, rp_find = find_entry,
            rp_text = number_text, rp_clock = clock, rp_get = get\<rparr>))))"

definition line_feed :: char where
  "line_feed = char_of (10 :: nat)"

definition read_version :: "reaper_cfg \<Rightarrow> (reaper_world, int) act" where
  "read_version cfg w = (Inr (trunc (rp_clock cfg (rw_readings w) * 1000)), w\<lparr>rw_readings := rw_readings w + 1\<rparr>)"

definition band_line :: "(rat \<Rightarrow> string) \<Rightarrow> nat \<times> beq_filter \<Rightarrow> exn + string" where
  "band_line str p =
     (let (i, f) = p; ftype = (case f_type f of None \<Rightarrow> ''PeakingEQ'' | Some t \<Rightarrow> t) in
      rbind (need ''freq'' (f_freq f)) (\<lambda>freq.
      rbind (need ''gain'' (f_gain f)) (\<lambda>gain.
      rbind (need ''q'' (f_q f)) (\<lambda>q.
        Inr (''band'' @ show_nat i @ '' type='' @ ftype @ '' freq='' @ str freq @ '' gain='' @ str gain
             @ '' q='' @ str q @ '' enabled=1'')))))"

definition payload_text :: "(rat \<Rightarrow> string) \<Rightarrow> int \<Rightarrow> rat \<Rightarrow> beq_filter list \<Rightarrow> exn + string" where
  "payload_text str version mv fs =
     rbind (map_result (band_line str) (zip [1..<length fs + 1] fs)) (\<lambda>ls.
       Inr (join [line_feed] ((''version='' @ show_int version) # (''mv='' @ str mv) # ls)))"

definition build_payload :: "reaper_cfg \<Rightarrow> beq_filter list \<Rightarrow> rat \<Rightarrow> (reaper_world, string) act" where
  "build_payload cfg fs mv =
     and_then (read_version cfg) (\<lambda>version. lift_result (payload_text (rp_text cfg) version mv fs))"

text \<open>\<^verbatim>\<open>raise_for_status\<close> raises for a client or server error.\<close>

definition extstate_url :: "reaper_cfg \<Rightarrow> string \<Rightarrow> string" where
  "extstate_url cfg payload =
     ''http://'' @ rp_ip cfg @ ''/_/SET/EXTSTATE/'' @ rp_section cfg @ ''/'' @ rp_key cfg @ ''/'' @ quote payload"

definition push_extstate :: "reaper_cfg \<Rightarrow> string \<Rightarrow> (reaper_world, unit) act" where
  "push_extstate cfg payload w =
     (case rp_get cfg (rw_urls w) (extstate_url cfg payload) of
        Inl e \<Rightarrow> Inl e
      | Inr status \<Rightarrow> if 400 \<le> status \<and> status < 600 then Inl (External ''HTTPError'') else Inr (),
      w\<lparr>rw_urls := rw_urls w @ [extstate_url cfg payload]\<rparr>)"

definition reaper_send :: "reaper_cfg \<Rightarrow> beq_filter list \<Rightarrow> rat \<Rightarrow> (reaper_world, unit) act" where
  "reaper_send cfg fs mv = and_then (build_payload cfg fs mv) (push_extstate cfg)"

definition reaper_send_clear :: "reaper_cfg \<Rightarrow> (reaper_world, unit) act" where
  "reaper_send_clear cfg =
     and_then (read_version cfg) (\<lambda>version.
       push_extstate cfg (''version='' @ show_int version @ [line_feed] @ ''clear=1''))"

section \<open>Operations\<close>

type_synonym reaper_dev = "(slot_state, reaper_world) device"

definition reaper_merge :: "json \<Rightarrow> (slot_state, unit) act" where
  "reaper_merge = merge_slots (\<lambda>slot. when_got_id REAPER_SLOT
     (and_then (take_truthy (getter ''last'') set_last slot) (\<lambda>_. take_truthy (getter ''author'') set_author slot)) slot)"

definition reaper_class :: "reaper_cfg \<Rightarrow> (slot_state, reaper_world) device_class" where
  "reaper_class cfg =
     \<lparr>load_initial_state = ok (single_slot REAPER_SLOT), merge_state = reaper_merge,
      serialise = (\<lambda>s. Inr (single_serialise ''reaper'' (rp_name cfg) s))\<rparr>"

definition reaper_activate :: "reaper_cfg \<Rightarrow> string \<Rightarrow> (reaper_dev, unit) act" where
  "reaper_activate cfg slot = single_activate (reaper_class cfg)"

text \<open>The adjustment sent is the one of the entry, whatever the caller gives.\<close>

definition reaper_load_filter :: "reaper_cfg \<Rightarrow> string \<Rightarrow> catalogue_entry \<Rightarrow> rat \<Rightarrow> (reaper_dev, unit) act" where
  "reaper_load_filter cfg slot e mv =
     hydrate_cache_broadcast (reaper_class cfg)
       (titled (reaper_send cfg (ce_filters e) (ce_mv_adjust e)) (JStr (ce_formatted_title e)) (JStr (ce_author e)))"

definition reaper_clear_filter :: "reaper_cfg \<Rightarrow> string \<Rightarrow> (reaper_dev, unit) act" where
  "reaper_clear_filter cfg slot =
     hydrate_cache_broadcast (reaper_class cfg) (titled (reaper_send_clear cfg) (JStr ''Empty'') JNull)"

definition reaper_update :: "reaper_cfg \<Rightarrow> json \<Rightarrow> (reaper_dev, bool) act" where
  "reaper_update cfg params =
     single_update (single_update_slot (subscript ''id'') REAPER_SLOT (rp_find cfg) False
       (\<lambda>e. reaper_load_filter cfg REAPER_SLOT e 0) (reaper_clear_filter cfg REAPER_SLOT)) params"

definition reaper_unsupported :: "(reaper_dev, unit) act" where
  "reaper_unsupported = raise NotImplementedError"

definition reaper_levels :: json where
  "reaper_levels = JObj []"

section \<open>The contract of a single slot device\<close>

interpretation reaper: single_slot_device "reaper_class cfg" REAPER_SLOT "rp_name cfg" "''reaper''" for cfg
proof unfold_locales
  show "load_initial_state (reaper_class cfg) = ok (single_slot REAPER_SLOT)"
    "serialise (reaper_class cfg) = (\<lambda>s. Inr (single_serialise ''reaper'' (rp_name cfg) s))"
    by (simp_all add: reaper_class_def)
  show "keeps_id (merge_state (reaper_class cfg) j)" for j
    unfolding keeps_id_iff reaper_class_def device_class.select_convs reaper_merge_def
    by (intro allI keeps_intros) simp_all
qed

section \<open>The reader\<close>

text \<open>
  Patterns of the script, each a function from a text to what it matches at its start and the rest. None of the
  classes of characters here meets the one that follows it, so the longest run is the only match.
\<close>

definition lua_lit :: "string \<Rightarrow> string \<Rightarrow> string option" where
  "lua_lit p s = (if starts_with p s then Some (drop (length p) s) else None)"

definition lua_run :: "(char \<Rightarrow> bool) \<Rightarrow> string \<Rightarrow> (string \<times> string) option" where
  "lua_run P s = (if takeWhile P s = [] then None else Some (takeWhile P s, dropWhile P s))"

definition num_char :: "char \<Rightarrow> bool" where
  "num_char c \<longleftrightarrow> is_digit c \<or> c = CHR ''-'' \<or> c = CHR ''.''"

fun lua_search :: "(string \<Rightarrow> 'a option) \<Rightarrow> string \<Rightarrow> 'a option" where
  "lua_search m [] = m []"
| "lua_search m (c # s) = (case m (c # s) of None \<Rightarrow> lua_search m s | Some x \<Rightarrow> Some x)"

definition number_after :: "string \<Rightarrow> (char \<Rightarrow> bool) \<Rightarrow> string \<Rightarrow> string option" where
  "number_after p P s = Option.bind (lua_lit p s) (\<lambda>r. map_option fst (lua_run P r))"

record lua_band =
  lb_type :: string
  lb_freq :: "rat option"
  lb_gain :: "rat option"
  lb_q :: "rat option"

text \<open>\<^verbatim>\<open>band(%d+)%s+type=(%a+)%s+freq=([%-%d%.]+)%s+gain=([%-%d%.]+)%s+q=([%-%d%.]+)\<close>\<close>

definition blanks_then :: "string \<Rightarrow> (char \<Rightarrow> bool) \<Rightarrow> string \<Rightarrow> (string \<times> string) option" where
  "blanks_then p P s = Option.bind (lua_run is_blank s) (\<lambda>(_, r). Option.bind (lua_lit p r) (lua_run P))"

definition band_at :: "string \<Rightarrow> (nat option \<times> lua_band) option" where
  "band_at s =
     Option.bind (Option.bind (lua_lit ''band'' s) (lua_run is_digit)) (\<lambda>(i, r1).
     Option.bind (blanks_then ''type='' is_alpha r1) (\<lambda>(t, r2).
     Option.bind (blanks_then ''freq='' num_char r2) (\<lambda>(f, r3).
     Option.bind (blanks_then ''gain='' num_char r3) (\<lambda>(g, r4).
     Option.bind (blanks_then ''q='' num_char r4) (\<lambda>(q, _).
       Some (digits_from 0 i, \<lparr>lb_type = t, lb_freq = py_float f, lb_gain = py_float g, lb_q = py_float q\<rparr>))))))"

record lua_payload =
  lp_version :: nat
  lp_clear :: bool
  lp_mv :: rat
  lp_filters :: "(nat, lua_band) pydict"

definition lua_lines :: "string \<Rightarrow> string list" where
  "lua_lines s = filter (\<lambda>l. l \<noteq> []) (split_on line_feed (map (\<lambda>c. if c = char_of (13 :: nat) then line_feed else c) s))"

definition add_band :: "string \<Rightarrow> (nat, lua_band) pydict \<Rightarrow> (nat, lua_band) pydict" where
  "add_band l d = (case lua_search band_at l of Some (Some i, b) \<Rightarrow> dict_set d i b | _ \<Rightarrow> d)"

definition parse_filters :: "string \<Rightarrow> lua_payload option" where
  "parse_filters content =
     Option.bind (Option.bind (lua_search (number_after ''version='' is_digit) content) (digits_from 0)) (\<lambda>version.
       if lua_search (lua_lit ''clear=1'') content \<noteq> None then
         Some \<lparr>lp_version = version, lp_clear = True, lp_mv = 0, lp_filters = []\<rparr>
       else Some \<lparr>lp_version = version, lp_clear = False,
                  lp_mv = (case Option.bind (lua_search (number_after ''mv='' num_char) content) py_float of None \<Rightarrow> 0 | Some x \<Rightarrow> x),
                  lp_filters = fold add_band (lua_lines content) []\<rparr>)"

section \<open>What the script reads back\<close>

definition plain :: "(rat \<Rightarrow> string) \<Rightarrow> rat \<Rightarrow> bool" where
  "plain str x \<longleftrightarrow> str x \<noteq> [] \<and> list_all num_char (str x) \<and> py_float (str x) = Some x"

definition ftype_of :: "beq_filter \<Rightarrow> string" where
  "ftype_of f = (case f_type f of None \<Rightarrow> ''PeakingEQ'' | Some t \<Rightarrow> t)"

definition readable :: "(rat \<Rightarrow> string) \<Rightarrow> beq_filter \<Rightarrow> bool" where
  "readable str f \<longleftrightarrow> ftype_of f \<noteq> [] \<and> list_all is_alpha (ftype_of f)
     \<and> (case (f_freq f, f_gain f, f_q f) of
          (Some fc, Some g, Some q) \<Rightarrow> plain str fc \<and> plain str g \<and> plain str q | _ \<Rightarrow> False)"

definition band_of :: "beq_filter \<Rightarrow> lua_band" where
  "band_of f = \<lparr>lb_type = ftype_of f, lb_freq = f_freq f, lb_gain = f_gain f, lb_q = f_q f\<rparr>"

definition script_reads :: "string \<Rightarrow> lua_payload option" where
  "script_reads url = parse_filters (unquote (last (split_on (CHR ''/'') url)))"

lemma lit_append [simp]: "lua_lit p (p @ s) = Some s"
  by (simp add: lua_lit_def)

lemma run_append: "s \<noteq> [] \<Longrightarrow> list_all P s \<Longrightarrow> \<not> P c \<Longrightarrow> lua_run P (s @ c # r) = Some (s, c # r)"
  by (auto simp: lua_run_def list_all_iff)

lemma run_end: "s \<noteq> [] \<Longrightarrow> list_all P s \<Longrightarrow> lua_run P s = Some (s, [])"
  by (simp add: lua_run_def list_all_iff takeWhile_eq_all_conv [THEN iffD2] dropWhile_eq_Nil_conv [THEN iffD2])

lemma char_classes [simp]:
  "is_blank (CHR '' '')" "\<not> is_digit (CHR '' '')" "\<not> num_char (CHR '' '')" "\<not> is_alpha (CHR '' '')"
  "\<not> is_digit line_feed" "\<not> num_char line_feed" "\<not> is_alpha line_feed"
  by code_simp+

lemma blanks_then_step:
  "\<not> is_blank c \<Longrightarrow> t \<noteq> [] \<Longrightarrow> list_all P t \<Longrightarrow> \<not> P (CHR '' '') \<Longrightarrow>
   blanks_then (c # p) P (CHR '' '' # c # p @ t @ CHR '' '' # r) = Some (t, CHR '' '' # r)"
  using run_append [of "[CHR '' '']" is_blank c "p @ t @ CHR '' '' # r"] run_append [of t P "CHR '' ''" r]
    lit_append [of "c # p" "t @ CHR '' '' # r"]
  by (simp add: blanks_then_def)

lemma digits_of_show_nat: "list_all is_digit (show_nat n)"
  by (simp add: list_all_iff show_nat_digits)

lemma not_blanks: "\<not> is_blank (CHR ''t'')" "\<not> is_blank (CHR ''f'')" "\<not> is_blank (CHR ''g'')" "\<not> is_blank (CHR ''q'')"
  by code_simp+

lemma band_line_readable:
  assumes "readable str f"
  shows "\<exists>l. band_line str (i, f) = Inr (CHR ''b'' # l) \<and> band_at (CHR ''b'' # l) = Some (Some i, band_of f)"
proof -
  from assms obtain fc g q where f: "f_freq f = Some fc" "f_gain f = Some g" "f_q f = Some q"
      "plain str fc" "plain str g" "plain str q" "ftype_of f \<noteq> []" "list_all is_alpha (ftype_of f)"
    by (auto simp: readable_def split: option.splits)
  let ?r4 = "CHR '' '' # ''q='' @ str q @ CHR '' '' # ''enabled=1''"
  let ?r3 = "CHR '' '' # ''gain='' @ str g @ ?r4"
  let ?r2 = "CHR '' '' # ''freq='' @ str fc @ ?r3"
  let ?r1 = "CHR '' '' # ''type='' @ ftype_of f @ ?r2"
  have line: "band_line str (i, f) = Inr (''band'' @ show_nat i @ ?r1)"
    using f by (simp add: band_line_def need_def ftype_of_def)
  have "Option.bind (lua_lit ''band'' (''band'' @ show_nat i @ ?r1)) (lua_run is_digit) = Some (show_nat i, ?r1)"
    using run_append [OF _ digits_of_show_nat, of i "CHR '' ''"] lit_append [of "''band''"] by simp
  moreover have "blanks_then ''type='' is_alpha ?r1 = Some (ftype_of f, ?r2)"
    using blanks_then_step [OF not_blanks(1), of "ftype_of f" is_alpha "''ype=''"] f by simp
  moreover have "blanks_then ''freq='' num_char ?r2 = Some (str fc, ?r3)"
    using blanks_then_step [OF not_blanks(2), of "str fc" num_char "''req=''"] f by (simp add: plain_def)
  moreover have "blanks_then ''gain='' num_char ?r3 = Some (str g, ?r4)"
    using blanks_then_step [OF not_blanks(3), of "str g" num_char "''ain=''"] f by (simp add: plain_def)
  moreover have "blanks_then ''q='' num_char ?r4 = Some (str q, CHR '' '' # ''enabled=1'')"
    using blanks_then_step [OF not_blanks(4), of "str q" num_char "''=''"] f by (simp add: plain_def)
  ultimately have "band_at (''band'' @ show_nat i @ ?r1) = Some (Some i, band_of f)"
    using f by (simp only: band_at_def bind.simps prod.case plain_def digits_from_show_nat band_of_def)
  with line show ?thesis by (intro exI [of _ "''and'' @ show_nat i @ ?r1"]) simp
qed

text \<open>No \<^verbatim>\<open>=\<close> of a payload with filters stands after an \<^verbatim>\<open>r\<close>, so it is not taken for a clear.\<close>

fun eq_ok :: "char \<Rightarrow> string \<Rightarrow> bool" where
  "eq_ok p [] = True"
| "eq_ok p (c # s) = ((c = CHR ''='' \<longrightarrow> p \<noteq> CHR ''r'') \<and> eq_ok c s)"

lemma eq_ok_append: "eq_ok p (s @ t) \<longleftrightarrow> eq_ok p s \<and> eq_ok (last (p # s)) t"
  by (induction s arbitrary: p) auto

lemma eq_ok_none: "CHR ''='' \<notin> set s \<Longrightarrow> eq_ok p s"
  by (induction s arbitrary: p) auto

lemma lit_Some: "lua_lit p s = Some r \<Longrightarrow> s = p @ r"
  by (metis append_take_drop_id lua_lit_def option.distinct(1) option.inject starts_with_def)

lemma eq_ok_no_clear: "eq_ok p s \<Longrightarrow> lua_search (lua_lit ''clear=1'') s = None"
proof (induction s arbitrary: p)
  case Nil
  show ?case by (simp add: lua_lit_def starts_with_def)
next
  case (Cons c s)
  have "lua_lit ''clear=1'' (c # s) = None"
  proof (rule ccontr)
    assume "lua_lit ''clear=1'' (c # s) \<noteq> None"
    then obtain r where "c # s = ''clear=1'' @ r" using lit_Some by blast
    with Cons.prems show False by simp
  qed
  moreover have "lua_search (lua_lit ''clear=1'') s = None" using Cons.IH [of c] Cons.prems by simp
  ultimately show ?case by simp
qed

lemma search_skip:
  assumes "\<And>c r. c \<noteq> b \<Longrightarrow> m (c # r) = None" and "b \<notin> set s"
  shows "lua_search m (s @ t) = lua_search m t"
  using assms(2)
proof (induction s)
  case (Cons c s)
  then have "m (c # s @ t) = None" using assms(1) [of c "s @ t"] by auto
  with Cons show ?case by simp
qed simp

lemma search_hit: "m (c # s) = Some x \<Longrightarrow> lua_search m (c # s) = Some x"
  by simp

lemma lit_first: "c \<noteq> b \<Longrightarrow> lua_lit (b # p) (c # r) = None"
  by (simp add: lua_lit_def starts_with_def)

definition line_char :: "char \<Rightarrow> bool" where
  "line_char c \<longleftrightarrow> is_alpha c \<or> is_digit c \<or> c \<in> set '' =.-''"

lemma line_char_ends: "\<not> line_char line_feed" "\<not> line_char (char_of (13 :: nat))"
  by code_simp+

lemma line_chars [simp]: "list_all line_char (show_nat n)" "list_all is_alpha s \<Longrightarrow> list_all line_char s"
  "list_all num_char s \<Longrightarrow> list_all line_char s"
  using digits_of_show_nat [of n] by (auto simp: list_all_iff line_char_def num_char_def)

lemma not_eq_sign: "\<not> is_alpha (CHR ''='')" "\<not> num_char (CHR ''='')" "\<not> is_digit (CHR ''='')"
  by code_simp+

lemma no_eq_sign [simp]: "CHR ''='' \<notin> set (show_nat n)" "list_all is_alpha s \<Longrightarrow> CHR ''='' \<notin> set s"
  "list_all num_char s \<Longrightarrow> CHR ''='' \<notin> set s"
  using digits_of_show_nat [of n] not_eq_sign by (auto simp: list_all_iff)

lemma band_line_text:
  assumes "readable str f" "band_line str (i, f) = Inr l"
  shows "list_all line_char l \<and> eq_ok p l \<and> l \<noteq> []"
proof -
  from assms obtain fc g q where f: "f_freq f = Some fc" "f_gain f = Some g" "f_q f = Some q"
      "list_all num_char (str fc)" "list_all num_char (str g)" "list_all num_char (str q)" "list_all is_alpha (ftype_of f)"
    by (auto simp: readable_def plain_def split: option.splits)
  have l: "l = ''band'' @ show_nat i @ '' type='' @ ftype_of f @ '' freq='' @ str fc @ '' gain='' @ str g @ '' q='' @ str q
      @ '' enabled=1''"
    using assms(2) f by (simp add: band_line_def need_def ftype_of_def)
  have "list_all line_char ''band''" "list_all line_char '' type=''" "list_all line_char '' freq=''"
    "list_all line_char '' gain=''" "list_all line_char '' q=''" "list_all line_char '' enabled=1''" by code_simp+
  then have "list_all line_char l" unfolding l using f by (simp only: list_all_append line_chars simp_thms)
  moreover have "eq_ok p l"
    unfolding l using f by (simp add: eq_ok_append eq_ok_none)
  ultimately show ?thesis using l by simp
qed

lemma eq_ok_join: "(\<And>l p. l \<in> set ls \<Longrightarrow> eq_ok p l) \<Longrightarrow> c \<noteq> CHR ''='' \<Longrightarrow> eq_ok p (join [c] ls)"
  by (induction ls arbitrary: p) (simp_all add: join_Cons eq_ok_append)

lemma lua_lines_join:
  assumes "ls \<noteq> []" "\<forall>l \<in> set ls. list_all line_char l \<and> l \<noteq> []"
  shows "lua_lines (join [line_feed] ls) = ls"
proof -
  have no: "line_feed \<notin> set l" "char_of (13 :: nat) \<notin> set l" if "l \<in> set ls" for l
    using assms(2) that line_char_ends by (auto simp: list_all_iff)
  have "line_feed \<noteq> char_of (13 :: nat)" by code_simp
  then have "char_of (13 :: nat) \<notin> set (join [line_feed] ls)" using set_join [of "[line_feed]" ls] no(2) by auto
  then have "map (\<lambda>c. if c = char_of (13 :: nat) then line_feed else c) (join [line_feed] ls) = join [line_feed] ls"
    by (intro map_idI) auto
  moreover have "split_on line_feed (join [line_feed] ls) = ls" using assms(1) no(1) by (rule split_on_join)
  moreover have "filter (\<lambda>l. l \<noteq> []) ls = ls" using assms(2) by (simp add: filter_id_conv)
  ultimately show ?thesis by (simp add: lua_lines_def)
qed

lemma band_at_first: "c \<noteq> CHR ''b'' \<Longrightarrow> band_at (c # r) = None"
  by (simp add: band_at_def lit_first)

lemma add_band_none: "CHR ''b'' \<notin> set l \<Longrightarrow> add_band l d = d"
proof -
  assume "CHR ''b'' \<notin> set l"
  then have "lua_search band_at (l @ []) = lua_search band_at []" by (intro search_skip [of "CHR ''b''"] band_at_first)
  moreover have "band_at [] = None" by (simp add: band_at_def lua_lit_def starts_with_def)
  ultimately show ?thesis by (simp add: add_band_def)
qed

lemma add_bands:
  assumes "map_result (band_line str) ps = Inr ls" "\<forall>p \<in> set ps. readable str (snd p)"
  shows "fold add_band ls d = dict_update d (map (\<lambda>(i, f). (i, band_of f)) ps)
    \<and> (\<forall>l \<in> set ls. list_all line_char l \<and> l \<noteq> [] \<and> (\<forall>p. eq_ok p l))"
  using assms
proof (induction ps arbitrary: ls d)
  case Nil
  then show ?case by simp
next
  case (Cons p ps)
  obtain i f where p: "p = (i, f)" by (cases p)
  with Cons.prems(2) have r: "readable str f" by simp
  from band_line_readable [OF this, of i] obtain l where
    l: "band_line str (i, f) = Inr (CHR ''b'' # l)" "band_at (CHR ''b'' # l) = Some (Some i, band_of f)" by blast
  with Cons.prems(1) p obtain ls' where ls: "map_result (band_line str) ps = Inr ls'" "ls = (CHR ''b'' # l) # ls'"
    by (auto simp: rbind_Inr_iff split: sum.splits)
  have "add_band (CHR ''b'' # l) d = dict_set d i (band_of f)"
    using search_hit [of band_at, OF l(2)] by (simp add: add_band_def)
  then show ?case
    using Cons.IH [OF ls(1), of "dict_set d i (band_of f)"] Cons.prems(2) band_line_text [OF r l(1)] ls(2) p
    by (simp add: dict_update_Cons)
qed

definition numbered_bands :: "beq_filter list \<Rightarrow> (nat, lua_band) pydict" where
  "numbered_bands fs = zip [1..<length fs + 1] (map band_of fs)"

lemma payload_read_back:
  assumes "\<forall>f \<in> set fs. readable str f" "plain str mv"
  shows "\<exists>p. payload_text str (int n) mv fs = Inr p
    \<and> parse_filters p = Some \<lparr>lp_version = n, lp_clear = False, lp_mv = mv, lp_filters = numbered_bands fs\<rparr>"
proof -
  let ?ps = "zip [1..<length fs + 1] fs"
  have rd: "\<forall>p \<in> set ?ps. readable str (snd p)" using assms(1) by (auto dest: set_zip_rightD)
  then have "\<forall>p \<in> set ?ps. \<exists>l. band_line str p = Inr l" using band_line_readable by (metis prod.collapse)
  then obtain ls where ls: "map_result (band_line str) ?ps = Inr ls" using map_result_total by blast
  note bands = add_bands [OF this rd]
  let ?v = "''version='' @ show_nat n" and ?m = "''mv='' @ str mv"
  let ?p = "join [line_feed] (?v # ?m # ls)"
  have p: "payload_text str (int n) mv fs = Inr ?p" unfolding payload_text_def ls by (simp add: show_int_def)
  have str: "list_all num_char (str mv)" "str mv \<noteq> []" "py_float (str mv) = Some mv" using assms(2) by (simp_all add: plain_def)
  obtain r where r: "?p = ?v @ line_feed # ?m @ r" "r = [] \<or> hd r = line_feed" by (cases ls) (simp_all add: join_Cons)
  have "lua_run is_digit (show_nat n @ line_feed # ?m @ r) = Some (show_nat n, line_feed # ?m @ r)"
    using run_append [OF _ digits_of_show_nat, of n line_feed] by simp
  then have "number_after ''version='' is_digit ?p = Some (show_nat n)"
    unfolding r(1) append_assoc number_after_def lit_append by simp
  then have version: "lua_search (number_after ''version='' is_digit) ?p = Some (show_nat n)"
    using search_hit unfolding r(1) by simp
  have mv_at: "number_after ''mv='' num_char (?m @ r) = Some (str mv)"
    using r(2) run_append [OF str(2,1), of line_feed "tl r"] run_end [OF str(2,1)]
    unfolding number_after_def append_assoc lit_append by (cases r) simp_all
  have "CHR ''m'' \<notin> set (?v @ [line_feed])"
  proof -
    have "\<not> is_digit (CHR ''m'')" "line_feed \<noteq> CHR ''m''" by code_simp+
    then show ?thesis using digits_of_show_nat [of n] by (auto simp: list_all_iff)
  qed
  then have "lua_search (number_after ''mv='' num_char) ((?v @ [line_feed]) @ (?m @ r)) = lua_search (number_after ''mv='' num_char) (?m @ r)"
    by (intro search_skip [of "CHR ''m''"]) (simp_all add: number_after_def lit_first)
  then have mv: "lua_search (number_after ''mv='' num_char) ?p = Some (str mv)"
    using search_hit mv_at r(1) by simp
  have vm: "list_all line_char ?v" "list_all line_char ?m" "\<And>c. eq_ok c ?v" "\<And>c. eq_ok c ?m"
  proof -
    have "list_all line_char ''version=''" "list_all line_char ''mv=''" by code_simp+
    then show "list_all line_char ?v" "list_all line_char ?m" using str(1) by (simp_all only: list_all_append line_chars simp_thms)
    show "eq_ok c ?v" "eq_ok c ?m" for c using str(1) by (simp_all add: eq_ok_none)
  qed
  have "eq_ok line_feed ?p"
  proof (rule eq_ok_join)
    show "line_feed \<noteq> CHR ''=''" by code_simp
    show "eq_ok c l" if "l \<in> set (?v # ?m # ls)" for l c
      using that bands [of "[]"] vm(3,4) by (simp only: set_simps insert_iff) blast
  qed
  then have no_clear: "lua_search (lua_lit ''clear=1'') ?p = None" by (rule eq_ok_no_clear)
  have lines: "lua_lines ?p = ?v # ?m # ls" using bands vm(1,2) by (intro lua_lines_join) simp_all
  have "\<not> is_digit (CHR ''b'')" "\<not> num_char (CHR ''b'')" by code_simp+
  then have "CHR ''b'' \<notin> set ?v" "CHR ''b'' \<notin> set ?m" using digits_of_show_nat [of n] str(1) by (auto simp: list_all_iff)
  then have "fold add_band (?v # ?m # ls) [] = fold add_band ls []" by (simp only: fold_simps add_band_none not_False_eq_True)
  also have "\<dots> = dict_update [] (numbered_bands fs)"
    using bands [of "[]"] by (simp add: numbered_bands_def zip_map2)
  also have "\<dots> = numbered_bands fs"
    using dict_update_distinct [of "numbered_bands fs" "[]"] by (simp add: numbered_bands_def)
  finally have "fold add_band (lua_lines ?p) [] = numbered_bands fs" using lines by simp
  with p version no_clear mv str(3) show ?thesis
    by (intro exI [of _ ?p]) (simp add: parse_filters_def digits_from_show_nat)
qed

lemma split_on_last: "c \<notin> set t \<Longrightarrow> \<exists>q ps. split_on c (x @ c # t) = (q # ps) @ [t]"
proof (induction x)
  case (Cons a x)
  then obtain q ps where "split_on c (x @ c # t) = (q # ps) @ [t]" by blast
  then show ?case by (cases "a = c") simp_all
qed (simp add: split_on_no_sep)

lemma script_reads_url: "script_reads (extstate_url cfg p) = parse_filters p"
proof -
  have "\<not> unreserved (CHR ''/'')" by code_simp
  then have "CHR ''/'' \<notin> set (quote p)" using quote_no_separator by fastforce
  then have "last (split_on (CHR ''/'') (x @ CHR ''/'' # quote p)) = quote p" for x
    using split_on_last [of "CHR ''/''" "quote p" x] by (metis last_snoc)
  from this [of "''http://'' @ rp_ip cfg @ ''/_/SET/EXTSTATE/'' @ rp_section cfg @ ''/'' @ rp_key cfg"]
  show ?thesis by (simp add: script_reads_def extstate_url_def unquote_quote)
qed

lemma clear_read_back:
  "parse_filters (''version='' @ show_int (int n) @ [line_feed] @ ''clear=1'')
     = Some \<lparr>lp_version = n, lp_clear = True, lp_mv = 0, lp_filters = []\<rparr>"
proof -
  let ?p = "''version='' @ show_nat n @ line_feed # ''clear=1''"
  have "number_after ''version='' is_digit ?p = Some (show_nat n)"
    using run_append [OF _ digits_of_show_nat, of n line_feed "''clear=1''"]
    unfolding append_assoc number_after_def lit_append by simp
  then have version: "lua_search (number_after ''version='' is_digit) ?p = Some (show_nat n)" using search_hit by simp
  have "\<not> is_digit (CHR ''c'')" "line_feed \<noteq> CHR ''c''" by code_simp+
  then have "CHR ''c'' \<notin> set (''version='' @ show_nat n @ [line_feed])" using digits_of_show_nat [of n] by (auto simp: list_all_iff)
  then have "lua_search (lua_lit ''clear=1'') ((''version='' @ show_nat n @ [line_feed]) @ ''clear=1'') = lua_search (lua_lit ''clear=1'') ''clear=1''"
    by (intro search_skip [of "CHR ''c''"] lit_first)
  moreover have "lua_search (lua_lit ''clear=1'') ''clear=1'' = Some []" by code_simp
  ultimately show ?thesis using version by (simp add: parse_filters_def show_int_def digits_from_show_nat)
qed

definition world_after :: "reaper_world \<Rightarrow> string \<Rightarrow> reaper_world" where
  "world_after w url = w\<lparr>rw_readings := rw_readings w + 1, rw_urls := rw_urls w @ [url]\<rparr>"

definition answer :: "reaper_cfg \<Rightarrow> reaper_world \<Rightarrow> string \<Rightarrow> exn + unit" where
  "answer cfg w url =
     (case rp_get cfg (rw_urls w) url of
        Inl e \<Rightarrow> Inl e | Inr status \<Rightarrow> if 400 \<le> status \<and> status < 600 then Inl (External ''HTTPError'') else Inr ())"

lemma push_answer:
  "push_extstate cfg p (w\<lparr>rw_readings := Suc (rw_readings w)\<rparr>) = (answer cfg w (extstate_url cfg p), world_after w (extstate_url cfg p))"
  by (simp add: push_extstate_def answer_def world_after_def)

text \<open>The version of the next payload, for a clock past the epoch\<close>

definition next_version :: "reaper_cfg \<Rightarrow> reaper_world \<Rightarrow> nat" where
  "next_version cfg w = nat (trunc (rp_clock cfg (rw_readings w) * 1000))"

lemma read_version_nat:
  "0 \<le> rp_clock cfg (rw_readings w) \<Longrightarrow>
   read_version cfg w = (Inr (int (next_version cfg w)), w\<lparr>rw_readings := Suc (rw_readings w)\<rparr>)"
  by (simp add: read_version_def next_version_def trunc_def)

lemma reaper_send_reads:
  assumes "0 \<le> rp_clock cfg (rw_readings w)" "\<forall>f \<in> set fs. readable (rp_text cfg) f" "plain (rp_text cfg) mv"
  shows "\<exists>url. reaper_send cfg fs mv w = (answer cfg w url, world_after w url)
    \<and> script_reads url = Some \<lparr>lp_version = next_version cfg w, lp_clear = False, lp_mv = mv, lp_filters = numbered_bands fs\<rparr>"
proof -
  from payload_read_back [OF assms(2,3), of "next_version cfg w"] obtain p where
    p: "payload_text (rp_text cfg) (int (next_version cfg w)) mv fs = Inr p"
      "parse_filters p = Some \<lparr>lp_version = next_version cfg w, lp_clear = False, lp_mv = mv, lp_filters = numbered_bands fs\<rparr>"
    by blast
  have "reaper_send cfg fs mv w = (answer cfg w (extstate_url cfg p), world_after w (extstate_url cfg p))"
    by (simp add: reaper_send_def build_payload_def and_then_def lift_result_def read_version_nat [OF assms(1)] p(1) push_answer)
  with p(2) show ?thesis by (intro exI [of _ "extstate_url cfg p"]) (simp add: script_reads_url)
qed

lemma reaper_clear_reads:
  assumes "0 \<le> rp_clock cfg (rw_readings w)"
  shows "\<exists>url. reaper_send_clear cfg w = (answer cfg w url, world_after w url)
    \<and> script_reads url = Some \<lparr>lp_version = next_version cfg w, lp_clear = True, lp_mv = 0, lp_filters = []\<rparr>"
proof -
  let ?p = "''version='' @ show_int (int (next_version cfg w)) @ [line_feed] @ ''clear=1''"
  have "reaper_send_clear cfg w = (answer cfg w (extstate_url cfg ?p), world_after w (extstate_url cfg ?p))"
    by (simp add: reaper_send_clear_def and_then_def read_version_nat [OF assms] push_answer)
  with clear_read_back [of "next_version cfg w"] show ?thesis by (metis script_reads_url)
qed

text \<open>
  Claim C37. A load of an entry the payload can carry makes one request, from whose address the script reads the
  version, the adjustment of the entry and each filter under its number; the slot shows the title if the request was
  answered and \<^verbatim>\<open>ERROR\<close> otherwise, and the cache file and the broadcast agree. A clear is read as a clear.
\<close>

theorem reaper_read_back:
  assumes "device_ok (\<lambda>s. slot_id s = REAPER_SLOT) d"
    and "0 \<le> rp_clock cfg (rw_readings (world d))"
    and "\<forall>f \<in> set (ce_filters e). readable (rp_text cfg) f" and "plain (rp_text cfg) (ce_mv_adjust e)"
  shows "(\<exists>url. script_reads url = Some \<lparr>lp_version = next_version cfg (world d), lp_clear = False,
              lp_mv = ce_mv_adjust e, lp_filters = numbered_bands (ce_filters e)\<rparr>
       \<and> (case reaper_load_filter cfg slot e mv d of (r, d') \<Rightarrow>
            r = answer cfg (world d) url \<and> world d' = world_after (world d) url \<and> coherent (reaper_class cfg) d'
            \<and> map_option (\<lambda>s. (last_title s, last_author s)) (current d')
                = Some (case r of Inr _ \<Rightarrow> (JStr (ce_formatted_title e), JStr (ce_author e)) | Inl _ \<Rightarrow> (error_title, JNull))))
   \<and> (\<exists>url. script_reads url = Some \<lparr>lp_version = next_version cfg (world d), lp_clear = True, lp_mv = 0, lp_filters = []\<rparr>
       \<and> world (snd (reaper_clear_filter cfg slot d)) = world_after (world d) url
       \<and> fst (reaper_clear_filter cfg slot d) = answer cfg (world d) url)"
proof -
  obtain url where url: "reaper_send cfg (ce_filters e) (ce_mv_adjust e) (world d) = (answer cfg (world d) url, world_after (world d) url)"
    "script_reads url = Some \<lparr>lp_version = next_version cfg (world d), lp_clear = False,
              lp_mv = ce_mv_adjust e, lp_filters = numbered_bands (ce_filters e)\<rparr>"
    using reaper_send_reads [OF assms(2,3,4)] by blast
  obtain url' where url': "reaper_send_clear cfg (world d) = (answer cfg (world d) url', world_after (world d) url')"
    "script_reads url' = Some \<lparr>lp_version = next_version cfg (world d), lp_clear = True, lp_mv = 0, lp_filters = []\<rparr>"
    using reaper_clear_reads [OF assms(2)] by blast
  note load = reaper.titled_outcome [OF assms(1), where cfg = cfg and send = "reaper_send cfg (ce_filters e) (ce_mv_adjust e)"
      and t = "JStr (ce_formatted_title e)" and a = "JStr (ce_author e)", unfolded url(1) fst_conv snd_conv]
  note clear = reaper.titled_outcome [OF assms(1), where cfg = cfg and send = "reaper_send_clear cfg"
      and t = "JStr ''Empty''" and a = JNull,
      unfolded url'(1) fst_conv snd_conv]
  show ?thesis
    using url(2) url'(2) load clear unfolding reaper_load_filter_def reaper_clear_filter_def
    by (intro conjI exI [of _ url] exI [of _ url']) (auto split: prod.splits)
qed

text \<open>Numbers of at most two decimals, written with two, are plain.\<close>

lemma plain_fmt2: "x = of_int k / 100 \<Longrightarrow> plain fmt2 x"
proof -
  assume "x = of_int k / 100"
  then have "py_float (fmt2 x) = Some x" using fmt2_py_float round2_exact by simp
  moreover have "list_all num_char (two_digits n)" for n
    by (simp add: two_digits_def num_char_def)
  then have "list_all num_char (fmt2 x)"
    using digits_of_show_nat [of "hundredths x div 100"] by (auto simp: fmt2_def list_all_iff num_char_def)
  moreover have "fmt2 x \<noteq> []" by (simp add: fmt2_def)
  ultimately show ?thesis by (simp add: plain_def)
qed

definition sample_reaper :: reaper_cfg where
  "sample_reaper =
     \<lparr>rp_name = ''r'', rp_ip = ''192.168.1.50:8080'', rp_section = ''beqbridge'', rp_key = ''filters'',
      rp_find = (\<lambda>_. Inr None), rp_text = fmt2, rp_clock = (\<lambda>n. 1700000000 + of_nat n), rp_get = (\<lambda>_ _. Inr 200)\<rparr>"

definition sample_entry :: catalogue_entry where
  "sample_entry = plain_entry ''1'' ''T''
     [\<lparr>f_type = Some ''LowShelf'', f_freq = Some 20, f_gain = Some (11/2), f_q = Some (7/10), f_biquads = None\<rparr>]"

lemma reaper_read_back_witness:
  "\<exists>url. script_reads url = Some \<lparr>lp_version = next_version sample_reaper \<lparr>rw_readings = 0, rw_urls = []\<rparr>, lp_clear = False,
        lp_mv = 0, lp_filters = numbered_bands (ce_filters sample_entry)\<rparr>
     \<and> rw_urls (world (snd (reaper_load_filter sample_reaper ''REAPER'' sample_entry 5
          (new_device NoFile \<lparr>rw_readings = 0, rw_urls = []\<rparr>)))) = [url]"
proof -
  have w: "world (new_device NoFile \<lparr>rw_readings = 0, rw_urls = []\<rparr> :: reaper_dev) = \<lparr>rw_readings = 0, rw_urls = []\<rparr>"
    by (simp add: new_device_def)
  have "plain fmt2 20" "plain fmt2 (11/2)" "plain fmt2 (7/10)" "plain fmt2 0"
    using plain_fmt2 [of _ 2000] plain_fmt2 [of _ 550] plain_fmt2 [of _ 70] plain_fmt2 [of _ 0] by simp_all
  moreover have "list_all is_alpha ''LowShelf''" by code_simp
  ultimately have "\<forall>f \<in> set (ce_filters sample_entry). readable (rp_text sample_reaper) f"
    "plain (rp_text sample_reaper) (ce_mv_adjust sample_entry)"
    by (simp_all add: sample_entry_def sample_reaper_def plain_entry_def readable_def ftype_of_def)
  moreover have "0 \<le> rp_clock sample_reaper (rw_readings (world (new_device NoFile \<lparr>rw_readings = 0, rw_urls = []\<rparr> :: reaper_dev)))"
    by (simp add: sample_reaper_def)
  moreover have mv: "ce_mv_adjust sample_entry = 0" by (simp add: sample_entry_def plain_entry_def)
  ultimately obtain url where
    "script_reads url = Some \<lparr>lp_version = next_version sample_reaper \<lparr>rw_readings = 0, rw_urls = []\<rparr>, lp_clear = False,
        lp_mv = 0, lp_filters = numbered_bands (ce_filters sample_entry)\<rparr>"
    "world (snd (reaper_load_filter sample_reaper ''REAPER'' sample_entry 5
        (new_device NoFile \<lparr>rw_readings = 0, rw_urls = []\<rparr>))) = world_after \<lparr>rw_readings = 0, rw_urls = []\<rparr> url"
    using reaper_read_back [of "new_device NoFile \<lparr>rw_readings = 0, rw_urls = []\<rparr>" sample_reaper sample_entry "''REAPER''" 5]
    unfolding w mv case_prod_beta by fastforce
  then show ?thesis by (intro exI [of _ url]) (simp add: world_after_def)
qed

text \<open>A number whose text has an exponent is not read: its band is passed over in silence.\<close>

lemma exponent_band_dropped:
  assumes "str 20 = ''20.0''" "str (1 / 100000) = ''1e-05''" "str (7 / 10) = ''0.7''"
    and "f = \<lparr>f_type = None, f_freq = Some 20, f_gain = Some (1 / 100000), f_q = Some (7 / 10), f_biquads = None\<rparr>"
  shows "\<exists>l. band_line str (1, f) = Inr l \<and> add_band l d = d"
proof -
  let ?l = "''band1 type=PeakingEQ freq=20.0 gain=1e-05 q=0.7 enabled=1''"
  have "show_nat 1 = ''1''" by code_simp
  then have "band_line str (1, f) = Inr ?l" using assms by (simp add: band_line_def need_def)
  moreover have "lua_search band_at ?l = None" by code_simp
  ultimately show ?thesis by (simp add: add_band_def)
qed

end
