(* ===== verification/Qsys.thy ===== *)
theory Qsys
  imports Single_Slot Iir
begin

text \<open>
  The Q-SYS cores of \<^verbatim>\<open>ezbeq/qsys.py\<close>: the controls of a filter, the texts taken from an entry, the messages to
  the components over a socket and the answers to them, and the operations. Lemmas: the socket is closed on every
  path, a load sends each component one message with at least ten bands, the rest of them neutral.
\<close>

definition QSYS_SLOT :: string where
  "QSYS_SLOT = ''QSYS''"

section \<open>Filters as controls\<close>

record qsys_peq =
  qp_fc :: rat
  qp_q :: rat
  qp_gain :: rat
  qp_type :: string

definition peq_number :: "qsys_peq \<Rightarrow> rat" where
  "peq_number p = (if qp_type p = ''PeakingEQ'' then 1 else if qp_type p = ''LowShelf'' then 2 else 3)"

definition control :: "string \<Rightarrow> json \<Rightarrow> json" where
  "control name v = JObj [(''Name'', JStr name), (''Value'', v)]"

definition to_rpc :: "nat \<Rightarrow> qsys_peq \<Rightarrow> json list" where
  "to_rpc slot p =
     [control (''frequency.'' @ show_nat slot) (JNum (qp_fc p)), control (''gain.'' @ show_nat slot) (JNum (qp_gain p)),
      control (''q.factor.'' @ show_nat slot) (JNum (qp_q p)), control (''type.'' @ show_nat slot) (JNum (peq_number p))]"

definition qsys_fs :: real where
  "qsys_fs = 48000"

definition peq_coeffs :: "qsys_peq \<Rightarrow> exn + real list" where
  "peq_coeffs p =
     rbind (if qp_type p = ''LowShelf'' then Inr LowShelf
            else if qp_type p = ''PeakingEQ'' then Inr PeakingEQ
            else if qp_type p = ''HighShelf'' then Inr HighShelf
            else Inl (ValueError (''Filter type '' @ qp_type p @ '' not supported''))) (\<lambda>t.
     rbind (design t qsys_fs (of_rat (qp_fc p)) (of_rat (qp_q p)) (of_rat (qp_gain p))) (\<lambda>(a, b). Inr (b @ a)))"

definition peq_of_entry :: "beq_filter \<Rightarrow> exn + qsys_peq" where
  "peq_of_entry f =
     rbind (need ''freq'' (f_freq f)) (\<lambda>fc. rbind (need ''q'' (f_q f)) (\<lambda>q. rbind (need ''gain'' (f_gain f)) (\<lambda>g.
     rbind (need ''type'' (f_type f)) (\<lambda>t. Inr \<lparr>qp_fc = fc, qp_q = q, qp_gain = g, qp_type = t\<rparr>))))"

definition neutral_peq :: qsys_peq where
  "neutral_peq = \<lparr>qp_fc = 100, qp_q = 1, qp_gain = 0, qp_type = ''PeakingEQ''\<rparr>"

text \<open>\<^verbatim>\<open>while len(to_load) < 10: to_load.append(...)\<close>\<close>

definition pad_bands :: "qsys_peq list \<Rightarrow> qsys_peq list" where
  "pad_bands ps = ps @ replicate (10 - length ps) neutral_peq"

section \<open>Texts from an entry\<close>

text \<open>
  The attributes of an entry by name. \<^verbatim>\<open>filters\<close>, which has its own rule, and the methods are not among them.
\<close>

definition entry_attrs :: "catalogue_entry \<Rightarrow> (string, json) pydict" where
  "entry_attrs e =
     (let other = \<lambda>k. JStr (dict_get (ce_other_texts e) k []); texts = \<lambda>xs. JList (map JStr xs);
          opt = \<lambda>x. case x of None \<Rightarrow> JNull | Some s \<Rightarrow> JStr s in
      [(''id'', JStr (ce_id e)), (''title'', JStr (ce_title e)), (''year'', JNum (of_int (ce_year e))),
       (''audio_types'', texts (ce_audio_types e)), (''audio_codecs'', texts (ce_audio_codecs e)),
       (''audio_channel_counts'', texts (ce_audio_channel_counts e)), (''content_type'', JStr (ce_content_type e)),
       (''author'', JStr (ce_author e)), (''catalogue_url'', JStr (ce_catalogue_url e)), (''images'', texts (ce_images e)),
       (''warning'', texts (ce_warning e)), (''season'', JStr (ce_season e)), (''episodes'', JStr (ce_episodes e)),
       (''avs_url'', other ''avs''), (''sort_title'', other ''sortTitle''), (''edition'', other ''edition''),
       (''note'', other ''note''), (''language'', other ''language''), (''source'', other ''source''),
       (''overview'', other ''overview''), (''the_movie_db'', other ''theMovieDB''), (''rating'', other ''rating''),
       (''genres'', texts (ce_genres e)), (''alt_title'', other ''altTitle''), (''created_at'', JNum (ce_created_at e)),
       (''updated_at'', JNum (ce_updated_at e)), (''digest'', JStr (ce_digest e)),
       (''collection_id'', opt (ce_collection_id e)), (''collection_name'', opt (ce_collection_name e)),
       (''formatted_title'', JStr (ce_formatted_title e)), (''runtime'', JNum (of_int (ce_runtime e))),
       (''mv_adjust'', JNum (ce_mv_adjust e)),
       (''freshness'', case ce_freshness e of Fresh \<Rightarrow> JStr ''Fresh'' | Updated \<Rightarrow> JStr ''Updated'' | Stale \<Rightarrow> JStr ''Stale'')])"

definition entry_attr :: "catalogue_entry \<Rightarrow> string \<Rightarrow> exn + json" where
  "entry_attr e k = (case map_of (entry_attrs e) k of None \<Rightarrow> Inl AttributeError | Some v \<Rightarrow> Inr v)"

text \<open>
  \<^verbatim>\<open>re.match(r'(.*)\[(\d+)]', v)\<close>: the longest first group within the line, then an index in brackets.
\<close>

fun indexed :: "string \<Rightarrow> (string \<times> nat) option" where
  "indexed [] = None"
| "indexed (c # s) =
     (case (if c = char_of (10 :: nat) then None else indexed s) of
        Some (p, n) \<Rightarrow> Some (c # p, n)
      | None \<Rightarrow>
          (if c = CHR ''['' \<and> takeWhile is_digit s \<noteq> [] \<and> dropWhile is_digit s \<noteq> [] \<and> hd (dropWhile is_digit s) = CHR '']''
           then map_option (\<lambda>n. ([], n)) (digits_from 0 (takeWhile is_digit s)) else None))"

fun str_item :: "json \<Rightarrow> exn + string" where
  "str_item (JStr s) = Inr s"
| "str_item _ = Inl TypeError"

definition attr_text :: "(json \<Rightarrow> string) \<Rightarrow> catalogue_entry \<Rightarrow> string \<Rightarrow> exn + json" where
  "attr_text str e v =
     (let m = indexed v in
      rbind (entry_attr e (case m of Some (p, _) \<Rightarrow> p | None \<Rightarrow> v)) (\<lambda>val.
        case val of
          JList xs \<Rightarrow>
            (case m of
               Some (_, i) \<Rightarrow> Inr (if i < length xs then xs ! i else JStr [])
             | None \<Rightarrow> rbind (map_result str_item xs) (\<lambda>ss. Inr (JStr (join '', '' ss))))
        | JStr s \<Rightarrow> Inr (JStr s)
        | _ \<Rightarrow> Inr (JStr (str val))))"

text \<open>What is loaded: an entry, or the title to show when the filters are cleared\<close>

datatype qsys_content = Entry catalogue_entry | Cleared string

text \<open>\<open>str\<close> is the text of a number or of \<^verbatim>\<open>None\<close>, \<open>dumps\<close> the JSON text of a list of floats.\<close>

definition content_value ::
  "(json \<Rightarrow> string) \<Rightarrow> (real list \<Rightarrow> string) \<Rightarrow> qsys_peq list \<Rightarrow> qsys_content \<Rightarrow> json \<Rightarrow> exn + json" where
  "content_value str dumps ps content v =
     (if v = JStr ''filters'' then rbind (map_result peq_coeffs ps) (\<lambda>cs. Inr (JStr (dumps (concat cs))))
      else case content of
        Entry e \<Rightarrow> (case v of JStr k \<Rightarrow> attr_text str e k | _ \<Rightarrow> Inl TypeError)
      | Cleared _ \<Rightarrow> Inr (JStr (if v = JStr ''mv_adjust'' then ''0.0'' else [])))"

section \<open>The socket\<close>

text \<open>
  What a read of the socket gives: the bytes of a packet (none at the end of the stream) or an exception. A read
  after the last of a list of these times out.
\<close>

datatype received = Packet "nat list" | Failed exn

fun recvall_from :: "nat \<Rightarrow> nat list \<Rightarrow> received list \<Rightarrow> exn + nat list" where
  "recvall_from buf acc [] = Inr acc"
| "recvall_from buf acc (Packet p # rs) =
     (if p = [] then Inr acc
      else if length p < buf then Inr (acc @ p)
      else recvall_from buf (acc @ p) rs)"
| "recvall_from buf acc (Failed e # rs) = (if e = TimeoutError then Inr acc else Inl e)"

text \<open>Well formed UTF-8\<close>

definition cont_byte :: "nat \<Rightarrow> bool" where
  "cont_byte b \<longleftrightarrow> 128 \<le> b \<and> b < 192"

fun utf8_ok :: "nat list \<Rightarrow> bool" where
  "utf8_ok [] = True"
| "utf8_ok (b # r) =
     (if b < 128 then utf8_ok r
      else case r of
        c # r1 \<Rightarrow>
          if 194 \<le> b \<and> b < 224 \<and> cont_byte c then utf8_ok r1
          else (case r1 of
            d # r2 \<Rightarrow>
              if ((b = 224 \<and> 160 \<le> c \<and> c < 192) \<or> (b = 237 \<and> 128 \<le> c \<and> c < 160) \<or> (225 \<le> b \<and> b < 240 \<and> b \<noteq> 237 \<and> cont_byte c))
                 \<and> cont_byte d then utf8_ok r2
              else (case r2 of
                e # r3 \<Rightarrow>
                  ((b = 240 \<and> 144 \<le> c \<and> c < 192) \<or> (241 \<le> b \<and> b < 244 \<and> cont_byte c) \<or> (b = 244 \<and> 128 \<le> c \<and> c < 144))
                    \<and> cont_byte d \<and> cont_byte e \<and> utf8_ok r3
              | [] \<Rightarrow> False)
          | [] \<Rightarrow> False)
      | [] \<Rightarrow> False)"

text \<open>\<^verbatim>\<open>__recvall\<close>; the text is only logged, so it is the bytes.\<close>

definition recvall :: "received list \<Rightarrow> exn + nat list" where
  "recvall rs = rbind (recvall_from 4096 [] rs) (\<lambda>bs. if utf8_ok bs then Inr bs else Inl (External ''UnicodeDecodeError''))"

text \<open>
  \<open>qs_connect\<close> is the outcome of connecting, \<open>qs_exchange\<close> that of sending a message after others: an exception,
  or what the reads after it give. The world is the messages sent and the sockets open.
\<close>

record qsys_cfg =
  qs_name :: string
  qs_components :: json
  qs_content :: json
  qs_find :: "json \<Rightarrow> exn + catalogue_entry option"
  qs_connect :: "json list \<Rightarrow> exn + unit"
  qs_exchange :: "json list \<Rightarrow> json \<Rightarrow> exn + received list"
  qs_str :: "json \<Rightarrow> string"
  qs_dumps :: "real list \<Rightarrow> string"

record qsys_world =
  qw_sent :: "json list"
  qw_open :: nat

definition Qsys ::
  "string \<Rightarrow> (json \<Rightarrow> exn + catalogue_entry option) \<Rightarrow> (json \<Rightarrow> json \<Rightarrow> json \<Rightarrow> json list \<Rightarrow> exn + unit)
   \<Rightarrow> (json list \<Rightarrow> json \<Rightarrow> exn + received list) \<Rightarrow> (json \<Rightarrow> string) \<Rightarrow> (real list \<Rightarrow> string) \<Rightarrow> json \<Rightarrow> exn + qsys_cfg" where
  "Qsys name find_entry connect exchange str dumps cfg =
     rbind (jget cfg ''ip'') (\<lambda>ip.
     rbind (jget cfg ''port'') (\<lambda>prt.
     rbind (jget_or cfg ''components'' (JList [])) (\<lambda>components.
     rbind (jget_or cfg ''content_info'' JNull) (\<lambda>content.
     rbind (jget_or cfg ''timeout_secs'' (JNum 2)) (\<lambda>timeout.
       Inr \<lparr>qs_name = name, qs_components = components, qs_content = (if truthy content then content else JObj []),
            qs_find = find_entry, qs_connect = connect ip prt timeout, qs_exchange = exchange, qs_str = str, qs_dumps = dumps\<rparr>)))))"

definition component_set :: "json \<Rightarrow> json list \<Rightarrow> json" where
  "component_set name controls =
     JObj [(''jsonrpc'', JStr ''2.0''), (''id'', JNum 1234), (''method'', JStr ''Component.Set''),
           (''params'', JObj [(''Name'', name), (''Controls'', JList controls)])]"

text \<open>\<^verbatim>\<open>__send_component\<close>: an answer that is not JSON is logged, one that is not text raises.\<close>

definition send_component :: "qsys_cfg \<Rightarrow> json \<Rightarrow> json list \<Rightarrow> (qsys_world, unit) act" where
  "send_component cfg name controls w =
     (let msg = component_set name controls in
      (rbind (qs_exchange cfg (qw_sent w) msg) (\<lambda>rs. rbind (recvall rs) (\<lambda>_. Inr ())),
       w\<lparr>qw_sent := qw_sent w @ [msg]\<rparr>))"

definition band_controls :: "qsys_peq list \<Rightarrow> json list" where
  "band_controls ps = concat (map (\<lambda>(i, p). to_rpc (i + 1) p) (zip [0..<length ps] ps))"

text \<open>The items of a dictionary of the configuration\<close>

fun jitems :: "json \<Rightarrow> exn + (string \<times> json) list" where
  "jitems (JObj d) = Inr d"
| "jitems _ = Inl AttributeError"

definition text_control ::
  "qsys_cfg \<Rightarrow> qsys_peq list \<Rightarrow> qsys_content \<Rightarrow> string \<times> json \<Rightarrow> exn + json" where
  "text_control cfg ps content kv =
     rbind (content_value (qs_str cfg) (qs_dumps cfg) ps content (snd kv)) (\<lambda>val. Inr (control (fst kv) val))"

definition send_texts :: "qsys_cfg \<Rightarrow> qsys_peq list \<Rightarrow> qsys_content \<Rightarrow> string \<times> json \<Rightarrow> (qsys_world, unit) act" where
  "send_texts cfg ps content nm =
     and_then (lift_result (rbind (jitems (snd nm)) (map_result (text_control cfg ps content)))) (\<lambda>cs.
       send_component cfg (JStr (fst nm)) cs)"

definition send_all :: "qsys_cfg \<Rightarrow> qsys_peq list \<Rightarrow> qsys_content \<Rightarrow> (qsys_world, unit) act" where
  "send_all cfg ps content =
     and_then (\<lambda>w. (qs_connect cfg (qw_sent w), w)) (\<lambda>_.
     and_then (and_then (lift_result (jiter (qs_components cfg))) (for_each (\<lambda>c. send_component cfg c (band_controls ps)))) (\<lambda>_.
       and_then (lift_result (jiter (qs_content cfg)))
         (for_each (\<lambda>c. and_then (lift_result (jitems c)) (for_each (send_texts cfg ps content))))))"

definition send_to_socket :: "qsys_cfg \<Rightarrow> qsys_peq list \<Rightarrow> qsys_content \<Rightarrow> (qsys_world, unit) act" where
  "send_to_socket cfg ps content =
     and_then (modify (\<lambda>w. w\<lparr>qw_open := qw_open w + 1\<rparr>)) (\<lambda>_.
       try_finally (send_all cfg ps content) (modify (\<lambda>w. w\<lparr>qw_open := qw_open w - 1\<rparr>)))"

definition qsys_send :: "qsys_cfg \<Rightarrow> qsys_peq list \<Rightarrow> qsys_content \<Rightarrow> (qsys_world, unit) act" where
  "qsys_send cfg ps content = (if pad_bands ps \<noteq> [] then send_to_socket cfg (pad_bands ps) content else ok ())"

section \<open>Operations\<close>

type_synonym qsys_dev = "(slot_state, qsys_world) device"

text \<open>
  The cached slot is sought as \<^verbatim>\<open>Qsys\<close>, and its author goes to an attribute nothing reads.
\<close>

definition qsys_merge :: "json \<Rightarrow> (slot_state, unit) act" where
  "qsys_merge = merge_slots (\<lambda>slot. when_id ''Qsys''
     (and_then (take_truthy (subscript ''last'') set_last slot) (\<lambda>_. take_truthy (subscript ''author'') (\<lambda>_ s. s) slot)) slot)"

definition qsys_class :: "qsys_cfg \<Rightarrow> (slot_state, qsys_world) device_class" where
  "qsys_class cfg =
     \<lparr>load_initial_state = ok (single_slot QSYS_SLOT), merge_state = qsys_merge,
      serialise = (\<lambda>s. Inr (single_serialise ''qsys'' (qs_name cfg) s))\<rparr>"

definition qsys_activate :: "qsys_cfg \<Rightarrow> string \<Rightarrow> (qsys_dev, unit) act" where
  "qsys_activate cfg slot = single_activate (qsys_class cfg)"

definition qsys_do_it :: "qsys_cfg \<Rightarrow> qsys_peq list \<Rightarrow> qsys_content \<Rightarrow> (qsys_dev, unit) act" where
  "qsys_do_it cfg ps content =
     (case content of
        Entry e \<Rightarrow> titled (qsys_send cfg ps content) (JStr (ce_formatted_title e)) (JStr (ce_author e))
      | Cleared t \<Rightarrow> titled (qsys_send cfg ps content) (JStr t) JNull)"

definition qsys_load_filter :: "qsys_cfg \<Rightarrow> string \<Rightarrow> catalogue_entry \<Rightarrow> rat \<Rightarrow> (qsys_dev, unit) act" where
  "qsys_load_filter cfg slot e mv =
     and_then (lift_result (map_result peq_of_entry (ce_filters e))) (\<lambda>ps.
       hydrate_cache_broadcast (qsys_class cfg) (qsys_do_it cfg ps (Entry e)))"

definition qsys_clear_filter :: "qsys_cfg \<Rightarrow> string \<Rightarrow> (qsys_dev, unit) act" where
  "qsys_clear_filter cfg slot = hydrate_cache_broadcast (qsys_class cfg) (qsys_do_it cfg [] (Cleared ''Empty''))"

definition qsys_update :: "qsys_cfg \<Rightarrow> json \<Rightarrow> (qsys_dev, bool) act" where
  "qsys_update cfg params =
     single_update (single_update_slot (subscript ''id'') QSYS_SLOT (qs_find cfg) False
       (\<lambda>e. qsys_load_filter cfg QSYS_SLOT e 0) (qsys_clear_filter cfg QSYS_SLOT)) params"

definition qsys_unsupported :: "(qsys_dev, unit) act" where
  "qsys_unsupported = raise NotImplementedError"

definition qsys_levels :: json where
  "qsys_levels = JObj []"

section \<open>The contract of a single slot device\<close>

interpretation qsys: single_slot_device "qsys_class cfg" QSYS_SLOT "qs_name cfg" "''qsys''" for cfg
proof unfold_locales
  show "load_initial_state (qsys_class cfg) = ok (single_slot QSYS_SLOT)"
    "serialise (qsys_class cfg) = (\<lambda>s. Inr (single_serialise ''qsys'' (qs_name cfg) s))"
    by (simp_all add: qsys_class_def)
  show "keeps_id (merge_state (qsys_class cfg) j)" for j
    unfolding keeps_id_iff qsys_class_def device_class.select_convs qsys_merge_def
    by (intro allI keeps_intros) simp_all
qed

section \<open>What a load sends\<close>

lemma pad_bands_length: "length (pad_bands ps) = max 10 (length ps)"
  by (simp add: pad_bands_def)

lemma pad_bands_ne [simp]: "pad_bands ps \<noteq> []"
  using pad_bands_length [of ps] by (metis length_0_conv max_def not_numeral_le_zero order.refl zero_neq_numeral)

text \<open>The sockets open and the messages sent before\<close>

definition opened :: "nat \<Rightarrow> json list \<Rightarrow> qsys_world \<Rightarrow> bool" where
  "opened n sent w \<longleftrightarrow> qw_open w = n \<and> (\<exists>more. qw_sent w = sent @ more)"

lemma send_component_opened [keeps_intros]: "maintains (opened n sent) (send_component cfg name cs)"
  by (auto simp: maintains_def send_component_def opened_def Let_def)

lemma connect_opened [keeps_intros]: "maintains (opened n sent) (\<lambda>w. (f w, w))"
  by (simp add: maintains_def)

lemma send_all_opened: "maintains (opened n sent) (send_all cfg ps content)"
  unfolding send_all_def send_texts_def by (intro keeps_intros)

lemma send_to_socket_opened: "maintains (opened n sent) (send_to_socket cfg ps content)"
proof -
  have "opened n sent (snd (send_to_socket cfg ps content w))" if w: "opened n sent w" for w
  proof -
    have "opened (Suc n) sent (w\<lparr>qw_open := Suc (qw_open w)\<rparr>)" using w by (simp add: opened_def)
    from maintainsD [OF send_all_opened this, of cfg ps content] show ?thesis
      by (auto simp: send_to_socket_def modify_def and_then_def try_finally_def opened_def split: prod.split)
  qed
  then show ?thesis by (simp add: maintains_def)
qed

text \<open>A message to a component that can be sent and is answered with text\<close>

definition answers :: "qsys_cfg \<Rightarrow> bool" where
  "answers cfg \<longleftrightarrow> (\<forall>sent msg. \<exists>rs bs. qs_exchange cfg sent msg = Inr rs \<and> recvall rs = Inr bs)"

lemma send_component_answered:
  "answers cfg \<Longrightarrow> send_component cfg name cs w = (Inr (), w\<lparr>qw_sent := qw_sent w @ [component_set name cs]\<rparr>)"
  unfolding answers_def by (auto simp: send_component_def Let_def dest!: spec [of _ "qw_sent w"] spec [of _ "component_set name cs"])

lemma send_components_answered:
  "answers cfg \<Longrightarrow> for_each (\<lambda>c. send_component cfg c cs) names w
     = (Inr (), w\<lparr>qw_sent := qw_sent w @ map (\<lambda>c. component_set c cs) names\<rparr>)"
  by (induction names arbitrary: w) (simp_all add: ok_def and_then_def send_component_answered)

lemma to_rpc_length [simp]: "length (to_rpc i p) = 4"
  by (simp add: to_rpc_def)

lemma band_controls_length: "length (band_controls ps) = 4 * length ps"
proof -
  have "length (concat (map (\<lambda>(i, p). to_rpc (i + 1) p) qs)) = 4 * length qs" for qs by (induction qs) auto
  then show ?thesis by (simp add: band_controls_def)
qed

lemma band_controls_band: "i < length ps \<Longrightarrow> set (to_rpc (i + 1) (ps ! i)) \<subseteq> set (band_controls ps)"
  by (force simp: band_controls_def in_set_zip intro!: bexI [of _ "(i, ps ! i)"])

definition band :: "qsys_peq list \<Rightarrow> nat \<Rightarrow> qsys_peq" where
  "band ps i = (if i < length ps then ps ! i else neutral_peq)"

lemma pad_bands_nth: "i < max 10 (length ps) \<Longrightarrow> pad_bands ps ! i = band ps i"
  by (auto simp: pad_bands_def band_def nth_append)

text \<open>The filter of the padding leaves a signal as it is: both lists of coefficients are the same.\<close>

lemma neutral_coeffs: "\<exists>cs. peq_coeffs neutral_peq = Inr (cs @ cs)"
proof -
  have r: "py_round (0 :: real) 3 = 0" "py_round (1 :: real) 4 = 1"
    by (simp_all add: py_round_def round_half_even_def Let_def)
  have "0 \<le> sin (2 * pi * 100 / qsys_fs)" by (intro sin_ge_zero) (simp_all add: qsys_fs_def)
  then have "1 + sin (2 * pi * 100 / qsys_fs) / 2 \<noteq> 0" by simp
  then have "peq_coeffs neutral_peq = Inr (cs @ cs)"
    if "cs = (let s = sin (2 * pi * 100 / qsys_fs) / 2; c = cos (2 * pi * 100 / qsys_fs)
              in [1, - (2 * c) / (1 + s), (1 - s) / (1 + s)])" for cs
    using that by (simp add: peq_coeffs_def neutral_peq_def design_def Biquad_def compute_coeffs_def r qsys_fs_def Let_def)
  then show ?thesis by blast
qed

lemma qsys_send_answered:
  assumes "answers cfg" "\<And>sent. qs_connect cfg sent = Inr ()" "qs_components cfg = JList names" "qs_content cfg = JObj []"
  shows "qsys_send cfg ps content w
    = (Inr (), w\<lparr>qw_sent := qw_sent w @ map (\<lambda>c. component_set c (band_controls (pad_bands ps))) names\<rparr>)"
  using assms(2-4) send_components_answered [OF assms(1)]
  by (simp add: qsys_send_def send_to_socket_def send_all_def and_then_def modify_def try_finally_def lift_result_def ok_def)

lemma qsys_do_it_titled:
  "qsys_do_it cfg ps (Entry e) = titled (qsys_send cfg ps (Entry e)) (JStr (ce_formatted_title e)) (JStr (ce_author e))"
  by (simp add: qsys_do_it_def)

text \<open>
  Claim C38. A load of an entry with complete filters leaves no socket open, whether it succeeds or not, and the slot
  shows the title or \<^verbatim>\<open>ERROR\<close> accordingly. When the core answers, every component gets one message with
  four controls for each of at least ten bands: those of the entry in order, then bands that leave a signal as it is.
\<close>

theorem qsys_load_programs:
  assumes "device_ok (\<lambda>s. slot_id s = QSYS_SLOT) d" and "map_result peq_of_entry (ce_filters e) = Inr ps"
  shows "(case qsys_load_filter cfg slot e mv d of (r, d') \<Rightarrow>
      qw_open (world d') = qw_open (world d) \<and> coherent (qsys_class cfg) d'
      \<and> map_option (\<lambda>s. (last_title s, last_author s)) (current d')
          = Some (case r of Inr _ \<Rightarrow> (JStr (ce_formatted_title e), JStr (ce_author e)) | Inl _ \<Rightarrow> (error_title, JNull))
      \<and> (\<forall>names. answers cfg \<and> (\<forall>sent. qs_connect cfg sent = Inr ()) \<and> qs_components cfg = JList names \<and> qs_content cfg = JObj [] \<longrightarrow>
           r = Inr () \<and> qw_sent (world d') = qw_sent (world d) @ map (\<lambda>c. component_set c (band_controls (pad_bands ps))) names))
    \<and> length (band_controls (pad_bands ps)) = 4 * max 10 (length ps)
    \<and> (\<forall>i < max 10 (length ps). set (to_rpc (i + 1) (band ps i)) \<subseteq> set (band_controls (pad_bands ps)))
    \<and> (\<exists>cs. peq_coeffs neutral_peq = Inr (cs @ cs))"
proof (intro conjI)
  let ?send = "qsys_send cfg ps (Entry e)"
  have load: "qsys_load_filter cfg slot e mv d
      = hydrate_cache_broadcast (qsys_class cfg) (titled ?send (JStr (ce_formatted_title e)) (JStr (ce_author e))) d"
    by (simp add: qsys_load_filter_def assms(2) qsys_do_it_titled and_then_def lift_result_def)
  have "opened (qw_open (world d)) (qw_sent (world d)) (world d)" by (simp add: opened_def)
  from maintainsD [OF send_to_socket_opened this, of cfg "pad_bands ps" "Entry e"]
  have opened: "qw_open (snd (?send (world d))) = qw_open (world d)" by (simp add: qsys_send_def opened_def)
  note out = qsys.titled_outcome [OF assms(1), where cfg = cfg and send = ?send and t = "JStr (ce_formatted_title e)"
      and a = "JStr (ce_author e)", folded load]
  show "case qsys_load_filter cfg slot e mv d of (r, d') \<Rightarrow>
      qw_open (world d') = qw_open (world d) \<and> coherent (qsys_class cfg) d'
      \<and> map_option (\<lambda>s. (last_title s, last_author s)) (current d')
          = Some (case r of Inr _ \<Rightarrow> (JStr (ce_formatted_title e), JStr (ce_author e)) | Inl _ \<Rightarrow> (error_title, JNull))
      \<and> (\<forall>names. answers cfg \<and> (\<forall>sent. qs_connect cfg sent = Inr ()) \<and> qs_components cfg = JList names \<and> qs_content cfg = JObj [] \<longrightarrow>
           r = Inr () \<and> qw_sent (world d') = qw_sent (world d) @ map (\<lambda>c. component_set c (band_controls (pad_bands ps))) names)"
    using out opened qsys_send_answered [of cfg _ ps "Entry e" "world d"] by (auto split: prod.splits)
  show "length (band_controls (pad_bands ps)) = 4 * max 10 (length ps)" by (simp add: band_controls_length pad_bands_length)
  show "\<forall>i < max 10 (length ps). set (to_rpc (i + 1) (band ps i)) \<subseteq> set (band_controls (pad_bands ps))"
    using band_controls_band [of _ "pad_bands ps"] by (simp add: pad_bands_length pad_bands_nth)
  show "\<exists>cs. peq_coeffs neutral_peq = Inr (cs @ cs)" by (rule neutral_coeffs)
qed

lemma qsys_load_programs_witness:
  "\<forall>cfg. qw_open (world (snd (qsys_load_filter cfg ''QSYS'' (plain_entry ''T'' ''A'' [plain_filter ''96000'' []]) 0
     (new_device NoFile \<lparr>qw_sent = [], qw_open = 0\<rparr>)))) = 0"
proof -
  let ?e = "plain_entry ''T'' ''A'' [plain_filter ''96000'' []]"
  have "map_result peq_of_entry (ce_filters ?e) = Inr [\<lparr>qp_fc = 20, qp_q = 7 / 10, qp_gain = 5, qp_type = ''LowShelf''\<rparr>]"
    by (simp add: plain_entry_def plain_filter_def peq_of_entry_def need_def rbind_def)
  from qsys_load_programs [of "new_device NoFile \<lparr>qw_sent = [], qw_open = 0\<rparr>", OF device_ok_new this] show ?thesis
    unfolding case_prod_beta by (simp add: new_device_def)
qed

text \<open>What the device itself stored is not found when it starts again: the slot shows nothing.\<close>

lemma qsys_restart_forgets:
  "qsys_merge (single_serialise ''qsys'' name (set_loaded t a (single_slot QSYS_SLOT))) s = (Inr (), s)"
proof -
  have "(''Qsys'' = QSYS_SLOT) = False" by (simp add: QSYS_SLOT_def)
  then show ?thesis
    by (simp add: qsys_merge_def merge_slots_def single_serialise_def when_id_def on_key_def slot_as_dict_def set_loaded_def
        single_slot_def new_slot_def and_then_def lift_result_def ok_def QSYS_SLOT_def)
qed

end
