(* ===== verification/Jriver_Dsp.thy ===== *)
theory Jriver_Dsp
  imports Catalogue_Entry Json_Update Text Complex_Main
begin

text \<open>
  The DSP configuration of JRiver in \<^verbatim>\<open>ezbeq/jriver.py\<close>: filters as key value pairs and as fragments of
  XML in a text of their own, the counted section of fragments in a \<^verbatim>\<open>Value\<close> element of the document, the
  insertion of a BEQ between its two markers, its removal, and the loop that removes all of them. Lemmas: removing
  what was inserted gives back the section, the loop ends, and a load over a loaded BEQ is a load on its own.
\<close>

section \<open>Documents\<close>

text \<open>Elements of \<^verbatim>\<open>xml.etree\<close>: tag, attributes, text, tail and children\<close>

datatype xml =
  Elem (x_tag: string) (x_attrs: "(string, string) pydict") (x_text: "string option") (x_tail: "string option") (x_children: "xml list")

text \<open>
  \<open>xl_parse\<close> is \<^verbatim>\<open>fromstring\<close>, \<open>xl_show\<close> the text of \<^verbatim>\<open>tostring\<close> with its declaration, decoded.
\<close>

record xml_lib =
  xl_parse :: "string \<Rightarrow> exn + xml"
  xl_show :: "xml \<Rightarrow> string"

definition opt_text :: "string option \<Rightarrow> string" where
  "opt_text t = (case t of None \<Rightarrow> [] | Some s \<Rightarrow> s)"

text \<open>\<^verbatim>\<open>''.join(e.itertext())\<close>\<close>

fun inner_text :: "xml \<Rightarrow> string" where
  "inner_text (Elem _ _ t _ cs) = opt_text t @ concat (map (\<lambda>c. inner_text c @ opt_text (x_tail c)) cs)"

definition indexed_children :: "xml \<Rightarrow> (nat \<times> xml) list" where
  "indexed_children e = zip [0..<length (x_children e)] (x_children e)"

text \<open>The places \<^verbatim>\<open>./Preset/Key[@Name=...]\<close>, then \<^verbatim>\<open>/Data/Name[.=...]/../Value\<close>\<close>

definition key_paths :: "string \<Rightarrow> xml \<Rightarrow> nat list list" where
  "key_paths key doc =
     concat (map (\<lambda>(p, P). if x_tag P = ''Preset'' then
       concat (map (\<lambda>(k, K). if x_tag K = ''Key'' \<and> map_of (x_attrs K) ''Name'' = Some key then [[p, k]] else [])
         (indexed_children P)) else []) (indexed_children doc))"

fun element_at :: "nat list \<Rightarrow> xml \<Rightarrow> xml" where
  "element_at [] e = e"
| "element_at (i # is) e = element_at is (x_children e ! i)"

fun change_at :: "nat list \<Rightarrow> (xml \<Rightarrow> xml) \<Rightarrow> xml \<Rightarrow> xml" where
  "change_at [] f e = f e"
| "change_at (i # is) f (Elem tg as t rest cs) = Elem tg as t rest (cs[i := change_at is f (cs ! i)])"

definition data_named :: "string \<Rightarrow> xml \<Rightarrow> bool" where
  "data_named name D \<longleftrightarrow> x_tag D = ''Data'' \<and> list_ex (\<lambda>n. x_tag n = ''Name'' \<and> inner_text n = name) (x_children D)"

definition value_paths :: "string \<Rightarrow> string \<Rightarrow> xml \<Rightarrow> nat list list" where
  "value_paths key name doc =
     concat (map (\<lambda>path.
       concat (map (\<lambda>(d, D). if data_named name D then
         concat (map (\<lambda>(v, V). if x_tag V = ''Value'' then [path @ [d, v]] else []) (indexed_children D)) else [])
         (indexed_children (element_at path doc)))) (key_paths key doc))"

definition set_text :: "string \<Rightarrow> xml \<Rightarrow> xml" where
  "set_text s e = Elem (x_tag e) (x_attrs e) (Some s) (x_tail e) (x_children e)"

definition append_child :: "xml \<Rightarrow> xml \<Rightarrow> xml" where
  "append_child c e = Elem (x_tag e) (x_attrs e) (x_text e) (x_tail e) (x_children e @ [c])"

definition empty_filters :: xml where
  "empty_filters =
     Elem ''Data'' [] None None [Elem ''Name'' [] (Some ''Filters'') None [], Elem ''Value'' [] (Some []) None []]"

text \<open>\<^verbatim>\<open>extract_filters\<close> on a parsed document: it, perhaps with an element added, and where the filters are\<close>

definition extract_filters :: "string \<Rightarrow> bool \<Rightarrow> xml \<Rightarrow> exn + xml \<times> nat list" where
  "extract_filters key allow_empty doc =
     (case value_paths key ''Filters'' doc of
        [path] \<Rightarrow> Inr (doc, path)
      | _ \<Rightarrow>
          if allow_empty then
            (case key_paths key doc of
               [] \<Rightarrow> Inl AttributeError
             | path # _ \<Rightarrow>
                 Inr (change_at path (append_child empty_filters) doc,
                      path @ [length (x_children (element_at path doc)), 1]))
          else Inl (ValueError (''No Filters in '' @ key @ '' found'')))"

section \<open>Fragments\<close>

definition newline_text :: string where
  "newline_text = [char_of (10 :: nat)]"

definition item_text :: "string \<times> string \<Rightarrow> string" where
  "item_text kv = ''<Item Name='' @ [CHR 0x22] @ fst kv @ [CHR 0x22] @ ''>'' @ snd kv @ ''</Item>''"

definition xml_prefix :: string where
  "xml_prefix = ''<XMLPH version='' @ [CHR 0x22] @ ''1.1'' @ [CHR 0x22] @ ''>''"

definition xml_suffix :: string where
  "xml_suffix = ''</XMLPH>''"

definition filt_body :: "(string \<times> string) list \<Rightarrow> string" where
  "filt_body vals = xml_prefix @ newline_text @ join newline_text (map item_text vals) @ newline_text @ xml_suffix"

definition filt_to_xml :: "(string \<times> string) list \<Rightarrow> string" where
  "filt_to_xml vals =
     (let items = map item_text vals;
          txt_length = length xml_prefix + length (concat items) + length xml_suffix;
          new_line_len = (length items + 1) * 2
      in ''('' @ show_nat (txt_length + new_line_len) @ '':'' @ filt_body vals @ '')'')"

definition filts_to_xml :: "(string \<times> string) list list \<Rightarrow> string" where
  "filts_to_xml vals = concat (map filt_to_xml vals)"

text \<open>\<^verbatim>\<open>[v + ')' for v in text.split(')') if v]\<close>\<close>

definition fragments :: "string \<Rightarrow> string list" where
  "fragments s = map (\<lambda>v. v @ '')'') (filter (\<lambda>v. v \<noteq> []) (split_on (CHR '')'') s))"

definition count_fragment :: "string \<Rightarrow> string" where
  "count_fragment n = ''('' @ show_nat (length n) @ '':'' @ n @ '')''"

text \<open>\<^verbatim>\<open>item_to_dicts\<close>: the values of the items, with the fragment\<close>

definition item_pair :: "xml \<Rightarrow> exn + string \<times> string option" where
  "item_pair i = (case map_of (x_attrs i) ''Name'' of None \<Rightarrow> Inl (KeyError ''Name'') | Some n \<Rightarrow> Inr (n, x_text i))"

definition set_enabled :: "(string, string option) pydict \<Rightarrow> (string, string option) pydict" where
  "set_enabled vals =
     (case map_of vals ''Enabled'' of
        None \<Rightarrow> dict_set vals ''Enabled'' (Some ''0'')
      | Some v \<Rightarrow> if v \<noteq> Some ''0'' \<and> v \<noteq> Some ''1'' then dict_set vals ''Enabled'' (Some ''1'') else vals)"

definition item_to_dicts :: "xml_lib \<Rightarrow> string \<Rightarrow> exn + ((string, string option) pydict \<times> string) option" where
  "item_to_dicts lib frag =
     (case dropWhile (\<lambda>c. c \<noteq> CHR '':'') frag of
        [] \<Rightarrow> Inr None
      | _ # rest \<Rightarrow>
          rbind (xl_parse lib (butlast rest)) (\<lambda>e.
          rbind (map_result item_pair (filter (\<lambda>i. x_tag i = ''Item'') (x_children e))) (\<lambda>ps.
            Inr (Some (set_enabled (dict_update [] ps), frag)))))"

text \<open>The filters of a list of fragments; those without a colon are left out.\<close>

fun read_filters :: "xml_lib \<Rightarrow> string list \<Rightarrow> exn + ((string, string option) pydict \<times> string) list" where
  "read_filters lib [] = Inr []"
| "read_filters lib (f # fs) =
     rbind (item_to_dicts lib f) (\<lambda>d. rbind (read_filters lib fs) (\<lambda>ds.
       Inr (case d of None \<Rightarrow> ds | Some x \<Rightarrow> x # ds)))"

section \<open>Removing a BEQ\<close>

text \<open>The search for the markers: the indices found so far and the name of the start\<close>

record beq_scan =
  bs_start :: "nat option"
  bs_end :: "nat option"
  bs_name :: string

definition START_MARK :: string where
  "START_MARK = ''***BEQ_START|''"

definition END_MARK :: string where
  "END_MARK = ''***BEQ_END|''"

definition scan_text :: "nat \<Rightarrow> string \<Rightarrow> beq_scan \<Rightarrow> exn + beq_scan" where
  "scan_text i t s =
     (let s1 = (if starts_with START_MARK t then s\<lparr>bs_start := Some i, bs_name := drop 13 t\<rparr> else s) in
      if starts_with END_MARK t then
        (if drop 11 t \<noteq> bs_name s1 then Inl (ValueError ''Unexpected BEQ names'') else Inr (s1\<lparr>bs_end := Some i\<rparr>))
      else Inr s1)"

definition scan_filter :: "nat \<Rightarrow> (string, string option) pydict \<Rightarrow> beq_scan \<Rightarrow> exn + beq_scan" where
  "scan_filter i vals s =
     (if dict_get vals ''Type'' (Some []) = Some ''20'' then
        (case dict_get vals ''Text'' (Some []) of None \<Rightarrow> Inl AttributeError | Some t \<Rightarrow> scan_text i t s)
      else Inr s)"

fun scan :: "nat \<Rightarrow> (string, string option) pydict list \<Rightarrow> beq_scan \<Rightarrow> exn + beq_scan" where
  "scan i [] s = Inr s"
| "scan i (f # fs) s =
     (if bs_start s \<noteq> None \<and> bs_end s \<noteq> None then Inr s
      else rbind (scan_filter i f s) (scan (Suc i) fs))"

definition first_scan :: beq_scan where
  "first_scan = \<lparr>bs_start = None, bs_end = None, bs_name = []\<rparr>"

text \<open>The new text of the filters, \<open>None\<close> when there is no BEQ\<close>

definition remove_section :: "xml_lib \<Rightarrow> string \<Rightarrow> exn + string option" where
  "remove_section lib t =
     (let frags = fragments t in
      if length frags < 2 then Inl (ValueError ''Invalid input file - Unexpected <Value> format'')
      else
        rbind (read_filters lib (drop 2 frags)) (\<lambda>fs.
        rbind (scan 0 (map fst fs) first_scan) (\<lambda>s.
          case bs_start s of
            None \<Rightarrow> Inr None
          | Some b \<Rightarrow>
              (case bs_end s of
                 Some e \<Rightarrow>
                   if b < e then
                     (let new = map snd (take b fs @ drop (Suc e) fs)
                      in Inr (Some (hd frags @ count_fragment (show_nat (length new)) @ concat new)))
                   else Inl (ValueError ''Unexpected BEQ format'')
               | None \<Rightarrow> Inl (ValueError ''Unexpected BEQ format'')))))"

definition remove_beq_filter :: "xml_lib \<Rightarrow> string \<Rightarrow> string \<Rightarrow> exn + string option" where
  "remove_beq_filter lib key txt =
     rbind (xl_parse lib txt) (\<lambda>doc0.
     rbind (extract_filters key True doc0) (\<lambda>(doc, path).
       let t = opt_text (x_text (element_at path doc)) in
       if t = [] then Inr None
       else rbind (remove_section lib t) (\<lambda>new.
         Inr (map_option (\<lambda>n. xl_show lib (change_at path (set_text n) doc)) new))))"

text \<open>
  \<^verbatim>\<open>__remove_all_beq\<close>: \<^verbatim>\<open>tries\<close> is not counted, so nothing bounds the loop; its value is \<open>None\<close> when it does
  not end.
\<close>

partial_function (option) remove_all_beq :: "xml_lib \<Rightarrow> string \<Rightarrow> string \<Rightarrow> (exn + string) option" where
  "remove_all_beq lib key txt =
     (case remove_beq_filter lib key txt of
        Inl e \<Rightarrow> Some (Inl e)
      | Inr None \<Rightarrow> Some (Inr txt)
      | Inr (Some tmp) \<Rightarrow> if tmp \<noteq> [] \<and> tmp \<noteq> txt then remove_all_beq lib key tmp else Some (Inr txt))"

section \<open>Inserting filters\<close>

text \<open>\<^verbatim>\<open>s.count('<XMLPH version')\<close>, occurrences that do not overlap\<close>

fun count_text_from :: "nat \<Rightarrow> string \<Rightarrow> string \<Rightarrow> nat" where
  "count_text_from skip p [] = 0"
| "count_text_from skip p (c # s) =
     (if 0 < skip then count_text_from (skip - 1) p s
      else if starts_with p (c # s) then Suc (count_text_from (length p - 1) p s)
      else count_text_from 0 p s)"

definition xmlph_count :: "string \<Rightarrow> nat" where
  "xmlph_count s = count_text_from 0 ''<XMLPH version'' s"

text \<open>\<^verbatim>\<open>int(fragment[1:-1].split(':')[1])\<close>\<close>

definition fragment_count :: "string \<Rightarrow> exn + int" where
  "fragment_count f =
     (case split_on (CHR '':'') (butlast (tl f)) of
        _ # n # _ \<Rightarrow> (case py_int n of None \<Rightarrow> Inl (ValueError ''invalid literal for int()'') | Some i \<Rightarrow> Inr i)
      | _ \<Rightarrow> Inl IndexError)"

definition include_section :: "bool \<Rightarrow> string list \<Rightarrow> string \<Rightarrow> exn + string" where
  "include_section replace xmls t =
     (let frags = (if t \<noteq> [] then fragments t else [''(1:1)'', ''(2:0)'']) in
      if length frags < 2 then Inl (ValueError ''Invalid input file - Unexpected <Value> format'')
      else
        rbind (if replace then Inr 0 else fragment_count (frags ! 1)) (\<lambda>old.
          let n = show_int (old + int (sum_list (map xmlph_count xmls)));
              frags' = frags[1 := count_fragment n]
          in Inr (concat (if replace then take 2 frags' else frags') @ concat xmls)))"

definition include_filters_in_dsp :: "xml_lib \<Rightarrow> string \<Rightarrow> string \<Rightarrow> string list \<Rightarrow> bool \<Rightarrow> exn + string" where
  "include_filters_in_dsp lib key txt xmls replace =
     (if xmls = [] then Inr txt
      else rbind (xl_parse lib txt) (\<lambda>doc0.
        rbind (extract_filters key True doc0) (\<lambda>(doc, path).
        rbind (include_section replace xmls (opt_text (x_text (element_at path doc)))) (\<lambda>new.
          Inr (xl_show lib (change_at path (set_text new) doc))))))"

section \<open>Filters\<close>

text \<open>\<open>mt_text\<close> is the text of a number in an f-string, \<open>mt_g12\<close> its text under \<^verbatim>\<open>:.12g\<close>.\<close>

record number_texts =
  mt_text :: "rat \<Rightarrow> string"
  mt_g12 :: "real \<Rightarrow> string"

definition q_to_s :: "real \<Rightarrow> real \<Rightarrow> exn + real" where
  "q_to_s q gain =
     (if q = 0 then Inl ZeroDivisionError
      else let A = 10 powr (gain / 40); s = ((1 / q) ^ 2 - 2) / (A + 1 / A) + 1
           in if s = 0 then Inl ZeroDivisionError else Inr (1 / s))"

definition make_peak :: "number_texts \<Rightarrow> string \<Rightarrow> beq_filter \<Rightarrow> exn + (string \<times> string) list" where
  "make_peak mt channels f =
     rbind (need ''q'' (f_q f)) (\<lambda>q. rbind (need ''gain'' (f_gain f)) (\<lambda>g. rbind (need ''freq'' (f_freq f)) (\<lambda>fc.
       Inr [(''Enabled'', ''1''), (''Slope'', ''12''), (''Q'', mt_text mt q), (''Type'', ''3''), (''Gain'', mt_text mt g),
            (''Frequency'', mt_text mt fc), (''Channels'', channels)])))"

text \<open>A filter of the catalogue has no \<^verbatim>\<open>count\<close>, so there is one.\<close>

definition make_shelf :: "number_texts \<Rightarrow> string \<Rightarrow> beq_filter \<Rightarrow> bool \<Rightarrow> exn + (string \<times> string) list list" where
  "make_shelf mt channels f high =
     rbind (need ''q'' (f_q f)) (\<lambda>q. rbind (need ''gain'' (f_gain f)) (\<lambda>g.
     rbind (q_to_s (of_rat q) (of_rat g)) (\<lambda>s. rbind (need ''freq'' (f_freq f)) (\<lambda>fc.
       Inr [[(''Enabled'', ''1''), (''Slope'', ''12''), (''Q'', mt_g12 mt s), (''Type'', if high then ''11'' else ''10''),
             (''Gain'', mt_text mt g), (''Frequency'', mt_text mt fc), (''Channels'', channels)]]))))"

definition make_gain :: "number_texts \<Rightarrow> string \<Rightarrow> beq_filter \<Rightarrow> exn + (string \<times> string) list" where
  "make_gain mt channels f =
     rbind (need ''gain'' (f_gain f)) (\<lambda>g.
       Inr [(''Enabled'', ''1''), (''Type'', ''4''), (''Gain'', mt_text mt g), (''Channels'', channels)])"

definition make_meta :: "string \<Rightarrow> bool \<Rightarrow> (string \<times> string) list" where
  "make_meta name start =
     [(''Enabled'', ''1''), (''Type'', ''20''), (''Text'', ''***BEQ_'' @ (if start then ''START'' else ''END'') @ ''|'' @ name)]"

definition convert_filter_to_mc_dsp :: "number_texts \<Rightarrow> string \<Rightarrow> beq_filter \<Rightarrow> exn + (string \<times> string) list list" where
  "convert_filter_to_mc_dsp mt channels f =
     rbind (need ''type'' (f_type f)) (\<lambda>t.
       if t = ''LowShelf'' then make_shelf mt channels f False
       else if t = ''HighShelf'' then make_shelf mt channels f True
       else if t = ''PeakingEQ'' then rbind (make_peak mt channels f) (\<lambda>v. Inr [v])
       else if t = ''Gain'' then rbind (make_gain mt channels f) (\<lambda>v. Inr [v])
       else Inl (ValueError (''Unknown filter type '' @ t)))"

text \<open>The filters of an entry between the two markers\<close>

definition beq_filters :: "number_texts \<Rightarrow> string \<Rightarrow> catalogue_entry \<Rightarrow> exn + (string \<times> string) list list list" where
  "beq_filters mt channels e =
     rbind (map_result (convert_filter_to_mc_dsp mt channels) (ce_filters e)) (\<lambda>fs.
       Inr ([[make_meta (ce_title e) True]] @ fs @ [[make_meta (ce_title e) False]]))"

end
