(* ===== verification/Jriver_Sections.thy ===== *)
theory Jriver_Sections
  imports Jriver_Dsp
begin

text \<open>
  The sections of filters of \<^theory_text>\<open>Jriver_Dsp\<close>: their text and their list of fragments, what the search for the
  markers finds, the removal of what was inserted, and the end of the loop that removes every BEQ.
\<close>

section \<open>Texts as lists of fragments\<close>

definition closed :: "string \<Rightarrow> bool" where
  "closed f \<longleftrightarrow> (\<exists>p. p \<noteq> [] \<and> CHR '')'' \<notin> set p \<and> f = p @ '')'')"

lemma fragments_Nil [simp]: "fragments [] = []"
  by (simp add: fragments_def)

lemma fragments_closed: "closed f \<Longrightarrow> fragments (f @ s) = f # fragments s"
  by (auto simp: closed_def fragments_def split_on_append)

lemma fragments_concat: "\<forall>f \<in> set fs. closed f \<Longrightarrow> fragments (concat fs) = fs"
  by (induction fs) (simp_all add: fragments_closed)

lemma split_on_parts: "p \<in> set (split_on c s) \<Longrightarrow> c \<notin> set p"
  by (induction s arbitrary: p) (auto split: if_splits list.splits)

lemma closed_fragments: "f \<in> set (fragments s) \<Longrightarrow> closed f"
  using split_on_parts by (fastforce simp: fragments_def closed_def)

lemma show_nat_no_char [simp]: "\<not> is_digit c \<Longrightarrow> c \<notin> set (show_nat n)"
  using show_nat_digits by blast

lemma not_digits: "\<not> is_digit (CHR '')'')" "\<not> is_digit (CHR '':'')" "\<not> is_digit (CHR ''('')"
  by code_simp+

lemma closed_count [simp]: "closed (count_fragment (show_nat n))"
  unfolding closed_def count_fragment_def
  by (intro exI [of _ "''('' @ show_nat (length (show_nat n)) @ '':'' @ show_nat n"]) (simp add: not_digits)

lemma fragment_count_show: "fragment_count (count_fragment (show_nat n)) = Inr (int n)"
proof -
  have "split_on (CHR '':'') (show_nat (length (show_nat n)) @ CHR '':'' # show_nat n) = [show_nat (length (show_nat n)), show_nat n]"
    by (simp add: split_on_append split_on_no_sep not_digits)
  moreover have "py_int (show_nat n) = Some (int n)" using py_int_show_int [of "int n"] by (simp add: show_int_def)
  ultimately show ?thesis by (simp add: fragment_count_def count_fragment_def butlast_append)
qed

section \<open>Written filters\<close>

text \<open>What the library reads of a written filter\<close>

definition xmlph :: "(string \<times> string) list \<Rightarrow> xml" where
  "xmlph vals =
     Elem ''XMLPH'' [(''version'', ''1.1'')] (Some newline_text) None
       (map (\<lambda>(k, v). Elem ''Item'' [(''Name'', k)] (if v = [] then None else Some v) (Some newline_text) []) vals)"

definition plain_text :: "string \<Rightarrow> bool" where
  "plain_text s \<longleftrightarrow> CHR '')'' \<notin> set s \<and> CHR ''<'' \<notin> set s"

definition read_back :: "xml_lib \<Rightarrow> (string \<times> string) list \<Rightarrow> bool" where
  "read_back lib vals \<longleftrightarrow> xl_parse lib (filt_body vals) = Inr (xmlph vals)"

definition plain_vals :: "(string \<times> string) list \<Rightarrow> bool" where
  "plain_vals vals \<longleftrightarrow> list_all (\<lambda>(k, v). plain_text k \<and> plain_text v) vals \<and> distinct (map fst vals) \<and> map_of vals ''Enabled'' = Some ''1''"

definition opt_vals :: "(string \<times> string) list \<Rightarrow> (string, string option) pydict" where
  "opt_vals vals = map (\<lambda>(k, v). (k, if v = [] then None else Some v)) vals"

lemma map_of_opt_vals: "map_of (opt_vals vals) k = map_option (\<lambda>v. if v = [] then None else Some v) (map_of vals k)"
  by (simp add: opt_vals_def map_of_map)

lemma plain_body: "list_all (\<lambda>(k, v). plain_text k \<and> plain_text v) vals \<Longrightarrow> CHR '')'' \<notin> set (filt_body vals)"
proof -
  assume p: "list_all (\<lambda>(k, v). plain_text k \<and> plain_text v) vals"
  have "CHR '')'' \<notin> set newline_text" by code_simp
  moreover have "CHR '')'' \<notin> set (join sep ls)" if "CHR '')'' \<notin> set sep" "\<forall>l \<in> set ls. CHR '')'' \<notin> set l" for sep ls
    using that by (induction sep ls rule: join.induct) auto
  moreover have "\<forall>l \<in> set (map item_text vals). CHR '')'' \<notin> set l"
    using p by (auto simp: list_all_iff item_text_def plain_text_def)
  ultimately show ?thesis by (simp add: filt_body_def xml_prefix_def xml_suffix_def)
qed

lemma filt_to_xml_shape: "\<exists>n. filt_to_xml vals = (CHR ''('' # show_nat n @ CHR '':'' # filt_body vals) @ '')''"
  by (simp add: filt_to_xml_def Let_def)

lemma closed_written:
  assumes "list_all (\<lambda>(k, v). plain_text k \<and> plain_text v) vals"
  shows "closed (filt_to_xml vals)"
proof -
  from filt_to_xml_shape obtain n where n: "filt_to_xml vals = (CHR ''('' # show_nat n @ CHR '':'' # filt_body vals) @ '')''" by blast
  have "CHR '')'' \<notin> set (CHR ''('' # show_nat n @ CHR '':'' # filt_body vals)"
    using plain_body [OF assms] not_digits(1) show_nat_no_char by simp
  with n show ?thesis unfolding closed_def by blast
qed

lemma item_to_dicts_written:
  assumes "plain_vals vals" "read_back lib vals"
  shows "item_to_dicts lib (filt_to_xml vals) = Inr (Some (opt_vals vals, filt_to_xml vals))"
proof -
  from filt_to_xml_shape obtain n where f: "filt_to_xml vals = (CHR ''('' # show_nat n) @ CHR '':'' # filt_body vals @ '')''" by force
  have d: "dropWhile (\<lambda>c. c \<noteq> CHR '':'') (filt_to_xml vals) = CHR '':'' # filt_body vals @ '')''"
  proof -
    have "\<forall>c \<in> set (CHR ''('' # show_nat n). c \<noteq> CHR '':''" using not_digits(2) by (auto dest: show_nat_digits)
    then show ?thesis unfolding f by (subst dropWhile_append2) auto
  qed
  have "map_result item_pair (map (\<lambda>(k, v). Elem ''Item'' [(''Name'', k)] (if v = [] then None else Some v) t []) vs)
      = Inr (opt_vals vs)" for vs t
    by (induction vs) (auto simp: item_pair_def opt_vals_def)
  moreover have "filter (\<lambda>i. x_tag i = ''Item'') (map (\<lambda>(k, v). Elem ''Item'' [(''Name'', k)] (if v = [] then None else Some v) t []) vs)
      = map (\<lambda>(k, v). Elem ''Item'' [(''Name'', k)] (if v = [] then None else Some v) t []) vs" for vs t
    by (induction vs) auto
  moreover have "dict_update [] (opt_vals vals) = opt_vals vals"
  proof -
    have "map fst (opt_vals vals) = map fst vals" by (simp add: opt_vals_def case_prod_beta comp_def)
    then show ?thesis using dict_update_distinct [of "opt_vals vals" "[]"] assms(1) by (simp add: plain_vals_def)
  qed
  moreover have "set_enabled (opt_vals vals) = opt_vals vals"
    using assms(1) by (simp add: set_enabled_def map_of_opt_vals plain_vals_def)
  ultimately show ?thesis
    using assms(2) by (simp add: item_to_dicts_def d butlast_append read_back_def xmlph_def rbind_def)
qed

text \<open>A written filter counts as one: after its prefix no \<^verbatim>\<open><\<close> stands before an \<^verbatim>\<open>X\<close>.\<close>

fun no_open :: "char \<Rightarrow> string \<Rightarrow> bool" where
  "no_open p [] = True"
| "no_open p (c # s) = (\<not> (p = CHR ''<'' \<and> c = CHR ''X'') \<and> no_open c s)"

lemma no_open_append: "no_open p (s @ t) \<longleftrightarrow> no_open p s \<and> no_open (last (p # s)) t"
  by (induction s arbitrary: p) auto

lemma no_open_plain: "CHR ''<'' \<notin> set s \<Longrightarrow> p \<noteq> CHR ''<'' \<Longrightarrow> no_open p s"
proof (induction s arbitrary: p)
  case (Cons c s)
  then have "no_open c s" by (intro Cons.IH) auto
  with Cons.prems show ?case by simp
qed simp

lemma count_text_none: "no_open p s \<Longrightarrow> count_text_from 0 ''<XMLPH version'' s = 0"
proof (induction s arbitrary: p)
  case (Cons c s)
  then have "\<not> starts_with ''<XMLPH version'' (c # s)" by (cases s) (auto simp: starts_with_def)
  moreover have "count_text_from 0 ''<XMLPH version'' s = 0" using Cons.IH [of c] Cons.prems by simp
  ultimately show ?case by simp
qed simp

lemma count_text_skip:
  "CHR ''<'' \<notin> set s \<Longrightarrow> count_text_from 0 ''<XMLPH version'' (s @ t) = count_text_from 0 ''<XMLPH version'' t"
  by (induction s) (auto simp: starts_with_def)

lemma no_open_join: "(\<And>c l. l \<in> set ls \<Longrightarrow> no_open c l) \<Longrightarrow> no_open c (join [CHR 0x0A] ls)"
  by (induction ls arbitrary: c) (simp_all add: join_Cons no_open_append)

lemma no_open_items:
  assumes "list_all (\<lambda>(k, v). plain_text k \<and> plain_text v) vals"
  shows "no_open c (join newline_text (map item_text vals) @ newline_text @ xml_suffix @ '')'')"
proof -
  have nl: "newline_text = [CHR 0x0A]" by code_simp
  have item: "no_open c (item_text (k, v))" if "plain_text k" "plain_text v" for c k v
    using that by (simp add: item_text_def no_open_append no_open_plain plain_text_def)
  have "no_open c (join [CHR 0x0A] (map item_text vals))"
    using assms item(1) by (intro no_open_join) (auto simp: list_all_iff)
  then show ?thesis by (simp add: nl no_open_append xml_suffix_def)
qed

lemma xmlph_count_written:
  assumes "list_all (\<lambda>(k, v). plain_text k \<and> plain_text v) vals"
  shows "xmlph_count (filt_to_xml vals) = 1"
proof -
  let ?r = "join newline_text (map item_text vals) @ newline_text @ xml_suffix @ '')''"
  from filt_to_xml_shape obtain n where n: "filt_to_xml vals = (CHR ''('' # show_nat n @ CHR '':'' # filt_body vals) @ '')''" by blast
  have "\<not> is_digit (CHR ''<'')" by code_simp
  then have "CHR ''<'' \<notin> set (CHR ''('' # show_nat n @ '':'')" by simp
  from count_text_skip [OF this]
  have "xmlph_count (filt_to_xml vals) = count_text_from 0 ''<XMLPH version'' (xml_prefix @ newline_text @ ?r)"
    unfolding n xmlph_count_def filt_body_def by simp
  also have "\<dots> = Suc (count_text_from 0 ''<XMLPH version'' ([CHR ''='', CHR 0x22] @ ''1.1'' @ [CHR 0x22] @ ''>'' @ newline_text @ ?r))"
    by (simp add: xml_prefix_def starts_with_def)
  also have "count_text_from 0 ''<XMLPH version'' ([CHR ''='', CHR 0x22] @ ''1.1'' @ [CHR 0x22] @ ''>'' @ newline_text @ ?r) = 0"
  proof (rule count_text_none [of "CHR '' ''"])
    have nl: "newline_text = [CHR 0x0A]" by code_simp
    show "no_open CHR '' '' ([CHR ''='', CHR 0x22] @ ''1.1'' @ [CHR 0x22] @ ''>'' @ newline_text @ ?r)"
      using no_open_items [OF assms] by (simp add: nl)
  qed
  finally show ?thesis by simp
qed

section \<open>Removing what was inserted\<close>

text \<open>A filter that is no marker, and a fragment of the user's own\<close>

definition beq_free :: "(string, string option) pydict \<Rightarrow> bool" where
  "beq_free vals \<longleftrightarrow>
     (dict_get vals ''Type'' (Some []) = Some ''20'' \<longrightarrow>
        (\<exists>t. dict_get vals ''Text'' (Some []) = Some t \<and> \<not> starts_with START_MARK t \<and> \<not> starts_with END_MARK t))"

definition user_fragment :: "xml_lib \<Rightarrow> string \<Rightarrow> bool" where
  "user_fragment lib f \<longleftrightarrow> closed f \<and> (\<exists>vals. item_to_dicts lib f = Inr (Some (vals, f)) \<and> beq_free vals)"

lemma beq_free_scan: "beq_free vals \<Longrightarrow> scan_filter i vals s = Inr s"
  by (auto simp: beq_free_def scan_filter_def scan_text_def)

lemma scan_free:
  "\<forall>v \<in> set vs. beq_free v \<Longrightarrow> bs_start s = None \<or> bs_end s = None \<Longrightarrow> scan i (vs @ rest) s = scan (i + length vs) rest s"
  by (induction vs arbitrary: i) (auto simp: beq_free_scan rbind_def)

lemma read_filters_append:
  "read_filters lib (xs @ ys) = rbind (read_filters lib xs) (\<lambda>as. rbind (read_filters lib ys) (\<lambda>bs. Inr (as @ bs)))"
  by (induction xs) (auto simp: rbind_def split: sum.split option.split)

lemma read_user_fragments:
  "\<forall>f \<in> set us. user_fragment lib f \<Longrightarrow>
   \<exists>vs. read_filters lib us = Inr (zip vs us) \<and> length vs = length us \<and> (\<forall>v \<in> set vs. beq_free v)"
proof (induction us)
  case (Cons f us)
  then obtain vs vals where "read_filters lib us = Inr (zip vs us)" "length vs = length us" "\<forall>v \<in> set vs. beq_free v"
    "item_to_dicts lib f = Inr (Some (vals, f))" "beq_free vals" by (auto simp: user_fragment_def)
  then show ?case by (intro exI [of _ "vals # vs"]) (simp add: rbind_def)
qed simp

definition writable :: "xml_lib \<Rightarrow> (string \<times> string) list \<Rightarrow> bool" where
  "writable lib vals \<longleftrightarrow> plain_vals vals \<and> read_back lib vals"

lemma read_written:
  "\<forall>v \<in> set vs. writable lib v \<Longrightarrow> read_filters lib (map filt_to_xml vs) = Inr (zip (map opt_vals vs) (map filt_to_xml vs))"
  by (induction vs) (auto simp: writable_def item_to_dicts_written rbind_def)

text \<open>The filters of a BEQ: the markers of its title around filters of other types\<close>

definition beq_block :: "string \<Rightarrow> (string \<times> string) list list \<Rightarrow> (string \<times> string) list list" where
  "beq_block title ms = make_meta title True # ms @ [make_meta title False]"

definition not_text :: "(string \<times> string) list \<Rightarrow> bool" where
  "not_text vals \<longleftrightarrow> map_of vals ''Type'' \<noteq> Some ''20''"

lemma not_text_free: "not_text vals \<Longrightarrow> beq_free (opt_vals vals)"
  by (auto simp: not_text_def beq_free_def dict_get_def map_of_opt_vals split: option.splits if_splits)

lemma scan_markers:
  assumes "\<forall>m \<in> set ms. not_text m"
  shows "scan n (map opt_vals (beq_block title ms)) first_scan
    = Inr \<lparr>bs_start = Some n, bs_end = Some (Suc (n + length ms)), bs_name = title\<rparr>"
proof -
  let ?s = "\<lparr>bs_start = Some n, bs_end = None, bs_name = title\<rparr>"
  have start: "scan_filter n (opt_vals (make_meta title True)) first_scan = Inr ?s"
    by (simp add: scan_filter_def dict_get_def map_of_opt_vals make_meta_def scan_text_def starts_with_def START_MARK_def
        END_MARK_def first_scan_def)
  have finish: "scan_filter i (opt_vals (make_meta title False)) ?s = Inr (?s\<lparr>bs_end := Some i\<rparr>)" for i
    by (simp add: scan_filter_def dict_get_def map_of_opt_vals make_meta_def scan_text_def starts_with_def START_MARK_def
        END_MARK_def)
  have "\<forall>v \<in> set (map opt_vals ms). beq_free v" using assms not_text_free by auto
  from scan_free [OF this, of ?s "Suc n" "[opt_vals (make_meta title False)]"] show ?thesis
    by (simp add: beq_block_def start finish rbind_def first_scan_def) (simp add: first_scan_def [symmetric] start)
qed

text \<open>A section: its first fragment, its count and its filters\<close>

definition filter_section :: "string \<Rightarrow> string list \<Rightarrow> string" where
  "filter_section f0 us = f0 @ count_fragment (show_nat (length us)) @ concat us"

lemma fragments_section:
  "closed f0 \<Longrightarrow> \<forall>u \<in> set us. closed u \<Longrightarrow> fragments (filter_section f0 us) = f0 # count_fragment (show_nat (length us)) # us"
  by (simp add: filter_section_def fragments_closed fragments_concat)

lemma remove_nothing:
  assumes "closed f0" "\<forall>f \<in> set us. user_fragment lib f"
  shows "remove_section lib (filter_section f0 us) = Inr None"
proof -
  have "\<forall>u \<in> set us. closed u" using assms(2) by (simp add: user_fragment_def)
  note frags = fragments_section [OF assms(1) this]
  obtain vs where vs: "read_filters lib us = Inr (zip vs us)" "length vs = length us" "\<forall>v \<in> set vs. beq_free v"
    using read_user_fragments [OF assms(2)] by blast
  have "scan 0 vs first_scan = Inr first_scan" using scan_free [OF vs(3), of first_scan 0 "[]"] by (simp add: first_scan_def)
  then show ?thesis using vs by (simp add: remove_section_def frags rbind_def first_scan_def)
qed

lemma remove_inserted:
  assumes "closed f0" "\<forall>f \<in> set us. user_fragment lib f" "\<forall>v \<in> set (beq_block title ms). writable lib v"
    and "\<forall>m \<in> set ms. not_text m"
  shows "remove_section lib (filter_section f0 (us @ map filt_to_xml (beq_block title ms))) = Inr (Some (filter_section f0 us))"
proof -
  let ?b = "beq_block title ms" and ?n = "length us"
  have "\<forall>u \<in> set (us @ map filt_to_xml ?b). closed u"
    using assms(2,3) closed_written by (auto simp: user_fragment_def writable_def plain_vals_def)
  note frags = fragments_section [OF assms(1) this]
  obtain vs where vs: "read_filters lib us = Inr (zip vs us)" "length vs = ?n" "\<forall>v \<in> set vs. beq_free v"
    using read_user_fragments [OF assms(2)] by blast
  let ?fs = "zip vs us @ zip (map opt_vals ?b) (map filt_to_xml ?b)"
  have read: "read_filters lib (us @ map filt_to_xml ?b) = Inr ?fs"
    by (simp add: read_filters_append vs(1) read_written [OF assms(3)] rbind_def)
  have "map fst ?fs = vs @ map opt_vals ?b" using vs(2) by simp
  moreover have "scan 0 (vs @ map opt_vals ?b) first_scan
      = Inr \<lparr>bs_start = Some ?n, bs_end = Some (Suc (?n + length ms)), bs_name = title\<rparr>"
    using scan_free [OF vs(3), of first_scan 0 "map opt_vals ?b"] scan_markers [OF assms(4), of ?n title] vs(2)
    by (simp add: first_scan_def)
  moreover have "map snd (take ?n ?fs @ drop (Suc (Suc (?n + length ms))) ?fs) = us"
    using vs(2) by (simp add: beq_block_def)
  ultimately show ?thesis
    using read unfolding remove_section_def frags
    by (simp add: rbind_def filter_section_def del: map_append take_append drop_append)
qed

lemma include_written:
  assumes "closed f0" "\<forall>u \<in> set us. closed u" "\<forall>v \<in> set vs. plain_vals v"
  shows "include_section False (map (\<lambda>v. filts_to_xml [v]) vs) (filter_section f0 us)
    = Inr (filter_section f0 (us @ map filt_to_xml vs))"
proof -
  have "sum_list (map (xmlph_count \<circ> (\<lambda>v. filts_to_xml [v])) vs) = length vs"
    using assms(3) xmlph_count_written by (induction vs) (simp_all add: filts_to_xml_def plain_vals_def)
  moreover have "filter_section f0 us \<noteq> []" using assms(1) by (auto simp: filter_section_def closed_def)
  ultimately show ?thesis
    using fragment_count_show unfolding include_section_def fragments_section [OF assms(1,2)]
    by (simp add: rbind_def filter_section_def filts_to_xml_def show_int_def nat_add_distrib comp_def)
qed

section \<open>Documents with one place for the filters\<close>

text \<open>Setting the text of a \<^verbatim>\<open>Value\<close> leaves the places of the document as they are.\<close>

definition set_at :: "nat list \<Rightarrow> string \<Rightarrow> xml \<Rightarrow> xml" where
  "set_at path s doc = change_at path (set_text s) doc"

fun valid_path :: "nat list \<Rightarrow> xml \<Rightarrow> bool" where
  "valid_path [] e = True"
| "valid_path (i # is) e = (i < length (x_children e) \<and> valid_path is (x_children e ! i))"

lemma change_at_Cons:
  "change_at (i # is) f e = Elem (x_tag e) (x_attrs e) (x_text e) (x_tail e) ((x_children e)[i := change_at is f (x_children e ! i)])"
  by (cases e) simp

lemma set_at_same [simp]:
  "x_tag (set_at p s e) = x_tag e" "x_attrs (set_at p s e) = x_attrs e"
  by (cases p; simp add: set_at_def set_text_def change_at_Cons)+

lemma set_at_children: "x_children (set_at (i # is) s e) = (x_children e)[i := set_at is s (x_children e ! i)]"
  by (simp add: set_at_def change_at_Cons)

lemma set_at_again: "valid_path p e \<Longrightarrow> set_at p t (set_at p s e) = set_at p t e"
proof (induction p arbitrary: e)
  case Nil
  show ?case by (simp add: set_at_def set_text_def)
next
  case (Cons i p)
  then have "set_at p t (set_at p s (x_children e ! i)) = set_at p t (x_children e ! i)" "i < length (x_children e)" by simp_all
  then show ?case by (simp add: set_at_def change_at_Cons)
qed

lemma text_at_set: "valid_path p e \<Longrightarrow> x_text (element_at p (set_at p s e)) = Some s"
  by (induction p arbitrary: e) (simp_all add: set_at_def set_text_def change_at_Cons)

lemma set_at_present: "valid_path p e \<Longrightarrow> x_text (element_at p e) = Some s \<Longrightarrow> set_at p s e = e"
proof (induction p arbitrary: e)
  case Nil
  then show ?case by (cases e) (simp add: set_at_def set_text_def)
next
  case (Cons i p)
  then have "set_at p s (x_children e ! i) = x_children e ! i" by simp
  then show ?case by (cases e) (simp add: set_at_def change_at_Cons)
qed

lemma over_children:
  assumes "i < length (x_children e)" "g (i, x_children e ! i) = g (i, set_at is s (x_children e ! i))"
  shows "concat (map g (indexed_children (set_at (i # is) s e))) = concat (map g (indexed_children e))"
proof -
  let ?cs = "x_children e"
  have "indexed_children (set_at (i # is) s e) = (indexed_children e)[i := (i, set_at is s (?cs ! i))]"
    using assms(1) by (auto simp: indexed_children_def set_at_children intro!: nth_equalityI simp: nth_list_update)
  moreover have "indexed_children e ! i = (i, ?cs ! i)" using assms(1) by (simp add: indexed_children_def)
  moreover have "i < length (indexed_children e)" using assms(1) by (simp add: indexed_children_def)
  ultimately show ?thesis using assms(2) by (simp add: map_update) (metis list_update_id nth_map)
qed

lemma in_children: "(i, c) \<in> set (indexed_children e) \<longleftrightarrow> i < length (x_children e) \<and> c = x_children e ! i"
  by (auto simp: indexed_children_def in_set_zip intro!: exI [of _ i])

definition values_in :: "nat list \<Rightarrow> xml \<Rightarrow> nat list list" where
  "values_in path K = concat (map (\<lambda>(d, D). if data_named ''Filters'' D then
     concat (map (\<lambda>(v, V). if x_tag V = ''Value'' then [path @ [d, v]] else []) (indexed_children D)) else []) (indexed_children K))"

lemma value_paths_values: "value_paths key ''Filters'' doc = concat (map (\<lambda>path. values_in path (element_at path doc)) (key_paths key doc))"
  by (simp add: value_paths_def values_in_def)

lemma list_ex_update: "\<not> P (xs ! i) \<Longrightarrow> \<not> P y \<Longrightarrow> list_ex P (xs[i := y]) = list_ex P xs"
  unfolding list_ex_length length_list_update by (metis nth_list_update_eq nth_list_update_neq)

lemma data_named_set:
  assumes "v < length (x_children D)" "x_tag (x_children D ! v) = ''Value''"
  shows "data_named n (set_at [v] s D) \<longleftrightarrow> data_named n D"
proof -
  let ?P = "\<lambda>c. x_tag c = ''Name'' \<and> inner_text c = n"
  have "\<not> ?P (x_children D ! v)" "\<not> ?P (set_at [] s (x_children D ! v))" using assms(2) by simp_all
  then have "list_ex ?P ((x_children D)[v := set_at [] s (x_children D ! v)]) = list_ex ?P (x_children D)"
    by (rule list_ex_update)
  then show ?thesis by (simp add: data_named_def set_at_children)
qed

lemma values_in_set:
  assumes "d < length (x_children K)" "v < length (x_children (x_children K ! d))"
    "x_tag (x_children (x_children K ! d) ! v) = ''Value''"
  shows "values_in path (set_at [d, v] s K) = values_in path K"
  unfolding values_in_def
proof (rule over_children [OF assms(1)], simp only: prod.case)
  let ?D = "x_children K ! d"
  have "concat (map (\<lambda>(v, V). if x_tag V = ''Value'' then [path @ [d, v]] else []) (indexed_children (set_at [v] s ?D)))
      = concat (map (\<lambda>(v, V). if x_tag V = ''Value'' then [path @ [d, v]] else []) (indexed_children ?D))"
    by (rule over_children [OF assms(2)]) simp
  then show "(if data_named ''Filters'' ?D then
       concat (map (\<lambda>(v, V). if x_tag V = ''Value'' then [path @ [d, v]] else []) (indexed_children ?D)) else [])
     = (if data_named ''Filters'' (set_at [v] s ?D) then
       concat (map (\<lambda>(v, V). if x_tag V = ''Value'' then [path @ [d, v]] else []) (indexed_children (set_at [v] s ?D))) else [])"
    using data_named_set [OF assms(2,3)] by simp
qed

lemma key_paths_set:
  assumes "p < length (x_children doc)"
  shows "key_paths key (set_at (p # k # path) s doc) = key_paths key doc"
  unfolding key_paths_def
proof (rule over_children [OF assms], simp only: prod.case)
  let ?P = "x_children doc ! p"
  let ?g = "\<lambda>(k, K). if x_tag K = ''Key'' \<and> map_of (x_attrs K) ''Name'' = Some key then [[p, k]] else []"
  have "concat (map ?g (indexed_children (set_at (k # path) s ?P))) = concat (map ?g (indexed_children ?P))"
  proof (cases "k < length (x_children ?P)")
    case True
    then show ?thesis by (rule over_children) simp
  next
    case False
    then have "set_at (k # path) s ?P = ?P" by (cases ?P) (simp add: set_at_def list_update_beyond)
    then show ?thesis by simp
  qed
  then show "(if x_tag ?P = ''Preset'' then concat (map ?g (indexed_children ?P)) else [])
     = (if x_tag (set_at (k # path) s ?P) = ''Preset'' then concat (map ?g (indexed_children (set_at (k # path) s ?P))) else [])"
    by simp
qed

lemma value_path_shape:
  assumes "path \<in> set (value_paths key ''Filters'' doc)"
  shows "\<exists>p k d v. path = [p, k, d, v] \<and> [p, k] \<in> set (key_paths key doc) \<and> valid_path path doc
    \<and> x_tag (element_at path doc) = ''Value''"
proof -
  from assms obtain kp where kp: "kp \<in> set (key_paths key doc)" "path \<in> set (values_in kp (element_at kp doc))"
    by (auto simp: value_paths_values)
  from kp(1) obtain p k where pk: "kp = [p, k]" "p < length (x_children doc)" "k < length (x_children (x_children doc ! p))"
    by (auto simp: key_paths_def in_children split: if_splits)
  from kp(2) obtain d v where "path = kp @ [d, v]" "d < length (x_children (element_at kp doc))"
    "v < length (x_children (x_children (element_at kp doc) ! d))"
    "x_tag (x_children (x_children (element_at kp doc) ! d) ! v) = ''Value''"
    by (auto simp: values_in_def in_children split: if_splits)
  with pk kp(1) show ?thesis by simp
qed

lemma element_at_set_other: "length q = length p \<Longrightarrow> q \<noteq> p \<Longrightarrow> valid_path q e \<Longrightarrow> element_at q (set_at (p @ r) s e) = element_at q e"
proof (induction p arbitrary: q e)
  case (Cons i p)
  then obtain j q' where q: "q = j # q'" by (cases q) auto
  show ?case
  proof (cases "j = i")
    case True
    then show ?thesis using Cons.IH [of q' "x_children e ! i"] Cons.prems q by (simp add: set_at_children)
  next
    case False
    then show ?thesis using q by (simp add: set_at_children)
  qed
qed simp

lemma element_at_set_same: "valid_path p e \<Longrightarrow> element_at p (set_at (p @ r) s e) = set_at r s (element_at p e)"
  by (induction p arbitrary: e) (simp_all add: set_at_children)

lemma value_paths_set:
  assumes "path \<in> set (value_paths key ''Filters'' doc)"
  shows "value_paths key ''Filters'' (set_at path s doc) = value_paths key ''Filters'' doc"
proof -
  from value_path_shape [OF assms] obtain p k d v where path: "path = [p, k] @ [d, v]"
    and v: "p < length (x_children doc)" "valid_path [p, k] doc" "d < length (x_children (element_at [p, k] doc))"
      "v < length (x_children (x_children (element_at [p, k] doc) ! d))"
      "x_tag (x_children (x_children (element_at [p, k] doc) ! d) ! v) = ''Value''" by auto
  have keys: "key_paths key (set_at path s doc) = key_paths key doc" using key_paths_set [OF v(1)] path by simp
  have "values_in q (element_at q (set_at path s doc)) = values_in q (element_at q doc)" if q: "q \<in> set (key_paths key doc)" for q
  proof (cases "q = [p, k]")
    case True
    then show ?thesis using element_at_set_same [OF v(2), of "[d, v]" s] values_in_set [OF v(3-5), of q s] path by simp
  next
    case False
    from q have "length q = length [p, k]" "valid_path q doc"
      by (auto simp: key_paths_def in_children split: if_splits)
    with False show ?thesis using element_at_set_other [of q "[p, k]" doc "[d, v]" s] path by simp
  qed
  then show ?thesis unfolding value_paths_values keys by (intro arg_cong [of _ _ concat] map_cong refl)
qed

text \<open>The documents a configuration goes through: one place for the filters, whose text is read as it was written\<close>

definition one_place :: "xml_lib \<Rightarrow> string \<Rightarrow> xml \<Rightarrow> nat list \<Rightarrow> bool" where
  "one_place lib key doc path \<longleftrightarrow>
     value_paths key ''Filters'' doc = [path] \<and> (\<forall>s. xl_parse lib (xl_show lib (set_at path s doc)) = Inr (set_at path s doc))"

lemma one_place_extract:
  assumes "one_place lib key doc path"
  shows "extract_filters key True (set_at path s doc) = Inr (set_at path s doc, path)"
    and "x_text (element_at path (set_at path s doc)) = Some s" "set_at path t (set_at path s doc) = set_at path t doc"
proof -
  from assms have path: "path \<in> set (value_paths key ''Filters'' doc)" by (simp add: one_place_def)
  from value_path_shape [OF path] have v: "valid_path path doc" by blast
  show "extract_filters key True (set_at path s doc) = Inr (set_at path s doc, path)"
    using value_paths_set [OF path] assms by (simp add: extract_filters_def one_place_def)
  show "x_text (element_at path (set_at path s doc)) = Some s" using v by (rule text_at_set)
  show "set_at path t (set_at path s doc) = set_at path t doc" using v by (rule set_at_again)
qed

text \<open>The configuration with a given text of its filters\<close>

definition with_filters :: "xml_lib \<Rightarrow> xml \<Rightarrow> nat list \<Rightarrow> string \<Rightarrow> string" where
  "with_filters lib doc path s = xl_show lib (set_at path s doc)"

lemma with_filters_inject: "one_place lib key doc path \<Longrightarrow> with_filters lib doc path s = with_filters lib doc path t \<longleftrightarrow> s = t"
  using one_place_extract(2) [of lib key doc path] unfolding one_place_def with_filters_def by (metis option.inject sum.inject(2))

lemma remove_with_filters:
  assumes "one_place lib key doc path"
  shows "remove_beq_filter lib key (with_filters lib doc path s)
    = (if s = [] then Inr None else rbind (remove_section lib s) (\<lambda>new. Inr (map_option (with_filters lib doc path) new)))"
proof -
  have "xl_parse lib (with_filters lib doc path s) = Inr (set_at path s doc)" using assms by (simp add: one_place_def with_filters_def)
  then show ?thesis
    using one_place_extract(1,2) [OF assms, of s] one_place_extract(3) [OF assms, of _ s]
    by (simp add: remove_beq_filter_def rbind_def opt_text_def with_filters_def [abs_def] set_at_def [symmetric] comp_def split: sum.split)
qed

lemma include_with_filters:
  assumes "one_place lib key doc path" "xmls \<noteq> []"
  shows "include_filters_in_dsp lib key (with_filters lib doc path s) xmls replace
    = rbind (include_section replace xmls s) (\<lambda>new. Inr (with_filters lib doc path new))"
proof -
  have "xl_parse lib (with_filters lib doc path s) = Inr (set_at path s doc)" using assms by (simp add: one_place_def with_filters_def)
  then show ?thesis
    using one_place_extract(1,2) [OF assms(1), of s] one_place_extract(3) [OF assms(1), of _ s] assms(2)
    by (simp add: include_filters_in_dsp_def rbind_def opt_text_def with_filters_def set_at_def [symmetric] split: sum.split)
qed

section \<open>Removing every BEQ\<close>

lemma read_filters_frags: "read_filters lib fs = Inr ds \<Longrightarrow> length ds \<le> length fs \<and> snd ` set ds \<subseteq> set fs"
proof (induction fs arbitrary: ds)
  case (Cons f fs)
  then obtain d ds' where d: "item_to_dicts lib f = Inr d" "read_filters lib fs = Inr ds'"
    "ds = (case d of None \<Rightarrow> ds' | Some x \<Rightarrow> x # ds')" by (auto simp: rbind_Inr_iff)
  have "snd x = f" if "d = Some x" for x
    using d(1) that by (auto simp: item_to_dicts_def rbind_Inr_iff split: list.splits)
  with Cons.IH [OF d(2)] d(3) show ?case by (auto split: option.splits)
qed simp

lemma scan_end_bound:
  "scan i fs s = Inr s' \<Longrightarrow> bs_end s' = Some e \<Longrightarrow> bs_end s = Some e \<or> e < i + length fs"
proof (induction i fs s rule: scan.induct)
  case (2 i f fs s)
  show ?case
  proof (cases "bs_start s \<noteq> None \<and> bs_end s \<noteq> None")
    case True
    then show ?thesis using 2 by simp
  next
    case False
    then obtain s1 where s1: "scan_filter i f s = Inr s1" "scan (Suc i) fs s1 = Inr s'" using 2(2) by (auto simp: rbind_Inr_iff)
    then have "bs_end s1 = bs_end s \<or> bs_end s1 = Some i"
      by (auto simp: scan_filter_def scan_text_def Let_def split: if_splits option.splits)
    with 2(1) [OF False s1(2) 2(3)] show ?thesis by auto
  qed
qed simp

text \<open>A removal leaves fewer fragments.\<close>

lemma remove_section_shorter:
  assumes "remove_section lib t = Inr (Some n)"
  shows "length (fragments n) < length (fragments t)"
proof -
  let ?fr = "fragments t"
  have len: "2 \<le> length ?fr" using assms by (cases "length ?fr < 2") (simp_all add: remove_section_def)
  with assms obtain fs s where fs: "read_filters lib (drop 2 ?fr) = Inr fs" "scan 0 (map fst fs) first_scan = Inr s"
    and out: "(case bs_start s of None \<Rightarrow> Inr None | Some b \<Rightarrow>
        (case bs_end s of
           Some e \<Rightarrow>
             if b < e then
               (let new = map snd (take b fs @ drop (Suc e) fs)
                in Inr (Some (hd ?fr @ count_fragment (show_nat (length new)) @ concat new)))
             else Inl (ValueError ''Unexpected BEQ format'')
         | None \<Rightarrow> Inl (ValueError ''Unexpected BEQ format''))) = Inr (Some n)"
    by (simp add: remove_section_def rbind_Inr_iff Let_def) blast
  from out obtain b where b: "bs_start s = Some b" by (cases "bs_start s") simp_all
  with out obtain e where r: "bs_end s = Some e" "b < e" by (cases "bs_end s") (simp_all split: if_splits)
  with out b have n: "n = hd ?fr @ count_fragment (show_nat (length (map snd (take b fs @ drop (Suc e) fs))))
      @ concat (map snd (take b fs @ drop (Suc e) fs))" by (simp add: Let_def)
  let ?new = "map snd (take b fs @ drop (Suc e) fs)"
  note rf = read_filters_frags [OF fs(1)]
  have e: "e < length fs" using scan_end_bound [OF fs(2) r(1)] by (simp add: first_scan_def)
  have cl: "\<forall>f \<in> set ?fr. closed f" using closed_fragments by blast
  have "set ?new \<subseteq> snd ` set fs" by (auto dest: in_set_takeD in_set_dropD)
  then have "\<forall>f \<in> set ?new. closed f" using rf cl by (meson in_set_dropD subsetD)
  moreover have "closed (hd ?fr)" using len cl by (cases ?fr) auto
  ultimately have "fragments n = hd ?fr # count_fragment (show_nat (length ?new)) # ?new"
    unfolding n by (simp only: fragments_closed closed_count fragments_concat)
  then have "length (fragments n) = 2 + (b + (length fs - Suc e))" using r(2) e by simp
  then show ?thesis using rf len r(2) e by auto
qed

lemma remove_all_with_filters:
  assumes "one_place lib key doc path" "\<And>x. xl_show lib x \<noteq> []"
  shows "\<exists>r. remove_all_beq lib key (with_filters lib doc path s) = Some r
    \<and> (\<forall>final. r = Inr final \<longrightarrow> remove_beq_filter lib key final = Inr None)"
proof (induction s rule: measure_induct_rule [of "\<lambda>s. length (fragments s)"])
  case (less s)
  let ?w = "with_filters lib doc path"
  note step = remove_with_filters [OF assms(1), of s]
  show ?case
  proof (cases "remove_beq_filter lib key (?w s)")
    case (Inl e)
    then show ?thesis by (subst remove_all_beq.simps) simp
  next
    case (Inr new)
    show ?thesis
    proof (cases new)
      case None
      then show ?thesis using Inr by (subst remove_all_beq.simps) simp
    next
      case (Some tmp)
      then obtain n where n: "remove_section lib s = Inr (Some n)" "tmp = ?w n"
        using Inr step by (auto simp: rbind_Inr_iff split: if_splits)
      have short: "length (fragments n) < length (fragments s)" using remove_section_shorter [OF n(1)] .
      then have "n \<noteq> s" by auto
      then have "?w n \<noteq> ?w s" using with_filters_inject [OF assms(1)] by simp
      moreover have "?w n \<noteq> []" using assms(2) by (simp add: with_filters_def)
      ultimately have "remove_all_beq lib key (?w s) = remove_all_beq lib key (?w n)"
        using Inr Some n(2) by (subst remove_all_beq.simps) simp
      with less.IH [OF short] show ?thesis by simp
    qed
  qed
qed

text \<open>A text whose section has one BEQ, or none\<close>

lemma remove_all_none:
  assumes "one_place lib key doc path" "remove_section lib s = Inr None"
  shows "remove_all_beq lib key (with_filters lib doc path s) = Some (Inr (with_filters lib doc path s))"
  using remove_with_filters [OF assms(1), of s] assms(2) by (subst remove_all_beq.simps) (simp add: rbind_def)

lemma remove_all_one:
  assumes "one_place lib key doc path" "\<And>x. xl_show lib x \<noteq> []" "remove_section lib s = Inr (Some n)" "remove_section lib n = Inr None"
  shows "remove_all_beq lib key (with_filters lib doc path s) = Some (Inr (with_filters lib doc path n))"
proof -
  have "s \<noteq> []" using assms(3) by (auto simp: remove_section_def)
  moreover have "n \<noteq> s" using assms(3,4) by auto
  then have "with_filters lib doc path n \<noteq> with_filters lib doc path s" using with_filters_inject [OF assms(1)] by simp
  moreover have "with_filters lib doc path n \<noteq> []" using assms(2) by (simp add: with_filters_def)
  ultimately show ?thesis
    using remove_with_filters [OF assms(1), of s] assms(3) remove_all_none [OF assms(1,4)]
    by (subst remove_all_beq.simps) (simp add: rbind_def)
qed

end
