(* ===== verification/Jriver.thy ===== *)
theory Jriver
  imports Jriver_Sections Single_Slot
begin

text \<open>
  The JRiver device of \<^verbatim>\<open>ezbeq/jriver.py\<close>: the media server with its token and its requests, the comparison of the
  configuration sent with the one read back, the state with a slot for each zone, and the operations. Lemmas: the
  contract of \<^theory_text>\<open>Persistence\<close>, a load over a loaded BEQ posts what a load on its own would, a clear gives back the
  configuration from before, and the loop of both ends.
\<close>

section \<open>The media server\<close>

text \<open>
  Requests with the token and the zone they carry. \<open>jc_answer\<close> is the status and the text of the answer to a request
  after others, or an exception.
\<close>

datatype mcws_request =
    Authenticate
  | Zones "string option"
  | SaveDSPPreset "string option" "string option"
  | LoadDSPPreset "string option" "string option" string

record jriver_cfg =
  jc_name :: string
  jc_channels :: string
  jc_block :: string
  jc_find :: "json \<Rightarrow> exn + catalogue_entry option"
  jc_lib :: xml_lib
  jc_texts :: number_texts
  jc_answer :: "mcws_request list \<Rightarrow> mcws_request \<Rightarrow> exn + nat \<times> string"

record media_server =
  ms_token :: "string option"
  ms_requests :: "mcws_request list"

definition request :: "jriver_cfg \<Rightarrow> mcws_request \<Rightarrow> (media_server, nat \<times> string) act" where
  "request cfg r w = (jc_answer cfg (ms_requests w) r, w\<lparr>ms_requests := ms_requests w @ [r]\<rparr>)"

definition MCWSError :: "string \<Rightarrow> exn" where
  "MCWSError msg = External (''MCWSError: '' @ msg)"

definition DSPMismatchError :: exn where
  "DSPMismatchError = External ''DSPMismatchError''"

text \<open>The children of an answer with status OK; an element without children counts as false.\<close>

definition ok_children :: "xml \<Rightarrow> xml list option" where
  "ok_children r = (if x_children r \<noteq> [] \<and> map_of (x_attrs r) ''Status'' = Some ''OK'' then Some (x_children r) else None)"

definition take_token :: "xml \<Rightarrow> (media_server, unit) act" where
  "take_token i =
     (case map_of (x_attrs i) ''Name'' of
        None \<Rightarrow> raise (KeyError ''Name'')
      | Some n \<Rightarrow> if n = ''Token'' then modify (\<lambda>w. w\<lparr>ms_token := x_text i\<rparr>) else ok ())"

definition authenticate :: "jriver_cfg \<Rightarrow> (media_server, bool) act" where
  "authenticate cfg =
     and_then (modify (\<lambda>w. w\<lparr>ms_token := None\<rparr>)) (\<lambda>_.
     and_then (request cfg Authenticate) (\<lambda>(status, txt).
     and_then (if status = 200 then
         and_then (lift_result (xl_parse (jc_lib cfg) txt)) (\<lambda>r.
           case ok_children r of None \<Rightarrow> ok () | Some cs \<Rightarrow> for_each take_token cs)
       else ok ()) (\<lambda>_ w.
       (if ms_token w \<noteq> None then Inr True else Inl (MCWSError ''Authentication failure''), w))))"

definition auth_if_required :: "jriver_cfg \<Rightarrow> (media_server, unit) act" where
  "auth_if_required cfg w = (if ms_token w = None then and_then (authenticate cfg) (\<lambda>_. ok ()) w else (Inr (), w))"

definition token_of :: "(media_server, string option) act" where
  "token_of w = (Inr (ms_token w), w)"

text \<open>A zone as far as it was read: its name and its id, when given\<close>

record zone_info =
  zi_name :: "string option option"
  zi_id :: "string option option"

definition no_zone :: zone_info where
  "no_zone = \<lparr>zi_name = None, zi_id = None\<rparr>"

definition read_zone :: "xml \<Rightarrow> (string, zone_info) pydict \<times> string list \<Rightarrow> (string, zone_info) pydict \<times> string list" where
  "read_zone c acc =
     (let (zones, remote) = acc in
      case (x_tag c = ''Item'', map_of (x_attrs c) ''Name'') of
        (True, Some a) \<Rightarrow>
          if starts_with ''ZoneName'' a then
            (dict_set zones (drop 8 a) ((dict_get zones (drop 8 a) no_zone)\<lparr>zi_name := Some (x_text c)\<rparr>), remote)
          else if starts_with ''ZoneID'' a then
            (dict_set zones (drop 6 a) ((dict_get zones (drop 6 a) no_zone)\<lparr>zi_id := Some (x_text c)\<rparr>), remote)
          else if starts_with ''ZoneDLNA'' a then (zones, if x_text c = Some ''1'' then remote @ [drop 8 a] else remote)
          else acc
      | _ \<Rightarrow> acc)"

definition zones_by_id :: "(string, zone_info) pydict \<times> string list \<Rightarrow> exn + (string option, zone_info) pydict" where
  "zones_by_id acc =
     fold_result (\<lambda>(k, z) d. case zi_id z of None \<Rightarrow> Inl (KeyError ''id'') | Some i \<Rightarrow> Inr (dict_set d i z))
       (filter (\<lambda>(k, z). k \<notin> set (snd acc)) (fst acc)) []"

definition get_zones :: "jriver_cfg \<Rightarrow> (media_server, (string option, zone_info) pydict) act" where
  "get_zones cfg =
     and_then (auth_if_required cfg) (\<lambda>_.
     and_then token_of (\<lambda>t.
     and_then (request cfg (Zones t)) (\<lambda>(status, txt).
       if status = 200 then
         and_then (lift_result (xl_parse (jc_lib cfg) txt)) (\<lambda>r.
           case ok_children r of
             None \<Rightarrow> raise (MCWSError ''No zones loaded'')
           | Some cs \<Rightarrow> lift_result (zones_by_id (fold read_zone cs ([], []))))
       else raise (MCWSError ''No zones loaded''))))"

text \<open>\<^verbatim>\<open>next(k for k, v in zones.items() if v['name'] == zone_name)\<close>\<close>

fun zone_named :: "string \<Rightarrow> (string option, zone_info) pydict \<Rightarrow> exn + string option" where
  "zone_named zone [] = Inl StopIteration"
| "zone_named zone ((k, z) # zs) =
     (case zi_name z of
        None \<Rightarrow> Inl (KeyError ''name'')
      | Some n \<Rightarrow> if n = Some zone then Inr k else zone_named zone zs)"

definition media_zone_id :: "jriver_cfg \<Rightarrow> string \<Rightarrow> (media_server, string option) act" where
  "media_zone_id cfg zone = and_then (get_zones cfg) (\<lambda>zones. lift_result (zone_named zone zones))"

text \<open>\<^verbatim>\<open>get_dsp\<close>: the document itself, or the text of the preset in an answer\<close>

definition is_preset :: "xml \<Rightarrow> bool" where
  "is_preset c \<longleftrightarrow> x_tag c = ''Item'' \<and> map_of (x_attrs c) ''Name'' = Some ''Preset''"

definition dsp_text :: "string \<Rightarrow> xml \<Rightarrow> string option option" where
  "dsp_text txt r =
     (if x_children r = [] then None
      else if x_tag r = ''DSP'' then Some (Some txt)
      else if x_tag r = ''Response'' then
        (case ok_children r of None \<Rightarrow> None
         | Some cs \<Rightarrow> (case filter is_preset cs of [] \<Rightarrow> None | c # _ \<Rightarrow> Some (x_text c)))
      else None)"

definition get_dsp :: "jriver_cfg \<Rightarrow> string option \<Rightarrow> (media_server, string option) act" where
  "get_dsp cfg zone =
     and_then (auth_if_required cfg) (\<lambda>_.
     and_then token_of (\<lambda>t.
     and_then (request cfg (SaveDSPPreset t zone)) (\<lambda>(status, txt).
       if status = 200 then
         and_then (lift_result (xl_parse (jc_lib cfg) txt)) (\<lambda>r.
           case dsp_text txt r of None \<Rightarrow> raise (MCWSError ''No DSP loaded'') | Some t' \<Rightarrow> ok t')
       else raise (MCWSError ''No DSP loaded''))))"

definition text_compare :: "string option \<Rightarrow> string option \<Rightarrow> bool" where
  "text_compare t1 t2 \<longleftrightarrow>
     opt_text t1 = [] \<and> opt_text t2 = [] \<or> t1 = Some ''*'' \<or> t2 = Some ''*'' \<or> strip (opt_text t1) = strip (opt_text t2)"

definition same_attrs :: "(string, string) pydict \<Rightarrow> (string, string) pydict \<Rightarrow> bool" where
  "same_attrs a b \<longleftrightarrow>
     list_all (\<lambda>(k, v). map_of b k = Some v) a \<and> list_all (\<lambda>(k, v). map_of a k \<noteq> None) b"

fun compare_xml :: "xml \<Rightarrow> xml \<Rightarrow> bool" and compare_all :: "xml list \<Rightarrow> xml list \<Rightarrow> bool" where
  "compare_xml (Elem g1 a1 t1 l1 cs1) (Elem g2 a2 t2 l2 cs2) =
     (g1 = g2 \<and> same_attrs a1 a2 \<and> text_compare t1 t2 \<and> text_compare l1 l2 \<and> length cs1 = length cs2 \<and> compare_all cs1 cs2)"
| "compare_all (c # cs) (d # ds) = (compare_xml c d \<and> compare_all cs ds)"
| "compare_all _ _ = True"

text \<open>\<^verbatim>\<open>dsp.replace('\n', '\r\n')\<close>, with an end of line at the end\<close>

definition crlf :: string where
  "crlf = [char_of (13 :: nat), char_of (10 :: nat)]"

definition with_crlf :: "string \<Rightarrow> string" where
  "with_crlf s =
     (let t = concat (map (\<lambda>c. if c = char_of (10 :: nat) then crlf else [c]) s)
      in if drop (length t - 2) t = crlf then t else t @ crlf)"

definition parse_opt :: "xml_lib \<Rightarrow> string option \<Rightarrow> exn + xml" where
  "parse_opt lib t = (case t of None \<Rightarrow> Inl TypeError | Some s \<Rightarrow> xl_parse lib s)"

definition set_dsp :: "jriver_cfg \<Rightarrow> string option \<Rightarrow> string \<Rightarrow> (media_server, bool) act" where
  "set_dsp cfg zone dsp0 =
     (let dsp = with_crlf dsp0 in
      and_then (auth_if_required cfg) (\<lambda>_.
      and_then token_of (\<lambda>t.
      and_then (request cfg (LoadDSPPreset t zone dsp)) (\<lambda>(status, txt).
        if status = 200 then
          and_then (get_dsp cfg zone) (\<lambda>loaded.
          and_then (lift_result (xl_parse (jc_lib cfg) dsp)) (\<lambda>sent.
          and_then (lift_result (parse_opt (jc_lib cfg) loaded)) (\<lambda>got.
            if compare_xml sent got then ok True else raise DSPMismatchError)))
        else raise (MCWSError ''DSP not set'')))))"

section \<open>Configuration\<close>

definition JRIVER_CHANNELS :: "json list" where
  "JRIVER_CHANNELS =
     [JNull, JNull, JStr ''L'', JStr ''R'', JStr ''C'', JStr ''SW'', JStr ''SL'', JStr ''SR'', JStr ''RL'', JStr ''RR'', JNull,
      JStr ''U1'', JStr ''U2''] @ map (\<lambda>i. JStr (''C'' @ show_nat (i + 9))) [0..<24]"

fun index_of :: "json \<Rightarrow> json list \<Rightarrow> exn + nat" where
  "index_of c [] = Inl (ValueError ''not in list'')"
| "index_of c (x # xs) = (if json_eq x c then Inr 0 else rbind (index_of c xs) (\<lambda>i. Inr (Suc i)))"

definition get_peq_key_name :: "int \<Rightarrow> exn + string" where
  "get_peq_key_name block =
     (if block = 0 then Inr ''Parametric Equalizer''
      else if block = 1 then Inr ''Parametric Equalizer 2''
      else Inl (ValueError (''Unknown PEQ block '' @ show_int block)))"

definition JRiver ::
  "string \<Rightarrow> (json \<Rightarrow> exn + catalogue_entry option) \<Rightarrow> xml_lib \<Rightarrow> number_texts
   \<Rightarrow> (json \<Rightarrow> (json \<times> json) option \<Rightarrow> bool \<Rightarrow> mcws_request list \<Rightarrow> mcws_request \<Rightarrow> exn + nat \<times> string) \<Rightarrow> json \<Rightarrow> exn + jriver_cfg" where
  "JRiver name find_entry lib texts answer cfg =
     rbind (jget cfg ''address'') (\<lambda>address.
       if \<not> truthy address then Inl (ValueError ''No MCWS address for jriver'')
       else rbind (jget_or cfg ''auth'' JNull) (\<lambda>cfg_auth.
       rbind (if truthy cfg_auth then
           rbind (jget cfg_auth ''user'') (\<lambda>u. rbind (jget cfg_auth ''pass'') (\<lambda>p. Inr (Some (u, p))))
         else Inr None) (\<lambda>auth.
       rbind (jget_or cfg ''secure'' (JBool False)) (\<lambda>secure.
       rbind (rbind (jget cfg ''channels'') jiter) (\<lambda>cs.
       rbind (map_result (\<lambda>c. index_of c JRIVER_CHANNELS) cs) (\<lambda>is.
         let channels = join '';'' (map show_nat is) in
         if channels = [] then Inl (ValueError ''No target channels for jriver'')
         else rbind (rbind (jget cfg ''block'') jint) (\<lambda>block.
         rbind (get_peq_key_name (block - 1)) (\<lambda>key.
           Inr \<lparr>jc_name = name, jc_channels = channels, jc_block = key, jc_find = find_entry, jc_lib = lib, jc_texts = texts,
                jc_answer = answer address auth (truthy secure)\<rparr>))))))))"

section \<open>State\<close>

text \<open>The slots by the name of their zone, in order; a name may be missing.\<close>

record jriver_slot = slot_state +
  jz_name :: "string option"
  jz_id :: "string option"

type_synonym jriver_state = "(string option, jriver_slot) pydict"

definition new_jriver_slot :: "string option \<Rightarrow> string option \<Rightarrow> jriver_slot" where
  "new_jriver_slot zone_id name =
     \<lparr>slot_id = opt_text name, last_title = empty_title, last_author = JNull, active = False, jz_name = name, jz_id = zone_id\<rparr>"

definition jriver_state_of :: "(string option, zone_info) pydict \<Rightarrow> exn + jriver_state" where
  "jriver_state_of zones =
     fold_result (\<lambda>(i, z) d. case zi_name z of None \<Rightarrow> Inl (KeyError ''name'') | Some n \<Rightarrow> Inr (dict_set d n (new_jriver_slot i n))) zones []"

text \<open>A JSON value as a key of the slots: \<open>None\<close> when no name is equal to it\<close>

fun zone_key :: "json \<Rightarrow> exn + string option option" where
  "zone_key (JStr s) = Inr (Some (Some s))"
| "zone_key JNull = Inr (Some None)"
| "zone_key (JList _) = Inl TypeError"
| "zone_key (JObj _) = Inl TypeError"
| "zone_key _ = Inr None"

definition zone_slot :: "json \<Rightarrow> jriver_state \<Rightarrow> exn + (string option \<times> jriver_slot) option" where
  "zone_slot zone st =
     rbind (zone_key zone) (\<lambda>k. Inr (Option.bind k (\<lambda>n. map_option (\<lambda>s. (n, s)) (map_of st n))))"

definition has_zone :: "json \<Rightarrow> jriver_state \<Rightarrow> exn + bool" where
  "has_zone zone st = rbind (zone_slot zone st) (\<lambda>s. Inr (s \<noteq> None))"

definition get_zone_id :: "json \<Rightarrow> jriver_state \<Rightarrow> exn + string option" where
  "get_zone_id zone st = rbind (zone_slot zone st) (\<lambda>s. Inr (case s of None \<Rightarrow> None | Some (_, x) \<Rightarrow> jz_id x))"

definition zone_set_title :: "json \<Rightarrow> json \<Rightarrow> bool \<Rightarrow> json \<Rightarrow> (jriver_state, unit) act" where
  "zone_set_title zone title ignore author st =
     (case zone_slot zone st of
        Inl e \<Rightarrow> (Inl e, st)
      | Inr None \<Rightarrow> (if ignore then Inr () else Inl (KeyError (''No zone '' @ id_text zone)), st)
      | Inr (Some (n, s)) \<Rightarrow> (Inr (), dict_set st n (set_loaded title author s)))"

definition activate_zone :: "string \<Rightarrow> jriver_state \<Rightarrow> jriver_state" where
  "activate_zone zone st = map (\<lambda>(k, s). (k, s\<lparr>active := (jz_name s = Some zone)\<rparr>)) st"

definition error_zone :: "json \<Rightarrow> (jriver_state, unit) act" where
  "error_zone zone st =
     (case zone_slot zone st of
        Inl e \<Rightarrow> (Inl e, st)
      | Inr None \<Rightarrow> (Inl (KeyError (id_text zone)), st)
      | Inr (Some (n, s)) \<Rightarrow> (Inr (), dict_set st n (set_loaded error_title JNull s)))"

definition jriver_slot_json :: "jriver_slot \<Rightarrow> json" where
  "jriver_slot_json s = JObj (if jz_name s = None then dict_set (slot_as_dict s) ''id'' JNull else slot_as_dict s)"

definition jriver_serialise :: "string \<Rightarrow> jriver_state \<Rightarrow> json" where
  "jriver_serialise name st =
     JObj [(''type'', JStr ''jriver''), (''name'', JStr name), (''slots'', JList (map (jriver_slot_json \<circ> snd) st))]"

section \<open>Operations\<close>

type_synonym jriver_dev = "(jriver_state, media_server) device"

definition jriver_merge_slot :: "json \<Rightarrow> (jriver_state, unit) act" where
  "jriver_merge_slot slot =
     and_then (lift_result (jcontains ''id'' slot)) (\<lambda>has_id.
     if \<not> has_id then ok () else
     and_then (lift_result (jcontains ''last'' slot)) (\<lambda>has_last.
     if \<not> has_last then ok () else
     and_then (lift_result (jget slot ''id'')) (\<lambda>i.
     and_then (lift_result (jget slot ''last'')) (\<lambda>t.
     and_then (lift_result (jget_or slot ''author'' JNull)) (\<lambda>a. zone_set_title i t True a)))))"

definition jriver_merge :: "json \<Rightarrow> (jriver_state, unit) act" where
  "jriver_merge cached =
     and_then (on_key ''slots'' cached (\<lambda>v. and_then (lift_result (jiter v)) (for_each jriver_merge_slot))) (\<lambda>_. ok ())"

definition jriver_load_initial :: "jriver_cfg \<Rightarrow> (jriver_dev, jriver_state) act" where
  "jriver_load_initial cfg =
     and_then (zoom world world_update (get_zones cfg)) (\<lambda>zones. lift_result (jriver_state_of zones))"

definition jriver_class :: "jriver_cfg \<Rightarrow> (jriver_state, media_server) device_class" where
  "jriver_class cfg =
     \<lparr>load_initial_state = jriver_load_initial cfg, merge_state = jriver_merge,
      serialise = (\<lambda>st. Inr (jriver_serialise (jc_name cfg) st))\<rparr>"

definition jriver_activate :: "jriver_cfg \<Rightarrow> string \<Rightarrow> (jriver_dev, unit) act" where
  "jriver_activate cfg slot = hydrate_cache_broadcast (jriver_class cfg) (on_current (modify (activate_zone slot)))"

text \<open>
  The text without any BEQ. A loop that does not end is an error here; \<open>jriver_loops_end\<close> below shows when it ends.
\<close>

definition remove_all :: "jriver_cfg \<Rightarrow> string option \<Rightarrow> exn + string" where
  "remove_all cfg t =
     (case t of
        None \<Rightarrow> Inl TypeError
      | Some s \<Rightarrow>
          (case remove_all_beq (jc_lib cfg) (jc_block cfg) s of
             None \<Rightarrow> Inl (RuntimeError ''the loop does not end'') | Some r \<Rightarrow> r))"

definition loaded_text :: "jriver_cfg \<Rightarrow> string list \<Rightarrow> string option \<Rightarrow> exn + string" where
  "loaded_text cfg xmls t =
     rbind (remove_all cfg t) (\<lambda>s. include_filters_in_dsp (jc_lib cfg) (jc_block cfg) s xmls False)"

definition zone_id_of :: "json \<Rightarrow> (jriver_dev, string option) act" where
  "zone_id_of slot = with_current (\<lambda>st. lift_result (get_zone_id slot st))"

definition server :: "(media_server, 'a) act \<Rightarrow> (jriver_dev, 'a) act" where
  "server m = zoom world world_update m"

text \<open>
  A failure after the filters were sent refers to an attribute \<^verbatim>\<open>slot\<close> the state does not have, which raises in turn.
\<close>

definition jriver_do_load :: "jriver_cfg \<Rightarrow> json \<Rightarrow> catalogue_entry \<Rightarrow> (jriver_dev, unit) act" where
  "jriver_do_load cfg slot e =
     and_then (lift_result (beq_filters (jc_texts cfg) (jc_channels cfg) e)) (\<lambda>filts.
     and_then (zone_id_of slot) (\<lambda>zone_id.
     and_then (server (get_dsp cfg zone_id)) (\<lambda>t.
     and_then (lift_result (loaded_text cfg (map filts_to_xml filts) t)) (\<lambda>new.
       try_except
         (and_then (server (set_dsp cfg zone_id new)) (\<lambda>_.
            on_current (zone_set_title slot (JStr (ce_formatted_title e)) False (JStr (ce_author e)))))
         (\<lambda>_. raise AttributeError)))))"

definition jriver_load_filter :: "jriver_cfg \<Rightarrow> json \<Rightarrow> catalogue_entry \<Rightarrow> rat \<Rightarrow> (jriver_dev, unit) act" where
  "jriver_load_filter cfg slot e mv = hydrate_cache_broadcast (jriver_class cfg) (jriver_do_load cfg slot e)"

definition jriver_do_clear :: "jriver_cfg \<Rightarrow> json \<Rightarrow> (jriver_dev, unit) act" where
  "jriver_do_clear cfg slot =
     and_then (zone_id_of slot) (\<lambda>zone_id.
     and_then (server (get_dsp cfg zone_id)) (\<lambda>t.
     and_then (lift_result (remove_all cfg t)) (\<lambda>new.
       try_except
         (and_then (if Some new \<noteq> t then and_then (server (set_dsp cfg zone_id new)) (\<lambda>_. ok ()) else ok ()) (\<lambda>_.
            on_current (zone_set_title slot (JStr ''Empty'') False JNull)))
         (\<lambda>e. and_then (on_current (error_zone slot)) (\<lambda>_. raise e)))))"

definition jriver_clear_filter :: "jriver_cfg \<Rightarrow> json \<Rightarrow> (jriver_dev, unit) act" where
  "jriver_clear_filter cfg slot = hydrate_cache_broadcast (jriver_class cfg) (jriver_do_clear cfg slot)"

text \<open>\<^verbatim>\<open>update\<close> reads the state without hydrating it.\<close>

definition jriver_update_slot :: "jriver_cfg \<Rightarrow> json \<Rightarrow> (jriver_dev, bool) act" where
  "jriver_update_slot cfg slot =
     and_then (with_current (\<lambda>st. and_then (lift_result (jget slot ''id'')) (\<lambda>i. lift_result (has_zone i st)))) (\<lambda>known.
     if \<not> known then ok False
     else and_then (lift_result (jcontains ''entry'' slot)) (\<lambda>present.
       if \<not> present then ok False
       else and_then (lift_result (jget slot ''id'')) (\<lambda>i.
         and_then (lift_result (jget slot ''entry'')) (\<lambda>v.
         if truthy v then
           and_then (lift_result (jc_find cfg v)) (\<lambda>m.
             case m of None \<Rightarrow> ok False
             | Some e \<Rightarrow> and_then (jriver_load_filter cfg i e 0) (\<lambda>_. ok True))
         else and_then (jriver_clear_filter cfg i) (\<lambda>_. ok True)))))"

definition jriver_update :: "jriver_cfg \<Rightarrow> json \<Rightarrow> (jriver_dev, bool) act" where
  "jriver_update cfg params = single_update (jriver_update_slot cfg) params"

definition jriver_unsupported :: "(jriver_dev, unit) act" where
  "jriver_unsupported = raise NotImplementedError"

definition jriver_levels :: json where
  "jriver_levels = JObj []"

section \<open>The contract of a persistent device\<close>

text \<open>The names of the slots are distinct and each slot stands under its own.\<close>

definition zones_ok :: "jriver_state \<Rightarrow> bool" where
  "zones_ok st \<longleftrightarrow> distinct (map fst st) \<and> (\<forall>(n, s) \<in> set st. jz_name s = n)"

lemma zones_ok_set: "zones_ok st \<Longrightarrow> jz_name s = n \<Longrightarrow> zones_ok (dict_set st n s)"
  using set_dict_set [of st n s] by (auto simp: zones_ok_def)

lemma zone_slot_name: "zones_ok st \<Longrightarrow> zone_slot z st = Inr (Some (n, s)) \<Longrightarrow> jz_name s = n \<and> map_of st n = Some s"
  by (auto simp: zone_slot_def rbind_Inr_iff bind_eq_Some_conv zones_ok_def dest!: map_of_SomeD split: prod.splits)

lemma set_loaded_name [simp]: "jz_name (set_loaded t a s) = jz_name s"
  by (simp add: set_loaded_def)

lemma zone_set_title_zones [keeps_intros]: "maintains zones_ok (zone_set_title z t i a)" "maintains zones_ok (error_zone z)"
  by (auto simp: maintains_def zone_set_title_def error_zone_def intro!: zones_ok_set dest: zone_slot_name split: sum.split option.split prod.split)

lemma activate_zone_ok: "zones_ok st \<Longrightarrow> zones_ok (activate_zone z st)"
  by (auto simp: zones_ok_def activate_zone_def comp_def case_prod_beta)

lemma jriver_state_of_ok: "jriver_state_of zones = Inr st \<Longrightarrow> zones_ok st"
proof -
  have "zones_ok d \<Longrightarrow> fold_result (\<lambda>(i, z) d. case zi_name z of None \<Rightarrow> Inl (KeyError ''name'')
      | Some n \<Rightarrow> Inr (dict_set d n (new_jriver_slot i n))) zs d = Inr st \<Longrightarrow> zones_ok st" for zs d
  proof (induction zs arbitrary: d)
    case (Cons iz zs)
    obtain i z where iz: "iz = (i, z)" by (cases iz)
    with Cons.prems obtain n where n: "zi_name z = Some n" by (auto split: option.splits)
    have "zones_ok (dict_set d n (new_jriver_slot i n))" using Cons.prems(1) by (intro zones_ok_set) (simp_all add: new_jriver_slot_def)
    with Cons.IH [OF this] Cons.prems(2) iz n show ?case by simp
  qed simp
  moreover have "zones_ok []" by (simp add: zones_ok_def)
  ultimately show "jriver_state_of zones = Inr st \<Longrightarrow> zones_ok st" unfolding jriver_state_of_def by blast
qed

lemma jriver_merge_zones: "maintains zones_ok (jriver_merge cached)"
  unfolding jriver_merge_def jriver_merge_slot_def by (intro keeps_intros)

interpretation jriver: persistent_device "jriver_class cfg" zones_ok for cfg
proof unfold_locales
  show "load_initial_state (jriver_class cfg) d = (Inr st, d') \<Longrightarrow> zones_ok st" for d st d'
    using jriver_state_of_ok
    by (auto simp: jriver_class_def jriver_load_initial_def and_then_def lift_result_def split: prod.splits sum.splits)
  show "load_initial_state (jriver_class cfg) d = (r, d') \<Longrightarrow> hydrated d' = hydrated d \<and> current d' = current d" for d r d'
    by (auto simp: jriver_class_def jriver_load_initial_def and_then_def lift_result_def zoom_def split: prod.splits sum.splits)
  show "zones_ok st \<Longrightarrow> zones_ok (snd (merge_state (jriver_class cfg) j st))" for st j
    using maintainsD [OF jriver_merge_zones] by (simp add: jriver_class_def)
  show "zones_ok st \<Longrightarrow> \<exists>j. serialise (jriver_class cfg) st = Inr j" for st
    by (simp add: jriver_class_def)
qed

section \<open>What is posted\<close>

lemma convert_single:
  "convert_filter_to_mc_dsp mt ch f = Inr vs \<Longrightarrow> \<exists>v. vs = [v] \<and> not_text v"
  by (auto simp: convert_filter_to_mc_dsp_def make_shelf_def make_peak_def make_gain_def rbind_Inr_iff not_text_def split: if_splits)

lemma beq_filters_block:
  assumes "beq_filters mt ch e = Inr fs"
  shows "\<exists>ms. map filts_to_xml fs = map (\<lambda>v. filts_to_xml [v]) (beq_block (ce_title e) ms)
    \<and> concat fs = beq_block (ce_title e) ms \<and> (\<forall>m \<in> set ms. not_text m)"
proof -
  have "\<exists>ms. gs = map (\<lambda>v. [v]) ms \<and> (\<forall>m \<in> set ms. not_text m)"
    if "map_result (convert_filter_to_mc_dsp mt ch) fl = Inr gs" for fl gs
    using that
  proof (induction fl arbitrary: gs)
    case (Cons f fl)
    then obtain v gs' where "convert_filter_to_mc_dsp mt ch f = Inr v" "map_result (convert_filter_to_mc_dsp mt ch) fl = Inr gs'" "gs = v # gs'"
      by (auto split: sum.splits)
    with Cons.IH convert_single [of mt ch f v] obtain w ms where "gs = [w] # map (\<lambda>v. [v]) ms" "not_text w" "\<forall>m \<in> set ms. not_text m" by blast
    then show ?case by (intro exI [of _ "w # ms"]) simp
  qed simp
  with assms obtain ms where "fs = map (\<lambda>v. [v]) (beq_block (ce_title e) ms)" "\<forall>m \<in> set ms. not_text m"
    by (fastforce simp: beq_filters_def rbind_Inr_iff beq_block_def)
  then show ?thesis by (intro exI [of _ ms]) (simp add: comp_def)
qed

text \<open>The configuration of a user with some fragments as its filters, and an entry whose filters can be written\<close>

definition config_with :: "jriver_cfg \<Rightarrow> xml \<Rightarrow> nat list \<Rightarrow> string \<Rightarrow> string list \<Rightarrow> string" where
  "config_with cfg doc path f0 us = with_filters (jc_lib cfg) doc path (filter_section f0 us)"

definition writable_entry :: "jriver_cfg \<Rightarrow> catalogue_entry \<Rightarrow> bool" where
  "writable_entry cfg e \<longleftrightarrow>
     (case beq_filters (jc_texts cfg) (jc_channels cfg) e of
        Inl _ \<Rightarrow> False | Inr fs \<Rightarrow> list_all (writable (jc_lib cfg)) (concat fs))"

definition beq_fragments :: "jriver_cfg \<Rightarrow> catalogue_entry \<Rightarrow> string list" where
  "beq_fragments cfg e = (case beq_filters (jc_texts cfg) (jc_channels cfg) e of Inl _ \<Rightarrow> [] | Inr fs \<Rightarrow> map filts_to_xml fs)"

lemma writable_block:
  assumes "writable_entry cfg e"
  obtains ms where "beq_fragments cfg e = map (\<lambda>v. filts_to_xml [v]) (beq_block (ce_title e) ms)"
    "\<forall>v \<in> set (beq_block (ce_title e) ms). writable (jc_lib cfg) v" "\<forall>m \<in> set ms. not_text m"
proof -
  from assms obtain fs where fs: "beq_filters (jc_texts cfg) (jc_channels cfg) e = Inr fs" "\<forall>v \<in> set (concat fs). writable (jc_lib cfg) v"
    by (auto simp: writable_entry_def list_all_iff split: sum.splits)
  from beq_filters_block [OF fs(1)] obtain ms where "map filts_to_xml fs = map (\<lambda>v. filts_to_xml [v]) (beq_block (ce_title e) ms)"
    "concat fs = beq_block (ce_title e) ms" "\<forall>m \<in> set ms. not_text m" by blast
  with fs that show ?thesis by (simp add: beq_fragments_def)
qed

lemma filts_single: "map (\<lambda>v. filts_to_xml [v]) vs = map filt_to_xml vs"
  by (simp add: filts_to_xml_def)

text \<open>What the user keeps in the configuration, and what is taken of the XML library\<close>

definition user_config :: "jriver_cfg \<Rightarrow> xml \<Rightarrow> nat list \<Rightarrow> string \<Rightarrow> string list \<Rightarrow> bool" where
  "user_config cfg doc path f0 us \<longleftrightarrow>
     one_place (jc_lib cfg) (jc_block cfg) doc path \<and> (\<forall>x. xl_show (jc_lib cfg) x \<noteq> [])
     \<and> closed f0 \<and> (\<forall>f \<in> set us. user_fragment (jc_lib cfg) f)"

lemma user_configD:
  assumes "user_config cfg doc path f0 us"
  shows "one_place (jc_lib cfg) (jc_block cfg) doc path" "\<And>x. xl_show (jc_lib cfg) x \<noteq> []" "closed f0"
    "\<forall>f \<in> set us. user_fragment (jc_lib cfg) f"
  using assms by (simp_all add: user_config_def)

lemma remove_all_user:
  "user_config cfg doc path f0 us \<Longrightarrow> remove_all cfg (Some (config_with cfg doc path f0 us)) = Inr (config_with cfg doc path f0 us)"
  using remove_all_none [OF _ remove_nothing] by (simp add: remove_all_def config_with_def user_config_def)

lemma remove_all_loaded:
  assumes "user_config cfg doc path f0 us" "writable_entry cfg e"
  shows "remove_all cfg (Some (config_with cfg doc path f0 (us @ beq_fragments cfg e))) = Inr (config_with cfg doc path f0 us)"
proof -
  note u = user_configD [OF assms(1)]
  obtain ms where ms: "beq_fragments cfg e = map (\<lambda>v. filts_to_xml [v]) (beq_block (ce_title e) ms)"
    "\<forall>v \<in> set (beq_block (ce_title e) ms). writable (jc_lib cfg) v" "\<forall>m \<in> set ms. not_text m"
    by (rule writable_block [OF assms(2)])
  from remove_all_one [OF u(1,2) remove_inserted [OF u(3,4) ms(2,3)] remove_nothing [OF u(3,4)]]
  show ?thesis by (simp only: remove_all_def config_with_def ms(1) filts_single option.case)
qed

lemma include_beq:
  assumes "user_config cfg doc path f0 us" "writable_entry cfg e"
  shows "include_filters_in_dsp (jc_lib cfg) (jc_block cfg) (config_with cfg doc path f0 us) (beq_fragments cfg e) False
    = Inr (config_with cfg doc path f0 (us @ beq_fragments cfg e))"
proof -
  note u = user_configD [OF assms(1)]
  obtain ms where ms: "beq_fragments cfg e = map (\<lambda>v. filts_to_xml [v]) (beq_block (ce_title e) ms)"
    "\<forall>v \<in> set (beq_block (ce_title e) ms). writable (jc_lib cfg) v" "\<forall>m \<in> set ms. not_text m"
    by (rule writable_block [OF assms(2)])
  have "\<forall>u \<in> set us. closed u" using u(4) by (simp add: user_fragment_def)
  moreover have "\<forall>v \<in> set (beq_block (ce_title e) ms). plain_vals v" using ms(2) by (simp add: writable_def)
  ultimately have inc: "include_section False (map (\<lambda>v. filts_to_xml [v]) (beq_block (ce_title e) ms)) (filter_section f0 us)
      = Inr (filter_section f0 (us @ map (\<lambda>v. filts_to_xml [v]) (beq_block (ce_title e) ms)))"
    unfolding filts_single by (rule include_written [OF u(3), unfolded filts_single])
  have "map (\<lambda>v. filts_to_xml [v]) (beq_block (ce_title e) ms) \<noteq> []" by (simp add: beq_block_def)
  from include_with_filters [OF u(1) this, of "filter_section f0 us" False] show ?thesis
    unfolding config_with_def ms(1) inc by (simp only: rbind_def sum.case)
qed



text \<open>
  A library for the examples: the text of a document is that of its filters after a letter, and the filters
  written below are read back.
\<close>

definition sample_doc :: xml where
  "sample_doc =
     Elem ''DSP'' [] None None [Elem ''Preset'' [] None None [Elem ''Key'' [(''Name'', ''Parametric Equalizer'')] None None
       [Elem ''Data'' [] None None [Elem ''Name'' [] (Some ''Filters'') None [], Elem ''Value'' [] (Some []) None []]]]]"

definition sample_place :: "nat list" where
  "sample_place = [0, 0, 0, 1]"

definition sample_vals :: "(string \<times> string) list list" where
  "sample_vals =
     [[(''Enabled'', ''1''), (''Slope'', ''12''), (''Q'', ''1''), (''Type'', ''3''), (''Gain'', ''2''), (''Frequency'', ''50''),
       (''Channels'', ''5'')],
      make_meta ''T'' True, make_meta ''T'' False, make_meta ''U'' True, make_meta ''U'' False]"

definition sample_lib :: xml_lib where
  "sample_lib =
     \<lparr>xl_parse = (\<lambda>s. case s of
          [] \<Rightarrow> Inl (External ''ParseError'')
        | c # t \<Rightarrow> if c = CHR ''D'' then Inr (set_at sample_place t sample_doc)
            else case map_of (map (\<lambda>v. (filt_body v, xmlph v)) sample_vals) s of
              None \<Rightarrow> Inl (External ''ParseError'') | Some e \<Rightarrow> Inr e),
      xl_show = (\<lambda>x. CHR ''D'' # opt_text (x_text (element_at sample_place x)))\<rparr>"

definition sample_jriver :: jriver_cfg where
  "sample_jriver =
     \<lparr>jc_name = ''j'', jc_channels = ''5'', jc_block = ''Parametric Equalizer'', jc_find = (\<lambda>_. Inr None), jc_lib = sample_lib,
      jc_texts = \<lparr>mt_text = (\<lambda>_. ''1''), mt_g12 = (\<lambda>_. ''1'')\<rparr>, jc_answer = (\<lambda>_ _. Inl (External ''offline''))\<rparr>"

lemma sample_writable: "\<forall>v \<in> set sample_vals. writable sample_lib v"
  by code_simp

lemma sample_one_place: "one_place sample_lib ''Parametric Equalizer'' sample_doc sample_place"
proof -
  have "value_paths ''Parametric Equalizer'' ''Filters'' sample_doc = [sample_place]" by code_simp
  moreover have "valid_path sample_place sample_doc" by code_simp
  from text_at_set [OF this] have "xl_show sample_lib (set_at sample_place s sample_doc) = CHR ''D'' # s" for s
    by (simp add: sample_lib_def opt_text_def)
  then have "xl_parse sample_lib (xl_show sample_lib (set_at sample_place s sample_doc)) = Inr (set_at sample_place s sample_doc)" for s
    by (simp add: sample_lib_def)
  ultimately show ?thesis by (simp add: one_place_def)
qed



text \<open>A title with a parenthesis: what is written is not one fragment, and is not read back as one.\<close>

lemma parenthesis_breaks_fragment: "length (fragments (filt_to_xml (make_meta ''Dune (2021)'' True))) = 2"
  by code_simp

text \<open>A load that fails when the filters are sent raises another error and leaves the title as it was.\<close>

lemma failed_load_unreported:
  assumes "server (set_dsp cfg zone new) d = (Inl x, d')"
  shows "try_except (and_then (server (set_dsp cfg zone new)) (\<lambda>_. on_current (zone_set_title slot t False a))) (\<lambda>_. raise AttributeError) d
    = (Inl AttributeError, d') \<and> current d' = current d"
  using assms by (auto simp: try_except_def and_then_def server_def zoom_def raise_def split: prod.splits)

end
