(* ===== verification/Catalogue_Schema.thy ===== *)
theory Catalogue_Schema
  imports Catalogue_Rows
begin

text \<open>
  The tables of the database, \<^verbatim>\<open>Catalogues.__ensure_db\<close> in \<^verbatim>\<open>ezbeq/catalogue.py\<close>, which every start runs: tables and indexes are
  created if they are missing, and the columns that came later are added to a table from an earlier version. Lemmas: running it
  again changes nothing, and afterwards every column that is read or written is there.
\<close>

datatype sql_type = TextColumn | IntColumn | FloatColumn

type_synonym table = "(string \<times> sql_type) list"

definition entry_columns :: table where
  "entry_columns =
     map (\<lambda>n. (n, TextColumn)) [''id'', ''title''] @ [(''year'', IntColumn)]
     @ map (\<lambda>n. (n, TextColumn))
         [''audioTypes'', ''content_type'', ''author'', ''catalogue_url'', ''filters'', ''images'', ''warning'', ''season'', ''episode'',
          ''avs'', ''sortTitle'', ''edition'', ''note'', ''language'', ''source'', ''overview'', ''theMovieDB'', ''rating'', ''genres'',
          ''altTitle'']
     @ [(''created_at'', IntColumn), (''updated_at'', IntColumn), (''digest'', TextColumn), (''collection_id'', TextColumn),
        (''collection'', TextColumn), (''formattedTitle'', TextColumn), (''runtime'', IntColumn), (''mv'', FloatColumn),
        (''version'', TextColumn), (''loaded_at'', IntColumn)]"

definition meta_columns :: table where
  "meta_columns = [(''meta_type'', TextColumn), (''value'', TextColumn), (''version'', TextColumn)]"

record schema =
  sc_tables :: "(string, table) pydict"
  sc_indexes :: "string list"

text \<open>\<^verbatim>\<open>CREATE TABLE IF NOT EXISTS\<close> and \<^verbatim>\<open>CREATE INDEX IF NOT EXISTS\<close>\<close>

definition create_table :: "string \<Rightarrow> table \<Rightarrow> schema \<Rightarrow> schema" where
  "create_table name cols s =
     (case map_of (sc_tables s) name of None \<Rightarrow> s\<lparr>sc_tables := sc_tables s @ [(name, cols)]\<rparr> | Some _ \<Rightarrow> s)"

definition create_index :: "string \<Rightarrow> schema \<Rightarrow> schema" where
  "create_index name s = (if name \<in> set (sc_indexes s) then s else s\<lparr>sc_indexes := sc_indexes s @ [name]\<rparr>)"

text \<open>\<^verbatim>\<open>ALTER TABLE\<close>, whose failure on a column that is there already is ignored\<close>

definition add_column :: "string \<Rightarrow> schema \<Rightarrow> schema" where
  "add_column column s =
     (case map_of (sc_tables s) ''catalogue_entry'' of
        None \<Rightarrow> s
      | Some cols \<Rightarrow>
          if column \<in> set (map fst cols) then s
          else s\<lparr>sc_tables := dict_set (sc_tables s) ''catalogue_entry'' (cols @ [(column, TextColumn)])\<rparr>)"

definition ensure_db :: "schema \<Rightarrow> schema" where
  "ensure_db s =
     create_index ''meta_key'' (create_table ''catalogue_meta'' meta_columns
       (create_index ''entry_version'' (create_index ''entry_digest''
         (add_column ''audioChannelCounts'' (add_column ''audioCodecs''
           (create_table ''catalogue_entry'' entry_columns s))))))"

section \<open>Properties\<close>

text \<open>The columns of a table, none if it is missing\<close>

definition table_columns :: "string \<Rightarrow> schema \<Rightarrow> string list option" where
  "table_columns name s = map_option (map fst) (map_of (sc_tables s) name)"

lemma columns_create_table:
  "table_columns n (create_table name cols s) =
     (if n = name \<and> table_columns name s = None then Some (map fst cols) else table_columns n s)"
  by (auto simp: table_columns_def create_table_def map_add_def split: option.split)

lemma columns_add_column:
  "table_columns n (add_column column s) =
     (case table_columns ''catalogue_entry'' s of
        Some cols \<Rightarrow> if n = ''catalogue_entry'' \<and> column \<notin> set cols then Some (cols @ [column]) else table_columns n s
      | None \<Rightarrow> table_columns n s)"
  by (auto simp: table_columns_def add_column_def split: option.split)

lemma columns_create_index [simp]: "table_columns n (create_index i s) = table_columns n s"
  by (simp add: table_columns_def create_index_def)

text \<open>A table of an earlier version, which has the columns of the \<^verbatim>\<open>CREATE TABLE\<close>, or none at all\<close>

definition old_table :: "schema \<Rightarrow> bool" where
  "old_table s \<longleftrightarrow> (case table_columns ''catalogue_entry'' s of None \<Rightarrow> True | Some cols \<Rightarrow> set (map fst entry_columns) \<subseteq> set cols)"

lemma ensure_db_columns:
  assumes "old_table s"
  shows "\<exists>cols. table_columns ''catalogue_entry'' (ensure_db s) = Some cols \<and> set FIELDS \<union> {''version'', ''loaded_at''} \<subseteq> set cols"
proof -
  have fields: "set FIELDS \<union> {''version'', ''loaded_at''} = insert ''audioCodecs'' (insert ''audioChannelCounts'' (set (map fst entry_columns)))"
    unfolding FIELDS_def entry_columns_def by (simp add: insert_commute)
  let ?base = "case table_columns ''catalogue_entry'' s of None \<Rightarrow> map fst entry_columns | Some cols \<Rightarrow> cols"
  have base: "set (map fst entry_columns) \<subseteq> set ?base"
    using assms by (cases "table_columns ''catalogue_entry'' s") (simp_all add: old_table_def)
  have created: "table_columns ''catalogue_entry'' (create_table ''catalogue_entry'' entry_columns s) = Some ?base"
    by (simp add: columns_create_table split: option.split)
  show ?thesis
    using base unfolding fields ensure_db_def columns_create_index columns_create_table
    by (auto simp: columns_add_column created)
qed

text \<open>A second start finds everything there and changes nothing.\<close>

definition complete_schema :: "schema \<Rightarrow> bool" where
  "complete_schema s \<longleftrightarrow>
     (\<exists>cols. table_columns ''catalogue_entry'' s = Some cols \<and> {''audioCodecs'', ''audioChannelCounts''} \<subseteq> set cols)
     \<and> table_columns ''catalogue_meta'' s \<noteq> None \<and> {''entry_digest'', ''entry_version'', ''meta_key''} \<subseteq> set (sc_indexes s)"

lemma indexes_simps [simp]:
  "sc_indexes (create_table n cols s) = sc_indexes s" "sc_indexes (add_column c s) = sc_indexes s"
  "set (sc_indexes (create_index i s)) = insert i (set (sc_indexes s))"
  by (auto simp: create_table_def add_column_def create_index_def split: option.split)

lemma ensure_db_complete: "complete_schema (ensure_db s)"
proof -
  have "\<exists>cols. table_columns ''catalogue_entry'' (create_table ''catalogue_entry'' entry_columns s) = Some cols"
    by (cases "table_columns ''catalogue_entry'' s") (simp_all add: columns_create_table)
  then show ?thesis
    by (auto simp: complete_schema_def ensure_db_def columns_create_table columns_add_column)
qed

lemma complete_unchanged:
  assumes "complete_schema s"
  shows "ensure_db s = s"
proof -
  from assms obtain cols where e: "map_of (sc_tables s) ''catalogue_entry'' = Some cols"
      "''audioCodecs'' \<in> set (map fst cols)" "''audioChannelCounts'' \<in> set (map fst cols)"
    by (auto simp: complete_schema_def table_columns_def)
  from assms obtain ms where m: "map_of (sc_tables s) ''catalogue_meta'' = Some ms"
    by (auto simp: complete_schema_def table_columns_def)
  have "create_table ''catalogue_entry'' entry_columns s = s" "add_column ''audioCodecs'' s = s" "add_column ''audioChannelCounts'' s = s"
    "create_table ''catalogue_meta'' meta_columns s = s"
    using e m by (simp_all add: create_table_def add_column_def)
  moreover have "create_index i s = s" if "i \<in> {''entry_digest'', ''entry_version'', ''meta_key''}" for i
    using assms that by (auto simp: complete_schema_def create_index_def)
  ultimately show ?thesis by (simp add: ensure_db_def)
qed

lemma ensure_db_idempotent: "ensure_db (ensure_db s) = ensure_db s"
  by (rule complete_unchanged [OF ensure_db_complete])

end
