(* ===== verification/Query_Api.thy ===== *)
theory Query_Api
  imports Catalogue_Life "HOL-Library.List_Lexorder" "HOL-Library.Char_ord"
begin

text \<open>
  The queries of the catalogue over HTTP: \<^verbatim>\<open>CatalogueProvider\<close> and the load tester of \<^verbatim>\<open>ezbeq/catalogue.py\<close> and the
  resources in \<^verbatim>\<open>ezbeq/apis\<close> that use them. Every query of the provider also has \<open>refresh_if_stale\<close> run
  after it, which is a step of \<^theory_text>\<open>Catalogue_Life\<close>. Lemmas: what the resources answer while no catalogue is
  loaded, the bound of a search, and that the two resources for an entry agree.
\<close>

section \<open>Meta values\<close>

definition load_meta_if_present :: "catalogues \<Rightarrow> string \<Rightarrow> exn + string list" where
  "load_meta_if_present c t =
     (case latest c of
        None \<Rightarrow> Inl AttributeError
      | Some cat \<Rightarrow> (case map_of (cat_meta cat) t of None \<Rightarrow> Inl (KeyError t) | Some vs \<Rightarrow> Inr vs))"

definition provider_authors :: "catalogues \<Rightarrow> exn + string list" where
  "provider_authors c = load_meta_if_present c ''author''"

definition provider_audio_types :: "catalogues \<Rightarrow> exn + string list" where
  "provider_audio_types c = load_meta_if_present c ''audioTypes''"

definition provider_content_types :: "catalogues \<Rightarrow> exn + string list" where
  "provider_content_types c = load_meta_if_present c ''content_type''"

definition provider_languages :: "catalogues \<Rightarrow> exn + string list" where
  "provider_languages c = load_meta_if_present c ''language''"

definition provider_years :: "catalogues \<Rightarrow> exn + string list" where
  "provider_years c = load_meta_if_present c ''year''"

text \<open>\<^verbatim>\<open>sorted({c for c in ...})\<close>\<close>

definition sorted_set :: "('a::linorder) list \<Rightarrow> 'a list" where
  "sorted_set xs = sort (unique xs)"

definition authors_api :: "catalogues \<Rightarrow> exn + string list" where
  "authors_api c = rbind (provider_authors c) (\<lambda>vs. Inr (sorted_set vs))"

definition audio_types_api :: "catalogues \<Rightarrow> exn + string list" where
  "audio_types_api c = rbind (provider_audio_types c) (\<lambda>vs. Inr (sorted_set vs))"

definition content_types_api :: "catalogues \<Rightarrow> exn + string list" where
  "content_types_api c = rbind (provider_content_types c) (\<lambda>vs. Inr (sorted_set vs))"

definition languages_api :: "catalogues \<Rightarrow> exn + string list" where
  "languages_api c = rbind (provider_languages c) (\<lambda>vs. Inr (sorted_set vs))"

definition year_of :: "string \<Rightarrow> exn + int" where
  "year_of s = (case py_int s of None \<Rightarrow> Inl (ValueError ''invalid literal for int()'') | Some i \<Rightarrow> Inr i)"

definition years_api :: "catalogues \<Rightarrow> exn + int list" where
  "years_api c = rbind (provider_years c) (\<lambda>vs. rbind (map_result year_of vs) (\<lambda>ys. Inr (rev (sorted_set ys))))"

text \<open>\<^verbatim>\<open>CatalogueMeta.get\<close>: the version, the time of loading in seconds and the count\<close>

definition meta_api :: "catalogues \<Rightarrow> string \<times> int option \<times> nat" where
  "meta_api c =
     (case latest c of
        Some cat \<Rightarrow> (cat_version cat, Some (cat_loaded_at cat div 1000), cat_count cat)
      | None \<Rightarrow> (''N/A'', None, 0))"

section \<open>Search and news\<close>

text \<open>The arguments the request parser knows; an argument that is not given is \<open>None\<close>.\<close>

record search_args =
  sa_authors :: "string list option"
  sa_years :: "int list option"
  sa_audio_types :: "string list option"
  sa_content_types :: "string list option"
  sa_fields :: "string list option"
  sa_text :: "string option"
  sa_tmdb_id :: "string option"
  sa_audio_codecs :: "string list option"
  sa_audio_channel_counts :: "string list option"

definition given :: "'a list option \<Rightarrow> 'a list" where
  "given x = (case x of None \<Rightarrow> [] | Some v \<Rightarrow> v)"

definition query_of :: "search_args \<Rightarrow> search_query" where
  "query_of a =
     \<lparr>q_authors = given (sa_authors a), q_years = given (sa_years a), q_audio_types = given (sa_audio_types a),
      q_content_types = given (sa_content_types a), q_tmdb_id = given (sa_tmdb_id a), q_text = given (sa_text a),
      q_audio_codecs = given (sa_audio_codecs a), q_audio_channel_counts = given (sa_audio_channel_counts a)\<rparr>"

text \<open>
  The limit of a search as the resource reads it: \<open>None\<close> for all, an error for the answer 400. The parser has no
  argument \<^verbatim>\<open>limit\<close>, so what it reads is always \<open>None\<close>.
\<close>

definition search_limit :: "string option \<Rightarrow> exn + int option" where
  "search_limit l =
     (case l of
        None \<Rightarrow> Inr (Some 100)
      | Some t \<Rightarrow>
          if t = ''all'' then Inr None
          else if t = [] then Inr (Some 100)
          else (case py_int t of None \<Rightarrow> Inl (InvalidRequestError (''Invalid limit '' @ t)) | Some i \<Rightarrow> Inr (Some i)))"

definition page_size :: "int option \<Rightarrow> nat" where
  "page_size l = (case l of None \<Rightarrow> 0 | Some i \<Rightarrow> nat i)"

definition latest_version :: "catalogues \<Rightarrow> string option" where
  "latest_version c = map_option cat_version (latest c)"

definition provider_search ::
  "rat \<Rightarrow> catalogues \<Rightarrow> search_query \<Rightarrow> string list \<Rightarrow> nat \<Rightarrow> exn + (string, fetched) pydict list" where
  "provider_search now c q names limit = search now (latest_version c) (db_rows (c_db c)) q names limit"

definition search_api :: "rat \<Rightarrow> catalogues \<Rightarrow> search_args \<Rightarrow> exn + (string, fetched) pydict list" where
  "search_api now c a =
     rbind (search_limit None) (\<lambda>limit. provider_search now c (query_of a) (given (sa_fields a)) (page_size limit))"

definition provider_whats_new :: "rat \<Rightarrow> catalogues \<Rightarrow> int \<Rightarrow> nat \<Rightarrow> exn + (string, fetched) pydict list" where
  "provider_whats_new now c since limit = whats_new now (latest_version c) (db_rows (c_db c)) (of_int since) limit"

text \<open>\<^verbatim>\<open>WhatsNew.get\<close>: by default the last two weeks, and fifty entries\<close>

definition whats_new_api :: "rat \<Rightarrow> catalogues \<Rightarrow> int option \<Rightarrow> nat option \<Rightarrow> exn + (string, fetched) pydict list" where
  "whats_new_api now c since limit =
     provider_whats_new now c (case since of None \<Rightarrow> trunc (now - TWO_WEEKS_AGO_SECONDS) | Some s \<Rightarrow> s)
       (case limit of None \<Rightarrow> 50 | Some l \<Rightarrow> l)"

section \<open>One entry\<close>

text \<open>\<^verbatim>\<open>find(entry_id, match_on_idx=False, as_dict=True)\<close>: the fetched dictionary itself\<close>

definition find_dict :: "rat \<Rightarrow> catalogues \<Rightarrow> string \<Rightarrow> exn + (string, fetched) pydict option" where
  "find_dict now c digest =
     (if \<not> loaded c then Inr None
      else rbind (fetch_entries now (db_rows (c_db c)) (\<lambda>r. column_of r ''digest'' = ColText digest) FIELDS 1 0) (\<lambda>rs.
        case rs of [] \<Rightarrow> Inr None | d # _ \<Rightarrow> Inr (Some d)))"

text \<open>An answer of a resource: its data and its status\<close>

definition entry_details :: "rat \<Rightarrow> catalogues \<Rightarrow> string \<Rightarrow> exn + (string, fetched) pydict option \<times> nat" where
  "entry_details now c digest =
     rbind (find_dict now c digest) (\<lambda>e. Inr (case e of None \<Rightarrow> (None, 404) | Some d \<Rightarrow> (Some d, 200)))"

record filter_answer =
  fa_digest :: string
  fa_title :: string
  fa_year :: int
  fa_filters :: "beq_filter list"
  fa_movie_db :: string

definition without_biquads :: "beq_filter \<Rightarrow> beq_filter" where
  "without_biquads f = f\<lparr>f_biquads := None\<rparr>"

definition entry_filters :: "rat \<Rightarrow> catalogues \<Rightarrow> string \<Rightarrow> exn + filter_answer option \<times> nat" where
  "entry_filters now c digest =
     rbind (provider_find now (loaded c) (db_rows (c_db c)) digest (Some False)) (\<lambda>e.
       Inr (case e of
         None \<Rightarrow> (None, 404)
       | Some e \<Rightarrow>
           (Some \<lparr>fa_digest = ce_digest e, fa_title = ce_formatted_title e, fa_year = ce_year e,
                  fa_filters = map without_biquads (ce_filters e),
                  fa_movie_db = dict_get (ce_other_texts e) ''theMovieDB'' []\<rparr>, 200)))"

section \<open>The load tester\<close>

text \<open>
  \<^verbatim>\<open>LoadTester.run\<close>; \<open>clock n\<close> is the \<open>n\<close>th reading of the clock and \<open>round3\<close> the rounding to three digits.
\<close>

definition load_chunk_sizes :: "nat list" where
  "load_chunk_sizes = [25, 50, 100, 200, 400, 800, 1600, 3200, 6400]"

record load_result =
  lr_chunk :: nat
  lr_avg :: rat
  lr_max :: rat
  lr_min :: rat
  lr_runs :: "(nat \<times> rat) list"

definition load_once :: "(nat \<Rightarrow> rat) \<Rightarrow> (rat \<Rightarrow> rat) \<Rightarrow> db_row list \<Rightarrow> nat \<Rightarrow> nat \<Rightarrow> nat \<times> rat" where
  "load_once clock round3 rows limit n = (length (take limit rows), round3 ((clock (2 * n + 1) - clock (2 * n)) * 1000))"

text \<open>Five loads to warm up, then ten that are measured, for each size in turn\<close>

definition load_size :: "(nat \<Rightarrow> rat) \<Rightarrow> (rat \<Rightarrow> rat) \<Rightarrow> db_row list \<Rightarrow> nat \<times> nat \<Rightarrow> load_result" where
  "load_size clock round3 rows ic =
     (let runs = map (\<lambda>j. load_once clock round3 rows (snd ic) (15 * fst ic + 5 + j)) [0..<10]; ts = map snd runs
      in \<lparr>lr_chunk = snd ic, lr_avg = sum_list ts / 10, lr_max = Max (set ts), lr_min = Min (set ts), lr_runs = runs\<rparr>)"

text \<open>The scaling from each size to the next is only logged, but it divides by the average before.\<close>

fun scaling_ok :: "rat list \<Rightarrow> bool" where
  "scaling_ok (t1 # t2 # ts) \<longleftrightarrow> t1 \<noteq> 0 \<and> scaling_ok (t2 # ts)"
| "scaling_ok _ \<longleftrightarrow> True"

record load_report =
  lt_total_count :: nat
  lt_version :: string
  lt_version_count :: nat
  lt_results :: "load_result list"

definition load_test :: "(nat \<Rightarrow> rat) \<Rightarrow> (rat \<Rightarrow> rat) \<Rightarrow> db_row list \<Rightarrow> exn + load_report" where
  "load_test clock round3 rows =
     (case rev (stored_catalogues rows) of
        [] \<Rightarrow> Inl (ValueError ''No catalogues available for testing'')
      | cat # cats \<Rightarrow>
          (let results = map (load_size clock round3 (rows_of (cat_version cat) rows))
               (zip [0..<length load_chunk_sizes] load_chunk_sizes)
           in if scaling_ok (map lr_avg results) then
                Inr \<lparr>lt_total_count = sum_list (map cat_count (cat # cats)), lt_version = cat_version cat,
                     lt_version_count = cat_count cat, lt_results = results\<rparr>
              else Inl ZeroDivisionError))"

section \<open>Properties\<close>

lemma meta_lists_need_catalogue:
  assumes "latest c = None"
  shows "authors_api c = Inl AttributeError" "years_api c = Inl AttributeError" "audio_types_api c = Inl AttributeError"
    "content_types_api c = Inl AttributeError" "languages_api c = Inl AttributeError" "meta_api c = (''N/A'', None, 0)"
    "search_api now c a = Inr []" "whats_new_api now c since limit = Inr []"
  using assms
  by (simp_all add: authors_api_def years_api_def audio_types_api_def content_types_api_def languages_api_def
      provider_authors_def provider_years_def provider_audio_types_def provider_content_types_def provider_languages_def
      load_meta_if_present_def meta_api_def rbind_def search_api_def search_limit_def provider_search_def search_def
      latest_version_def whats_new_api_def provider_whats_new_def whats_new_def)

lemma distinct_unique: "distinct (unique xs)"
proof -
  have "distinct ys \<Longrightarrow> distinct (foldl add_to ys xs)" for ys
    by (induction xs arbitrary: ys) (auto simp: add_to_def)
  then show ?thesis by (simp add: unique_def)
qed

lemma sorted_set_props: "sorted (sorted_set xs) \<and> distinct (sorted_set xs) \<and> set (sorted_set xs) = set xs"
  by (simp add: sorted_set_def set_unique distinct_unique)

text \<open>A search returns at most a hundred entries, each of the latest version and asked for by the query.\<close>

lemma search_api_bound:
  assumes "search_api now c a = Inr rs"
  shows "length rs \<le> 100"
    and "\<exists>rows. rs = map (fetch_row now (if given (sa_fields a) = [] then FIELDS else given (sa_fields a))) rows
      \<and> set rows \<subseteq> set (db_rows (c_db c)) \<and> (\<forall>r \<in> set rows. \<exists>v. latest_version c = Some v \<and> search_clause v (query_of a) r)"
proof -
  obtain rows where "rs = map (fetch_row now (if given (sa_fields a) = [] then FIELDS else given (sa_fields a))) rows
      \<and> set rows \<subseteq> set (db_rows (c_db c)) \<and> length rows \<le> 100
      \<and> (\<forall>r \<in> set rows. \<exists>v. latest_version c = Some v \<and> search_clause v (query_of a) r)"
  proof (cases "latest_version c")
    case None
    with assms that [of "[]"] show ?thesis by (simp add: search_api_def search_limit_def rbind_def provider_search_def search_def)
  next
    case (Some v)
    let ?rows = "take 100 (filter (search_clause v (query_of a)) (db_rows (c_db c)))"
    have "rs = map (fetch_row now (if given (sa_fields a) = [] then FIELDS else given (sa_fields a))) ?rows"
      using assms Some
      by (auto simp: search_api_def search_limit_def rbind_def provider_search_def search_def fetch_entries_def page_def page_size_def
          split: if_splits)
    moreover have "set ?rows \<subseteq> set (db_rows (c_db c))" by (auto dest: in_set_takeD)
    moreover have "\<forall>r \<in> set ?rows. search_clause v (query_of a) r" by (auto dest: in_set_takeD)
    moreover have "length ?rows \<le> 100" by simp
    ultimately show ?thesis using Some by (intro that [of ?rows]) blast
  qed
  then show "length rs \<le> 100"
    and "\<exists>rows. rs = map (fetch_row now (if given (sa_fields a) = [] then FIELDS else given (sa_fields a))) rows
      \<and> set rows \<subseteq> set (db_rows (c_db c)) \<and> (\<forall>r \<in> set rows. \<exists>v. latest_version c = Some v \<and> search_clause v (query_of a) r)"
    by auto
qed

text \<open>The two resources of an entry agree on whether it is there.\<close>

lemma entry_resources_agree:
  shows "entry_details now c digest = Inr (None, 404) \<longleftrightarrow> entry_filters now c digest = Inr (None, 404)"
    and "entry_filters now c digest = Inr (Some a, 200) \<Longrightarrow> \<exists>d. entry_details now c digest = Inr (Some d, 200)"
  by (auto simp: entry_details_def entry_filters_def find_dict_def provider_find_def find_by_digest_def find_by_def rbind_Inr_iff rbind_def
      split: sum.splits list.splits option.splits fetched.splits if_splits)

end
