(* ===== verification/Diagnostics.thy ===== *)
theory Diagnostics
  imports Json
begin

text \<open>
  \<^verbatim>\<open>ezbeq/apis/diagnostics.py\<close>: the report of the memory that is in use. The statistics \<^verbatim>\<open>tracemalloc\<close> gives are
  inputs, in the order it sorts them; \<open>round3\<close> rounds to three digits. Lemmas: the report lists at most the limit, and what it
  lists and what remains is everything.
\<close>

text \<open>
  A statistic: its size and count, the file, the line number and the text of that line of the first frame, and its formatted
  traceback
\<close>

record statistic =
  sk_size :: nat
  sk_count :: nat
  sk_filename :: string
  sk_lineno :: nat
  sk_line :: string
  sk_traceback :: "string list"

definition megabytes :: "(rat \<Rightarrow> rat) \<Rightarrow> nat \<Rightarrow> rat" where
  "megabytes round3 n = round3 (of_nat n / 1024 / 1024)"

record big_block =
  bb_count :: nat
  bb_size :: rat
  bb_lines :: "string list"

text \<open>The blocks of more than half a megabyte\<close>

definition big_blocks :: "(rat \<Rightarrow> rat) \<Rightarrow> statistic list \<Rightarrow> big_block list" where
  "big_blocks round3 stats =
     map (\<lambda>s. \<lparr>bb_count = sk_count s, bb_size = megabytes round3 (sk_size s), bb_lines = sk_traceback s\<rparr>)
       (filter (\<lambda>s. 1024 * 512 < sk_size s) stats)"

record top_line =
  tp_filename :: string
  tp_lineno :: nat
  tp_size :: rat
  tp_line :: string

record top_report =
  tr_bytes :: rat
  tr_tops :: "top_line list"
  tr_remainder :: "(nat \<times> rat) option"

text \<open>\<open>is_blank\<close> from both ends is \<^verbatim>\<open>strip\<close>. The remainder is left out when there is none.\<close>

definition top_stats :: "(rat \<Rightarrow> rat) \<Rightarrow> nat \<Rightarrow> statistic list \<Rightarrow> top_report" where
  "top_stats round3 limit stats =
     (let others = drop limit stats in
      \<lparr>tr_bytes = megabytes round3 (sum_list (map sk_size stats)),
       tr_tops = map (\<lambda>s. \<lparr>tp_filename = sk_filename s, tp_lineno = sk_lineno s, tp_size = megabytes round3 (sk_size s),
           tp_line = strip (sk_line s)\<rparr>) (take limit stats),
       tr_remainder = (if others = [] then None
         else Some (length others, megabytes round3 (sum_list (map sk_size others))))\<rparr>)"

record diagnostics_report =
  dg_current :: rat
  dg_peak :: rat
  dg_top :: top_report
  dg_traceback :: "big_block list"

definition diagnostics_api ::
  "(rat \<Rightarrow> rat) \<Rightarrow> nat \<times> nat \<Rightarrow> statistic list \<Rightarrow> statistic list \<Rightarrow> diagnostics_report" where
  "diagnostics_api round3 traced by_line by_traceback =
     \<lparr>dg_current = megabytes round3 (fst traced), dg_peak = megabytes round3 (snd traced),
      dg_top = top_stats round3 10 by_line, dg_traceback = big_blocks round3 by_traceback\<rparr>"

text \<open>Nothing is lost between the lines shown and the remainder.\<close>

lemma top_stats_complete:
  "length (tr_tops (top_stats round3 limit stats)) \<le> limit
   \<and> length (tr_tops (top_stats round3 limit stats))
     + (case tr_remainder (top_stats round3 limit stats) of None \<Rightarrow> 0 | Some r \<Rightarrow> fst r) = length stats"
  by (auto simp: top_stats_def Let_def)

end
