(* ===== verification/Web_Server.thy ===== *)
theory Web_Server
  imports Server_Config
begin

text \<open>
  The server of \<^verbatim>\<open>ezbeq/main.py\<close>: the namespaces of the API, the lines logged for the configured devices, the routing
  of requests, the choice of a compressed file and the access log. Lemmas: where every path goes, that a
  compressed file is served only to a client that names its encoding and only if it is there, that an encoding refused with
  a weight of zero is served all the same, and that a failing access log never makes a request fail.
\<close>

section \<open>The API\<close>

definition namespaces :: "bool \<Rightarrow> string list" where
  "namespaces tracing =
     [''devices.device_api'', ''devices.v1_api'', ''devices.v2_api'', ''devices.v3_api'', ''search.api'', ''version.api'',
      ''authors.api'', ''audiotypes.api'', ''load.api'', ''years.api'', ''contenttypes.api'', ''languages.api'', ''meta.api'',
      ''cat_api.api'', ''whatsnew.api''] @ (if tracing then [''diagnostics.api''] else [])"

section \<open>The summary at start up\<close>

text \<open>\<open>str\<close> is the text of a configured value.\<close>

definition device_line :: "(json \<Rightarrow> string) \<Rightarrow> string \<times> json \<Rightarrow> exn + string" where
  "device_line str nd =
     (let name = fst nd; dev = snd nd in
      rbind (jget_or dev ''type'' (JStr ''?'')) (\<lambda>t.
        if t = JStr ''minidsp'' then
          rbind (jget_or dev ''exe'' (JStr ''minidsp'')) (\<lambda>exe.
          rbind (jget_or dev ''options'' (JStr [])) (\<lambda>opts.
            Inr (''  device ['' @ name @ '']  type=minidsp  ''
              @ (if exe = JStr ''stub'' then ''STUB (no hardware)''
                 else ''exe='' @ str exe @ (if truthy opts then ''  options='' @ str opts else [])))))
        else if t = JStr ''camilladsp'' then
          rbind (jget_or dev ''ip'' JNull) (\<lambda>ip.
          rbind (jget_or dev ''port'' JNull) (\<lambda>prt.
            Inr (''  device ['' @ name @ '']  type=camilladsp  ip='' @ str ip @ '':'' @ str prt)))
        else Inr (''  device ['' @ name @ '']  type='' @ str t)))"

definition git_text :: "(json \<Rightarrow> string) \<Rightarrow> string option \<Rightarrow> string option \<Rightarrow> string" where
  "git_text str branch sha =
     (let shown = \<lambda>x. str (case x of None \<Rightarrow> JNull | Some s \<Rightarrow> JStr s); some = \<lambda>x. x \<noteq> None \<and> x \<noteq> Some [] in
      if some branch \<or> some sha then ''  git: '' @ shown branch @ ''@'' @ shown sha else [])"

text \<open>The lines of the summary; a configuration that cannot be read ends the start.\<close>

definition startup_summary ::
  "(json \<Rightarrow> string) \<Rightarrow> json \<Rightarrow> string \<Rightarrow> string option \<Rightarrow> string option \<Rightarrow> config \<Rightarrow> exn + string list" where
  "startup_summary str default_port cfg_path branch sha cfg =
     rbind (jget_or (JObj (as_dict cfg)) ''devices'' (JObj [])) (\<lambda>ds.
     rbind (case ds of JObj o' \<Rightarrow> Inr o' | _ \<Rightarrow> Inl AttributeError) (\<lambda>devs.
     rbind (map_result (device_line str) devs) (\<lambda>dev_lines.
       (let bar = replicate 60 (CHR ''='') in
        Inr ([bar,
          ''  ezbeq  |  http://localhost:'' @ str (port default_port cfg) @ ''  |  config: '' @ cfg_path @ git_text str branch sha,
          ''  logging: debug='' @ str (is_debug_logging cfg) @ ''  access='' @ str (is_access_logging cfg)]
          @ dev_lines @ [bar])))))"

section \<open>Compressed files\<close>

text \<open>A file to serve: where it is, the file its type is taken from, and its encoding\<close>

record static_file =
  wf_path :: string
  wf_type_from :: string
  wf_encoding :: "string option"

definition plain_file :: "string \<Rightarrow> static_file" where
  "plain_file p = \<lparr>wf_path = p, wf_type_from = p, wf_encoding = None\<rparr>"

text \<open>\<^verbatim>\<open>os.path.basename(os.path.dirname(path))\<close>\<close>

definition parent_name :: "string \<Rightarrow> string" where
  "parent_name p = (case rev (split_on (CHR ''/'') p) of _ # d # _ \<Rightarrow> d | _ \<Rightarrow> [])"

definition set_header :: "string \<Rightarrow> string \<Rightarrow> (string, string) pydict \<Rightarrow> (string, string) pydict" where
  "set_header k v h = dict_set h k v"

definition encodings :: "(string \<times> string) list" where
  "encodings = [(''br'', ''.br''), (''gzip'', ''.gz'')]"

fun first_encoding :: "(string \<Rightarrow> bool) \<Rightarrow> string \<Rightarrow> string \<Rightarrow> (string \<times> string) list \<Rightarrow> (string \<times> string) option" where
  "first_encoding is_file accept p [] = None"
| "first_encoding is_file accept p ((token, ext) # es) =
     (if is_substring token accept \<and> is_file (p @ ext) then Some (token, ext) else first_encoding is_file accept p es)"

definition use_precompressed ::
  "(string \<Rightarrow> bool) \<Rightarrow> string option \<Rightarrow> static_file \<Rightarrow> (string, string) pydict \<Rightarrow> static_file \<times> (string, string) pydict" where
  "use_precompressed is_file accept f h =
     (if \<not> is_file (wf_path f) then (f, h)
      else
        (let h1 = set_header ''vary'' ''Accept-Encoding'' h;
             h2 = set_header ''cache-control''
               (if parent_name (wf_path f) = ''assets'' then ''public, max-age=31536000, immutable'' else ''no-cache'') h1;
             a = lower (case accept of None \<Rightarrow> [] | Some s \<Rightarrow> s)
         in case first_encoding is_file a (wf_path f) encodings of
              Some (token, ext) \<Rightarrow> (\<lparr>wf_path = wf_path f @ ext, wf_type_from = wf_path f, wf_encoding = Some token\<rparr>, h2)
            | None \<Rightarrow> (f, h2)))"

section \<open>Routing\<close>

text \<open>
  The site: the directory of the UI with its public files when it has been built, and the file system. What is
  served is a resource; \<open>Wsgi\<close> is the API.
\<close>

record site =
  si_ui :: "(string \<times> string list) option"
  si_metrics :: bool
  si_is_file :: "string \<Rightarrow> bool"

datatype resource = WebSocket | Wsgi | StaticDir string | Metrics | Served static_file | Placeholder | NotFound

text \<open>A request on its way: the path taken so far and the path left, what the client accepts and the headers to send\<close>

record web_request =
  wr_prepath :: "string list"
  wr_postpath :: "string list"
  wr_accept :: "string option"
  wr_headers :: "(string, string) pydict"

definition ui_root :: "string option \<Rightarrow> string option \<Rightarrow> string \<Rightarrow> string" where
  "ui_root bundle webapp package =
     (case bundle of Some b \<Rightarrow> b @ ''/ui'' | None \<Rightarrow> (case webapp of Some w \<Rightarrow> w | None \<Rightarrow> package @ ''/ui''))"

definition cors_headers :: "(string, string) pydict \<Rightarrow> (string, string) pydict" where
  "cors_headers h =
     set_header ''Access-Control-Max-Age'' ''2520''
       (set_header ''Access-Control-Allow-Headers'' ''x-prototype-version,x-requested-with''
         (set_header ''Access-Control-Allow-Methods'' ''GET, PUT'' (set_header ''Access-Control-Allow-Origin'' ''*'' h)))"

text \<open>\<^verbatim>\<open>ReactApp.get_file\<close>: a public file, or the index for everything else\<close>

definition get_file :: "site \<Rightarrow> string \<times> string list \<Rightarrow> string \<Rightarrow> web_request \<Rightarrow> resource \<times> web_request" where
  "get_file s ui p rq =
     (let (dir, public) = ui;
          f = plain_file (dir @ ''/'' @ (if p \<in> set public then p else ''index.html''));
          (served, h) = use_precompressed (si_is_file s) (wr_accept rq) f (wr_headers rq)
      in (Served served, rq\<lparr>wr_headers := h\<rparr>))"

definition get_child :: "site \<Rightarrow> string \<Rightarrow> web_request \<Rightarrow> resource \<times> web_request" where
  "get_child s p rq0 =
     (let rq = rq0\<lparr>wr_headers := cors_headers (wr_headers rq0)\<rparr> in
      if p = ''ws'' then (WebSocket, rq)
      else if p = ''api'' \<or> p = ''doc'' \<or> p = ''swaggerui'' then
        (Wsgi, rq\<lparr>wr_prepath := butlast (wr_prepath rq), wr_postpath := p # wr_postpath rq\<rparr>)
      else if p = ''static'' then
        (case si_ui s of Some (dir, _) \<Rightarrow> (StaticDir (dir @ ''/static''), rq) | None \<Rightarrow> (NotFound, rq))
      else if p = ''metrics'' \<and> si_metrics s then (Metrics, rq)
      else (case si_ui s of
              Some ui \<Rightarrow> get_file s ui p rq
            | None \<Rightarrow> (if p = [] then Placeholder else NotFound, rq)))"

text \<open>
  A file below a directory of the UI: \<open>found\<close> is the file the base class finds for the path, \<open>None\<close> for its resource
  that answers not found.
\<close>

definition directory_child :: "site \<Rightarrow> static_file option \<Rightarrow> web_request \<Rightarrow> resource \<times> web_request" where
  "directory_child s found rq =
     (case found of
        None \<Rightarrow> (NotFound, rq)
      | Some f \<Rightarrow>
          (let (served, h) = use_precompressed (si_is_file s) (wr_accept rq) f (wr_headers rq)
           in (Served served, rq\<lparr>wr_headers := h\<rparr>)))"

section \<open>The access log\<close>

text \<open>
  The log file is open or not; \<open>opens\<close> tells whether it can be opened now, \<open>writes\<close> the outcome of the log call of
  the base class. Lines for the output go to a logger of their own.
\<close>

record access_log =
  al_path :: "string option"
  al_open :: bool
  al_stdout :: bool
  al_lines :: "string list"

definition reopen_log :: "bool \<Rightarrow> access_log \<Rightarrow> access_log" where
  "reopen_log opens l = l\<lparr>al_open := opens\<rparr>"

definition new_access_log :: "string option \<Rightarrow> bool \<Rightarrow> bool \<Rightarrow> access_log" where
  "new_access_log p stdout opens =
     (let l = \<lparr>al_path = p, al_open = False, al_stdout = stdout, al_lines = []\<rparr>
      in if p \<noteq> None then reopen_log opens l else l)"

text \<open>The log of the site that is started: \<^verbatim>\<open>is_access_logging is True\<close>\<close>

definition site_log :: "config \<Rightarrow> string \<Rightarrow> bool \<Rightarrow> bool \<Rightarrow> access_log" where
  "site_log cfg cfg_path stdout opens =
     new_access_log (if is_access_logging cfg = JBool True then Some (cfg_path @ ''/access.log'') else None) stdout opens"

datatype log_outcome = Written | LogError | OtherError exn

definition log_request :: "log_outcome \<Rightarrow> bool \<Rightarrow> string \<Rightarrow> (access_log, unit) act" where
  "log_request outcome opens line l =
     (case outcome of
        OtherError e \<Rightarrow> (Inl e, l)
      | _ \<Rightarrow>
          (let l1 = (if outcome = LogError \<and> al_path l \<noteq> None \<and> al_path l \<noteq> Some [] then reopen_log opens l else l)
           in (Inr (), if al_stdout l1 then l1\<lparr>al_lines := al_lines l1 @ [line]\<rparr> else l1)))"

section \<open>Properties\<close>

lemma first_encoding_Some:
  "first_encoding is_file a p es = Some (t, x) \<Longrightarrow> (t, x) \<in> set es \<and> is_substring t a \<and> is_file (p @ x)"
  by (induction es) (auto split: if_splits)

text \<open>
  What is served for a file: the file itself, or a file beside it that exists, whose encoding the client names and
  whose type is taken from the original.
\<close>

lemma use_precompressed_sound:
  assumes "use_precompressed is_file accept f h = (g, h')"
  shows "g = f \<or> (\<exists>t x a. accept = Some a \<and> (t, x) \<in> set encodings \<and> is_substring t (lower a) \<and> is_file (wf_path f @ x)
      \<and> g = \<lparr>wf_path = wf_path f @ x, wf_type_from = wf_path f, wf_encoding = Some t\<rparr>)"
proof -
  have "\<not> is_substring ''br'' []" "\<not> is_substring ''gzip'' []" by code_simp+
  then have "first_encoding is_file (lower []) p encodings = None" for p by (simp add: encodings_def lower_def)
  then show ?thesis
    using assms by (cases accept) (auto simp: use_precompressed_def Let_def dest: first_encoding_Some split: if_splits option.splits)
qed

text \<open>An encoding refused with a weight of zero is used.\<close>

lemma refused_encoding_served:
  "wf_encoding (fst (use_precompressed (\<lambda>p. p \<in> {''ui/index.html'', ''ui/index.html.br''}) (Some ''gzip, br;q=0'')
     (plain_file ''ui/index.html'') [])) = Some ''br''"
  by code_simp

lemma get_child_api: "p \<in> {''api'', ''doc'', ''swaggerui''} \<Longrightarrow> fst (get_child s p rq) = Wsgi"
  by (auto simp: get_child_def Let_def)

lemma get_child_ui:
  assumes "p \<notin> {''ws'', ''api'', ''doc'', ''swaggerui'', ''static'', ''metrics''}"
  shows "fst (get_child s p rq) =
    (case si_ui s of None \<Rightarrow> if p = [] then Placeholder else NotFound
     | Some ui \<Rightarrow> fst (get_file s ui p (rq\<lparr>wr_headers := cors_headers (wr_headers rq)\<rparr>)))"
  using assms by (auto simp: get_child_def Let_def split: option.split)

text \<open>A log that cannot be written or opened again never makes a request fail.\<close>

lemma log_failure_harmless:
  "fst (log_request LogError opens line l) = Inr ()"
  by (simp add: log_request_def Let_def)

end
