(* ===== verification/Request_Models.thy ===== *)
theory Request_Models
  imports Device_Api
begin

text \<open>
  The models of the request bodies in \<^verbatim>\<open>ezbeq/apis/devices.py\<close> and the resources that are guarded by them. Checking a body against a
  model is done by Flask-RESTX: it is a parameter, and that an accepted body has the shape of the model is a hypothesis.
  Lemmas: a patch of the second version, once accepted, is turned into a body of the third; what the models of the first version
  do not require ends in a \<^verbatim>\<open>KeyError\<close>.
\<close>

section \<open>Models\<close>

text \<open>A nested model lists its fields: the name, whether it is required, and the kind.\<close>

datatype field_kind =
    StringField
  | BooleanField
  | FloatField
  | IntegerField
  | ListField field_kind
  | Nested "(string \<times> bool \<times> field_kind) list"

definition slot_model_v2 :: field_kind where
  "slot_model_v2 = Nested
     [(''id'', True, StringField), (''active'', False, BooleanField), (''gains'', False, ListField FloatField),
      (''mutes'', False, ListField BooleanField), (''entry'', False, StringField)]"

definition device_model_v2 :: field_kind where
  "device_model_v2 = Nested
     [(''mute'', False, BooleanField), (''masterVolume'', False, FloatField), (''slots'', False, ListField slot_model_v2)]"

definition gain_model_v3 :: field_kind where
  "gain_model_v3 = Nested [(''id'', True, StringField), (''value'', True, FloatField)]"

definition mute_model_v3 :: field_kind where
  "mute_model_v3 = Nested [(''id'', True, StringField), (''value'', True, BooleanField)]"

definition slot_model_v3 :: field_kind where
  "slot_model_v3 = Nested
     [(''id'', True, StringField), (''active'', False, BooleanField), (''gains'', False, ListField gain_model_v3),
      (''mutes'', False, ListField mute_model_v3), (''outputGains'', False, ListField gain_model_v3),
      (''outputMutes'', False, ListField mute_model_v3), (''entry'', False, StringField)]"

definition device_model_v3 :: field_kind where
  "device_model_v3 = Nested
     [(''mute'', False, BooleanField), (''masterVolume'', False, FloatField), (''slots'', False, ListField slot_model_v3)]"

definition gain_model_v1 :: field_kind where
  "gain_model_v1 = Nested [(''gain'', False, FloatField)]"

definition biquad_model :: field_kind where
  "biquad_model = Nested
     [(''overwrite'', False, BooleanField), (''slot'', False, StringField), (''inputs'', False, ListField IntegerField),
      (''outputs'', False, ListField IntegerField), (''biquads'', False, StringField)]"

definition command_model :: field_kind where
  "command_model = Nested
     [(''overwrite'', False, BooleanField), (''slot'', False, StringField), (''inputs'', False, ListField IntegerField),
      (''outputs'', False, ListField IntegerField), (''commandType'', False, StringField), (''commands'', False, StringField)]"

definition filter_model :: field_kind where
  "filter_model = Nested [(''entryId'', False, StringField)]"

section \<open>The shape of a body\<close>

text \<open>What a model says of a value, as JSON schema reads it: fields that are not listed are allowed.\<close>

fun conforms :: "field_kind \<Rightarrow> json \<Rightarrow> bool"
  and conform_fields :: "(string \<times> bool \<times> field_kind) list \<Rightarrow> obj \<Rightarrow> bool" where
  "conforms StringField v \<longleftrightarrow> (case v of JStr _ \<Rightarrow> True | _ \<Rightarrow> False)"
| "conforms BooleanField v \<longleftrightarrow> (case v of JBool _ \<Rightarrow> True | _ \<Rightarrow> False)"
| "conforms FloatField v \<longleftrightarrow> (case v of JNum _ \<Rightarrow> True | _ \<Rightarrow> False)"
| "conforms IntegerField v \<longleftrightarrow> (case v of JNum r \<Rightarrow> of_int \<lfloor>r\<rfloor> = r | _ \<Rightarrow> False)"
| "conforms (ListField f) v \<longleftrightarrow> (case v of JList xs \<Rightarrow> list_all (conforms f) xs | _ \<Rightarrow> False)"
| "conforms (Nested fs) v \<longleftrightarrow> (case v of JObj d \<Rightarrow> conform_fields fs d | _ \<Rightarrow> False)"
| "conform_fields [] d \<longleftrightarrow> True"
| "conform_fields ((n, required, f) # fs) d \<longleftrightarrow>
     (case map_of d n of None \<Rightarrow> \<not> required | Some x \<Rightarrow> conforms f x) \<and> conform_fields fs d"

section \<open>The guarded resources\<close>

text \<open>The validation of the library: whether a body is accepted, and the body of its answer when it is not\<close>

record validator =
  va_accepts :: "field_kind \<Rightarrow> json \<Rightarrow> bool"
  va_errors :: "field_kind \<Rightarrow> json \<Rightarrow> json"

definition expecting :: "validator \<Rightarrow> field_kind \<Rightarrow> (json \<Rightarrow> ('w, answer) act) \<Rightarrow> json \<Rightarrow> ('w, answer) act" where
  "expecting va model handler payload =
     (if va_accepts va model payload then handler payload else ok (va_errors va model payload, 400))"

definition patch_v2 :: "validator \<Rightarrow> ('h, 'w, 'st, 'e) device_api \<Rightarrow> string \<Rightarrow> json \<Rightarrow> ('w, answer) act" where
  "patch_v2 va a name = expecting va device_model_v2 (device_v2_patch a name)"

definition patch_v3 :: "validator \<Rightarrow> ('h, 'w, 'st, 'e) device_api \<Rightarrow> string \<Rightarrow> json \<Rightarrow> ('w, answer) act" where
  "patch_v3 va a name = expecting va device_model_v3 (device_v3_patch a name)"

definition gain_put ::
  "validator \<Rightarrow> ('h, 'w, 'st, 'e) device_api \<Rightarrow> string \<Rightarrow> string option \<Rightarrow> int option \<Rightarrow> json \<Rightarrow> ('w, answer) act" where
  "gain_put va a name slot channel = expecting va gain_model_v1 (set_gain_put a name slot channel)"

definition active_slot_put :: "('h, 'w, 'st, 'e) device_api \<Rightarrow> string \<Rightarrow> string \<Rightarrow> ('w, answer) act" where
  "active_slot_put a name slot = http_activate_slot a name slot"

definition mute_put :: "('h, 'w, 'st, 'e) device_api \<Rightarrow> string \<Rightarrow> string option \<Rightarrow> int option \<Rightarrow> ('w, answer) act" where
  "mute_put a name slot channel = http_mute_device a name slot True channel"

definition mute_delete :: "('h, 'w, 'st, 'e) device_api \<Rightarrow> string \<Rightarrow> string option \<Rightarrow> int option \<Rightarrow> ('w, answer) act" where
  "mute_delete a name slot channel = http_mute_device a name slot False channel"

text \<open>The values of a body of the expected shape; those of another shape do not reach the resources.\<close>

fun body_bool :: "json \<Rightarrow> exn + bool" where
  "body_bool (JBool b) = Inr b"
| "body_bool _ = Inl TypeError"

fun body_text :: "json \<Rightarrow> exn + string" where
  "body_text (JStr s) = Inr s"
| "body_text _ = Inl TypeError"

definition body_ints :: "json \<Rightarrow> exn + int list" where
  "body_ints v = rbind (jiter v) (map_result (\<lambda>x. rbind (jnum x) (\<lambda>r. Inr \<lfloor>r\<rfloor>)))"

definition field_of :: "json \<Rightarrow> string \<Rightarrow> (json \<Rightarrow> exn + 'a) \<Rightarrow> ('a \<Rightarrow> ('w, 'b) act) \<Rightarrow> ('w, 'b) act" where
  "field_of payload key conv f = and_then (lift_result (rbind (jget payload key) conv)) f"

definition biquads_put :: "validator \<Rightarrow> ('h, 'w, 'st, 'e) device_api \<Rightarrow> string \<Rightarrow> json \<Rightarrow> ('w, answer) act" where
  "biquads_put va a name = expecting va biquad_model (\<lambda>p.
     field_of p ''overwrite'' body_bool (\<lambda>overwrite.
     field_of p ''slot'' body_text (\<lambda>slot.
     field_of p ''inputs'' body_ints (\<lambda>ins.
     field_of p ''outputs'' body_ints (\<lambda>outs.
     field_of p ''biquads'' body_text (\<lambda>content.
       http_load_biquads a name slot overwrite ins outs content))))))"

definition commands_put :: "validator \<Rightarrow> ('h, 'w, 'st, 'e) device_api \<Rightarrow> string \<Rightarrow> json \<Rightarrow> ('w, answer) act" where
  "commands_put va a name = expecting va command_model (\<lambda>p.
     field_of p ''overwrite'' body_bool (\<lambda>overwrite.
     field_of p ''slot'' body_text (\<lambda>slot.
     field_of p ''inputs'' body_ints (\<lambda>ins.
     field_of p ''outputs'' body_ints (\<lambda>outs.
     field_of p ''commandType'' body_text (\<lambda>kind.
     field_of p ''commands'' body_text (\<lambda>commands.
       http_load_commands a name slot overwrite ins outs kind commands)))))))"

definition filter_put :: "validator \<Rightarrow> ('h, 'w, 'st, 'e) device_api \<Rightarrow> string \<Rightarrow> string \<Rightarrow> json \<Rightarrow> ('w, answer) act" where
  "filter_put va a name slot = expecting va filter_model (manage_filter_put a name slot)"

definition filter_delete :: "('h, 'w, 'st, 'e) device_api \<Rightarrow> string \<Rightarrow> string \<Rightarrow> ('w, answer) act" where
  "filter_delete a name slot = http_delete_filter a name slot"

section \<open>Properties\<close>

lemma and_then_lift: "and_then (lift_result (Inr x)) f = f x"
  by (rule ext) (simp add: act_simps)

lemma conforms_nestedD: "conforms (Nested fs) v \<Longrightarrow> \<exists>d. v = JObj d \<and> conform_fields fs d"
  by (cases v) auto

lemma conforms_listD: "conforms (ListField f) v \<Longrightarrow> \<exists>xs. v = JList xs \<and> list_all (conforms f) xs"
  by (cases v) auto

text \<open>Numbering the values of a key that is absent or holds a list of the kind gives the kind with ids.\<close>

definition numbered :: "json list \<Rightarrow> json" where
  "numbered xs = JList (map (\<lambda>(i, x). JObj [(''id'', JStr (show_nat (i + 1))), (''value'', x)]) (enumerate 0 xs))"

lemma numbered_conforms:
  assumes "list_all (conforms f) xs"
  shows "conforms (ListField (Nested [(''id'', True, StringField), (''value'', True, f)])) (numbered xs)"
proof -
  have "list_all (conforms (Nested [(''id'', True, StringField), (''value'', True, f)]))
      (map (\<lambda>(i, x). JObj [(''id'', JStr (show_nat (i + 1))), (''value'', x)]) (enumerate n xs))" for n
    using assms by (induction xs arbitrary: n) auto
  then show ?thesis by (simp add: numbered_def)
qed

lemma number_key_conforms:
  assumes "case map_of d key of None \<Rightarrow> True | Some x \<Rightarrow> conforms (ListField f) x"
  shows "\<exists>d'. number_key key (JObj d) = Inr (JObj d') \<and> (\<forall>k. k \<noteq> key \<longrightarrow> map_of d' k = map_of d k)
    \<and> (case map_of d' key of None \<Rightarrow> True
        | Some x \<Rightarrow> conforms (ListField (Nested [(''id'', True, StringField), (''value'', True, f)])) x)"
proof (cases "map_of d key")
  case None
  then show ?thesis by (intro exI [of _ d]) (simp add: number_key_def)
next
  case (Some x)
  then obtain xs where xs: "x = JList xs" "list_all (conforms f) xs" using assms conforms_listD [of f x] by auto
  then have "number_key key (JObj d) = Inr (JObj (dict_set d key (numbered xs)))"
    using Some by (simp add: number_key_def jupd_def number_values_def numbered_def)
  moreover have "map_of (dict_set d key (numbered xs)) key = Some (numbered xs)"
    "k \<noteq> key \<Longrightarrow> map_of (dict_set d key (numbered xs)) k = map_of d k" for k
    by (simp_all add: map_of_dict_set)
  ultimately show ?thesis using numbered_conforms [OF xs(2)] by (intro exI [of _ "dict_set d key (numbered xs)"]) simp
qed

text \<open>The output levels, which the second version does not list and therefore does not check\<close>

definition outputs_model :: field_kind where
  "outputs_model = Nested [(''outputGains'', False, ListField gain_model_v3), (''outputMutes'', False, ListField mute_model_v3)]"

lemma number_slot_conforms:
  assumes "conforms slot_model_v2 slot" and "conforms outputs_model slot"
  shows "\<exists>slot'. number_slot slot = Inr slot' \<and> conforms slot_model_v3 slot'"
proof -
  obtain d where d: "slot = JObj d" using conforms_nestedD assms(1) unfolding slot_model_v2_def by blast
  have v2: "case map_of d ''gains'' of None \<Rightarrow> True | Some x \<Rightarrow> conforms (ListField FloatField) x"
    "case map_of d ''mutes'' of None \<Rightarrow> True | Some x \<Rightarrow> conforms (ListField BooleanField) x"
    using assms(1) by (auto simp: d slot_model_v2_def split: option.splits)
  obtain d1 where d1: "number_key ''gains'' (JObj d) = Inr (JObj d1)" "\<And>k. k \<noteq> ''gains'' \<Longrightarrow> map_of d1 k = map_of d k"
    "case map_of d1 ''gains'' of None \<Rightarrow> True | Some x \<Rightarrow> conforms (ListField gain_model_v3) x"
    using number_key_conforms [OF v2(1)] unfolding gain_model_v3_def by blast
  have "case map_of d1 ''mutes'' of None \<Rightarrow> True | Some x \<Rightarrow> conforms (ListField BooleanField) x" using v2(2) d1(2) by simp
  from number_key_conforms [OF this] obtain d2 where d2: "number_key ''mutes'' (JObj d1) = Inr (JObj d2)"
    "\<And>k. k \<noteq> ''mutes'' \<Longrightarrow> map_of d2 k = map_of d1 k"
    "case map_of d2 ''mutes'' of None \<Rightarrow> True | Some x \<Rightarrow> conforms (ListField mute_model_v3) x"
    unfolding mute_model_v3_def by blast
  have "number_slot slot = Inr (JObj d2)" by (simp add: number_slot_def d d1(1) d2(1))
  moreover have "conforms slot_model_v3 (JObj d2)"
    using assms d1(2,3) d2(2,3) by (simp add: d slot_model_v2_def slot_model_v3_def outputs_model_def
        del: conforms.simps(5) split: option.split option.split_asm)
  ultimately show ?thesis by blast
qed

lemma number_slots_conform:
  assumes "list_all (conforms slot_model_v2) ss" and "list_all (conforms outputs_model) ss"
  shows "\<exists>ss'. map_result number_slot ss = Inr ss' \<and> list_all (conforms slot_model_v3) ss'"
  using assms
proof (induction ss)
  case (Cons slot ss)
  obtain slot' where "number_slot slot = Inr slot'" "conforms slot_model_v3 slot'"
    using number_slot_conforms [of slot] Cons.prems by auto
  moreover obtain ss' where "map_result number_slot ss = Inr ss'" "list_all (conforms slot_model_v3) ss'"
    using Cons by auto
  ultimately show ?case by auto
qed simp

lemma number_payload_conforms:
  assumes "conforms device_model_v2 payload" and "conforms (Nested [(''slots'', False, ListField outputs_model)]) payload"
  shows "\<exists>p. number_payload payload = Inr p \<and> conforms device_model_v3 p"
proof -
  obtain d where d: "payload = JObj d" using conforms_nestedD assms(1) unfolding device_model_v2_def by blast
  show ?thesis
  proof (cases "map_of d ''slots''")
    case None
    then have "number_payload payload = Inr payload" by (simp add: number_payload_def d dict_get_def)
    moreover have "conforms device_model_v3 payload" using assms(1) None by (simp add: d device_model_v2_def device_model_v3_def)
    ultimately show ?thesis by blast
  next
    case (Some v)
    then have "conforms (ListField slot_model_v2) v" "conforms (ListField outputs_model) v"
      using assms by (simp_all add: d device_model_v2_def del: conforms.simps(5))
    then obtain ss where ss: "v = JList ss" "list_all (conforms slot_model_v2) ss" "list_all (conforms outputs_model) ss"
      using conforms_listD by (metis json.inject(4))
    obtain ss' where s': "map_result number_slot ss = Inr ss'" "list_all (conforms slot_model_v3) ss'"
      using number_slots_conform [OF ss(2,3)] by blast
    have "number_payload payload = Inr (JObj (dict_set d ''slots'' (JList ss')))"
      using Some ss(1) s'(1) by (simp add: number_payload_def d dict_get_def)
    moreover have "conforms device_model_v3 (JObj (dict_set d ''slots'' (JList ss')))"
      using assms(1) s'(2) by (simp add: d device_model_v2_def device_model_v3_def map_of_dict_set)
    ultimately show ?thesis by blast
  qed
qed


text \<open>The validation that accepts exactly what conforms\<close>

definition strict_validator :: validator where
  "strict_validator = \<lparr>va_accepts = conforms, va_errors = (\<lambda>_ _. JObj [(''message'', JStr ''Input payload validation failed'')])\<rparr>"


text \<open>The models of the first version require nothing, so an empty body is accepted and its handler raises.\<close>

lemma empty_gain_body:
  assumes "va_accepts va gain_model_v1 (JObj [])"
  shows "conforms gain_model_v1 (JObj []) \<and> gain_put va a name slot channel (JObj []) w = (Inl (KeyError ''gain''), w)"
  using assms by (simp add: gain_model_v1_def gain_put_def expecting_def set_gain_put_def act_simps)

text \<open>An output gain without a value passes the second version.\<close>

lemma outputs_unchecked:
  "conforms device_model_v2 (JObj [(''slots'', JList [JObj [(''id'', JStr ''1''), (''outputGains'', JList [JNull])]])])
   \<and> \<not> conforms device_model_v3 (JObj [(''slots'', JList [JObj [(''id'', JStr ''1''), (''outputGains'', JList [JNull])]])])"
  by (simp add: device_model_v2_def slot_model_v2_def device_model_v3_def slot_model_v3_def gain_model_v3_def)

end
