(* ===== verification/Minidsp_Server.thy ===== *)
theory Minidsp_Server
  imports Device_Api Composite_Correct
begin

text \<open>
  The REST interface over MiniDSPs: \<^verbatim>\<open>apis/devices.py\<close> calls the repository of \<^verbatim>\<open>device.py\<close>, which calls the device
  of \<^verbatim>\<open>minidsp.py\<close>, which drives the hardware. The devices are the world of the repository, each under
  its name. Lemmas: what a request does to the hardware and what its answer says about it, end to end.
\<close>

section \<open>MiniDSPs in the repository\<close>

type_synonym 'w fleet = "string \<Rightarrow> 'w minidsp_dev"

definition on_named :: "string \<Rightarrow> ('w minidsp_dev, 'a) act \<Rightarrow> ('w fleet, 'a) act" where
  "on_named n m ds = (case m (ds n) of (r, d) \<Rightarrow> (r, ds(n := d)))"

text \<open>A handle is the name of a device and its configuration.\<close>

definition minidsp_ops ::
  "(string \<times> 'w minidsp_cfg, 'w fleet, minidsp_state option, catalogue_entry) device_ops" where
  "minidsp_ops =
     \<lparr>op_type = (\<lambda>_. ''minidsp''), op_expose = (\<lambda>_. False), op_members = (\<lambda>_. []),
      op_state = (\<lambda>(n, c) refresh. on_named n (state c refresh)),
      op_activate = (\<lambda>(n, c) slot. on_named n (activate c slot)),
      op_load_filter = (\<lambda>(n, c) slot e. on_named n (load_filter c slot e)),
      op_load_biquads = (\<lambda>(n, c) slot ov ins outs bqs. on_named n (load_biquads c slot ov ins outs bqs)),
      op_send_commands = (\<lambda>(n, c) slot ins outs cs. on_named n (send_commands c slot ins outs cs)),
      op_clear_filter = (\<lambda>(n, c) slot. on_named n (clear_filter c slot)),
      op_mute = (\<lambda>(n, c) slot ch. on_named n (mute c slot ch)),
      op_unmute = (\<lambda>(n, c) slot ch. on_named n (unmute c slot ch)),
      op_set_gain = (\<lambda>(n, c) slot ch g. on_named n (set_gain c slot ch (JNum g))),
      op_update = (\<lambda>(n, c) params. on_named n (update c params)),
      op_levels = (\<lambda>(n, c). on_named n (\<lambda>d. case levels c d of (j, d') \<Rightarrow> (Inr j, d')))\<rparr>"

text \<open>\<^verbatim>\<open>state(...).serialise()\<close>\<close>

definition serialise_current :: "minidsp_state option \<Rightarrow> exn + json" where
  "serialise_current st = (case st of None \<Rightarrow> Inl AttributeError | Some x \<Rightarrow> Inr (st_serialise x))"

type_synonym 'w minidsp_api =
  "(string \<times> 'w minidsp_cfg, 'w fleet, minidsp_state option, catalogue_entry) device_api"

definition serves :: "'w minidsp_api \<Rightarrow> string \<Rightarrow> 'w minidsp_cfg \<Rightarrow> bool" where
  "serves a name cfg \<longleftrightarrow> map_of (repo_devices (da_repo a)) name = Some (name, cfg)
     \<and> da_ops a = minidsp_ops \<and> da_serialise a = serialise_current"

section \<open>Requests\<close>

datatype dsp_request =
    ReqActivate string
  | ReqLoad string catalogue_entry
  | ReqClear string
  | ReqMute "string option" "int option" bool
  | ReqGain "string option" "int option" rat

text \<open>The handler of a request, and the operation of the device it stands for.\<close>

fun serve :: "'w minidsp_api \<Rightarrow> string \<Rightarrow> dsp_request \<Rightarrow> ('w fleet, answer) act" where
  "serve a name (ReqActivate slot) = http_activate_slot a name slot"
| "serve a name (ReqLoad slot e) = http_load_filter a (Some e) name slot"
| "serve a name (ReqClear slot) = http_delete_filter a name slot"
| "serve a name (ReqMute slot ch b) = http_mute_device a name slot b ch"
| "serve a name (ReqGain slot ch g) = http_set_gain a name slot g ch"

fun op_of :: "dsp_request \<Rightarrow> dev_op" where
  "op_of (ReqActivate slot) = OpActivate slot"
| "op_of (ReqLoad slot e) = OpLoadFilter slot e"
| "op_of (ReqClear slot) = OpClearFilter slot"
| "op_of (ReqMute slot ch b) = (if b then OpMute slot ch else OpUnmute slot ch)"
| "op_of (ReqGain slot ch g) = OpSetGain slot ch (JNum g)"

fun request_code :: "dsp_request \<Rightarrow> exn + unit \<Rightarrow> int" where
  "request_code _ (Inr _) = 200"
| "request_code (ReqClear _) (Inl _) = 500"
| "request_code _ (Inl e) = failure_code e"

lemma serve_answer:
  assumes "serves a name cfg" and "run_dev cfg (op_of r) (ds name) = (x, d1)"
    and "state cfg False d1 = (Inr (Some st), d2)"
  shows "serve a name r ds = (Inr (st_serialise st, request_code r x), ds(name := d2))"
proof -
  have ops: "map_of (repo_devices (da_repo a)) name = Some (name, cfg)" "da_ops a = minidsp_ops"
    "da_serialise a (Some st) = Inr (st_serialise st)"
    using assms(1) by (simp_all add: serves_def serialise_current_def)
  have st: "op_state (da_ops a) (name, cfg) False (ds(name := d1)) = (Inr (Some st), ds(name := d2))"
    using assms(3) by (simp add: ops minidsp_ops_def on_named_def)
  have run: "on_named name (run_dev cfg (op_of r)) ds = (x, ds(name := d1))"
    using assms(2) by (simp add: on_named_def)
  have at: "responding a name (and_then (repo_get (da_repo a) name) op) ds
      = (Inr (st_serialise st, case x of Inr _ \<Rightarrow> 200 | Inl e \<Rightarrow> failure_code e), ds(name := d2))"
    if "op (name, cfg) = on_named name (run_dev cfg (op_of r))" for op
    using responding_known_at [where op = op, OF ops(1) _ st ops(3)] that run by simp
  show ?thesis
  proof (cases r)
    case (ReqClear slot)
    have "state_answer a name code (ds(name := d1)) = (Inr (st_serialise st, code), ds(name := d2))" for code
      using ops(1,3) st by (simp add: state_answer_def state_body_def repo_state_def repo_get_def and_then_def
          lift_result_def ok_def)
    moreover have "repo_clear_filter (da_ops a) (da_repo a) name slot ds = (x, ds(name := d1))"
      using run ops(1,2) ReqClear by (simp add: repo_clear_filter_def repo_get_def minidsp_ops_def and_then_def ok_def)
    ultimately show ?thesis
      using ReqClear by (cases x) (simp_all add: http_delete_filter_def and_then_def try_except_def)
  next
    case (ReqMute slot ch b)
    then show ?thesis
      using at [of "\<lambda>h. (if b then op_mute else op_unmute) (da_ops a) h slot ch"]
      by (cases b; cases x) (simp_all add: api_defs, simp_all add: ops minidsp_ops_def)
  qed (use at in \<open>(cases x; simp add: api_defs; simp add: ops minidsp_ops_def)+\<close>)
qed

section \<open>The device behind a request\<close>

text \<open>The operations of requests: a body that keeps the state well formed and the device hydrated.\<close>

definition request_op :: "'w minidsp_cfg \<Rightarrow> ('w minidsp_dev, unit) act \<Rightarrow> bool" where
  "request_op cfg m \<longleftrightarrow> (\<exists>f. maintains (ready state_wf) f \<and> maintains hydrated f
     \<and> m = hydrate_cache_broadcast (minidsp_class cfg) f)"

lemma request_opI:
  "maintains (ready state_wf) f \<Longrightarrow> maintains hydrated f \<Longrightarrow>
   request_op cfg (hydrate_cache_broadcast (minidsp_class cfg) f)"
  unfolding request_op_def by blast

lemma hydrated_steps [keeps_intros]:
  "maintains hydrated (send_cmds cfg slot cmds)" "maintains hydrated (on_current m)"
  using send_cmds_core [of cfg slot cmds] by (simp_all add: maintains_def same_core_def)

lemma send_or_mark_hydrated [keeps_intros]: "maintains hydrated (send_or_mark cfg slot i cmds post)"
  unfolding send_or_mark_def by (intro keeps_intros)

lemma request_ops:
  "request_op cfg (activate cfg slot)" "request_op cfg (load_filter cfg slot e)"
  "request_op cfg (clear_filter cfg slot)" "request_op cfg (do_mute_op cfg s ch b)"
  "request_op cfg (set_gain cfg s ch g)"
  unfolding activate_def load_filter_def clear_filter_def do_mute_op_def set_gain_def
  by (intro request_opI keeps_intros)+

lemma request_op_of: "request_op cfg (run_dev cfg (op_of r))"
  by (cases r) (simp_all add: request_ops mute_def unmute_def)

text \<open>On a device that is not hydrated yet, an operation does what it does on the hydrated device.\<close>

lemma request_op_hydrates:
  assumes "request_op cfg m" and "device_ok state_wf d" and "hydrate (minidsp_class cfg) False d = (Inr b, d1)"
  shows "fst (m d) = fst (m d1)" and "current (snd (m d)) = current (snd (m d1))"
    and "world (snd (m d)) = world (snd (m d1))" and "hydrated (snd (m d))" and "device_ok state_wf (snd (m d))"
proof -
  obtain f where f: "maintains (ready state_wf) f" "maintains hydrated f"
    "m = hydrate_cache_broadcast (minidsp_class cfg) f" using assms(1) unfolding request_op_def by blast
  have d1: "device_ok state_wf d1" "hydrated d1"
    using minidsp.hydrate_ok(2,3) [OF assms(2,3)] by simp_all
  note C = minidsp.hcb_coherent [OF assms(2,3) maintainsD [OF f(1)]]
  show "fst (m d) = fst (m d1)" and "current (snd (m d)) = current (snd (m d1))"
    and "world (snd (m d)) = world (snd (m d1))"
    using C(1,3,4) hcb_on_hydrated [OF d1 f(1), of cfg] by (simp_all add: f(3))
  show "hydrated (snd (m d))" using C(6) maintainsD [OF f(2) d1(2)] by (simp add: f(3))
  show "device_ok state_wf (snd (m d))" using C(5) by (simp add: f(3) ready_device_ok)
qed

lemma activated:
  assumes "drives_stub cfg" and "device_ok state_wf d" and "s \<in> set slot_ids"
  shows "fst (run_dev cfg (OpActivate s) d) = Inr ()"
proof -
  obtain b d1 where h: "hydrate (minidsp_class cfg) False d = (Inr b, d1)"
    using stub_hydrates [OF assms(1)] by blast
  note H = minidsp.hydrate_ok(2,3) [OF assms(2) h]
  show ?thesis
    using request_op_hydrates(1) [OF request_ops(1) assms(2) h, of s] activate_succeeds [OF H(1) _ assms(1,3)] H(2)
    by simp
qed

text \<open>The answer reads volume and mute from the hardware again, and keeps the slots.\<close>

lemma answered_state:
  assumes "drives_stub cfg" and "device_ok state_wf d" and "hydrated d"
  shows "\<exists>st st' d'. current d = Some st \<and> state cfg False d = (Inr (Some st'), d')
    \<and> slots st' = slots st \<and> active_slot st' = active_slot st
    \<and> master_volume st' = JNum (stub_gain (world d)) \<and> st_mute st' = JBool (stub_mute (world d))
    \<and> world d' = quiet (world d)"
proof -
  obtain st where st: "current d = Some st" using assms(2,3) by (auto simp: device_ok_def ready_def)
  obtain new d1 where new: "read_state_from_device cfg d = (Some new, d1)" "same_core d1 d"
    "world d1 = quiet (world d)" "st_mute new = JBool (stub_mute (world d))"
    "master_volume new = JNum (stub_gain (world d))"
    using read_stub [OF assms(1), of d] by blast
  have "load_state cfg d = (Inr new, d1)" using new(1) by (simp add: load_state_def)
  then show ?thesis
    using assms(3) st new
    by (auto simp: state_def hydrate_def and_then_def with_current_def on_current_def modify_def ok_def
        broadcast_state_def same_core_def update_master_state_def)
qed

section \<open>What a request achieves\<close>

text \<open>
  The requests the property is about: a slot is one of 1 to 4 and the texts of an entry that are sent
  have no line breaks; a request without a slot is meant for the master controls.
\<close>

definition fits :: "stub minidsp_cfg \<Rightarrow> dsp_request \<Rightarrow> bool" where
  "fits cfg r \<longleftrightarrow> addressed_slot (op_of r) = None \<or> sim_ok cfg (op_of r)"

text \<open>
  What the hardware does once the request is carried out: it is on the slot asked for, or has the mute
  or the gain asked for, in the two decimals of a command file.
\<close>

fun master_set :: "dsp_request \<Rightarrow> stub \<Rightarrow> bool" where
  "master_set (ReqMute slot ch b) hw = (stub_mute hw = b)"
| "master_set (ReqGain slot ch g) hw = (stub_gain hw = round2 g)"
| "master_set _ hw = True"

definition carried_out :: "dsp_request \<Rightarrow> stub \<Rightarrow> bool" where
  "carried_out r hw =
     (case addressed_slot (op_of r) of
        Some s \<Rightarrow> s = show_int (stub_slot hw + 1) | None \<Rightarrow> master_set r hw)"

text \<open>What the answer says about the hardware: volume and mute, and for a slot the active one.\<close>

definition tells_levels :: "minidsp_state \<Rightarrow> stub \<Rightarrow> bool" where
  "tells_levels st hw \<longleftrightarrow> master_volume st = JNum (stub_gain hw) \<and> st_mute st = JBool (stub_mute hw)"

definition tells_slot :: "minidsp_state \<Rightarrow> stub \<Rightarrow> bool" where
  "tells_slot st hw \<longleftrightarrow> map slot_id (filter active (slots st)) = [show_int (stub_slot hw + 1)]"

lemma carried_out_quiet [simp]: "carried_out r (quiet hw) = carried_out r hw"
proof -
  have "master_set r (quiet hw) = master_set r hw" by (cases r) simp_all
  then show ?thesis by (cases "addressed_slot (op_of r)") (simp_all add: carried_out_def)
qed

lemma filter_id_slots: "a \<in> set slot_ids \<Longrightarrow> filter (\<lambda>i. i = a) slot_ids = [a]"
  by (auto simp: slot_ids_eq)

lemma one_active:
  assumes "state_wf st" and "synced st" and "active_slot st \<in> set slot_ids"
  shows "map slot_id (filter active (slots st)) = [active_slot st]"
proof -
  have "filter active (slots st) = filter ((\<lambda>i. i = active_slot st) \<circ> slot_id) (slots st)"
    using assms(2) by (intro filter_cong) (simp_all add: synced_def)
  then have "map slot_id (filter active (slots st)) = filter (\<lambda>i. i = active_slot st) (map slot_id (slots st))"
    by (simp only: filter_map)
  also have "map slot_id (slots st) = slot_ids" using assms(1) by (simp only: state_wf_def)
  finally show ?thesis using filter_id_slots [OF assms(3)] by (rule trans)
qed

lemma master_request:
  assumes "device_ok state_wf d" and "hydrated d" and "drives_stub cfg"
    and "addressed_slot (op_of r) = None" and "fst (run_dev cfg (op_of r) d) = Inr ()"
  shows "master_set r (world (snd (run_dev cfg (op_of r) d)))"
proof (cases r)
  case (ReqMute slot ch b)
  then show ?thesis
    using assms(4) master_mute_sent(3) [OF assms(1-3), of ch b] by (cases b) (simp_all add: mute_def unmute_def)
next
  case (ReqGain slot ch g)
  then show ?thesis using assms(4,5) master_gain_sent(2) [OF assms(1-3), of ch g] by simp
qed (use assms(4) in simp_all)

lemma request_outcome:
  assumes "drives_stub cfg" and "device_ok state_wf d" and "fits cfg r" and "run_dev cfg (op_of r) d = (x, d1)"
  shows "device_ok state_wf d1" and "hydrated d1" and "x = Inr () \<Longrightarrow> carried_out r (world d1)"
    and "x = Inr () \<Longrightarrow> addressed_slot (op_of r) = Some s \<Longrightarrow> current d1 = Some st \<Longrightarrow>
      map slot_id (filter active (slots st)) = [s]"
proof -
  obtain b d0 where h: "hydrate (minidsp_class cfg) False d = (Inr b, d0)" "hydrated d0"
    using stub_hydrates [OF assms(1)] by blast
  have ok: "device_ok state_wf d0" using minidsp.hydrate_ok(2) [OF assms(2) h(1)] .
  note H = request_op_hydrates [OF request_op_of assms(2) h(1), of r]
  show d1: "device_ok state_wf d1" "hydrated d1" using H(4,5) assms(4) by simp_all
  obtain d2 where d2: "run_dev cfg (op_of r) d0 = (x, d2)" "current d1 = current d2" "world d1 = world d2"
    using H(1-3) assms(4) by (cases "run_dev cfg (op_of r) d0") auto
  have m: "moved s d0 d2" if "x = Inr ()" "addressed_slot (op_of r) = Some s" for s
    using slot_op_lands [OF ok h(2) assms(1)] that assms(3) d2(1) unfolding fits_def
    by (metis fst_conv option.distinct(1) snd_conv)
  show "carried_out r (world d1)" if x: "x = Inr ()"
  proof (cases "addressed_slot (op_of r)")
    case None
    then show ?thesis using master_request [OF ok h(2) assms(1) None] d2 x by (simp add: carried_out_def)
  next
    case (Some s)
    then show ?thesis using m [OF x] d2(3) by (auto simp: carried_out_def moved_def)
  qed
  show "map slot_id (filter active (slots st)) = [s]"
    if "x = Inr ()" and a: "addressed_slot (op_of r) = Some s" and "current d1 = Some st"
  proof -
    have "state_wf st" using d1(1) that(3) by (simp add: device_ok_def)
    moreover have "s \<in> set slot_ids"
      using a assms(3) by (cases r) (auto simp: fits_def split: if_splits)
    ultimately show ?thesis
      using m [OF that(1) a] that(3) d2(2) one_active [of st] by (auto simp: moved_def)
  qed
qed

text \<open>
  Claim C2. A request to a MiniDSP of the repository is answered with a body that tells the master volume and mute
  the hardware then has, whether the request was carried out or not, and touches no other device. When the
  status is 200 the hardware is on the slot, or has the mute or gain, that was asked for, and the slot
  flagged active in the body is the one asked for. Activating a slot is always answered with 200. All
  this holds from any state of hardware and program, also on the first request after the start.
\<close>

theorem request_reaches_hardware:
  assumes "serves a name cfg" and "drives_stub cfg" and "device_ok state_wf (ds name)" and "fits cfg r"
  shows "\<exists>st code ds'. serve a name r ds = (Inr (st_serialise st, code), ds')
    \<and> master_volume st = JNum (stub_gain (world (ds' name))) \<and> st_mute st = JBool (stub_mute (world (ds' name)))
    \<and> (\<forall>n. n \<noteq> name \<longrightarrow> ds' n = ds n)
    \<and> (code = 200 \<longrightarrow> carried_out r (world (ds' name))
        \<and> (\<forall>s. addressed_slot (op_of r) = Some s \<longrightarrow> map slot_id (filter active (slots st)) = [s]))
    \<and> (\<forall>s. r = ReqActivate s \<longrightarrow> code = 200)"
proof -
  obtain x d1 where d1: "run_dev cfg (op_of r) (ds name) = (x, d1)" by fastforce
  note O = request_outcome [OF assms(2-4) d1]
  obtain st0 st d2 where st: "current d1 = Some st0" "state cfg False d1 = (Inr (Some st), d2)" "slots st = slots st0"
    "master_volume st = JNum (stub_gain (world d1))" "st_mute st = JBool (stub_mute (world d1))"
    "world d2 = quiet (world d1)" using answered_state [OF assms(2) O(1,2)] by blast
  have "x = Inr ()" if "request_code r x = 200"
    using that by (cases "(r, x)" rule: request_code.cases) (auto simp: failure_code_def split: exn.splits)
  moreover have "x = Inr ()" if "r = ReqActivate s" for s
    using activated [OF assms(2,3), of s] that assms(4) d1 by (simp add: fits_def)
  ultimately show ?thesis
    using serve_answer [where ds = ds, OF assms(1) d1 st(2)] O(3) O(4) [OF _ _ st(1)] st by auto
qed

text \<open>A server over one simulated MiniDSP that has just started, with someone at the volume knob.\<close>

definition demo_server :: "stub minidsp_api" where
  "demo_server =
     \<lparr>da_ops = minidsp_ops, da_repo = \<lparr>repo_devices = [(''m'', (''m'', stub_cfg))], repo_hidden = []\<rparr>,
      da_serialise = serialise_current, da_find_by_id = (\<lambda>_. ok None), da_patch_text = (\<lambda>_. []),
      da_float_to_str = (\<lambda>_. ''0.0'')\<rparr>"

theorem request_reaches_hardware_witness:
  "\<exists>st ds'. serve demo_server ''m'' (ReqActivate ''3'') (\<lambda>_. new_device NoFile (new_stub\<lparr>stub_gain := - 20\<rparr>))
      = (Inr (st_serialise st, 200), ds')
    \<and> show_int (stub_slot (world (ds' ''m'')) + 1) = ''3'' \<and> map slot_id (filter active (slots st)) = [''3'']"
proof -
  have s: "serves demo_server ''m'' stub_cfg" by (simp add: serves_def demo_server_def)
  have f: "fits stub_cfg (ReqActivate ''3'')" by (simp add: fits_def slot_ids_eq)
  let ?ds = "\<lambda>_. new_device NoFile (new_stub\<lparr>stub_gain := - 20\<rparr>)"
  have d: "device_ok state_wf (?ds ''m'')" by simp
  obtain st code ds' where w: "serve demo_server ''m'' (ReqActivate ''3'') ?ds = (Inr (st_serialise st, code), ds')"
    and dn: "code = 200 \<longrightarrow> carried_out (ReqActivate ''3'') (world (ds' ''m''))
      \<and> (\<forall>s. addressed_slot (op_of (ReqActivate ''3'')) = Some s \<longrightarrow> map slot_id (filter active (slots st)) = [s])"
    and code: "\<forall>s. ReqActivate ''3'' = ReqActivate s \<longrightarrow> code = 200"
    using request_reaches_hardware [where ds = ?ds, OF s drives_stub_cfg d f] by (elim exE conjE) (rule that)
  from code have c: "code = 200" by simp
  with dn have "''3'' = show_int (stub_slot (world (ds' ''m'')) + 1)" and a: "map slot_id (filter active (slots st)) = [''3'']"
    by (simp_all add: carried_out_def)
  from this(1) have h: "show_int (stub_slot (world (ds' ''m'')) + 1) = ''3''" by (rule sym)
  from w c have "serve demo_server ''m'' (ReqActivate ''3'') ?ds = (Inr (st_serialise st, 200), ds')" by (simp only:)
  with h a show ?thesis by (intro exI conjI)
qed

end
